(* ===== verification/Prelude.thy ===== *)
theory Prelude
  imports Main "HOL-Library.AList" "HOL-Library.List_Lexorder" "HOL-Library.Char_ord"
    "HOL-Library.Sublist" "HOL-Library.Monad_Syntax"
begin

text \<open>
  Shared vocabulary of the development.

  \<^item> Go maps are association lists with distinct keys (\<open>('k, 'v) gomap\<close>).  The order of
    the list stands for the order in which one \<^verbatim>\<open>range\<close> over the map visits the keys, which
    Go leaves open: a theorem about every list covers every iteration order.
    Reading, writing and deleting are \<open>map_of\<close>, \<open>mput\<close> and \<open>mdel\<close>.
  \<^item> Go strings are byte strings, that is \<open>string\<close> (one \<open>char\<close> per byte); the order of
    \<open>List_Lexorder\<close> is the byte-wise order of Go's string comparison.
  \<^item> Slice expressions that Go checks at run time are \<open>slice\<close>, with \<open>None\<close> for the panic.
  \<^item> Named collections: \<open>gomap_simps\<close> (laws of maps), \<open>slice_simps\<close> (laws of slices).
\<close>

named_theorems gomap_simps \<open>reading a map after a write or a delete\<close>
named_theorems slice_simps \<open>checked slices\<close>

section \<open>Go maps\<close>

type_synonym ('k, 'v) gomap = "('k \<times> 'v) list"

abbreviation mput :: "'k \<Rightarrow> 'v \<Rightarrow> ('k, 'v) gomap \<Rightarrow> ('k, 'v) gomap" where
  "mput \<equiv> AList.update"

abbreviation mdel :: "'k \<Rightarrow> ('k, 'v) gomap \<Rightarrow> ('k, 'v) gomap" where
  "mdel \<equiv> AList.delete"

definition wf_map :: "('k, 'v) gomap \<Rightarrow> bool" where
  "wf_map m \<longleftrightarrow> distinct (map fst m)"

definition mget_or :: "'v \<Rightarrow> ('k, 'v) gomap \<Rightarrow> 'k \<Rightarrow> 'v" where
  "mget_or d m k = (case map_of m k of None \<Rightarrow> d | Some v \<Rightarrow> v)"

lemmas [gomap_simps] = AList.update_conv' AList.delete_conv'

lemma wf_map_empty [simp]: "wf_map []"
  by (simp add: wf_map_def)

lemma wf_map_mput [simp]: "wf_map m \<Longrightarrow> wf_map (mput k v m)"
  by (simp add: wf_map_def AList.distinct_update)

lemma wf_map_mdel [simp]: "wf_map m \<Longrightarrow> wf_map (mdel k m)"
  by (simp add: wf_map_def AList.distinct_delete)

lemma wf_map_filter [simp]: "wf_map m \<Longrightarrow> wf_map (filter P m)"
  by (auto simp: wf_map_def distinct_map inj_on_def)

lemma map_of_mem: "wf_map m \<Longrightarrow> (k, v) \<in> set m \<longleftrightarrow> map_of m k = Some v"
  by (auto simp: wf_map_def map_of_eq_Some_iff)

lemma mget_or_mput: "mget_or d (mput k v m) k' = (if k' = k then v else mget_or d m k')"
  by (simp add: mget_or_def AList.update_conv')

lemma mget_or_mdel: "mget_or d (mdel k m) k' = (if k' = k then d else mget_or d m k')"
  by (simp add: mget_or_def AList.delete_conv')

lemmas [gomap_simps] = mget_or_mput mget_or_mdel

lemma map_of_filter_key:
  "map_of (filter (\<lambda>(k, v). P k) m) k = (if P k then map_of m k else None)"
  by (induction m) auto

lemma mem_mput: "(k', v') \<in> set (mput k v m) \<Longrightarrow> (k' = k \<and> v' = v) \<or> (k', v') \<in> set m"
  by (induction m) (auto split: if_splits)

lemma mem_mput_same: "(k, v) \<in> set (mput k v m)"
  by (induction m) auto

lemma mem_mdel: "(k', v') \<in> set (mdel k m) \<longleftrightarrow> (k', v') \<in> set m \<and> k' \<noteq> k"
  by (auto simp: AList.delete_eq)

section \<open>Checked slices\<close>

text \<open>\<^verbatim>\<open>xs[a:b]\<close>: Go panics unless \<open>a \<le> b \<le> len(xs)\<close> (the capacity is not used here).\<close>

definition slice :: "'a list \<Rightarrow> nat \<Rightarrow> nat \<Rightarrow> 'a list option" where
  "slice xs a b = (if a \<le> b \<and> b \<le> length xs then Some (take (b - a) (drop a xs)) else None)"

lemma slice_Some [slice_simps]:
  "a \<le> b \<Longrightarrow> b \<le> length xs \<Longrightarrow> slice xs a b = Some (take (b - a) (drop a xs))"
  by (simp add: slice_def)

lemma slice_empty [slice_simps]: "a \<le> length xs \<Longrightarrow> slice xs a a = Some []"
  by (simp add: slice_def)

lemma slice_join:
  assumes "a \<le> b" and "b \<le> c" and "c \<le> length xs"
  shows "take (b - a) (drop a xs) @ take (c - b) (drop b xs) = take (c - a) (drop a xs)"
proof -
  have "take (c - a) (drop a xs) = take ((b - a) + (c - b)) (drop a xs)"
    using assms by simp
  also have "\<dots> = take (b - a) (drop a xs) @ take (c - b) (drop (b - a) (drop a xs))"
    by (rule take_add)
  finally show ?thesis using assms by simp
qed

section \<open>Lists\<close>

lemma take_drop_nth:
  "a < b \<Longrightarrow> b \<le> length xs \<Longrightarrow>
   take (b - a) (drop a xs) = xs ! a # take (b - Suc a) (drop (Suc a) xs)"
  by (simp add: Cons_nth_drop_Suc [symmetric] take_Cons')

lemma sorted_distinct_set_take:
  assumes "sorted xs" and "distinct xs" and "x \<in> set xs"
  shows "x \<in> set (take n xs) \<or> (\<forall>y \<in> set (take n xs). y < x)"
proof (cases "x \<in> set (take n xs)")
  case False
  have "sorted (take n xs @ drop n xs)" and "distinct (take n xs @ drop n xs)"
    using assms by simp_all
  moreover have "x \<in> set (drop n xs)"
    using False assms(3) by (metis Un_iff append_take_drop_id set_append)
  ultimately show ?thesis
    by (metis False order_le_neq_trans sorted_append)
qed simp

lemma length_filter_mono:
  "(\<And>x. x \<in> set xs \<Longrightarrow> P x \<Longrightarrow> Q x) \<Longrightarrow> length (filter P xs) \<le> length (filter Q xs)"
  by (induction xs) (auto intro: le_SucI)

section \<open>The commonest error type\<close>

text \<open>
  A fallible Go function \<^verbatim>\<open>(T, error)\<close> returns \<open>'e + 'a\<close>: \<open>Inl\<close> the error, \<open>Inr\<close> the value.
\<close>

fun is_ok :: "'e + 'a \<Rightarrow> bool" where
  "is_ok (Inl e) = False"
| "is_ok (Inr a) = True"

end
