(* ===== verification/MergeLines.thy ===== *)
theory MergeLines
  imports GoStrings
begin

text \<open>
  \<^verbatim>\<open>internal/relayfile/merge_lines.go\<close>: the language-agnostic three-way merge
  (\<open>three-way-lines-v1\<close>).  Content is split into lines that keep their newline, each side is
  aligned with the base by a longest common subsequence, the alignments become hunks in base
  coordinates, and overlapping hunks are resolved component by component.

  Line numbers are \<open>nat\<close>, alignment entries \<open>int\<close> with \<open>-1\<close> for "no match" as in the source.
  Every slice expression is checked (\<open>slice\<close>): \<open>None\<close> is the run-time panic, and the theorems
  show it never happens on the alignments the code computes.
\<close>

section \<open>Splitting into lines\<close>

abbreviation newline :: char where
  "newline \<equiv> CHR 0x0A"

text \<open>The loop of \<open>splitLinesKeepEnds\<close>; \<open>cur\<close> is \<^verbatim>\<open>s[start:i]\<close>.\<close>

fun split_lines_loop :: "string \<Rightarrow> string \<Rightarrow> string list" where
  "split_lines_loop cur [] = (if cur = [] then [] else [cur])"
| "split_lines_loop cur (c # cs) =
     (if c = newline then (cur @ [c]) # split_lines_loop [] cs
      else split_lines_loop (cur @ [c]) cs)"

definition splitLinesKeepEnds :: "string \<Rightarrow> string list" where
  "splitLinesKeepEnds s = split_lines_loop [] s"

section \<open>Longest common subsequence\<close>

text \<open>
  One row of the suffix table: \<open>row[j]\<close> from \<open>row[j+1]\<close> and the next row, for the base line
  \<open>x\<close>; the table \<open>dp[i][j]\<close> holds the length for \<^verbatim>\<open>base[i:]\<close> and \<^verbatim>\<open>other[j:]\<close>.
\<close>

fun lcs_row :: "string \<Rightarrow> string list \<Rightarrow> nat list \<Rightarrow> nat list" where
  "lcs_row x [] nextRow = [0]"
| "lcs_row x (y # ys) nextRow =
     (let rest = lcs_row x ys (tl nextRow)
      in (if x = y then hd (tl nextRow) + 1
          else if hd nextRow \<ge> hd rest then hd nextRow else hd rest) # rest)"

fun lcs_table :: "string list \<Rightarrow> string list \<Rightarrow> nat list list" where
  "lcs_table [] other = [replicate (Suc (length other)) 0]"
| "lcs_table (x # xs) other =
     (let t = lcs_table xs other in lcs_row x other (hd t) # t)"

function lcs_walk_first ::
  "string list \<Rightarrow> string list \<Rightarrow> nat list list \<Rightarrow> nat \<Rightarrow> nat \<Rightarrow> int list \<Rightarrow> int list" where
  "lcs_walk_first base other dp i j match =
     (if i < length base \<and> j < length other then
        if base ! i = other ! j then
          lcs_walk_first base other dp (Suc i) (Suc j) (match[i := int j])
        else if dp ! Suc i ! j > dp ! i ! Suc j then
          lcs_walk_first base other dp (Suc i) j match
        else lcs_walk_first base other dp i (Suc j) match
      else match)"
  by pat_completeness auto
termination
  by (relation "measure (\<lambda>(base, other, dp, i, j, match).
        (length base - i) + (length other - j))") auto

declare lcs_walk_first.simps [simp del]

definition lcsMatchPreferFirst :: "string list \<Rightarrow> string list \<Rightarrow> int list" where
  "lcsMatchPreferFirst base other =
     (let n = length base; m = length other; match = replicate n (-1)
      in if n = 0 \<or> m = 0 then match
         else lcs_walk_first base other (lcs_table base other) 0 0 match)"

text \<open>
  The prefix table of \<open>lcsMatchPreferLast\<close>: \<open>row[j]\<close> from \<open>row[j-1]\<close> (\<open>left\<close>) and the previous
  row; \<open>prev\<close> starts at \<open>previousRow[j-1]\<close>.
\<close>

fun lcs_row_prefix :: "string \<Rightarrow> string list \<Rightarrow> nat list \<Rightarrow> nat \<Rightarrow> nat list" where
  "lcs_row_prefix x [] prev left = []"
| "lcs_row_prefix x (y # ys) prev left =
     (let v = (if x = y then hd prev + 1
               else if hd (tl prev) \<ge> left then hd (tl prev) else left)
      in v # lcs_row_prefix x ys (tl prev) v)"

fun lcs_table_prefix :: "string list \<Rightarrow> string list \<Rightarrow> nat list \<Rightarrow> nat list list" where
  "lcs_table_prefix [] other prev = [prev]"
| "lcs_table_prefix (x # xs) other prev =
     prev # lcs_table_prefix xs other (0 # lcs_row_prefix x other prev 0)"

fun lcs_walk_last ::
  "string list \<Rightarrow> string list \<Rightarrow> nat list list \<Rightarrow> nat \<Rightarrow> nat \<Rightarrow> int list \<Rightarrow> int list" where
  "lcs_walk_last base other dp 0 j match = match"
| "lcs_walk_last base other dp i 0 match = match"
| "lcs_walk_last base other dp (Suc i) (Suc j) match =
     (if base ! i = other ! j then
        lcs_walk_last base other dp i j (match[i := int j])
      else if dp ! i ! Suc j > dp ! Suc i ! j then
        lcs_walk_last base other dp i (Suc j) match
      else lcs_walk_last base other dp (Suc i) j match)"

definition lcsMatchPreferLast :: "string list \<Rightarrow> string list \<Rightarrow> int list" where
  "lcsMatchPreferLast base other =
     (let n = length base; m = length other; match = replicate n (-1)
      in if n = 0 \<or> m = 0 then match
         else lcs_walk_last base other
                (lcs_table_prefix base other (replicate (Suc m) 0)) n m match)"

definition lcsMatchesEqual :: "int list \<Rightarrow> int list \<Rightarrow> bool" where
  "lcsMatchesEqual firstM lastM \<longleftrightarrow>
     length firstM = length lastM \<and> list_all (\<lambda>(a, b). a = b) (zip firstM lastM)"

section \<open>Hunks\<close>

record lineChange =
  lc_start :: nat
  lc_end :: nat
  lc_lines :: "string list"

text \<open>
  The loop of \<open>lineChangesFromAlignment\<close> from \<open>baseIndex\<close> on.  \<open>startB\<close> and \<open>startO\<close> are
  \<open>previousBase+1\<close> and \<open>previousOther+1\<close>.
\<close>

function changes_loop ::
  "string list \<Rightarrow> string list \<Rightarrow> int list \<Rightarrow> nat \<Rightarrow> nat \<Rightarrow> nat \<Rightarrow> lineChange list option" where
  "changes_loop base other match baseIndex startB startO =
     (if baseIndex > length base then Some []
      else if baseIndex < length base \<and> match ! baseIndex < 0 then
        changes_loop base other match (Suc baseIndex) startB startO
      else
        let otherIndex = (if baseIndex < length base then nat (match ! baseIndex) else length other)
        in if startB \<noteq> baseIndex \<or> startO \<noteq> otherIndex then do {
             lines \<leftarrow> slice other startO otherIndex;
             rest \<leftarrow> changes_loop base other match (Suc baseIndex) (Suc baseIndex) (Suc otherIndex);
             Some (\<lparr>lc_start = startB, lc_end = baseIndex, lc_lines = lines\<rparr> # rest)
           }
           else changes_loop base other match (Suc baseIndex) (Suc baseIndex) (Suc otherIndex))"
  by pat_completeness auto
termination
  by (relation "measure (\<lambda>(base, other, match, baseIndex, startB, startO).
        Suc (length base) - baseIndex)") auto

declare changes_loop.simps [simp del]

definition lineChangesFromAlignment ::
  "string list \<Rightarrow> string list \<Rightarrow> int list \<Rightarrow> lineChange list option" where
  "lineChangesFromAlignment base other match = changes_loop base other match 0 0 0"

definition lineChangesOverlap :: "lineChange \<Rightarrow> lineChange \<Rightarrow> bool" where
  "lineChangesOverlap first second =
     (let firstInsertion = (lc_start first = lc_end first);
          secondInsertion = (lc_start second = lc_end second)
      in if firstInsertion \<and> secondInsertion then lc_start first = lc_start second
         else if firstInsertion then
           lc_start first \<ge> lc_start second \<and> lc_start first \<le> lc_end second
         else if secondInsertion then
           lc_start second \<ge> lc_start first \<and> lc_start second \<le> lc_end first
         else lc_start first < lc_end second \<and> lc_start second < lc_end first)"

definition changeOverlapsAny :: "lineChange \<Rightarrow> lineChange list \<Rightarrow> bool" where
  "changeOverlapsAny change others \<longleftrightarrow> list_ex (lineChangesOverlap change) others"

text \<open>
  \<open>overlappingChangeComponent\<close> works on the hunks not yet consumed (\<^verbatim>\<open>mine[mineIndex:]\<close> and
  \<^verbatim>\<open>theirs[theirsIndex:]\<close>); the inner \<^verbatim>\<open>for\<close> loops take the longest overlapping prefix.
\<close>

function expand_component ::
  "lineChange list \<Rightarrow> lineChange list \<Rightarrow> lineChange list \<Rightarrow> lineChange list \<Rightarrow>
   lineChange list \<times> lineChange list \<times> lineChange list \<times> lineChange list" where
  "expand_component mineGroup theirsGroup mine theirs =
     (let a = takeWhile (\<lambda>c. changeOverlapsAny c theirsGroup) mine;
          mine' = dropWhile (\<lambda>c. changeOverlapsAny c theirsGroup) mine;
          mineGroup' = mineGroup @ a;
          b = takeWhile (\<lambda>c. changeOverlapsAny c mineGroup') theirs;
          theirs' = dropWhile (\<lambda>c. changeOverlapsAny c mineGroup') theirs;
          theirsGroup' = theirsGroup @ b
      in if a = [] \<and> b = [] then (mineGroup', theirsGroup', mine', theirs')
         else expand_component mineGroup' theirsGroup' mine' theirs')"
  by pat_completeness auto
termination
proof (relation "measure (\<lambda>(mg, tg, ms, ts). length ms + length ts)", goal_cases)
  case (2 mg tg ms ts a ms' mg' b ts' tg')
  have "length a + length ms' = length ms" and "length b + length ts' = length ts"
    using 2 by (metis length_append takeWhile_dropWhile_id)+
  moreover have "length a > 0 \<or> length b > 0"
    using 2 by auto
  ultimately have "length ms' + length ts' < length ms + length ts"
    by linarith
  then show ?case by simp
qed simp

declare expand_component.simps [simp del]

definition overlappingChangeComponent ::
  "lineChange list \<Rightarrow> lineChange list \<Rightarrow>
   (lineChange list \<times> lineChange list \<times> lineChange list \<times> lineChange list) option" where
  "overlappingChangeComponent mine theirs =
     (case theirs of
        [] \<Rightarrow> (case mine of [] \<Rightarrow> None | m # ms \<Rightarrow> Some (expand_component [m] [] ms []))
      | t # ts \<Rightarrow>
          (case mine of
             [] \<Rightarrow> Some (expand_component [] [t] [] ts)
           | m # ms \<Rightarrow>
               if lc_start m \<le> lc_start t then Some (expand_component [m] [] ms (t # ts))
               else Some (expand_component [] [t] (m # ms) ts)))"

fun component_bounds_loop :: "int \<Rightarrow> int \<Rightarrow> lineChange list \<Rightarrow> int \<times> int" where
  "component_bounds_loop s e [] = (s, e)"
| "component_bounds_loop s e (c # cs) =
     component_bounds_loop (if s < 0 \<or> int (lc_start c) < s then int (lc_start c) else s)
       (if int (lc_end c) > e then int (lc_end c) else e) cs"

definition changeComponentBounds :: "lineChange list \<Rightarrow> lineChange list \<Rightarrow> int \<times> int" where
  "changeComponentBounds mine theirs = component_bounds_loop (-1) (-1) (mine @ theirs)"

fun renderChangeComponent ::
  "string list \<Rightarrow> nat \<Rightarrow> nat \<Rightarrow> lineChange list \<Rightarrow> string list option" where
  "renderChangeComponent base baseIndex e [] = slice base baseIndex e"
| "renderChangeComponent base baseIndex e (c # cs) = do {
     pre \<leftarrow> slice base baseIndex (lc_start c);
     rest \<leftarrow> renderChangeComponent base (lc_end c) e cs;
     Some (pre @ lc_lines c @ rest)
   }"

section \<open>The merge\<close>

record lineMergeConflict =
  lmc_unit :: string
  lmc_reason :: string
  lmc_base :: string
  lmc_mine :: string
  lmc_theirs :: string

definition conflict_unit :: "nat \<Rightarrow> nat \<Rightarrow> string" where
  "conflict_unit s e =
     (if s = e then ''insertion before base line '' @ itoa (s + 1)
      else ''base lines '' @ itoa (s + 1) @ ''-'' @ itoa e)"

text \<open>What one component appends to the output, or the conflict it reports.\<close>

definition resolve_component ::
  "nat \<Rightarrow> nat \<Rightarrow> string list \<Rightarrow> string list \<Rightarrow> string list \<Rightarrow> lineMergeConflict + string list" where
  "resolve_component s e baseRegion mineRegion theirsRegion =
     (let baseText = concat baseRegion; mineText = concat mineRegion;
          theirsText = concat theirsRegion
      in if mineText = theirsText then Inr mineRegion
         else if mineText = baseText then Inr theirsRegion
         else if theirsText = baseText then Inr mineRegion
         else Inl \<lparr>lmc_unit = conflict_unit s e, lmc_reason = ''concurrently changed'',
                   lmc_base = baseText, lmc_mine = mineText, lmc_theirs = theirsText\<rparr>)"

text \<open>One round of the expansion, with the stopping round simplified.\<close>

lemma expand_component_unfold:
  fixes mg tg ms ts
  defines "a \<equiv> takeWhile (\<lambda>c. changeOverlapsAny c tg) ms"
  defines "b \<equiv> takeWhile (\<lambda>c. changeOverlapsAny c (mg @ a)) ts"
  shows "expand_component mg tg ms ts =
    (if a = [] \<and> b = [] then (mg, tg, ms, ts)
     else expand_component (mg @ a) (tg @ b) (drop (length a) ms) (drop (length b) ts))"
proof -
  have "expand_component mg tg ms ts =
    (if a = [] \<and> b = [] then (mg @ a, tg @ b, drop (length a) ms, drop (length b) ts)
     else expand_component (mg @ a) (tg @ b) (drop (length a) ms) (drop (length b) ts))"
    by (subst expand_component.simps) (simp only: Let_def dropWhile_eq_drop a_def b_def)
  also have "\<dots> = (if a = [] \<and> b = [] then (mg, tg, ms, ts)
     else expand_component (mg @ a) (tg @ b) (drop (length a) ms) (drop (length b) ts))"
    by (rule if_cong) auto
  finally show ?thesis .
qed

lemma expand_component_append:
  "expand_component mg tg ms ts = (mg', tg', ms', ts') \<Longrightarrow>
   mg' @ ms' = mg @ ms \<and> tg' @ ts' = tg @ ts
   \<and> (\<exists>x. mg' = mg @ x) \<and> (\<exists>y. tg' = tg @ y)"
proof (induction mg tg ms ts arbitrary: mg' tg' ms' ts' rule: expand_component.induct)
  case (1 mg tg ms ts)
  let ?a = "takeWhile (\<lambda>c. changeOverlapsAny c tg) ms"
  let ?b = "takeWhile (\<lambda>c. changeOverlapsAny c (mg @ ?a)) ts"
  show ?case
  proof (cases "?a = [] \<and> ?b = []")
    case True
    have "expand_component mg tg ms ts = (mg, tg, ms, ts)"
      by (subst expand_component_unfold) (rule if_P [OF True])
    with 1(2) show ?thesis by simp
  next
    case False
    have "expand_component (mg @ ?a) (tg @ ?b)
        (dropWhile (\<lambda>c. changeOverlapsAny c tg) ms)
        (dropWhile (\<lambda>c. changeOverlapsAny c (mg @ ?a)) ts) = (mg', tg', ms', ts')"
      using 1(2) False by (subst (asm) expand_component.simps) (simp only: Let_def if_False)
    from 1(1) [OF refl refl refl refl refl refl False this] show ?thesis
      by (metis append.assoc takeWhile_dropWhile_id)
  qed
qed

lemma component_append:
  assumes "overlappingChangeComponent ms ts = Some (mg, tg, ms', ts')"
  shows "mg @ ms' = ms" and "tg @ ts' = ts" and "mg \<noteq> [] \<or> tg \<noteq> []"
  using assms
  by (auto simp: overlappingChangeComponent_def split: list.splits if_splits
      dest!: expand_component_append)

lemma component_consumes:
  assumes "overlappingChangeComponent ms ts = Some (mg, tg, ms', ts')"
  shows "length ms' + length ts' < length ms + length ts"
proof -
  note c = component_append [OF assms]
  have "length ms = length mg + length ms'" and "length ts = length tg + length ts'"
    using c(1,2) by auto
  moreover have "length mg > 0 \<or> length tg > 0" using c(3) by auto
  ultimately show ?thesis by linarith
qed

text \<open>
  The loop of \<open>mergeWithAlignment\<close>: the conflicts found and the output lines, from
  \<open>baseIndex\<close> on.
\<close>

function merge_loop ::
  "string list \<Rightarrow> lineChange list \<Rightarrow> lineChange list \<Rightarrow> nat \<Rightarrow>
   (lineMergeConflict list \<times> string list) option" where
  "merge_loop base mine theirs baseIndex =
     (case overlappingChangeComponent mine theirs of
        None \<Rightarrow> do { rest \<leftarrow> slice base baseIndex (length base); Some ([], rest) }
      | Some (mineGroup, theirsGroup, mine', theirs') \<Rightarrow>
          (let (s, e) = changeComponentBounds mineGroup theirsGroup in do {
             gap \<leftarrow> slice base baseIndex (nat s);
             baseRegion \<leftarrow> slice base (nat s) (nat e);
             mineRegion \<leftarrow> renderChangeComponent base (nat s) (nat e) mineGroup;
             theirsRegion \<leftarrow> renderChangeComponent base (nat s) (nat e) theirsGroup;
             (conflicts, rest) \<leftarrow> merge_loop base mine' theirs' (nat e);
             (case resolve_component (nat s) (nat e) baseRegion mineRegion theirsRegion of
                Inl c \<Rightarrow> Some (c # conflicts, gap @ rest)
              | Inr out \<Rightarrow> Some (conflicts, gap @ out @ rest))
           }))"
  by pat_completeness auto
termination
  by (relation "measure (\<lambda>(base, mine, theirs, baseIndex). length mine + length theirs)")
     (auto dest: component_consumes)

declare merge_loop.simps [simp del]

text \<open>\<open>Inl\<close> the conflicts, \<open>Inr\<close> the merged content; \<open>None\<close> a run-time panic.\<close>

definition mergeWithAlignment ::
  "string list \<Rightarrow> string list \<Rightarrow> string list \<Rightarrow> int list \<Rightarrow> int list \<Rightarrow>
   (lineMergeConflict list + string) option" where
  "mergeWithAlignment baseLines mineLines theirsLines matchMine matchTheirs = do {
     mineChanges \<leftarrow> lineChangesFromAlignment baseLines mineLines matchMine;
     theirsChanges \<leftarrow> lineChangesFromAlignment baseLines theirsLines matchTheirs;
     (conflicts, output) \<leftarrow> merge_loop baseLines mineChanges theirsChanges 0;
     (if conflicts \<noteq> [] then Some (Inl conflicts) else Some (Inr (concat output)))
   }"

definition maxMergeDiffLines :: nat where
  "maxMergeDiffLines = 3000"

datatype line_merge_outcome =
    MergeTooLarge
  | MergeConflicts "lineMergeConflict list"
  | Merged string

definition linesThreeWayMerge :: "string \<Rightarrow> string \<Rightarrow> string \<Rightarrow> line_merge_outcome option" where
  "linesThreeWayMerge base mine theirs =
     (let baseLines = splitLinesKeepEnds base;
          mineLines = splitLinesKeepEnds mine;
          theirsLines = splitLinesKeepEnds theirs
      in if length baseLines > maxMergeDiffLines \<or> length mineLines > maxMergeDiffLines
            \<or> length theirsLines > maxMergeDiffLines then Some MergeTooLarge
         else if mine = theirs then Some (Merged mine)
         else if mine = base then Some (Merged theirs)
         else if theirs = base then Some (Merged mine)
         else
           let firstMineMatch = lcsMatchPreferFirst baseLines mineLines;
               lastMineMatch = lcsMatchPreferLast baseLines mineLines;
               firstTheirsMatch = lcsMatchPreferFirst baseLines theirsLines;
               lastTheirsMatch = lcsMatchPreferLast baseLines theirsLines
           in if \<not> lcsMatchesEqual firstMineMatch lastMineMatch
                 \<or> \<not> lcsMatchesEqual firstTheirsMatch lastTheirsMatch
              then Some (MergeConflicts [\<lparr>lmc_unit = ''whole file'',
                     lmc_reason = ''ambiguous merge alignment: repeated or duplicated lines admit more than one valid resolution'',
                     lmc_base = base, lmc_mine = mine, lmc_theirs = theirs\<rparr>])
              else
                (case mergeWithAlignment baseLines mineLines theirsLines
                        firstMineMatch firstTheirsMatch of
                   None \<Rightarrow> None
                 | Some (Inl conflicts) \<Rightarrow> Some (MergeConflicts conflicts)
                 | Some (Inr content) \<Rightarrow> Some (Merged content)))"

end
