(* ===== verification/MergeLinesCorrect.thy ===== *)
theory MergeLinesCorrect
  imports MergeLines
begin

text \<open>
  Correctness of the three-way line merge of theory MergeLines: splitting is exact, both
  backtracks return optimal alignments, the hunks of an alignment turn the base into the side
  they come from, and a successful merge is the base with the edits of both sides applied.
\<close>

section \<open>Splitting is exact\<close>

lemma concat_split_lines_loop: "concat (split_lines_loop cur s) = cur @ s"
  by (induction cur s rule: split_lines_loop.induct) auto

lemma concat_splitLinesKeepEnds [simp]: "concat (splitLinesKeepEnds s) = s"
  by (simp add: splitLinesKeepEnds_def concat_split_lines_loop)

text \<open>A list of lines as \<open>splitLinesKeepEnds\<close> produces it: the newline ends a line, and only
  the last line may lack it.\<close>

fun line_list :: "string list \<Rightarrow> bool" where
  "line_list [] = True"
| "line_list (l # ls) \<longleftrightarrow>
     l \<noteq> [] \<and> newline \<notin> set (butlast l) \<and> (ls \<noteq> [] \<longrightarrow> last l = newline) \<and> line_list ls"

lemma line_list_loop: "newline \<notin> set cur \<Longrightarrow> line_list (split_lines_loop cur s)"
  by (induction cur s rule: split_lines_loop.induct) (auto dest: in_set_butlastD)

section \<open>The tables hold the lengths of longest common subsequences\<close>

fun lcs_len :: "'a list \<Rightarrow> 'a list \<Rightarrow> nat" where
  "lcs_len [] ys = 0"
| "lcs_len xs [] = 0"
| "lcs_len (x # xs) (y # ys) =
     (if x = y then Suc (lcs_len xs ys) else max (lcs_len xs (y # ys)) (lcs_len (x # xs) ys))"

lemma lcs_len_Nil2 [simp]: "lcs_len xs [] = 0"
  by (cases xs) auto

lemma lcs_len_optimal: "subseq zs xs \<Longrightarrow> subseq zs ys \<Longrightarrow> length zs \<le> lcs_len xs ys"
proof (induction xs ys arbitrary: zs rule: lcs_len.induct)
  case (3 x xs y ys)
  show ?case
  proof (cases zs)
    case (Cons z zs')
    show ?thesis
    proof (cases "x = y")
      case True
      have "length zs' \<le> lcs_len xs ys"
        using 3 Cons True by (auto intro: subseq_Cons' split: if_splits)
      then show ?thesis using Cons True by simp
    next
      case False
      have "subseq zs xs \<or> subseq zs ys"
        using 3(4,5) Cons False by (auto split: if_splits)
      then have "length zs \<le> lcs_len xs (y # ys) \<or> length zs \<le> lcs_len (x # xs) ys"
        using 3(2) [OF False _ 3(5)] 3(3) [OF False 3(4)] by blast
      then show ?thesis using False by auto
    qed
  qed simp
qed auto

fun suffix_row :: "'a list \<Rightarrow> 'a list \<Rightarrow> nat list" where
  "suffix_row xs [] = [0]"
| "suffix_row xs (y # ys) = lcs_len xs (y # ys) # suffix_row xs ys"

lemma hd_suffix_row: "hd (suffix_row xs ys) = lcs_len xs ys"
  by (cases ys) simp_all

lemma suffix_row_Nil: "suffix_row [] ys = replicate (Suc (length ys)) 0"
  by (induction ys) auto

lemma suffix_row_nth: "j \<le> length ys \<Longrightarrow> suffix_row xs ys ! j = lcs_len xs (drop j ys)"
proof (induction ys arbitrary: j)
  case (Cons y ys)
  then show ?case by (cases j) simp_all
qed simp

lemma lcs_row_suffix: "lcs_row x ys (suffix_row xs ys) = suffix_row (x # xs) ys"
  by (induction ys) (auto simp: Let_def hd_suffix_row)

lemma hd_lcs_table: "hd (lcs_table xs ys) = suffix_row xs ys"
  by (induction xs) (simp_all add: Let_def suffix_row_Nil lcs_row_suffix)

lemma lcs_table_nth: "i \<le> length xs \<Longrightarrow> lcs_table xs ys ! i = suffix_row (drop i xs) ys"
proof (induction xs arbitrary: i)
  case Nil
  then show ?case by (simp add: suffix_row_Nil)
next
  case (Cons x xs)
  then show ?case
    by (cases i) (simp_all add: Let_def hd_lcs_table lcs_row_suffix)
qed

lemma lcs_table_entry:
  "i \<le> length xs \<Longrightarrow> j \<le> length ys \<Longrightarrow> lcs_table xs ys ! i ! j = lcs_len (drop i xs) (drop j ys)"
  by (simp add: lcs_table_nth suffix_row_nth)

section \<open>Alignments\<close>

text \<open>
  \<open>aligned xs vs other lo\<close>: the entries of \<open>vs\<close> match lines of \<open>xs\<close> with equal lines of
  \<open>other\<close>, at increasing positions from \<open>lo\<close> on; a negative entry is "no match".
\<close>

fun aligned :: "string list \<Rightarrow> int list \<Rightarrow> string list \<Rightarrow> nat \<Rightarrow> bool" where
  "aligned [] [] other lo \<longleftrightarrow> lo \<le> length other"
| "aligned (x # xs) (v # vs) other lo \<longleftrightarrow>
     (if v < 0 then aligned xs vs other lo
      else lo \<le> nat v \<and> nat v < length other \<and> other ! nat v = x
           \<and> aligned xs vs other (Suc (nat v)))"
| "aligned _ _ other lo \<longleftrightarrow> False"

definition matched :: "int list \<Rightarrow> nat" where
  "matched vs = length (filter (\<lambda>v. 0 \<le> v) vs)"

lemma matched_simps [simp]:
  "matched [] = 0" "matched (v # vs) = (if 0 \<le> v then Suc (matched vs) else matched vs)"
  by (simp_all add: matched_def)

lemma matched_replicate [simp]: "matched (replicate n (-1)) = 0"
  by (induction n) simp_all

lemma aligned_length: "aligned xs vs other lo \<Longrightarrow> length vs = length xs"
  by (induction xs vs other lo rule: aligned.induct) (auto split: if_splits)

lemma aligned_bound: "aligned xs vs other lo \<Longrightarrow> lo \<le> length other"
  by (induction xs vs other lo rule: aligned.induct) (auto split: if_splits)

lemma aligned_mono: "aligned xs vs other lo \<Longrightarrow> lo' \<le> lo \<Longrightarrow> aligned xs vs other lo'"
  by (induction xs vs other lo rule: aligned.induct) (auto split: if_splits)

lemma aligned_replicate: "lo \<le> length other \<Longrightarrow> aligned xs (replicate (length xs) (-1)) other lo"
  by (induction xs) auto

text \<open>The forward backtrack, as a recursion on the two suffixes.\<close>

fun align_first :: "string list \<Rightarrow> string list \<Rightarrow> nat \<Rightarrow> int list" where
  "align_first [] ys j = []"
| "align_first (x # xs) [] j = replicate (Suc (length xs)) (-1)"
| "align_first (x # xs) (y # ys) j =
     (if x = y then int j # align_first xs ys (Suc j)
      else if lcs_len xs (y # ys) > lcs_len (x # xs) ys then -1 # align_first xs (y # ys) j
      else align_first (x # xs) ys (Suc j))"

lemma align_first_Nil2: "align_first xs [] j = replicate (length xs) (-1)"
  by (cases xs) simp_all

lemma matched_align_first: "matched (align_first xs ys j) = lcs_len xs ys"
  by (induction xs ys j rule: align_first.induct) auto

lemma aligned_align_first:
  "drop j other = ys \<Longrightarrow> j \<le> length other \<Longrightarrow> aligned xs (align_first xs ys j) other j"
proof (induction xs ys j rule: align_first.induct)
  case (2 x xs j)
  then show ?case using aligned_replicate [of j other "x # xs"] by simp
next
  case (3 x xs y ys j)
  then have j: "j < length other" and y: "other ! j = y" and ys: "drop (Suc j) other = ys"
    by (auto simp: Cons_nth_drop_Suc [symmetric] not_less [symmetric])
       (metis drop_eq_Nil2 linorder_not_less list.distinct(1),
        metis drop_eq_Nil2 linorder_not_less list.distinct(1) list.inject Cons_nth_drop_Suc,
        metis drop_eq_Nil2 linorder_not_less list.distinct(1) list.inject Cons_nth_drop_Suc)
  with 3 show ?case by (auto intro: aligned_mono)
qed simp

lemma walk_first_align:
  assumes "length match = length base" and "i \<le> length base" and "j \<le> length other"
    and "drop i match = replicate (length base - i) (-1)"
  shows "lcs_walk_first base other (lcs_table base other) i j match =
    take i match @ align_first (drop i base) (drop j other) j"
  using assms
proof (induction base other "lcs_table base other" i j match rule: lcs_walk_first.induct)
  case (1 base other i j match)
  let ?dp = "lcs_table base other"
  show ?case
  proof (cases "i < length base \<and> j < length other")
    case True
    then have b: "drop i base = base ! i # drop (Suc i) base"
      and o: "drop j other = other ! j # drop (Suc j) other"
      by (simp_all add: Cons_nth_drop_Suc)
    have m: "match ! i = -1" "drop (Suc i) match = replicate (length base - Suc i) (-1)"
      using "1.prems" True by (metis Cons_nth_drop_Suc Suc_diff_Suc list.inject replicate_Suc)+
    have t: "take (Suc i) match = take i match @ [-1]"
      using m True "1.prems" by (simp add: take_Suc_conv_app_nth)
    have dp: "?dp ! Suc i ! j = lcs_len (drop (Suc i) base) (drop j other)"
      "?dp ! i ! Suc j = lcs_len (drop i base) (drop (Suc j) other)"
      using True by (simp_all add: lcs_table_entry)
    show ?thesis
    proof (cases "base ! i = other ! j")
      case eq: True
      have "lcs_walk_first base other ?dp i j match =
          lcs_walk_first base other ?dp (Suc i) (Suc j) (match[i := int j])"
        using True eq by (subst lcs_walk_first.simps) simp
      also have "\<dots> = take (Suc i) (match[i := int j])
          @ align_first (drop (Suc i) base) (drop (Suc j) other) (Suc j)"
        using "1.hyps"(1) [OF True eq] "1.prems" True m by simp
      also have "take (Suc i) (match[i := int j]) = take i match @ [int j]"
        using True "1.prems" by (simp add: take_Suc_conv_app_nth)
      finally show ?thesis using b o eq by simp
    next
      case ne: False
      show ?thesis
      proof (cases "?dp ! Suc i ! j > ?dp ! i ! Suc j")
        case gt: True
        have "lcs_walk_first base other ?dp i j match =
            lcs_walk_first base other ?dp (Suc i) j match"
          using True ne gt by (subst lcs_walk_first.simps) simp
        also have "\<dots> = take (Suc i) match @ align_first (drop (Suc i) base) (drop j other) j"
          using "1.hyps"(2) [OF True ne gt] "1.prems" True m by simp
        finally show ?thesis using b o ne gt dp t by simp
      next
        case le: False
        have "lcs_walk_first base other ?dp i j match =
            lcs_walk_first base other ?dp i (Suc j) match"
          using True ne le by (subst lcs_walk_first.simps) simp
        also have "\<dots> = take i match @ align_first (drop i base) (drop (Suc j) other) (Suc j)"
          using "1.hyps"(3) [OF True ne le] "1.prems" True m by simp
        finally show ?thesis using b o ne le dp by simp
      qed
    qed
  next
    case False
    have "lcs_walk_first base other ?dp i j match = match"
      by (subst lcs_walk_first.simps) (rule if_not_P [OF False])
    moreover have "align_first (drop i base) (drop j other) j = replicate (length base - i) (-1)"
      using False by (cases "i < length base") (simp_all add: align_first_Nil2)
    ultimately show ?thesis using "1.prems" by (metis append_take_drop_id)
  qed
qed

lemma lcsMatchPreferFirst_align:
  "lcsMatchPreferFirst base other = align_first base other 0"
proof (cases "base = [] \<or> other = []")
  case True
  then show ?thesis by (auto simp: lcsMatchPreferFirst_def align_first_Nil2)
next
  case False
  then show ?thesis
    using walk_first_align [of "replicate (length base) (-1)" base 0 0 other]
    by (simp add: lcsMatchPreferFirst_def Let_def)
qed

text \<open>The prefix table and the backward backtrack, as recursions on the reversed prefixes.\<close>

fun prefix_row :: "'a list \<Rightarrow> 'a list \<Rightarrow> 'a list \<Rightarrow> nat list" where
  "prefix_row rxs rd [] = [lcs_len rxs rd]"
| "prefix_row rxs rd (y # ys) = lcs_len rxs rd # prefix_row rxs (y # rd) ys"

lemma hd_prefix_row: "hd (prefix_row rxs rd ys) = lcs_len rxs rd"
  by (cases ys) simp_all

lemma prefix_row_Cons_tl: "prefix_row rxs rd ys = lcs_len rxs rd # tl (prefix_row rxs rd ys)"
  by (cases ys) simp_all

lemma prefix_row_Nil: "prefix_row [] rd ys = replicate (Suc (length ys)) 0"
  by (induction ys arbitrary: rd) simp_all

lemma prefix_row_nth:
  "j \<le> length ys \<Longrightarrow> prefix_row rxs rd ys ! j = lcs_len rxs (rev (take j ys) @ rd)"
proof (induction ys arbitrary: j rd)
  case (Cons y ys)
  then show ?case by (cases j) simp_all
qed simp

lemma lcs_row_prefix_step:
  "lcs_row_prefix x ys (prefix_row rxs rd ys) (lcs_len (x # rxs) rd) = tl (prefix_row (x # rxs) rd ys)"
proof (induction ys arbitrary: rd)
  case (Cons y ys)
  let ?v = "lcs_len (x # rxs) (y # rd)"
  have "lcs_row_prefix x (y # ys) (prefix_row rxs rd (y # ys)) (lcs_len (x # rxs) rd) =
      ?v # lcs_row_prefix x ys (prefix_row rxs (y # rd) ys) ?v"
    by (auto simp: Let_def hd_prefix_row)
  then show ?case using Cons.IH [of "y # rd"] prefix_row_Cons_tl [of "x # rxs" "y # rd" ys] by simp
qed simp

lemma lcs_table_prefix_nth:
  "i \<le> length xs \<Longrightarrow>
   lcs_table_prefix xs other (prefix_row rxs [] other) ! i = prefix_row (rev (take i xs) @ rxs) [] other"
proof (induction xs arbitrary: i rxs)
  case (Cons x xs)
  have row: "0 # lcs_row_prefix x other (prefix_row rxs [] other) 0 = prefix_row (x # rxs) [] other"
    using lcs_row_prefix_step [of x other rxs "[]"] prefix_row_Cons_tl [of "x # rxs" "[]" other] by simp
  show ?case
  proof (cases i)
    case (Suc i')
    then show ?thesis using Cons by (simp add: row)
  qed simp
qed simp

lemma lcs_table_prefix_entry:
  "i \<le> length xs \<Longrightarrow> j \<le> length ys \<Longrightarrow>
   lcs_table_prefix xs ys (replicate (Suc (length ys)) 0) ! i ! j
     = lcs_len (rev (take i xs)) (rev (take j ys))"
  using lcs_table_prefix_nth [of i xs ys "[]"]
  by (simp add: prefix_row_Nil prefix_row_nth del: replicate_Suc)

fun align_last :: "string list \<Rightarrow> string list \<Rightarrow> int list" where
  "align_last [] rys = []"
| "align_last (x # rxs) [] = replicate (Suc (length rxs)) (-1)"
| "align_last (x # rxs) (y # rys) =
     (if x = y then int (length rys) # align_last rxs rys
      else if lcs_len rxs (y # rys) > lcs_len (x # rxs) rys then -1 # align_last rxs (y # rys)
      else align_last (x # rxs) rys)"

lemma align_last_Nil2: "align_last rxs [] = replicate (length rxs) (-1)"
  by (cases rxs) simp_all

lemma matched_align_last: "matched (align_last rxs rys) = lcs_len rxs rys"
  by (induction rxs rys rule: align_last.induct) auto

lemma aligned_snoc:
  "aligned xs vs other lo \<Longrightarrow> (\<forall>v \<in> set vs. v < int k) \<Longrightarrow> lo \<le> k \<Longrightarrow> k < length other \<Longrightarrow>
   other ! k = x \<Longrightarrow> aligned (xs @ [x]) (vs @ [int k]) other lo"
  by (induction xs vs other lo rule: aligned.induct) (auto split: if_splits)

lemma aligned_snoc_neg: "aligned xs vs other lo \<Longrightarrow> aligned (xs @ [x]) (vs @ [-1]) other lo"
  by (induction xs vs other lo rule: aligned.induct) (auto split: if_splits)

lemma aligned_align_last:
  "rys = rev (take (length rys) other) \<Longrightarrow> length rys \<le> length other \<Longrightarrow>
   aligned (rev rxs) (rev (align_last rxs rys)) other 0
   \<and> (\<forall>v \<in> set (align_last rxs rys). v < int (length rys))"
proof (induction rxs rys rule: align_last.induct)
  case (2 x rxs)
  then show ?case
    using aligned_replicate [of 0 other "rev (x # rxs)"] by (simp del: replicate_Suc)
next
  case (3 x rxs y rys)
  have lt: "length rys < length other" using 3(5) by simp
  have "rev (y # rys) = take (length (y # rys)) other"
    using 3(4) by (metis rev_rev_ident)
  then have r: "rys = rev (take (length rys) other)" and y: "other ! length rys = y"
    using lt by (simp_all add: take_Suc_conv_app_nth) (metis rev_rev_ident)
  show ?case
    using 3(1) [OF _ r] 3(2) [OF _ _ 3(4,5)] 3(3) [OF _ _ r] lt y
    by (auto intro: aligned_snoc aligned_snoc_neg) fastforce+
qed simp

lemma walk_last_align:
  assumes "length match = length base" and "i \<le> length base" and "j \<le> length other"
    and "take i match = replicate i (-1)"
  shows "lcs_walk_last base other (lcs_table_prefix base other (replicate (Suc (length other)) 0))
      i j match = rev (align_last (rev (take i base)) (rev (take j other))) @ drop i match"
  using assms
proof (induction base other "lcs_table_prefix base other (replicate (Suc (length other)) 0)"
    i j match rule: lcs_walk_last.induct)
  case (2 base other i match)
  then show ?case
    by (simp add: align_last_Nil2 del: replicate_Suc) (metis append_take_drop_id)
next
  case (3 base other i j match)
  let ?dp = "lcs_table_prefix base other (replicate (Suc (length other)) 0)"
  have b: "rev (take (Suc i) base) = base ! i # rev (take i base)"
    and o: "rev (take (Suc j) other) = other ! j # rev (take j other)"
    using 3 by (simp_all add: take_Suc_conv_app_nth)
  have "take i match @ [match ! i] = replicate i (-1) @ [-1]"
    using 3(4,5,7) by (simp add: take_Suc_conv_app_nth replicate_append_same)
  then have m: "take i match = replicate i (-1)" "match ! i = -1" by simp_all
  have d: "drop i match = -1 # drop (Suc i) match"
    using 3(4,5) m(2) by (simp add: Cons_nth_drop_Suc [symmetric])
  have dp: "?dp ! i ! Suc j = lcs_len (rev (take i base)) (rev (take (Suc j) other))"
    "?dp ! Suc i ! j = lcs_len (rev (take (Suc i) base)) (rev (take j other))"
    using 3 by (simp_all only: lcs_table_prefix_entry Suc_leD)
  show ?case
  proof (cases "base ! i = other ! j")
    case True
    have "drop i (match[i := int j]) = int j # drop (Suc i) match"
      using 3(4,5) by (subst Cons_nth_drop_Suc [symmetric]) simp_all
    with True 3(1) 3(4-6) m b o show ?thesis by (simp del: replicate_Suc)
  next
    case ne: False
    show ?thesis
    proof (cases "?dp ! i ! Suc j > ?dp ! Suc i ! j")
      case True
      with 3(2) 3(4-6) ne m b o d dp show ?thesis by (simp del: replicate_Suc)
    next
      case False
      with 3(3) 3(4-7) ne b o dp show ?thesis by (simp del: replicate_Suc)
    qed
  qed
qed simp

lemma lcsMatchPreferLast_align:
  "lcsMatchPreferLast base other = rev (align_last (rev base) (rev other))"
proof (cases "base = [] \<or> other = []")
  case True
  then show ?thesis by (auto simp: lcsMatchPreferLast_def align_last_Nil2)
next
  case False
  then show ?thesis
    using walk_last_align [of "replicate (length base) (-1)" base "length base" "length other" other]
    by (simp add: lcsMatchPreferLast_def Let_def del: replicate_Suc)
qed

lemma matched_rev [simp]: "matched (rev vs) = matched vs"
  by (simp add: matched_def rev_filter [symmetric])

section \<open>Hunks\<close>

text \<open>
  \<open>hunks_from a n hs\<close>: well-formed hunks in order from base line \<open>a\<close> on, with at least one
  untouched line between two of them, none reaching beyond line \<open>n\<close>.
\<close>

fun hunks_from :: "nat \<Rightarrow> nat \<Rightarrow> lineChange list \<Rightarrow> bool" where
  "hunks_from a n [] = True"
| "hunks_from a n (c # cs) \<longleftrightarrow>
     a \<le> lc_start c \<and> lc_start c \<le> lc_end c \<and> lc_end c \<le> n \<and> hunks_from (Suc (lc_end c)) n cs"

text \<open>\<open>apply_hunks\<close> is \<open>renderChangeComponent\<close> without the run-time checks.\<close>

fun apply_hunks :: "string list \<Rightarrow> nat \<Rightarrow> nat \<Rightarrow> lineChange list \<Rightarrow> string list" where
  "apply_hunks base a e [] = take (e - a) (drop a base)"
| "apply_hunks base a e (c # cs) =
     take (lc_start c - a) (drop a base) @ lc_lines c @ apply_hunks base (lc_end c) e cs"

lemma hunks_from_mono: "hunks_from a n hs \<Longrightarrow> a' \<le> a \<Longrightarrow> hunks_from a' n hs"
  by (cases hs) auto

lemma hunks_from_mem:
  "hunks_from a n hs \<Longrightarrow> c \<in> set hs \<Longrightarrow> a \<le> lc_start c \<and> lc_start c \<le> lc_end c \<and> lc_end c \<le> n"
  by (induction a n hs rule: hunks_from.induct) auto

lemma hunks_from_append:
  "hunks_from a n (hs @ hs') \<longleftrightarrow>
   hunks_from a n hs \<and> (hs \<noteq> [] \<longrightarrow> hunks_from (Suc (lc_end (last hs))) n hs')
   \<and> (hs = [] \<longrightarrow> hunks_from a n hs')"
  by (induction a n hs rule: hunks_from.induct) auto

lemma hunks_from_order:
  "hunks_from a n (hs @ hs') \<Longrightarrow> c \<in> set hs \<Longrightarrow> c' \<in> set hs' \<Longrightarrow> lc_end c < lc_start c'"
proof (induction hs arbitrary: a)
  case (Cons h hs)
  then show ?case
    by (auto dest: hunks_from_mem [where a = "Suc (lc_end h)"])
qed simp

lemma hunks_from_suffix:
  "hunks_from a n (hs @ hs') \<Longrightarrow> (\<forall>c \<in> set hs'. b \<le> lc_start c) \<Longrightarrow> hunks_from b n hs'"
  by (induction hs arbitrary: a) (auto, cases hs', auto)

lemma hunks_from_prefix:
  "hunks_from a n (hs @ hs') \<Longrightarrow> (\<forall>c \<in> set hs. b \<le> lc_start c \<and> lc_end c \<le> e) \<Longrightarrow>
   hunks_from b e hs"
proof (induction hs arbitrary: a b)
  case (Cons h hs)
  then have "hunks_from (Suc (lc_end h)) e hs"
    by (auto intro!: Cons.IH [of "Suc (lc_end h)"] dest: hunks_from_mem [of "Suc (lc_end h)" n "hs @ hs'"])
  with Cons.prems show ?case by simp
qed simp

text \<open>\<open>seq_hunks\<close> is \<open>hunks_from\<close> without the gap: hunks may touch.\<close>

fun seq_hunks :: "nat \<Rightarrow> nat \<Rightarrow> lineChange list \<Rightarrow> bool" where
  "seq_hunks a n [] = True"
| "seq_hunks a n (c # cs) \<longleftrightarrow>
     a \<le> lc_start c \<and> lc_start c \<le> lc_end c \<and> lc_end c \<le> n \<and> seq_hunks (lc_end c) n cs"

lemma seq_hunks_mono: "seq_hunks a n hs \<Longrightarrow> a' \<le> a \<Longrightarrow> seq_hunks a' n hs"
  by (cases hs) auto

lemma hunks_from_seq: "hunks_from a n hs \<Longrightarrow> seq_hunks a n hs"
proof (induction hs arbitrary: a)
  case (Cons h hs)
  then show ?case using seq_hunks_mono [of "Suc (lc_end h)" n hs "lc_end h"] by simp
qed simp

lemma seq_hunks_append:
  "seq_hunks s e hs \<Longrightarrow> seq_hunks e n hs' \<Longrightarrow> s \<le> e \<Longrightarrow> e \<le> n \<Longrightarrow> seq_hunks s n (hs @ hs')"
  by (induction hs arbitrary: s) (auto intro: seq_hunks_mono)

lemma render_apply_hunks:
  "seq_hunks a e hs \<Longrightarrow> a \<le> e \<Longrightarrow> e \<le> length base \<Longrightarrow>
   renderChangeComponent base a e hs = Some (apply_hunks base a e hs)"
  by (induction hs arbitrary: a) (auto simp: slice_def)

lemma apply_hunks_shift:
  "seq_hunks s e hs \<Longrightarrow> a \<le> s \<Longrightarrow> s \<le> e \<Longrightarrow> e \<le> length base \<Longrightarrow>
   apply_hunks base a e hs = take (s - a) (drop a base) @ apply_hunks base s e hs"
  by (cases hs) (auto simp: slice_join append_assoc [symmetric] simp del: append_assoc)

lemma apply_hunks_append:
  "seq_hunks s e hs \<Longrightarrow> s \<le> e \<Longrightarrow> seq_hunks e n hs' \<Longrightarrow> e \<le> n \<Longrightarrow> n \<le> length base \<Longrightarrow>
   apply_hunks base s n (hs @ hs') = apply_hunks base s e hs @ apply_hunks base e n hs'"
proof (induction hs arbitrary: s)
  case Nil
  then show ?case using apply_hunks_shift [of e n hs' s base] by simp
qed auto

text \<open>The hunks of an alignment turn the base into the side they come from.\<close>

lemma changes_loop_correct:
  assumes "aligned (drop k base) (drop k match) other startO"
    and "k \<le> length base" and "startB \<le> k" and "length match = length base"
  shows "\<exists>hs. changes_loop base other match k startB startO = Some hs
      \<and> hunks_from startB (length base) hs
      \<and> apply_hunks base startB (length base) hs = drop startO other"
  using assms
proof (induction "length base - k" arbitrary: k startB startO)
  case 0
  then have k: "k = length base" and o: "startO \<le> length other" by auto
  have "changes_loop base other match (Suc k) sB sO = Some []" for sB sO
    using k by (subst changes_loop.simps) simp
  then have loop: "changes_loop base other match k startB startO =
      (if startB \<noteq> k \<or> startO \<noteq> length other
       then Some [\<lparr>lc_start = startB, lc_end = k, lc_lines = drop startO other\<rparr>] else Some [])"
    using k o by (subst changes_loop.simps) (simp add: slice_def)
  show ?case unfolding loop using k o "0.prems" by auto
next
  case (Suc x)
  then have k: "k < length base" by simp
  then have b: "drop k base = base ! k # drop (Suc k) base"
    and m: "drop k match = match ! k # drop (Suc k) match"
    using Suc.prems by (simp_all add: Cons_nth_drop_Suc)
  show ?case
  proof (cases "match ! k < 0")
    case True
    have "changes_loop base other match k startB startO =
        changes_loop base other match (Suc k) startB startO"
      using k True by (subst changes_loop.simps) simp
    moreover have "aligned (drop (Suc k) base) (drop (Suc k) match) other startO"
      using Suc.prems(1) True b m by simp
    ultimately show ?thesis using Suc.hyps(1) [of "Suc k" startO startB] Suc.hyps(2) Suc.prems k
      by simp
  next
    case False
    let ?v = "nat (match ! k)"
    have v: "startO \<le> ?v" "?v < length other" "other ! ?v = base ! k"
      and al: "aligned (drop (Suc k) base) (drop (Suc k) match) other (Suc ?v)"
      using Suc.prems(1) False b m by auto
    have x: "x = length base - Suc k" using Suc.hyps(2) by simp
    obtain hs where hs: "changes_loop base other match (Suc k) (Suc k) (Suc ?v) = Some hs"
      "hunks_from (Suc k) (length base) hs"
      "apply_hunks base (Suc k) (length base) hs = drop (Suc ?v) other"
      using Suc.hyps(1) [OF x al _ order_refl Suc.prems(4)] k by auto
    have tail: "apply_hunks base k (length base) hs = drop ?v other"
      using hs(2,3) k v apply_hunks_shift [OF hunks_from_seq [OF hs(2)], of k]
      by (simp add: take_Suc_conv_app_nth Cons_nth_drop_Suc [symmetric])
    have loop: "changes_loop base other match k startB startO =
        (if startB \<noteq> k \<or> startO \<noteq> ?v
         then Some (\<lparr>lc_start = startB, lc_end = k,
                     lc_lines = take (?v - startO) (drop startO other)\<rparr> # hs) else Some hs)"
      using k False v hs(1) by (subst changes_loop.simps) (simp add: slice_def)
    have "take (?v - startO) (drop startO other) @ drop ?v other = drop startO other"
      using v by (metis append_take_drop_id drop_drop le_add_diff_inverse2)
    then show ?thesis using loop tail hs(2) k Suc.prems
      by (auto intro: hunks_from_mono)
  qed
qed


section \<open>Components\<close>

lemma overlap_sym: "lineChangesOverlap c d = lineChangesOverlap d c"
  by (auto simp: lineChangesOverlap_def Let_def)

lemma overlap_touch:
  "lineChangesOverlap c d \<Longrightarrow> lc_start c \<le> lc_end c \<Longrightarrow> lc_start d \<le> lc_end d \<Longrightarrow>
   lc_start c \<le> lc_end d \<and> lc_start d \<le> lc_end c"
  by (auto simp: lineChangesOverlap_def Let_def split: if_splits)

lemma no_overlap_after:
  "\<not> lineChangesOverlap c d \<Longrightarrow> lc_start c \<le> lc_end c \<Longrightarrow> lc_start d \<le> lc_end d \<Longrightarrow>
   lc_start d \<le> lc_start c \<Longrightarrow> lc_end d \<le> lc_start c"
  by (auto simp: lineChangesOverlap_def Let_def split: if_splits)

lemma changeOverlapsAny_iff: "changeOverlapsAny c ds \<longleftrightarrow> (\<exists>d \<in> set ds. lineChangesOverlap c d)"
  by (auto simp: changeOverlapsAny_def list_ex_iff)

text \<open>What is absorbed into one group starts no later than anything left on the other side.\<close>

lemma absorbed_before:
  assumes c: "c \<in> set (takeWhile (\<lambda>c. changeOverlapsAny c tg) ms)"
    and hm: "hunks_from a n (mg @ ms)" and ht: "hunks_from b n (tg @ ts)" and t: "t \<in> set ts"
  shows "lc_start c \<le> lc_start t"
proof -
  from c obtain d where d: "d \<in> set tg" "lineChangesOverlap c d" and cm: "c \<in> set ms"
    by (auto dest!: set_takeWhileD simp: changeOverlapsAny_iff)
  have "lc_start c \<le> lc_end c" and "lc_start d \<le> lc_end d"
    using hunks_from_mem [OF hm] hunks_from_mem [OF ht] cm d(1) by auto
  then have "lc_start c \<le> lc_end d" using overlap_touch d(2) by blast
  also have "lc_end d < lc_start t" using hunks_from_order [OF ht d(1) t] .
  finally show ?thesis by simp
qed

lemma left_over_after:
  assumes stop: "takeWhile (\<lambda>c. changeOverlapsAny c tg) ms = []"
    and hm: "hunks_from a n (mg @ ms)" and ht: "hunks_from b n (tg @ ts)"
    and I: "\<forall>d \<in> set tg. \<forall>c \<in> set ms. lc_start d \<le> lc_start c"
    and d: "d \<in> set tg" and c: "c \<in> set ms"
  shows "lc_end d \<le> lc_start c"
proof -
  from c obtain c0 ms0 where ms: "ms = c0 # ms0" by (cases ms) auto
  then have "\<not> lineChangesOverlap c0 d"
    using stop d by (auto simp: changeOverlapsAny_iff split: if_splits)
  moreover have "lc_start c0 \<le> lc_end c0" "lc_start d \<le> lc_end d"
    using hunks_from_mem [OF hm] hunks_from_mem [OF ht] ms d by auto
  ultimately have "lc_end d \<le> lc_start c0"
    using no_overlap_after I d ms by auto
  moreover have "lc_start c0 \<le> lc_start c"
  proof (cases "c = c0")
    case False
    then have "lc_end c0 < lc_start c"
      using hunks_from_order [of a n "mg @ [c0]" ms0 c0 c] hm ms c by simp
    then show ?thesis using \<open>lc_start c0 \<le> lc_end c0\<close> by simp
  qed simp
  ultimately show ?thesis by simp
qed

lemma expand_component_separates:
  "expand_component mg tg ms ts = (mg', tg', ms', ts') \<Longrightarrow>
   hunks_from a n (mg @ ms) \<Longrightarrow> hunks_from b n (tg @ ts) \<Longrightarrow>
   \<forall>d \<in> set tg. \<forall>c \<in> set ms. lc_start d \<le> lc_start c \<Longrightarrow>
   \<forall>m \<in> set mg. \<forall>t \<in> set ts. lc_start m \<le> lc_start t \<Longrightarrow>
   (\<forall>d \<in> set tg'. \<forall>c \<in> set ms'. lc_end d \<le> lc_start c)
   \<and> (\<forall>m \<in> set mg'. \<forall>t \<in> set ts'. lc_end m \<le> lc_start t)"
proof (induction mg tg ms ts arbitrary: mg' tg' ms' ts' rule: expand_component.induct)
  case (1 mg tg ms ts)
  let ?P = "\<lambda>c. changeOverlapsAny c tg"
  let ?Q = "\<lambda>c. changeOverlapsAny c (mg @ takeWhile ?P ms)"
  show ?case
  proof (cases "takeWhile ?P ms = [] \<and> takeWhile ?Q ts = []")
    case True
    have "expand_component mg tg ms ts = (mg, tg, ms, ts)"
      by (subst expand_component_unfold) (rule if_P [OF True])
    then have eq: "mg' = mg" "tg' = tg" "ms' = ms" "ts' = ts" using 1(2) by simp_all
    have stop: "takeWhile ?P ms = []" "takeWhile (\<lambda>c. changeOverlapsAny c mg) ts = []"
      using True by (simp, metis True append_Nil2)
    show ?thesis unfolding eq
      using left_over_after [OF stop(1) 1(3,4,5)] left_over_after [OF stop(2) 1(4,3,6)] by blast
  next
    case False
    let ?ms = "dropWhile ?P ms" and ?ts = "dropWhile ?Q ts"
    let ?mg = "mg @ takeWhile ?P ms" and ?tg = "tg @ takeWhile ?Q ts"
    have step: "expand_component ?mg ?tg ?ms ?ts = (mg', tg', ms', ts')"
      using 1(2) False by (subst (asm) expand_component.simps) (simp only: Let_def if_False)
    have h: "hunks_from a n (?mg @ ?ms)" "hunks_from b n (?tg @ ?ts)"
      using 1(3,4) by simp_all
    have mts: "\<forall>m \<in> set ?mg. \<forall>t \<in> set ts. lc_start m \<le> lc_start t"
      using 1(6) absorbed_before [OF _ 1(3,4)] by (metis Un_iff set_append)
    have I1: "\<forall>d \<in> set ?tg. \<forall>c \<in> set ?ms. lc_start d \<le> lc_start c"
    proof (intro ballI)
      fix d c assume d: "d \<in> set ?tg" and c: "c \<in> set ?ms"
      have "d \<in> set tg \<or> d \<in> set (takeWhile ?Q ts)" using d by simp
      then show "lc_start d \<le> lc_start c"
        using 1(5) absorbed_before [OF _ 1(4) h(1) c] set_dropWhileD [OF c] by blast
    qed
    have I2: "\<forall>m \<in> set ?mg. \<forall>t \<in> set ?ts. lc_start m \<le> lc_start t"
      using mts by (meson set_dropWhileD)
    show ?thesis
      by (rule 1(1) [OF refl refl refl refl refl refl False step h I1 I2])
  qed
qed


text \<open>A component starts with the earlier of the two next hunks.\<close>

lemma component_start:
  assumes comp: "overlappingChangeComponent ms ts = Some r"
    and hm: "hunks_from a n ms" and ht: "hunks_from a n ts"
  obtains (mine) m ms0 where "ms = m # ms0" "expand_component [m] [] ms0 ts = r"
      "\<forall>t \<in> set ts. lc_start m \<le> lc_start t"
    | (theirs) t ts0 where "ts = t # ts0" "expand_component [] [t] ms ts0 = r"
      "\<forall>m \<in> set ms. lc_start t \<le> lc_start m"
proof (cases ts)
  case Nil
  with comp that(1) show ?thesis
    by (auto simp: overlappingChangeComponent_def split: list.splits)
next
  case t: (Cons t ts0)
  have after: "\<forall>t' \<in> set ts0. lc_start t \<le> lc_start t'"
    using ht t by (auto dest: hunks_from_mem)
  show ?thesis
  proof (cases ms)
    case Nil
    with comp t that(2) show ?thesis by (auto simp: overlappingChangeComponent_def)
  next
    case m: (Cons m ms0)
    have "\<forall>m' \<in> set ms0. lc_start m \<le> lc_start m'"
      using hm m by (auto dest: hunks_from_mem)
    then show ?thesis using comp t m that after
      by (fastforce simp: overlappingChangeComponent_def split: if_splits)
  qed
qed

lemma component_separates:
  assumes comp: "overlappingChangeComponent ms ts = Some (mg, tg, ms', ts')"
    and hm: "hunks_from a n ms" and ht: "hunks_from a n ts"
  shows "\<forall>c \<in> set mg \<union> set tg. \<forall>d \<in> set ms' \<union> set ts'. lc_end c \<le> lc_start d"
proof -
  have app: "hunks_from a n (mg @ ms')" "hunks_from a n (tg @ ts')"
    using component_append [OF comp] hm ht by simp_all
  from comp hm ht have "(\<forall>d \<in> set tg. \<forall>c \<in> set ms'. lc_end d \<le> lc_start c)
      \<and> (\<forall>m \<in> set mg. \<forall>t \<in> set ts'. lc_end m \<le> lc_start t)"
  proof (cases rule: component_start)
    case (mine m ms0)
    then show ?thesis
      using expand_component_separates [OF mine(2), of a n a] hm ht by simp
  next
    case (theirs t ts0)
    then show ?thesis
      using expand_component_separates [OF theirs(2), of a n a] hm ht by simp
  qed
  then show ?thesis
    using hunks_from_order [OF app(1)] hunks_from_order [OF app(2)] by (auto simp: less_imp_le)
qed

text \<open>A hunk that overlaps nothing on the other side is a component of its own.\<close>

lemma expand_component_overlaps:
  "expand_component mg tg ms ts = (mg', tg', ms', ts') \<Longrightarrow>
   (\<forall>c \<in> set mg'. c \<in> set mg \<or> (\<exists>d \<in> set (tg @ ts). lineChangesOverlap c d))
   \<and> (\<forall>d \<in> set tg'. d \<in> set tg \<or> (\<exists>c \<in> set (mg @ ms). lineChangesOverlap d c))"
proof (induction mg tg ms ts arbitrary: mg' tg' ms' ts' rule: expand_component.induct)
  case (1 mg tg ms ts)
  let ?P = "\<lambda>c. changeOverlapsAny c tg"
  let ?Q = "\<lambda>c. changeOverlapsAny c (mg @ takeWhile ?P ms)"
  show ?case
  proof (cases "takeWhile ?P ms = [] \<and> takeWhile ?Q ts = []")
    case True
    have "expand_component mg tg ms ts = (mg, tg, ms, ts)"
      by (subst expand_component_unfold) (rule if_P [OF True])
    with 1(2) show ?thesis by simp
  next
    case False
    have step: "expand_component (mg @ takeWhile ?P ms) (tg @ takeWhile ?Q ts)
        (dropWhile ?P ms) (dropWhile ?Q ts) = (mg', tg', ms', ts')"
      using 1(2) False by (subst (asm) expand_component.simps) (simp only: Let_def if_False)
    have "\<forall>c \<in> set (takeWhile ?P ms). \<exists>d \<in> set (tg @ ts). lineChangesOverlap c d"
      by (auto dest!: set_takeWhileD simp: changeOverlapsAny_iff)
    moreover have "\<forall>d \<in> set (takeWhile ?Q ts). \<exists>c \<in> set (mg @ ms). lineChangesOverlap d c"
      by (auto dest!: set_takeWhileD simp: changeOverlapsAny_iff)
    moreover note 1(1) [OF refl refl refl refl refl refl False step]
    ultimately show ?thesis
      by (simp only: append_assoc takeWhile_dropWhile_id set_append Un_iff) blast
  qed
qed

lemma expand_component_lone_mine:
  assumes "\<forall>d \<in> set ts. \<not> lineChangesOverlap d c"
  shows "expand_component [c] [] ms ts = ([c], [], ms, ts)"
  using assms
  by (subst expand_component_unfold) (cases ts; cases ms; auto simp: changeOverlapsAny_iff)

lemma expand_component_lone_theirs:
  assumes "\<forall>c \<in> set ms. \<not> lineChangesOverlap c d"
  shows "expand_component [] [d] ms ts = ([], [d], ms, ts)"
  using assms
  by (subst expand_component_unfold) (cases ts; cases ms; auto simp: changeOverlapsAny_iff)

lemma lone_component:
  assumes comp: "overlappingChangeComponent ms ts = Some (mg, tg, ms', ts')"
    and hm: "hunks_from a n ms" and ht: "hunks_from a n ts"
  shows "c \<in> set mg \<Longrightarrow> \<forall>d \<in> set ts. \<not> lineChangesOverlap c d \<Longrightarrow> mg = [c] \<and> tg = []"
    and "d \<in> set tg \<Longrightarrow> \<forall>c \<in> set ms. \<not> lineChangesOverlap c d \<Longrightarrow> tg = [d] \<and> mg = []"
proof -
  show "mg = [c] \<and> tg = []" if "c \<in> set mg" and "\<forall>d \<in> set ts. \<not> lineChangesOverlap c d"
    using comp hm ht
  proof (cases rule: component_start)
    case (mine m ms0)
    then have "c = m" using expand_component_overlaps [OF mine(2)] that by auto
    then show ?thesis
      using mine(2) that(2) expand_component_lone_mine [of ts c ms0] by (simp add: overlap_sym)
  next
    case (theirs t ts0)
    then show ?thesis using expand_component_overlaps [OF theirs(2)] that by auto
  qed
  show "tg = [d] \<and> mg = []" if "d \<in> set tg" and "\<forall>c \<in> set ms. \<not> lineChangesOverlap c d"
    using comp hm ht
  proof (cases rule: component_start)
    case (mine m ms0)
    then show ?thesis
      using expand_component_overlaps [OF mine(2)] that by (auto simp: overlap_sym [of d])
  next
    case (theirs t ts0)
    then have "d = t"
      using expand_component_overlaps [OF theirs(2)] that by (auto simp: overlap_sym [of d])
    then show ?thesis
      using theirs(2) that(2) expand_component_lone_theirs [of ms d ts0] by simp
  qed
qed

lemma component_bounds_loop_props:
  assumes "component_bounds_loop s e cs = (s', e')"
    and "\<forall>c \<in> set cs. lc_start c \<le> lc_end c" and "s \<le> e" and "0 \<le> s \<or> s = -1 \<and> e = -1"
  shows "(\<forall>c \<in> set cs. s' \<le> int (lc_start c) \<and> int (lc_end c) \<le> e')
    \<and> (0 \<le> s \<longrightarrow> s' \<le> s) \<and> e \<le> e' \<and> s' \<le> e'
    \<and> (s' = s \<or> (\<exists>c \<in> set cs. s' = int (lc_start c)))
    \<and> (e' = e \<or> (\<exists>c \<in> set cs. e' = int (lc_end c)))"
  using assms
proof (induction s e cs rule: component_bounds_loop.induct)
  case (2 s e c cs)
  let ?s = "if s < 0 \<or> int (lc_start c) < s then int (lc_start c) else s"
  let ?e = "if int (lc_end c) > e then int (lc_end c) else e"
  have "?s \<le> ?e" "0 \<le> ?s" using 2(3,4,5) by auto
  then have IH: "(\<forall>c \<in> set cs. s' \<le> int (lc_start c) \<and> int (lc_end c) \<le> e')
    \<and> s' \<le> ?s \<and> ?e \<le> e' \<and> s' \<le> e'
    \<and> (s' = ?s \<or> (\<exists>c \<in> set cs. s' = int (lc_start c)))
    \<and> (e' = ?e \<or> (\<exists>c \<in> set cs. e' = int (lc_end c)))"
    using 2(1,2,3) by simp
  have "?s \<le> int (lc_start c)" "0 \<le> s \<Longrightarrow> ?s \<le> s" "int (lc_end c) \<le> ?e" "e \<le> ?e"
    "?s = s \<or> ?s = int (lc_start c)" "?e = e \<or> ?e = int (lc_end c)"
    by auto
  with IH show ?case by (auto intro: order_trans)
qed simp


lemma changeComponentBounds_props:
  assumes ne: "mg \<noteq> [] \<or> tg \<noteq> []"
    and wf: "\<forall>c \<in> set mg \<union> set tg. lc_start c \<le> lc_end c"
  obtains s e where "changeComponentBounds mg tg = (int s, int e)" and "s \<le> e"
    and "\<forall>c \<in> set mg \<union> set tg. s \<le> lc_start c \<and> lc_end c \<le> e"
    and "\<exists>c \<in> set mg \<union> set tg. s = lc_start c" and "\<exists>c \<in> set mg \<union> set tg. e = lc_end c"
proof -
  obtain c cs where cs: "mg @ tg = c # cs" using ne by (cases "mg @ tg") auto
  obtain s' e' where b: "component_bounds_loop (int (lc_start c)) (int (lc_end c)) cs = (s', e')"
    by (cases "component_bounds_loop (int (lc_start c)) (int (lc_end c)) cs")
  have set: "set mg \<union> set tg = insert c (set cs)" using cs by (metis list.simps(15) set_append)
  have p: "(\<forall>c \<in> set cs. s' \<le> int (lc_start c) \<and> int (lc_end c) \<le> e')
    \<and> s' \<le> int (lc_start c) \<and> int (lc_end c) \<le> e' \<and> s' \<le> e'
    \<and> (s' = int (lc_start c) \<or> (\<exists>c \<in> set cs. s' = int (lc_start c)))
    \<and> (e' = int (lc_end c) \<or> (\<exists>c \<in> set cs. e' = int (lc_end c)))"
    using component_bounds_loop_props [OF b] wf set by auto
  have "changeComponentBounds mg tg = (s', e')"
    using b by (simp add: changeComponentBounds_def cs)
  moreover obtain s e where se: "s' = int s" "e' = int e" using p by fastforce
  ultimately show ?thesis using p by (intro that [of s e]) (auto simp: set)
qed


section \<open>The merge loop\<close>

text \<open>
  \<open>merges base a ms ts hs\<close>: the edits \<open>hs\<close> come from the two sides, fit together from line
  \<open>a\<close> on, and contain every edit of a side that overlaps no edit of the other.
\<close>

definition merges :: "string list \<Rightarrow> nat \<Rightarrow> lineChange list \<Rightarrow> lineChange list \<Rightarrow> lineChange list \<Rightarrow> bool" where
  "merges base a ms ts hs \<longleftrightarrow>
     seq_hunks a (length base) hs \<and> set hs \<subseteq> set ms \<union> set ts
     \<and> (\<forall>c \<in> set ms. (\<forall>d \<in> set ts. \<not> lineChangesOverlap c d) \<longrightarrow> c \<in> set hs)
     \<and> (\<forall>d \<in> set ts. (\<forall>c \<in> set ms. \<not> lineChangesOverlap c d) \<longrightarrow> d \<in> set hs)"

definition real_conflict :: "lineMergeConflict \<Rightarrow> bool" where
  "real_conflict c \<longleftrightarrow> lmc_mine c \<noteq> lmc_base c \<and> lmc_theirs c \<noteq> lmc_base c \<and> lmc_mine c \<noteq> lmc_theirs c"

text \<open>One component, with everything the loop needs to know about it.\<close>

lemma component_split:
  assumes comp: "overlappingChangeComponent ms ts = Some (mg, tg, ms', ts')"
    and hm: "hunks_from a n ms" and ht: "hunks_from a n ts"
  obtains s e where "changeComponentBounds mg tg = (int s, int e)" and "a \<le> s" and "s \<le> e" and "e \<le> n"
    and "seq_hunks s e mg" and "seq_hunks s e tg" and "hunks_from e n ms'" and "hunks_from e n ts'"
proof -
  note app = component_append [OF comp]
  have h: "hunks_from a n (mg @ ms')" "hunks_from a n (tg @ ts')" using app hm ht by simp_all
  have mem: "\<forall>c \<in> set mg \<union> set tg. a \<le> lc_start c \<and> lc_start c \<le> lc_end c \<and> lc_end c \<le> n"
    using hunks_from_mem [OF h(1)] hunks_from_mem [OF h(2)] by auto
  obtain s e where b: "changeComponentBounds mg tg = (int s, int e)" "s \<le> e"
      "\<forall>c \<in> set mg \<union> set tg. s \<le> lc_start c \<and> lc_end c \<le> e"
      "\<exists>c \<in> set mg \<union> set tg. s = lc_start c" "\<exists>c \<in> set mg \<union> set tg. e = lc_end c"
    by (rule changeComponentBounds_props [OF app(3)]) (use mem in auto)
  have "hunks_from s e mg" "hunks_from s e tg"
    using hunks_from_prefix [OF h(1)] hunks_from_prefix [OF h(2)] b(3) by auto
  moreover have "hunks_from e n ms'" "hunks_from e n ts'"
    using hunks_from_suffix [OF h(1)] hunks_from_suffix [OF h(2)]
      component_separates [OF comp hm ht] b(5) by auto
  ultimately show ?thesis using b mem by (intro that [of s e]) (auto intro: hunks_from_seq)
qed

text \<open>A component that is resolved keeps the edits of one side, and of the only side that has any.\<close>

lemma resolve_cases:
  assumes "resolve_component s e b m t = Inr out"
  obtains "concat m = concat t" "out = m"
    | "concat m \<noteq> concat t" "concat m = concat b" "out = t"
    | "concat m \<noteq> concat t" "concat m \<noteq> concat b" "concat t = concat b" "out = m"
  using assms unfolding resolve_component_def Let_def
  by (cases "concat m = concat t"; cases "concat m = concat b"; cases "concat t = concat b") auto

lemma resolve_choice:
  assumes "resolve_component s e (take (e - s) (drop s base))
      (apply_hunks base s e mg) (apply_hunks base s e tg) = Inr out"
  obtains H where "H = mg \<or> H = tg" and "concat out = concat (apply_hunks base s e H)"
    and "tg = [] \<Longrightarrow> H = mg" and "mg = [] \<Longrightarrow> H = tg"
proof -
  have nil: "apply_hunks base s e [] = take (e - s) (drop s base)" by simp
  show ?thesis
    using assms
  proof (cases rule: resolve_cases)
    case 1
    then show ?thesis by (intro that [of "if mg = [] then tg else mg"]) auto
  next
    case 2
    then show ?thesis using nil by (intro that [of tg]) auto
  next
    case 3
    then show ?thesis using nil by (intro that [of mg]) auto
  qed
qed

lemma resolve_real_conflict:
  "resolve_component s e b m t = Inl c \<Longrightarrow> real_conflict c"
  by (auto simp: resolve_component_def Let_def real_conflict_def split: if_splits)

lemma merges_step:
  assumes comp: "overlappingChangeComponent ms ts = Some (mg, tg, ms', ts')"
    and hm: "hunks_from a (length base) ms" and ht: "hunks_from a (length base) ts"
    and b: "a \<le> s" "s \<le> e" "e \<le> length base" "seq_hunks s e H"
    and H: "H = mg \<or> H = tg" "tg = [] \<Longrightarrow> H = mg" "mg = [] \<Longrightarrow> H = tg"
    and hs: "merges base e ms' ts' hs"
  shows "merges base a ms ts (H @ hs)"
proof -
  have ms: "set ms = set mg \<union> set ms'" and ts: "set ts = set tg \<union> set ts'"
    using component_append [OF comp] by auto
  have "seq_hunks a (length base) (H @ hs)"
    using seq_hunks_append [of s e H "length base" hs] seq_hunks_mono [of s _ _ a] b hs
    by (simp add: merges_def)
  moreover have "c \<in> set (H @ hs)"
    if c: "c \<in> set ms" and lone: "\<forall>d \<in> set ts. \<not> lineChangesOverlap c d" for c
  proof (cases "c \<in> set mg")
    case True
    then have "mg = [c] \<and> tg = []" using lone_component(1) [OF comp hm ht] lone by blast
    then show ?thesis using H by simp
  next
    case False
    then show ?thesis using c lone ms ts hs by (auto simp: merges_def)
  qed
  moreover have "d \<in> set (H @ hs)"
    if d: "d \<in> set ts" and lone: "\<forall>c \<in> set ms. \<not> lineChangesOverlap c d" for d
  proof (cases "d \<in> set tg")
    case True
    then have "tg = [d] \<and> mg = []" using lone_component(2) [OF comp hm ht] lone by blast
    then show ?thesis using H by simp
  next
    case False
    then show ?thesis using d lone ms ts hs by (auto simp: merges_def)
  qed
  moreover have "set (H @ hs) \<subseteq> set ms \<union> set ts"
    using H(1) hs ms ts by (auto simp: merges_def)
  ultimately show ?thesis by (simp add: merges_def)
qed

lemma merge_loop_correct:
  assumes "hunks_from a (length base) ms" and "hunks_from a (length base) ts" and "a \<le> length base"
  shows "\<exists>conflicts out. merge_loop base ms ts a = Some (conflicts, out)
      \<and> (\<forall>c \<in> set conflicts. real_conflict c)
      \<and> (conflicts = [] \<longrightarrow> (\<exists>hs. merges base a ms ts hs
            \<and> concat out = concat (apply_hunks base a (length base) hs)))
      \<and> ((\<forall>c \<in> set ms. \<forall>d \<in> set ts. \<not> lineChangesOverlap c d) \<longrightarrow> conflicts = [])"
  using assms
proof (induction "length ms + length ts" arbitrary: ms ts a rule: less_induct)
  case less
  let ?n = "length base"
  show ?case
  proof (cases "overlappingChangeComponent ms ts")
    case None
    then have "ms = []" "ts = []"
      by (auto simp: overlappingChangeComponent_def split: list.splits if_splits)
    then show ?thesis using None less.prems
      by (auto simp: merge_loop.simps [of base "[]" "[]"] slice_def merges_def intro!: exI [of _ "[]"])
  next
    case (Some r)
    obtain mg tg ms' ts' where r: "r = (mg, tg, ms', ts')" by (cases r)
    note comp = Some [unfolded r]
    obtain s e where b: "changeComponentBounds mg tg = (int s, int e)" "a \<le> s" "s \<le> e" "e \<le> ?n"
        "seq_hunks s e mg" "seq_hunks s e tg" "hunks_from e ?n ms'" "hunks_from e ?n ts'"
      using component_split [OF comp less.prems(1,2)] .
    obtain cs rest where rest: "merge_loop base ms' ts' e = Some (cs, rest)"
        "\<forall>c \<in> set cs. real_conflict c"
        "cs = [] \<longrightarrow> (\<exists>hs. merges base e ms' ts' hs
            \<and> concat rest = concat (apply_hunks base e ?n hs))"
        "(\<forall>c \<in> set ms'. \<forall>d \<in> set ts'. \<not> lineChangesOverlap c d) \<longrightarrow> cs = []"
      using less.hyps [OF component_consumes [OF comp] b(7,8,4)] by blast
    let ?B = "take (e - s) (drop s base)" and ?G = "take (s - a) (drop a base)"
    let ?res = "resolve_component s e ?B (apply_hunks base s e mg) (apply_hunks base s e tg)"
    have loop: "merge_loop base ms ts a =
        (case ?res of Inl c \<Rightarrow> Some (c # cs, ?G @ rest) | Inr out \<Rightarrow> Some (cs, ?G @ out @ rest))"
      by (subst merge_loop.simps) (use b in \<open>simp add: comp slice_def render_apply_hunks rest(1)\<close>)
    have sub: "set ms' \<subseteq> set ms" "set ts' \<subseteq> set ts" "set mg \<subseteq> set ms" "set tg \<subseteq> set ts"
      using component_append [OF comp] by auto
    show ?thesis
    proof (cases ?res)
      case (Inl c)
      have "mg = [] \<or> tg = []" if "\<forall>c \<in> set ms. \<forall>d \<in> set ts. \<not> lineChangesOverlap c d"
      proof (cases mg)
        case (Cons c' cs')
        then have "c' \<in> set mg" and "\<forall>d \<in> set ts. \<not> lineChangesOverlap c' d"
          using that sub by auto
        then show ?thesis using lone_component(1) [OF comp less.prems(1,2)] by blast
      qed simp
      moreover have "mg \<noteq> []" "tg \<noteq> []"
        using Inl by (auto simp: resolve_component_def Let_def split: if_splits)
      ultimately have "\<not> (\<forall>c \<in> set ms. \<forall>d \<in> set ts. \<not> lineChangesOverlap c d)" by blast
      with Inl loop rest(2) show ?thesis by (auto intro: resolve_real_conflict)
    next
      case (Inr out)
      obtain H where H: "H = mg \<or> H = tg" "concat out = concat (apply_hunks base s e H)"
          "tg = [] \<Longrightarrow> H = mg" "mg = [] \<Longrightarrow> H = tg"
        using resolve_choice [OF Inr] by blast
      have seqH: "seq_hunks s e H" using H(1) b by auto
      have "\<exists>hs. merges base a ms ts hs
          \<and> concat (?G @ out @ rest) = concat (apply_hunks base a ?n hs)" if cs: "cs = []"
      proof -
        from rest(3) cs obtain hs where hs: "merges base e ms' ts' hs"
          "concat rest = concat (apply_hunks base e ?n hs)" by blast
        have "seq_hunks e ?n hs" using hs(1) by (simp add: merges_def)
        then have "apply_hunks base a ?n (H @ hs) = ?G @ apply_hunks base s e H @ apply_hunks base e ?n hs"
          using apply_hunks_shift [of s ?n "H @ hs" a base] seq_hunks_append [OF seqH] b(2,3,4)
            apply_hunks_append [OF seqH] by simp
        moreover have "merges base a ms ts (H @ hs)"
          by (rule merges_step [OF comp less.prems(1,2) b(2,3,4) seqH H(1,3,4) hs(1)])
        ultimately show ?thesis using H(2) hs(2) by (intro exI [of _ "H @ hs"]) simp
      qed
      with Inr loop rest(2,4) sub show ?thesis by auto blast
    qed
  qed
qed

section \<open>Properties\<close>

lemma lcs_len_attained: "\<exists>zs. subseq zs xs \<and> subseq zs ys \<and> length zs = lcs_len xs ys"
proof (induction xs ys rule: lcs_len.induct)
  case (3 x xs y ys)
  show ?case
  proof (cases "x = y")
    case True
    with 3(1) obtain zs where "subseq zs xs" "subseq zs ys" "length zs = lcs_len xs ys" by blast
    with True show ?thesis by (intro exI [of _ "x # zs"]) simp
  next
    case False
    obtain us vs where "subseq us xs" "subseq us (y # ys)" "length us = lcs_len xs (y # ys)"
      and "subseq vs (x # xs)" "subseq vs ys" "length vs = lcs_len (x # xs) ys"
      using 3(2,3) False by blast
    with False show ?thesis
      by (cases "length us \<le> length vs") (auto simp: max_def intro: exI [of _ us] exI [of _ vs] subseq_Cons')
  qed
qed auto

lemma subseq_rev: "subseq xs ys \<Longrightarrow> subseq (rev xs) (rev ys)"
  by (induction rule: list_emb.induct) (auto intro: subseq_rev_drop_many list_emb_append_mono)

lemma lcs_len_rev: "lcs_len (rev xs) (rev ys) = lcs_len xs ys"
proof (rule antisym)
  obtain zs where "subseq zs (rev xs)" "subseq zs (rev ys)" "length zs = lcs_len (rev xs) (rev ys)"
    using lcs_len_attained by blast
  then show "lcs_len (rev xs) (rev ys) \<le> lcs_len xs ys"
    using lcs_len_optimal [of "rev zs" xs ys] subseq_rev by fastforce
  obtain zs where "subseq zs xs" "subseq zs ys" "length zs = lcs_len xs ys"
    using lcs_len_attained by blast
  then show "lcs_len xs ys \<le> lcs_len (rev xs) (rev ys)"
    using lcs_len_optimal [of "rev zs" "rev xs" "rev ys"] subseq_rev by fastforce
qed

lemma aligned_first: "aligned base (lcsMatchPreferFirst base other) other 0"
  using aligned_align_first [of 0 other other base] by (simp add: lcsMatchPreferFirst_align)

lemma changes_of_aligned:
  assumes "aligned base match other 0"
  shows "\<exists>hs. lineChangesFromAlignment base other match = Some hs
      \<and> hunks_from 0 (length base) hs \<and> apply_hunks base 0 (length base) hs = other"
  using changes_loop_correct [of 0 base match other 0 0] assms aligned_length [OF assms]
  by (simp add: lineChangesFromAlignment_def)

lemma mergeWithAlignment_correct:
  assumes "aligned base mm mine 0" and "aligned base mt theirs 0"
  shows "\<exists>ms ts r. lineChangesFromAlignment base mine mm = Some ms
      \<and> lineChangesFromAlignment base theirs mt = Some ts
      \<and> mergeWithAlignment base mine theirs mm mt = Some r
      \<and> (\<forall>cs. r = Inl cs \<longrightarrow> cs \<noteq> [] \<and> (\<forall>c \<in> set cs. real_conflict c))
      \<and> (\<forall>out. r = Inr out \<longrightarrow> (\<exists>hs. merges base 0 ms ts hs
            \<and> out = concat (apply_hunks base 0 (length base) hs)))
      \<and> ((\<forall>c \<in> set ms. \<forall>d \<in> set ts. \<not> lineChangesOverlap c d) \<longrightarrow> (\<exists>out. r = Inr out))"
proof -
  obtain ms where ms: "lineChangesFromAlignment base mine mm = Some ms" "hunks_from 0 (length base) ms"
    using changes_of_aligned [OF assms(1)] by blast
  obtain ts where ts: "lineChangesFromAlignment base theirs mt = Some ts" "hunks_from 0 (length base) ts"
    using changes_of_aligned [OF assms(2)] by blast
  obtain cs out where loop: "merge_loop base ms ts 0 = Some (cs, out)"
      "\<forall>c \<in> set cs. real_conflict c"
      "cs = [] \<longrightarrow> (\<exists>hs. merges base 0 ms ts hs
          \<and> concat out = concat (apply_hunks base 0 (length base) hs))"
      "(\<forall>c \<in> set ms. \<forall>d \<in> set ts. \<not> lineChangesOverlap c d) \<longrightarrow> cs = []"
    using merge_loop_correct [OF ms(2) ts(2)] by auto
  let ?r = "if cs \<noteq> [] then Inl cs else Inr (concat out)"
  have "mergeWithAlignment base mine theirs mm mt = Some ?r"
    by (simp add: mergeWithAlignment_def ms(1) ts(1) loop(1))
  then show ?thesis
    by (intro exI [of _ ms] exI [of _ ts] exI [of _ ?r]) (use ms(1) ts(1) loop in auto)
qed

lemma lines_merge_cases:
  fixes base mine theirs
  defines "B \<equiv> splitLinesKeepEnds base" and "M \<equiv> splitLinesKeepEnds mine"
    and "T \<equiv> splitLinesKeepEnds theirs"
  defines "mm \<equiv> lcsMatchPreferFirst B M" and "mt \<equiv> lcsMatchPreferFirst B T"
  shows "linesThreeWayMerge base mine theirs = Some MergeTooLarge
    \<or> mine = theirs \<and> linesThreeWayMerge base mine theirs = Some (Merged mine)
    \<or> mine = base \<and> linesThreeWayMerge base mine theirs = Some (Merged theirs)
    \<or> theirs = base \<and> linesThreeWayMerge base mine theirs = Some (Merged mine)
    \<or> mine \<noteq> theirs \<and> mine \<noteq> base \<and> theirs \<noteq> base
      \<and> ((\<exists>c. linesThreeWayMerge base mine theirs = Some (MergeConflicts [c]) \<and> real_conflict c)
        \<or> linesThreeWayMerge base mine theirs =
            (case mergeWithAlignment B M T mm mt of None \<Rightarrow> None
             | Some (Inl conflicts) \<Rightarrow> Some (MergeConflicts conflicts)
             | Some (Inr content) \<Rightarrow> Some (Merged content)))"
  by (simp add: linesThreeWayMerge_def Let_def real_conflict_def B_def M_def T_def mm_def mt_def)

text \<open>\<open>splitLinesKeepEnds\<close> loses nothing: joining the lines gives the content back, every
  line is non-empty and contains its newline only at the end, and only the last line may lack one.\<close>

theorem splitLinesKeepEnds_roundtrip:
  "concat (splitLinesKeepEnds s) = s \<and> line_list (splitLinesKeepEnds s)"
  by (simp add: splitLinesKeepEnds_def concat_split_lines_loop line_list_loop)

text \<open>Both backtracks return an alignment of the base with the other side (matched lines
  are equal and strictly increasing) and both are optimal: no common subsequence of the two line
  lists is longer than the number of lines they match.\<close>

theorem lcs_alignments_optimal:
  assumes "subseq zs base" and "subseq zs other"
  shows "aligned base (lcsMatchPreferFirst base other) other 0
    \<and> aligned base (lcsMatchPreferLast base other) other 0
    \<and> length zs \<le> matched (lcsMatchPreferFirst base other)
    \<and> matched (lcsMatchPreferLast base other) = matched (lcsMatchPreferFirst base other)"
proof -
  have last: "matched (lcsMatchPreferLast base other) = lcs_len (rev base) (rev other)"
    by (simp add: lcsMatchPreferLast_align matched_align_last)
  have first: "matched (lcsMatchPreferFirst base other) = lcs_len base other"
    by (simp add: lcsMatchPreferFirst_align matched_align_first)
  have "aligned base (lcsMatchPreferLast base other) other 0"
    using aligned_align_last [of "rev other" other "rev base"] by (simp add: lcsMatchPreferLast_align)
  then show ?thesis
    using aligned_first lcs_len_optimal [OF assms] first last by (simp add: lcs_len_rev)
qed

theorem lcs_alignments_optimal_witness:
  "aligned [''a'', ''b'', ''c''] (lcsMatchPreferFirst [''a'', ''b'', ''c''] [''b'', ''c'', ''d'']) [''b'', ''c'', ''d''] 0
   \<and> 2 \<le> matched (lcsMatchPreferFirst [''a'', ''b'', ''c''] [''b'', ''c'', ''d''])"
  using lcs_alignments_optimal [of "[''b'', ''c'']" "[''a'', ''b'', ''c'']" "[''b'', ''c'', ''d'']"] by simp

text \<open>The hunks computed from the alignment rebuild the edited side: they are in order,
  disjoint and inside the base, and applying all of them to the base lines gives the other side's
  lines exactly.\<close>

theorem hunks_rebuild_side:
  "\<exists>hs. lineChangesFromAlignment base other (lcsMatchPreferFirst base other) = Some hs
    \<and> hunks_from 0 (length base) hs
    \<and> renderChangeComponent base 0 (length base) hs = Some other"
  using changes_of_aligned [OF aligned_first [of base other]] render_apply_hunks hunks_from_seq by fastforce

text \<open>C9. The line merge never panics: on every three contents it returns one of its outcomes.
  Every conflict it reports is real (both sides changed the unit and disagree), and there is at
  least one when it refuses.\<close>

theorem linesThreeWayMerge_total:
  "\<exists>outcome. linesThreeWayMerge base mine theirs = Some outcome
    \<and> (case outcome of MergeTooLarge \<Rightarrow> True | Merged out \<Rightarrow> True
       | MergeConflicts cs \<Rightarrow> cs \<noteq> [] \<and> list_all real_conflict cs)"
proof -
  let ?B = "splitLinesKeepEnds base"
  obtain r where r: "mergeWithAlignment ?B (splitLinesKeepEnds mine) (splitLinesKeepEnds theirs)
      (lcsMatchPreferFirst ?B (splitLinesKeepEnds mine)) (lcsMatchPreferFirst ?B (splitLinesKeepEnds theirs)) = Some r"
      "\<forall>cs. r = Inl cs \<longrightarrow> cs \<noteq> [] \<and> (\<forall>c \<in> set cs. real_conflict c)"
    using mergeWithAlignment_correct [OF aligned_first aligned_first] by blast
  from lines_merge_cases [of base mine theirs] show ?thesis
    by (elim disjE conjE exE) (use r in \<open>auto simp: list_all_iff split: sum.splits\<close>)
qed

text \<open>C7. A successful merge is a merge: unless one side is unchanged or both agree, the output
  is the base with a list of hunks applied that are all hunks of one of the two sides and contain
  every hunk, of either side, that overlaps no hunk of the other.  So no edit outside an overlap
  is lost, and nothing is invented.\<close>

theorem merged_keeps_both_sides:
  assumes "linesThreeWayMerge base mine theirs = Some (Merged out)"
    and "mine \<noteq> theirs" and "mine \<noteq> base" and "theirs \<noteq> base"
  shows "\<exists>ms ts hs.
      lineChangesFromAlignment (splitLinesKeepEnds base) (splitLinesKeepEnds mine)
        (lcsMatchPreferFirst (splitLinesKeepEnds base) (splitLinesKeepEnds mine)) = Some ms
    \<and> lineChangesFromAlignment (splitLinesKeepEnds base) (splitLinesKeepEnds theirs)
        (lcsMatchPreferFirst (splitLinesKeepEnds base) (splitLinesKeepEnds theirs)) = Some ts
    \<and> merges (splitLinesKeepEnds base) 0 ms ts hs
    \<and> out = concat (apply_hunks (splitLinesKeepEnds base) 0 (length (splitLinesKeepEnds base)) hs)"
  using lines_merge_cases [of base mine theirs] assms
    mergeWithAlignment_correct [OF aligned_first [of "splitLinesKeepEnds base" "splitLinesKeepEnds mine"]
      aligned_first [of "splitLinesKeepEnds base" "splitLinesKeepEnds theirs"]]
  by (elim disjE conjE exE) (auto split: option.splits sum.splits)

lemma merge_example_small:
  assumes "B = [CHR ''a'', CHR 0x0A, CHR ''b'', CHR 0x0A, CHR ''c'', CHR 0x0A]" and "M = [CHR ''A'', CHR 0x0A, CHR ''b'', CHR 0x0A, CHR ''c'', CHR 0x0A]"
    and "T = [CHR ''a'', CHR 0x0A, CHR ''b'', CHR 0x0A, CHR ''C'', CHR 0x0A]"
  shows "linesThreeWayMerge B M T = Some (Merged [CHR ''A'', CHR 0x0A, CHR ''b'', CHR 0x0A, CHR ''C'', CHR 0x0A])"
proof -
  have len: "length (splitLinesKeepEnds B) = 3" "length (splitLinesKeepEnds M) = 3"
      "length (splitLinesKeepEnds T) = 3"
    unfolding assms by code_simp+
  have eq: "lcsMatchesEqual (lcsMatchPreferFirst (splitLinesKeepEnds B) (splitLinesKeepEnds M))
        (lcsMatchPreferLast (splitLinesKeepEnds B) (splitLinesKeepEnds M))"
      "lcsMatchesEqual (lcsMatchPreferFirst (splitLinesKeepEnds B) (splitLinesKeepEnds T))
        (lcsMatchPreferLast (splitLinesKeepEnds B) (splitLinesKeepEnds T))"
    unfolding assms by code_simp+
  have "mergeWithAlignment (splitLinesKeepEnds B) (splitLinesKeepEnds M) (splitLinesKeepEnds T)
      (lcsMatchPreferFirst (splitLinesKeepEnds B) (splitLinesKeepEnds M))
      (lcsMatchPreferFirst (splitLinesKeepEnds B) (splitLinesKeepEnds T))
    = Some (Inr [CHR ''A'', CHR 0x0A, CHR ''b'', CHR 0x0A, CHR ''C'', CHR 0x0A])"
    unfolding assms by code_simp
  then show ?thesis
    using len eq by (simp add: linesThreeWayMerge_def Let_def maxMergeDiffLines_def) (simp add: assms)
qed

theorem merged_keeps_both_sides_witness:
  "\<exists>ms ts hs. merges (splitLinesKeepEnds [CHR ''a'', CHR 0x0A, CHR ''b'', CHR 0x0A, CHR ''c'', CHR 0x0A]) 0 ms ts hs
    \<and> [CHR ''A'', CHR 0x0A, CHR ''b'', CHR 0x0A, CHR ''C'', CHR 0x0A]
      = concat (apply_hunks (splitLinesKeepEnds [CHR ''a'', CHR 0x0A, CHR ''b'', CHR 0x0A, CHR ''c'', CHR 0x0A]) 0 3 hs)"
proof -
  have "length (splitLinesKeepEnds [CHR ''a'', CHR 0x0A, CHR ''b'', CHR 0x0A, CHR ''c'', CHR 0x0A]) = 3" by code_simp
  then show ?thesis
    using merged_keeps_both_sides [OF merge_example_small [OF refl refl refl]] by fastforce
qed

text \<open>Edits that do not overlap always merge: the component loop reports a conflict only
  when some hunk of mine overlaps some hunk of theirs.\<close>

theorem disjoint_edits_merge:
  assumes "lineChangesFromAlignment base mine (lcsMatchPreferFirst base mine) = Some ms"
    and "lineChangesFromAlignment base theirs (lcsMatchPreferFirst base theirs) = Some ts"
    and "list_all (\<lambda>c. \<not> changeOverlapsAny c ts) ms"
  shows "\<exists>out. mergeWithAlignment base mine theirs (lcsMatchPreferFirst base mine)
    (lcsMatchPreferFirst base theirs) = Some (Inr out)"
  using mergeWithAlignment_correct [OF aligned_first [of base mine] aligned_first [of base theirs]] assms
  by (auto simp: list_all_iff changeOverlapsAny_iff)

theorem disjoint_edits_merge_witness:
  "\<exists>out. mergeWithAlignment [''a'', ''b'', ''c''] [''A'', ''b'', ''c''] [''a'', ''b'', ''C'']
    (lcsMatchPreferFirst [''a'', ''b'', ''c''] [''A'', ''b'', ''c''])
    (lcsMatchPreferFirst [''a'', ''b'', ''c''] [''a'', ''b'', ''C'']) = Some (Inr out)"
proof (rule disjoint_edits_merge)
  show "lineChangesFromAlignment [''a'', ''b'', ''c''] [''A'', ''b'', ''c'']
      (lcsMatchPreferFirst [''a'', ''b'', ''c''] [''A'', ''b'', ''c''])
    = Some [\<lparr>lc_start = 0, lc_end = 1, lc_lines = [''A'']\<rparr>]" by code_simp
  show "lineChangesFromAlignment [''a'', ''b'', ''c''] [''a'', ''b'', ''C'']
      (lcsMatchPreferFirst [''a'', ''b'', ''c''] [''a'', ''b'', ''C''])
    = Some [\<lparr>lc_start = 2, lc_end = 3, lc_lines = [''C'']\<rparr>]" by code_simp
  show "list_all (\<lambda>c. \<not> changeOverlapsAny c [\<lparr>lc_start = 2, lc_end = 3, lc_lines = [''C'']\<rparr>])
    [\<lparr>lc_start = 0, lc_end = 1, lc_lines = [''A'']\<rparr>]" by code_simp
qed

text \<open>The ambiguity gate is incomplete: both backtracks skip a line of the other side on a
  tie, so they may agree although another alignment matches as many lines.  Here the base line
  \<open>a\<close> occurs twice in the other side, the two backtracks coincide, and matching the second
  occurrence is just as long.\<close>

theorem ambiguity_gate_incomplete:
  "lcsMatchesEqual (lcsMatchPreferFirst [''a'', ''b''] [''a'', ''a'']) (lcsMatchPreferLast [''a'', ''b''] [''a'', ''a''])
   \<and> lcsMatchPreferFirst [''a'', ''b''] [''a'', ''a''] = [0, -1]
   \<and> aligned [''a'', ''b''] [1, -1] [''a'', ''a''] 0
   \<and> matched [1, -1] = matched (lcsMatchPreferFirst [''a'', ''b''] [''a'', ''a''])"
  by (simp add: lcsMatchPreferFirst_align lcsMatchPreferLast_align lcsMatchesEqual_def)

end
