(* ===== verification/GoTime.thy ===== *)
theory GoTime
  imports GoStrings
begin

text \<open>
  Instants and \<^verbatim>\<open>time.RFC3339Nano\<close>.  A \<^verbatim>\<open>time.Time\<close> is its number of nanoseconds since the Unix
  epoch in UTC (type \<open>instant\<close>); the code only compares, shifts, formats and parses instants, and
  every instant it formats is in UTC.  \<open>FormatRFC3339Nano\<close> and \<open>ParseRFC3339Nano\<close> are Go's
  formatter and parser at that layout, the parser with its laxities (a one-digit hour, a comma
  before the fraction, more than nine digits in it, zone offsets).

  The theorem of this theory is the round trip the expiry and retry logic relies on: parsing what was
  formatted gives the instant back, for every instant of the years 0 to 9999.
\<close>

type_synonym instant = int
type_synonym duration = int

definition Second :: duration where
  "Second = 1000000000"

definition Minute :: duration where
  "Minute = 60 * Second"

text \<open>A \<^verbatim>\<open>Duration\<close> is an \<^verbatim>\<open>int64\<close>: products wrap, and \<^verbatim>\<open>Sub\<close> saturates.\<close>

definition wrap64 :: "int \<Rightarrow> int" where
  "wrap64 n = (n + 2 ^ 63) mod 2 ^ 64 - 2 ^ 63"

definition TimeSub :: "instant \<Rightarrow> instant \<Rightarrow> duration" where
  "TimeSub t u = max (- (2 ^ 63)) (min (2 ^ 63 - 1) (t - u))"

lemma wrap64_id: "- (2 ^ 63) \<le> n \<Longrightarrow> n < 2 ^ 63 \<Longrightarrow> wrap64 n = n"
  by (simp add: wrap64_def)

section \<open>The calendar\<close>

text \<open>Days since the epoch to year, month and day, by cycles of 400, 100, 4 and 1 years that start
  in March.\<close>

definition year_cycles :: "int \<Rightarrow> int \<times> int" where
  "year_cycles doe =
     (let c = doe div 36524 - doe div 36524 div 4; r = doe - 36524 * c;
          q = r div 1461; r' = r - 1461 * q;
          j = r' div 365 - r' div 365 div 4
      in (100 * c + 4 * q + j, r' - 365 * j))"

definition civil_of_days :: "int \<Rightarrow> int \<times> int \<times> int" where
  "civil_of_days z =
     (let z' = z + 719468; era = z' div 146097;
          (yoe, doy) = year_cycles (z' mod 146097);
          mp = (5 * doy + 2) div 153;
          d = doy - (153 * mp + 2) div 5 + 1;
          mo = (if mp < 10 then mp + 3 else mp - 9)
      in (yoe + era * 400 + (if mo \<le> 2 then 1 else 0), mo, d))"

definition days_of_civil :: "int \<Rightarrow> int \<Rightarrow> int \<Rightarrow> int" where
  "days_of_civil y mo d =
     (let y' = (if mo \<le> 2 then y - 1 else y); era = y' div 400; yoe = y' mod 400;
          mp = (if mo > 2 then mo - 3 else mo + 9);
          doy = (153 * mp + 2) div 5 + d - 1;
          doe = yoe * 365 + yoe div 4 - yoe div 100 + doy
      in era * 146097 + doe - 719468)"

definition isLeap :: "int \<Rightarrow> bool" where
  "isLeap y \<longleftrightarrow> y mod 4 = 0 \<and> (y mod 100 \<noteq> 0 \<or> y mod 400 = 0)"

definition daysIn :: "int \<Rightarrow> int \<Rightarrow> int" where
  "daysIn mo y =
     (if mo = 2 then (if isLeap y then 29 else 28)
      else if mo = 4 \<or> mo = 6 \<or> mo = 9 \<or> mo = 11 then 30 else 31)"

section \<open>Formatting\<close>

definition pad_int :: "nat \<Rightarrow> nat \<Rightarrow> string" where
  "pad_int w n = (let s = itoa n in replicate (w - length s) CHR ''0'' @ s)"

definition trim_zeros :: "string \<Rightarrow> string" where
  "trim_zeros s = rev (dropWhile (\<lambda>c. c = CHR ''0'') (rev s))"

definition frac_part :: "nat \<Rightarrow> string" where
  "frac_part ns = (if ns = 0 then '''' else CHR ''.'' # trim_zeros (pad_int 9 ns))"

definition format_year :: "int \<Rightarrow> string" where
  "format_year y = (if y < 0 then ''-'' @ pad_int 4 (nat (- y)) else pad_int 4 (nat y))"

definition FormatRFC3339Nano :: "instant \<Rightarrow> string" where
  "FormatRFC3339Nano t =
     (let days = t div (86400 * Second); sod = t mod (86400 * Second);
          secs = nat (sod div Second); ns = nat (sod mod Second);
          (y, mo, d) = civil_of_days days
      in format_year y @ ''-'' @ pad_int 2 (nat mo) @ ''-'' @ pad_int 2 (nat d) @ ''T''
         @ pad_int 2 (secs div 3600) @ '':'' @ pad_int 2 (secs div 60 mod 60) @ '':''
         @ pad_int 2 (secs mod 60) @ frac_part ns @ ''Z'')"

section \<open>Parsing\<close>

fun getnum2 :: "string \<Rightarrow> (nat \<times> string) option" where
  "getnum2 (a # b # s) = do { x \<leftarrow> digit_val a; y \<leftarrow> digit_val b; Some (10 * x + y, s) }"
| "getnum2 _ = None"

text \<open>\<^verbatim>\<open>getnum(value, false)\<close>: one or two digits.\<close>

fun getnum12 :: "string \<Rightarrow> (nat \<times> string) option" where
  "getnum12 [] = None"
| "getnum12 (a # s) =
     (case digit_val a of None \<Rightarrow> None
      | Some x \<Rightarrow>
          (case s of [] \<Rightarrow> Some (x, [])
           | b # s' \<Rightarrow> (case digit_val b of None \<Rightarrow> Some (x, s) | Some y \<Rightarrow> Some (10 * x + y, s'))))"

fun get_year :: "string \<Rightarrow> (nat \<times> string) option" where
  "get_year (a # b # c # d # s) = do { n \<leftarrow> digits_val 0 [a, b, c, d]; Some (n, s) }"
| "get_year _ = None"

fun skip_char :: "char \<Rightarrow> string \<Rightarrow> string option" where
  "skip_char c [] = None"
| "skip_char c (x # s) = (if x = c then Some s else None)"

definition is_digit :: "char \<Rightarrow> bool" where
  "is_digit c \<longleftrightarrow> digit_val c \<noteq> None"

text \<open>The optional fraction, truncated to nanoseconds.\<close>

definition get_frac :: "string \<Rightarrow> (nat \<times> string) option" where
  "get_frac s =
     (case s of
        c # d # _ \<Rightarrow>
          if (c = CHR ''.'' \<or> c = CHR '','') \<and> is_digit d then
            (let ds = takeWhile is_digit (tl s); nine = take 9 ds
             in do { n \<leftarrow> digits_val 0 nine; Some (n * 10 ^ (9 - length nine), drop (length ds) (tl s)) })
          else Some (0, s)
      | _ \<Rightarrow> Some (0, s))"

text \<open>The zone: seconds east of UTC and what follows.\<close>

definition get_zone :: "string \<Rightarrow> (int \<times> string) option" where
  "get_zone s =
     (case s of
        c # r \<Rightarrow>
          if c = CHR ''Z'' then Some (0, r)
          else do {
            (h, r1) \<leftarrow> getnum2 r;
            r2 \<leftarrow> skip_char CHR '':'' r1;
            (mi, r3) \<leftarrow> getnum2 r2;
            (if h > 24 \<or> mi > 60 then None
             else if c = CHR ''+'' then Some (int ((h * 60 + mi) * 60), r3)
             else if c = CHR ''-'' then Some (- int ((h * 60 + mi) * 60), r3)
             else None)
          }
      | [] \<Rightarrow> None)"

definition ParseRFC3339Nano :: "string \<Rightarrow> instant option" where
  "ParseRFC3339Nano s = do {
     (y, s) \<leftarrow> get_year s;
     s \<leftarrow> skip_char CHR ''-'' s;
     (mo, s) \<leftarrow> getnum2 s;
     s \<leftarrow> skip_char CHR ''-'' s;
     (d, s) \<leftarrow> getnum2 s;
     s \<leftarrow> skip_char CHR ''T'' s;
     (h, s) \<leftarrow> getnum12 s;
     s \<leftarrow> skip_char CHR '':'' s;
     (mi, s) \<leftarrow> getnum2 s;
     s \<leftarrow> skip_char CHR '':'' s;
     (sec, s) \<leftarrow> getnum2 s;
     (ns, s) \<leftarrow> get_frac s;
     (zone, s) \<leftarrow> get_zone s;
     (if s \<noteq> [] \<or> mo < 1 \<or> mo > 12 \<or> h \<ge> 24 \<or> mi \<ge> 60 \<or> sec \<ge> 60
         \<or> d < 1 \<or> int d > daysIn (int mo) (int y) then None
      else Some (((days_of_civil (int y) (int mo) (int d) * 24 + int h) * 3600
                   + int mi * 60 + int sec - zone) * Second + int ns))
   }"

section \<open>The calendar is a bijection\<close>

lemma div_mod_decomp:
  fixes a b n :: int
  assumes "0 < n"
  shows "0 \<le> b \<Longrightarrow> b < n \<Longrightarrow> (n * a + b) div n = a \<and> (n * a + b) mod n = b"
  using assms by simp

lemma year_cycles_bounds:
  assumes "0 \<le> doe" and "doe < 146097" and "year_cycles doe = (yoe, doy)"
  shows "0 \<le> yoe \<and> yoe < 400 \<and> 0 \<le> doy \<and> doy \<le> 365
    \<and> doe = 365 * yoe + yoe div 4 - yoe div 100 + doy
    \<and> (doy = 365 \<longrightarrow> yoe mod 4 = 3 \<and> (yoe mod 100 \<noteq> 99 \<or> yoe = 399))"
proof -
  define c where "c = doe div 36524 - doe div 36524 div 4"
  define r where "r = doe - 36524 * c"
  define q where "q = r div 1461"
  define r' where "r' = r - 1461 * q"
  define j where "j = r' div 365 - r' div 365 div 4"
  have res: "yoe = 100 * c + 4 * q + j" "doy = r' - 365 * j"
    using assms(3) by (simp_all add: year_cycles_def Let_def c_def r_def q_def r'_def j_def)
  define k where "k = doe div 36524"
  have k: "0 \<le> k" "k \<le> 4" "36524 * k \<le> doe" "doe < 36524 * k + 36524"
    using assms(1,2) div_mult_mod_eq [of doe 36524] pos_mod_bound [of 36524 doe] pos_mod_sign [of 36524 doe]
    unfolding k_def by linarith+
  have ck: "c = k - k div 4" by (simp add: c_def k_def)
  have "k = 0 \<or> k = 1 \<or> k = 2 \<or> k = 3 \<or> k = 4" using k(1,2) by linarith
  then have c: "0 \<le> c" "c \<le> 3" "0 \<le> r" "r \<le> 36524" "c < 3 \<Longrightarrow> r < 36524"
    using assms(2) k(3,4) unfolding r_def ck by (elim disjE; simp)+
  have q: "0 \<le> q" "q \<le> 24" "0 \<le> r'" "r' < 1461"
    using c(3,4) div_mult_mod_eq [of r 1461] pos_mod_bound [of 1461 r] pos_mod_sign [of 1461 r]
    unfolding r'_def q_def by linarith+
  define l where "l = r' div 365"
  have l: "0 \<le> l" "l \<le> 4" "365 * l \<le> r'" "r' < 365 * l + 365"
    using q(3,4) div_mult_mod_eq [of r' 365] pos_mod_bound [of 365 r'] pos_mod_sign [of 365 r']
    unfolding l_def by linarith+
  have jl: "j = l - l div 4" by (simp add: j_def l_def)
  have "l = 0 \<or> l = 1 \<or> l = 2 \<or> l = 3 \<or> l = 4" using l(1,2) by linarith
  then have j: "0 \<le> j" "j \<le> 3" "0 \<le> doy" "doy \<le> 365" "doy = 365 \<Longrightarrow> j = 3 \<and> r' = 1460"
    using q(4) l(3,4) unfolding res(2) jl by (elim disjE; simp)+
  have "yoe div 4 = 25 * c + q" "yoe mod 4 = j" "yoe div 100 = c" "yoe mod 100 = 4 * q + j"
    unfolding res(1) using q(1,2) j(1,2)
      div_mod_decomp [of 4 j "25 * c + q"] div_mod_decomp [of 100 "4 * q + j" c] by (simp_all add: algebra_simps)
  moreover have "q \<noteq> 24 \<or> c = 3" if "doy = 365"
  proof (rule ccontr)
    assume "\<not> (q \<noteq> 24 \<or> c = 3)"
    then have "q = 24" "c < 3" using c by auto
    with j(5) [OF that] c(5) r'_def show False by simp
  qed
  ultimately show ?thesis
    using c(1,2) q(1,2) j res r_def r'_def by auto
qed

lemma month_bounds:
  fixes doy :: int
  assumes "0 \<le> doy" and "doy \<le> 365"
  defines "mp \<equiv> (5 * doy + 2) div 153"
  defines "d \<equiv> doy - (153 * mp + 2) div 5 + 1"
  shows "0 \<le> mp" and "mp \<le> 11" and "1 \<le> d" and "d \<le> 31"
    and "mp = 11 \<Longrightarrow> d \<le> 29 \<and> (d = 29 \<longrightarrow> doy = 365)"
    and "mp \<in> {1, 3, 6, 8} \<Longrightarrow> d \<le> 30"
proof -
  have mp: "0 \<le> mp" "mp \<le> 11" "153 * mp \<le> 5 * doy + 2" "5 * doy + 2 < 153 * mp + 153"
    using assms(1,2) div_mult_mod_eq [of "5 * doy + 2" 153] pos_mod_bound [of 153 "5 * doy + 2"]
      pos_mod_sign [of 153 "5 * doy + 2"] unfolding mp_def by linarith+
  then show "0 \<le> mp" "mp \<le> 11" by auto
  have "mp = 0 \<or> mp = 1 \<or> mp = 2 \<or> mp = 3 \<or> mp = 4 \<or> mp = 5 \<or> mp = 6 \<or> mp = 7 \<or> mp = 8
      \<or> mp = 9 \<or> mp = 10 \<or> mp = 11"
    using mp(1,2) by presburger
  then have "1 \<le> d \<and> d \<le> 31 \<and> (mp = 11 \<longrightarrow> d \<le> 29 \<and> (d = 29 \<longrightarrow> doy = 365))
      \<and> (mp \<in> {1, 3, 6, 8} \<longrightarrow> d \<le> 30)"
    using mp(3,4) assms(1,2) unfolding d_def by (elim disjE; simp)
  then show "1 \<le> d" and "d \<le> 31" and "mp = 11 \<Longrightarrow> d \<le> 29 \<and> (d = 29 \<longrightarrow> doy = 365)"
    and "mp \<in> {1, 3, 6, 8} \<Longrightarrow> d \<le> 30" by auto
qed

lemma leap_shift:
  assumes "yoe mod 4 = 3" and "yoe mod 100 \<noteq> 99 \<or> yoe = 399"
  shows "isLeap (yoe + era * 400 + 1)"
proof -
  have "(yoe + era * 400 + 1) mod n = (yoe + 1) mod n" if "n dvd 400" for n :: int
  proof -
    have "yoe + era * 400 + 1 = (yoe + 1) + era * 400" by simp
    also have "\<dots> mod n = (yoe + 1) mod n" using that
      by (metis dvd_mult mod_add_right_eq dvd_imp_mod_0 add.right_neutral)
    finally show ?thesis .
  qed
  note shift = this [of 4] this [of 100] this [of 400]
  have "(yoe + 1) mod 4 = 0" using mod_add_left_eq [of yoe 4 1] assms(1) by simp
  moreover have "(yoe + 1) mod 100 \<noteq> 0" if "yoe mod 100 \<noteq> 99"
    using mod_diff_left_eq [of "yoe + 1" 100 1] that by auto
  moreover have "(yoe + 1) mod 400 = 0" if "yoe = 399" using that by simp
  ultimately show ?thesis unfolding isLeap_def using shift assms(2) by auto
qed

lemma civil_roundtrip:
  assumes "civil_of_days z = (y, mo, d)"
  shows "days_of_civil y mo d = z" and "1 \<le> mo" and "mo \<le> 12" and "1 \<le> d" and "d \<le> daysIn mo y"
proof -
  define era where "era = (z + 719468) div 146097"
  define doe where "doe = (z + 719468) mod 146097"
  obtain yoe doy where yd: "year_cycles doe = (yoe, doy)" by force
  define mp where "mp = (5 * doy + 2) div 153"
  have z: "z = era * 146097 + doe - 719468" "0 \<le> doe" "doe < 146097"
    by (simp_all add: era_def doe_def)
  note b = year_cycles_bounds [OF z(2,3) yd]
  have doy: "0 \<le> doy" "doy \<le> 365" using b by auto
  note mb = month_bounds [OF doy, folded mp_def]
  have res: "mo = (if mp < 10 then mp + 3 else mp - 9)" "d = doy - (153 * mp + 2) div 5 + 1"
      "y = yoe + era * 400 + (if mo \<le> 2 then 1 else 0)"
    using assms unfolding civil_of_days_def Let_def era_def [symmetric] doe_def [symmetric] yd
      prod.case mp_def [symmetric] by auto
  show mo: "1 \<le> mo" "mo \<le> 12" using mb(1,2) res(1) by auto
  show "1 \<le> d" using mb(3) res(2) by simp
  have y': "(if mo \<le> 2 then y - 1 else y) = yoe + era * 400" using res(3) by simp
  have mp': "(if mo > 2 then mo - 3 else mo + 9) = mp" using mb(1,2) res(1) by auto
  have "(yoe + era * 400) div 400 = era" "(yoe + era * 400) mod 400 = yoe" using b by auto
  then show "days_of_civil y mo d = z"
    unfolding days_of_civil_def Let_def y' mp' using b res(2) z(1) by simp
  have "d \<le> 31" using mb(4) res(2) by simp
  moreover have "d \<le> 30" if "mo = 4 \<or> mo = 6 \<or> mo = 9 \<or> mo = 11"
    using mb(2,6) res(1,2) that by (auto split: if_splits)
  moreover have "d \<le> (if isLeap y then 29 else 28)" if "mo = 2"
  proof -
    have mp11: "mp = 11" using that res(1) mb(1,2) by (auto split: if_splits)
    have "y = yoe + era * 400 + 1" using that res(3) by simp
    moreover have "isLeap y" if "doy = 365"
      using leap_shift [of yoe era] b that unfolding calculation by blast
    ultimately show ?thesis using mb(5) [OF mp11] res(2) by fastforce
  qed
  ultimately show "d \<le> daysIn mo y" by (simp add: daysIn_def)
qed

text \<open>The instants whose year has at most four digits.\<close>

definition year_of :: "instant \<Rightarrow> int" where
  "year_of t = fst (civil_of_days (t div (86400 * Second)))"

definition four_digit_year :: "instant \<Rightarrow> bool" where
  "four_digit_year t \<longleftrightarrow> 0 \<le> year_of t \<and> year_of t \<le> 9999"

section \<open>Round trip\<close>

lemma digits_val_zeros: "digits_val 0 (replicate k CHR ''0'' @ s) = digits_val 0 s"
  by (induction k) (simp_all add: digit_val_def)

lemma itoa_length: "n < 10 ^ w \<Longrightarrow> 0 < w \<Longrightarrow> length (itoa n) \<le> w"
proof (induction n arbitrary: w rule: itoa.induct)
  case (1 n)
  show ?case
  proof (cases "n < 10")
    case False
    obtain w' where w: "w = Suc w'" using 1(3) by (cases w) auto
    with False 1(2) have "n div 10 < 10 ^ w'" "0 < w'" by (auto intro!: Nat.gr0I simp: less_mult_imp_div_less)
    with 1(1) False w show ?thesis by (simp add: itoa.simps [of n])
  qed (use 1(3) in \<open>simp add: itoa.simps [of n]\<close>)
qed

lemma pad_int_length: "n < 10 ^ w \<Longrightarrow> 0 < w \<Longrightarrow> length (pad_int w n) = w"
  using itoa_length [of n w] by (simp add: pad_int_def Let_def)

lemma pad_int_val: "digits_val 0 (pad_int w n) = Some n"
  by (simp add: pad_int_def Let_def digits_val_zeros digits_val_itoa)

lemma getnum2_pad: "n < 100 \<Longrightarrow> getnum2 (pad_int 2 n @ s) = Some (n, s)"
proof -
  assume n: "n < 100"
  then obtain a b where ab: "pad_int 2 n = [a, b]"
    using pad_int_length [of n 2] by (auto simp: length_Suc_conv numeral_2_eq_2)
  then show ?thesis using pad_int_val [of 2 n] by (auto split: option.splits bind_splits)
qed

lemma getnum12_pad: "n < 100 \<Longrightarrow> getnum12 (pad_int 2 n @ s) = Some (n, s)"
proof -
  assume n: "n < 100"
  then obtain a b where ab: "pad_int 2 n = [a, b]"
    using pad_int_length [of n 2] by (auto simp: length_Suc_conv numeral_2_eq_2)
  then show ?thesis using pad_int_val [of 2 n] by (auto split: option.splits)
qed

lemma length4: "length xs = 4 \<Longrightarrow> \<exists>a b c d. xs = [a, b, c, d]"
  by (auto simp: numeral_eq_Suc length_Suc_conv)

lemma get_year_pad: "n < 10000 \<Longrightarrow> get_year (pad_int 4 n @ s) = Some (n, s)"
proof -
  assume n: "n < 10000"
  then have "length (pad_int 4 n) = 4" using pad_int_length [of n 4] by simp
  then obtain a b c d where ab: "pad_int 4 n = [a, b, c, d]" using length4 by blast
  then show ?thesis using pad_int_val [of 4 n] by simp
qed

lemma digits_val_is_digit: "digits_val acc s = Some n \<Longrightarrow> list_all is_digit s"
  by (induction acc s rule: digits_val.induct) (auto simp: is_digit_def split: option.splits)

lemma digits_val_replicate: "digits_val n (replicate k CHR ''0'') = Some (n * 10 ^ k)"
  by (induction k arbitrary: n) (simp_all add: digit_val_def)

lemma trim_zeros_split: "\<exists>k. s = trim_zeros s @ replicate k CHR ''0''"
proof -
  let ?P = "\<lambda>c. c = CHR ''0''"
  have "rev s = takeWhile ?P (rev s) @ dropWhile ?P (rev s)" by simp
  moreover have "\<exists>k. takeWhile ?P (rev s) = replicate k CHR ''0''"
    by (intro exI [of _ "length (takeWhile ?P (rev s))"] replicate_eqI) (auto dest: set_takeWhileD)
  ultimately obtain k where "rev s = replicate k CHR ''0'' @ dropWhile ?P (rev s)" by metis
  then have "s = rev (replicate k CHR ''0'' @ dropWhile ?P (rev s))" by (metis rev_rev_ident)
  then show ?thesis by (auto simp: trim_zeros_def)
qed

lemma get_frac_part:
  assumes "ns < 10 ^ 9"
  shows "get_frac (frac_part ns @ ''Z'') = Some (ns, ''Z'')"
proof (cases "ns = 0")
  case True
  then show ?thesis by (simp add: frac_part_def get_frac_def)
next
  case False
  let ?ds = "trim_zeros (pad_int 9 ns)"
  obtain k where k: "pad_int 9 ns = ?ds @ replicate k CHR ''0''" using trim_zeros_split by blast
  have len: "length ?ds + k = 9" using arg_cong [OF k, of length] pad_int_length [of ns 9] assms by simp
  have val: "digits_val 0 (?ds @ replicate k CHR ''0'') = Some ns"
    using pad_int_val [of 9 ns] k by metis
  then obtain m where m: "digits_val 0 ?ds = Some m" "m * 10 ^ k = ns"
    by (auto simp: digits_val_append digits_val_replicate split: option.splits)
  have dig: "list_all is_digit ?ds" using digits_val_is_digit [OF m(1)] .
  have ne: "?ds \<noteq> []" using m False by (cases ?ds) auto
  then obtain d ds where ds: "?ds = d # ds" by (cases ?ds) auto
  have tw: "takeWhile is_digit (?ds @ ''Z'') = ?ds"
    using dig by (simp add: takeWhile_append2 list_all_iff is_digit_def digit_val_def)
  have "get_frac (CHR ''.'' # ?ds @ ''Z'') = Some (m * 10 ^ (9 - length ?ds), ''Z'')"
    using tw dig len m(1) by (simp add: get_frac_def ds Let_def del: power_Suc)
  moreover have "9 - length ?ds = k" using len by simp
  ultimately show ?thesis using False m(2) by (simp add: frac_part_def)
qed

text \<open>Formatting an instant of the years 0 to 9999 as RFC 3339 with nanoseconds and parsing the
  string gives the same instant back, so a stored expiry, retry time or watermark is read as it was
  written.\<close>

lemma ParseRFC3339Nano_Format:
  assumes "four_digit_year t"
  shows "ParseRFC3339Nano (FormatRFC3339Nano t) = Some t"
proof -
  define days where "days = t div (86400 * Second)"
  define sod where "sod = t mod (86400 * Second)"
  define secs where "secs = nat (sod div Second)"
  define ns where "ns = nat (sod mod Second)"
  obtain y mo d where ymd: "civil_of_days days = (y, mo, d)" by (cases "civil_of_days days")
  note rt = civil_roundtrip [OF ymd]
  have t: "t = days * (86400 * Second) + sod" "0 \<le> sod" "sod < 86400 * Second"
    by (simp_all add: days_def sod_def Second_def)
  have sod: "sod = int secs * Second + int ns" "secs < 86400" "ns < 10 ^ 9"
    using t(2,3) unfolding secs_def ns_def by (simp_all add: Second_def) linarith
  have y: "0 \<le> y" "y < 10000"
    using assms ymd by (auto simp: four_digit_year_def year_of_def days_def)
  have d31: "d < 100" using rt(5) by (auto simp: daysIn_def split: if_splits)
  have fmt: "FormatRFC3339Nano t = pad_int 4 (nat y) @ CHR ''-'' # pad_int 2 (nat mo) @ CHR ''-'' # pad_int 2 (nat d)
      @ CHR ''T'' # pad_int 2 (secs div 3600) @ CHR '':'' # pad_int 2 (secs div 60 mod 60)
      @ CHR '':'' # pad_int 2 (secs mod 60) @ frac_part ns @ ''Z''"
    using y by (simp add: FormatRFC3339Nano_def Let_def days_def [symmetric] sod_def [symmetric]
        secs_def [symmetric] ns_def [symmetric] ymd format_year_def)
  have hms: "secs div 3600 < 24" "secs div 60 mod 60 < 60" "secs mod 60 < 60"
    using sod(2) by (simp_all add: less_mult_imp_div_less)
  have secs: "secs = secs div 3600 * 3600 + secs div 60 mod 60 * 60 + secs mod 60"
  proof -
    have "secs div 3600 = secs div 60 div 60" using div_mult2_eq [of secs 60 60] by simp
    then show ?thesis using div_mult_mod_eq [of secs 60] div_mult_mod_eq [of "secs div 60" 60] by linarith
  qed
  have "ParseRFC3339Nano (FormatRFC3339Nano t) =
      Some (((days * 24 + int (secs div 3600)) * 3600 + int (secs div 60 mod 60) * 60 + int (secs mod 60)) * Second
        + int ns)"
    unfolding ParseRFC3339Nano_def fmt using rt y d31 hms sod(3)
    by (simp add: get_year_pad getnum2_pad getnum12_pad get_frac_part get_zone_def not_le not_less)
  also have "\<dots> = Some t"
    using t(1) sod(1) arg_cong [OF secs, of int] by (simp add: algebra_simps)
  finally show ?thesis .
qed

lemma ParseRFC3339Nano_Format_witness:
  "ParseRFC3339Nano (FormatRFC3339Nano 1700000000123456000) = Some 1700000000123456000"
  by (rule ParseRFC3339Nano_Format) code_simp

end
