(* ===== verification/Paths.thy ===== *)
theory Paths
  imports GoStrings
begin

text \<open>
  The path functions of \<^verbatim>\<open>internal/relayfile/store.go\<close>: normalisation, containment, joining, the
  directories above a path (which carry the permission markers) and the provider a path belongs
  to.  The theorems say when normalisation is idempotent (and that it is not in general), that
  containment is a partial order on clean paths, and that \<open>ancestorDirectories\<close> lists exactly the
  directories that contain a path, from the root down.
\<close>

abbreviation slash :: char where
  "slash \<equiv> CHR ''/''"

definition DirectoryPermissionMarkerFile :: string where
  "DirectoryPermissionMarkerFile = ''.relayfile.acl''"

definition normalizePath :: "string \<Rightarrow> string" where
  "normalizePath path =
     (if path = '''' then ''/''
      else let path = (if \<not> HasPrefix path ''/'' then ''/'' @ path else path)
           in if length path > 1 then TrimSuffix path ''/'' else path)"

definition withinBase :: "string \<Rightarrow> string \<Rightarrow> bool" where
  "withinBase base candidate =
     (let base = normalizePath base; candidate = normalizePath candidate
      in if base = ''/'' then True
         else candidate = base \<or> HasPrefix candidate (base @ ''/''))"

definition joinPath :: "string \<Rightarrow> string \<Rightarrow> string" where
  "joinPath base child =
     (let base = normalizePath base
      in if base = ''/'' then ''/'' @ child else base @ ''/'' @ child)"

text \<open>\<^verbatim>\<open>path[:strings.LastIndex(path, "/")]\<close>, or the path itself when it has no slash.\<close>

definition before_last_slash :: "string \<Rightarrow> string" where
  "before_last_slash path =
     (if slash \<in> set path then rev (tl (dropWhile (\<lambda>c. c \<noteq> slash) (rev path))) else path)"

fun ancestor_loop :: "string \<Rightarrow> string list \<Rightarrow> string list" where
  "ancestor_loop current [] = []"
| "ancestor_loop current (part # parts) =
     (if part = '''' then ancestor_loop current parts
      else (current @ ''/'' @ part) # ancestor_loop (current @ ''/'' @ part) parts)"

definition ancestorDirectories :: "string \<Rightarrow> string list" where
  "ancestorDirectories path =
     (let path = normalizePath path; p = before_last_slash path;
          parent = (if p = '''' then ''/'' else p)
      in if parent = ''/'' then [''/'']
         else ''/'' # ancestor_loop '''' (Split (TrimPrefix parent ''/'') slash))"

definition inferProviderFromPath :: "string \<Rightarrow> string" where
  "inferProviderFromPath path =
     (let trimmed = TrimPrefix (normalizePath path) ''/''
      in if trimmed = '''' then ''''
         else let provider = TrimSpace (hd (SplitN 2 trimmed slash))
              in if provider = '''' then '''' else ToLower provider)"

definition normalizeProvider :: "string \<Rightarrow> string" where
  "normalizeProvider provider = ToLower (TrimSpace provider)"

definition fallbackProviderPath :: "string \<Rightarrow> string \<Rightarrow> string" where
  "fallbackProviderPath provider objectID =
     (let objectID = TrimSpace objectID
      in if objectID = '''' then ''/''
         else let np = normalizeProvider provider;
                  np' = (if np = '''' then provider else np);
                  safe = map (\<lambda>c. if c = slash \<or> c = CHR 0x5C \<or> c = CHR '' '' then CHR ''_'' else c) objectID;
                  safe' = (if safe = '''' then ''object'' else safe)
              in normalizePath (''/'' @ np' @ ''/'' @ safe' @ ''.md''))"

definition providerObjectKey :: "string \<Rightarrow> string \<Rightarrow> string" where
  "providerObjectKey provider objectID =
     (if provider = '''' then objectID else provider @ ''|'' @ objectID)"

definition deliveryKey :: "string \<Rightarrow> string \<Rightarrow> string \<Rightarrow> string" where
  "deliveryKey workspaceID provider deliveryID = workspaceID @ ''|'' @ provider @ ''|'' @ deliveryID"

definition suppressionKey :: "string \<Rightarrow> string \<Rightarrow> string \<Rightarrow> string" where
  "suppressionKey workspaceID provider marker = workspaceID @ ''|'' @ provider @ ''|'' @ marker"

section \<open>Normalisation\<close>

text \<open>A clean path: absolute, and without a slash at the end unless it is the root.\<close>

definition clean_path :: "string \<Rightarrow> bool" where
  "clean_path p \<longleftrightarrow> p \<noteq> [] \<and> hd p = slash \<and> (p = ''/'' \<or> last p \<noteq> slash)"

definition absolute :: "string \<Rightarrow> string" where
  "absolute p = (if p \<noteq> [] \<and> hd p = slash then p else slash # p)"

lemma absolute_abs [simp]: "absolute p \<noteq> []" "hd (absolute p) = slash"
  by (auto simp: absolute_def)

lemma normalizePath_eq:
  "normalizePath p =
     (let q = absolute p in if length q > 1 \<and> last q = slash then butlast q else q)"
proof (cases p)
  case Nil
  then show ?thesis by (simp add: normalizePath_def absolute_def)
next
  case (Cons c s)
  then have ne: "p \<noteq> []" by simp
  have q: "(if \<not> HasPrefix p ''/'' then ''/'' @ p else p) = absolute p"
    by (auto simp: Cons HasPrefix_Cons absolute_def)
  have "normalizePath p = (let q = absolute p in if length q > 1 then TrimSuffix q ''/'' else q)"
    by (subst normalizePath_def) (simp only: ne if_False Let_def q)
  then show ?thesis by (auto simp: Let_def TrimSuffix_single)
qed

lemma normalizePath_clean: "clean_path p \<Longrightarrow> normalizePath p = p"
  by (auto simp: clean_path_def normalizePath_eq absolute_def Let_def)

lemma normalizePath_abs: "normalizePath p \<noteq> [] \<and> hd (normalizePath p) = slash"
proof -
  obtain x where x: "absolute p = slash # x" by (metis absolute_abs list.exhaust_sel)
  show ?thesis by (auto simp: normalizePath_eq Let_def x)
qed

lemma clean_normalizePath:
  assumes "\<not> HasSuffix p ''//''"
  shows "clean_path (normalizePath p)"
proof -
  obtain x where x: "absolute p = slash # x" by (metis absolute_abs list.exhaust_sel)
  have p: "p = slash # x \<or> p = x" using x by (auto simp: absolute_def split: if_splits)
  show ?thesis
  proof (cases x rule: rev_cases)
    case Nil
    then show ?thesis by (simp add: normalizePath_eq x clean_path_def)
  next
    case (snoc ys c)
    show ?thesis
    proof (cases ys rule: rev_cases)
      case Nil
      with snoc show ?thesis by (simp add: normalizePath_eq x clean_path_def Let_def)
    next
      case (snoc zs d)
      have "\<not> (c = slash \<and> d = slash)"
        using p assms \<open>x = ys @ [c]\<close> snoc by (auto simp: HasSuffix_iff)
      then show ?thesis using \<open>x = ys @ [c]\<close> snoc
        by (cases "c = slash") (simp_all add: normalizePath_eq x clean_path_def butlast_append)
    qed
  qed
qed

text \<open>Normalising is idempotent on every path that does not end in two slashes.  The condition
  is needed: the second theorem gives a path that two rounds of normalisation separate, so a file
  written under it cannot be read back under its normalised name.\<close>

lemma normalizePath_idempotent:
  assumes "\<not> HasSuffix p ''//''"
  shows "normalizePath (normalizePath p) = normalizePath p"
  by (rule normalizePath_clean [OF clean_normalizePath [OF assms]])

lemma normalizePath_idempotent_witness:
  "normalizePath (normalizePath ''a/b/'') = normalizePath ''a/b/''"
  by (rule normalizePath_idempotent) code_simp

text \<open>Normalisation removes one trailing slash only: on a path with two of them it is not
  idempotent.\<close>

theorem normalizePath_not_idempotent:
  "normalizePath ''/a//'' = ''/a/'' \<and> normalizePath (normalizePath ''/a//'') = ''/a''"
  by (simp add: normalizePath_eq absolute_def Let_def)

section \<open>Containment\<close>

lemma withinBase_clean:
  assumes "clean_path b" and "clean_path c"
  shows "withinBase b c \<longleftrightarrow> b = ''/'' \<or> c = b \<or> (\<exists>r. c = b @ ''/'' @ r)"
  using assms by (auto simp: withinBase_def Let_def normalizePath_clean HasPrefix_iff)

section \<open>Segments\<close>

text \<open>A canonical path is its list of non-empty segments.\<close>

definition segments_ok :: "string list \<Rightarrow> bool" where
  "segments_ok segs \<longleftrightarrow> list_all (\<lambda>s. s \<noteq> [] \<and> slash \<notin> set s) segs"

definition path_of :: "string list \<Rightarrow> string" where
  "path_of segs = ''/'' @ Join segs ''/''"

lemma Join_snoc: "xs \<noteq> [] \<Longrightarrow> Join (xs @ [x]) sep = Join xs sep @ sep @ x"
  by (induction xs sep rule: Join.induct) (auto simp: Join_Cons)

lemma path_of_snoc: "path_of (segs @ [s]) = (if segs = [] then '''' else path_of segs) @ slash # s"
  by (simp add: path_of_def Join_snoc)

lemma path_of_Nil [simp]: "path_of [] = ''/''"
  by (simp add: path_of_def)

lemma segments_ok_simps [simp]:
  "segments_ok []" "segments_ok (s # segs) \<longleftrightarrow> s \<noteq> [] \<and> slash \<notin> set s \<and> segments_ok segs"
  "segments_ok (xs @ ys) \<longleftrightarrow> segments_ok xs \<and> segments_ok ys"
  by (auto simp: segments_ok_def)

lemma clean_path_of: "segments_ok segs \<Longrightarrow> clean_path (path_of segs)"
proof (cases segs rule: rev_cases)
  case (snoc xs s)
  assume "segments_ok segs"
  then have "s \<noteq> []" "last s \<noteq> slash" using snoc last_in_set by fastforce+
  then show ?thesis using snoc path_of_snoc [of xs s] by (simp add: clean_path_def path_of_def)
qed (simp add: clean_path_def)

lemma normalizePath_path_of [simp]: "segments_ok segs \<Longrightarrow> normalizePath (path_of segs) = path_of segs"
  by (rule normalizePath_clean [OF clean_path_of])

lemma before_last_slash_snoc: "slash \<notin> set s \<Longrightarrow> before_last_slash (p @ slash # s) = p"
proof -
  assume "slash \<notin> set s"
  then have "dropWhile (\<lambda>c. c \<noteq> slash) (rev s @ slash # rev p) = slash # rev p"
    by (subst dropWhile_append2) auto
  then show ?thesis by (simp add: before_last_slash_def)
qed

lemma Split_segments: "segs \<noteq> [] \<Longrightarrow> segments_ok segs \<Longrightarrow> Split (Join segs ''/'') slash = segs"
  by (rule Split_Join) (auto simp: segments_ok_def list_all_iff)

lemma path_of_concat: "segs \<noteq> [] \<Longrightarrow> path_of segs = concat (map (\<lambda>s. slash # s) segs)"
  by (induction segs rule: rev_induct) (auto simp: path_of_snoc)

lemma upt_Suc_shift: "[0..<Suc n] = 0 # map Suc [0..<n]"
  by (simp add: map_Suc_upt upt_rec [of 0 "Suc n"] del: upt_Suc)

lemma ancestor_loop_segments:
  "segments_ok segs \<Longrightarrow> ancestor_loop cur segs =
   map (\<lambda>i. cur @ concat (map (\<lambda>s. slash # s) (take (Suc i) segs))) [0..<length segs]"
  by (induction segs arbitrary: cur) (simp_all add: upt_Suc_shift del: upt_Suc)

lemma ancestorDirectories_segments:
  assumes "segments_ok (segs @ [s])"
  shows "ancestorDirectories (path_of (segs @ [s])) = map (\<lambda>i. path_of (take i segs)) [0..<Suc (length segs)]"
proof (cases "segs = []")
  case True
  then show ?thesis
    using assms before_last_slash_snoc [of s "[]"] normalizePath_path_of [OF assms]
    by (simp add: ancestorDirectories_def Let_def path_of_def)
next
  case False
  have pre: "before_last_slash (path_of (segs @ [s])) = path_of segs"
    using assms False by (simp add: path_of_snoc before_last_slash_snoc)
  have ne: "path_of segs \<noteq> []" "path_of segs \<noteq> ''/''"
    using assms False by (cases segs; auto simp: path_of_concat)+
  have "ancestorDirectories (path_of (segs @ [s])) =
      ''/'' # ancestor_loop '''' (Split (Join segs ''/'') slash)"
    unfolding ancestorDirectories_def normalizePath_path_of [OF assms] pre Let_def
    using ne TrimPrefix_append [of "''/''" "Join segs ''/''"] by (simp add: path_of_def)
  also have "\<dots> = ''/'' # map (\<lambda>i. concat (map (\<lambda>s. slash # s) (take (Suc i) segs))) [0..<length segs]"
    using assms False by (simp add: Split_segments ancestor_loop_segments)
  also have "\<dots> = map (\<lambda>i. path_of (take i segs)) (0 # map Suc [0..<length segs])"
    using False by (simp add: path_of_concat)
  finally show ?thesis by (simp only: upt_Suc_shift)
qed

lemma path_of_inj:
  assumes "segments_ok xs" and "segments_ok ys" and "path_of xs = path_of ys"
  shows "xs = ys"
proof (cases "xs = [] \<or> ys = []")
  case True
  then show ?thesis using assms by (cases xs; cases ys) (auto simp: path_of_concat)
next
  case False
  then show ?thesis using assms Split_segments by (metis append_same_eq path_of_def same_append_eq)
qed

lemma Join_append_Split: "xs \<noteq> [] \<Longrightarrow> Join (xs @ Split r c) [c] = Join xs [c] @ c # r"
proof (induction xs)
  case (Cons x xs)
  then show ?case by (cases xs) (simp_all add: Join_Cons Join_Split)
qed simp

lemma prefixes_take: "prefixes xs = map (\<lambda>i. take i xs) [0..<Suc (length xs)]"
  by (induction xs) (simp_all add: upt_Suc_shift del: upt_Suc)

lemma withinBase_segments:
  assumes "segments_ok xs" and "segments_ok ys"
  shows "withinBase (path_of xs) (path_of ys) \<longleftrightarrow> prefix xs ys"
proof (cases "xs = []")
  case False
  have "prefix xs ys" if r: "path_of ys = path_of xs @ ''/'' @ r" for r
  proof -
    have "ys \<noteq> []" using r False assms by (cases xs) (auto simp: path_of_concat)
    have "Join ys ''/'' = Join xs ''/'' @ slash # r" using r by (simp add: path_of_def)
    then have "ys = Split (Join (xs @ Split r slash) ''/'') slash"
      using Split_segments [OF \<open>ys \<noteq> []\<close> assms(2)] Join_append_Split False by metis
    also have "\<dots> = xs @ Split r slash"
      using assms(1) by (intro Split_Join) (auto simp: segments_ok_def list_all_iff dest: Split_pieces)
    finally show ?thesis by simp
  qed
  moreover have "\<exists>r. path_of ys = path_of xs @ ''/'' @ r" if pre: "prefix xs ys" "xs \<noteq> ys"
  proof -
    obtain z zs where "ys = xs @ z # zs" using pre by (metis append_Nil2 neq_Nil_conv prefix_def)
    then show ?thesis using False by (simp add: path_of_concat)
  qed
  moreover have "path_of xs \<noteq> ''/''" using False assms by (cases xs) (auto simp: path_of_concat)
  ultimately show ?thesis
    using assms path_of_inj [OF assms] by (auto simp: withinBase_clean clean_path_of)
qed (simp add: withinBase_def normalizePath_clean clean_path_def)

text \<open>\<open>withinBase\<close> decides containment segment by segment: a canonical path lies inside another
  exactly when its segments extend the other's, so \<open>/ab\<close> is not inside \<open>/a\<close>.\<close>

theorem withinBase_iff_prefix:
  assumes "segments_ok xs" and "segments_ok ys"
  shows "withinBase (path_of xs) (path_of ys) \<longleftrightarrow> prefix xs ys"
  by (rule withinBase_segments [OF assms])

theorem withinBase_iff_prefix_witness:
  "withinBase (path_of [''a'']) (path_of [''a'', ''b'']) \<and> \<not> withinBase (path_of [''a'']) (path_of [''ab''])"
  using withinBase_iff_prefix [of "[''a'']" "[''a'', ''b'']"] withinBase_iff_prefix [of "[''a'']" "[''ab'']"]
  by simp

lemma ancestorDirectories_prefixes:
  assumes "segments_ok segs" and "segs \<noteq> []"
  shows "ancestorDirectories (path_of segs) = map path_of (butlast (prefixes segs))"
proof -
  obtain xs s where segs: "segs = xs @ [s]" using assms(2) by (cases segs rule: rev_cases) auto
  have "butlast (prefixes segs) = prefixes xs" by (simp add: segs)
  moreover have "ancestorDirectories (path_of segs) = map path_of (prefixes xs)"
    using ancestorDirectories_segments [of xs s] assms segs by (simp add: prefixes_take del: upt_Suc)
  ultimately show ?thesis by simp
qed

lemma ancestorDirectories_set:
  assumes "segments_ok segs" and "segs \<noteq> []"
  shows "set (ancestorDirectories (path_of segs)) = {path_of ds |ds. strict_prefix ds segs}"
proof -
  obtain xs s where segs: "segs = xs @ [s]" using assms(2) by (cases segs rule: rev_cases) auto
  have "{path_of ds |ds. strict_prefix ds segs} = path_of ` {ds. prefix ds xs}"
    by (auto simp: segs strict_prefix_def)
  then show ?thesis
    using ancestorDirectories_prefixes [OF assms] by (simp add: segs set_prefixes_eq)
qed

text \<open>\<open>ancestorDirectories\<close> lists exactly the directories that properly contain a canonical path,
  from the root down to the parent, each once.\<close>

theorem ancestorDirectories_exact:
  assumes "segments_ok segs" and "segs \<noteq> []"
  shows "ancestorDirectories (path_of segs) = map path_of (butlast (prefixes segs))
    \<and> set (ancestorDirectories (path_of segs)) = {path_of ds |ds. strict_prefix ds segs}"
  using ancestorDirectories_prefixes [OF assms] ancestorDirectories_set [OF assms] by simp

theorem ancestorDirectories_exact_witness:
  "ancestorDirectories (path_of [''a'', ''b'', ''c'']) = [''/'', ''/a'', ''/a/b'']"
  using ancestorDirectories_exact [of "[''a'', ''b'', ''c'']"] by (simp add: path_of_def)

end
