(* ===== verification/StoreTypes.thy ===== *)
theory StoreTypes
  imports Prelude GoTime GoHash Paths
begin

text \<open>
  The data of \<^verbatim>\<open>internal/relayfile/store.go\<close> (types, lines 22 to 690): files, forks, events,
  operations, envelopes, and the store that holds them.  A struct is a record with the source's
  field names behind a short prefix; a map is a \<open>gomap\<close> (a nil map is the empty one); a pointer
  field is an \<open>option\<close>; \<^verbatim>\<open>any\<close> values are \<open>json\<close> values.

  \<^item> \<^verbatim>\<open>uint64\<close> counters are \<open>nat\<close>: they start at zero and are only incremented.
  \<^item> \<open>e_ACLPermissions\<close> is an option because the source distinguishes a nil slice (never evaluated)
    from an empty one.
  \<^item> Channels of subscribers and the bounded queues are their contents plus their capacity;
    senders that block on a full queue are the list \<open>q_waiting\<close>.
  \<^item> The lock \<^verbatim>\<open>mu\<close> makes each operation one step on the store; timers and goroutines are steps of
    their own (\<open>expireForkByTimer\<close>, the workers).  The seal tables of the checkpoint component and the
    concurrency semaphores are not fields of the model.
\<close>

section \<open>Errors\<close>

datatype store_error =
    ErrNotFound
  | ErrRevisionConflict string string string
  | ErrMissingPrecondition
  | ErrInvalidInput
  | ErrInvalidState
  | ErrQueueFull
  | ErrNotImplemented
  | ErrForkProposalConflict
  | ErrForkExpired
  | ErrParentMoved string
  | ErrDeleteStormRejected
  | ErrValidation string

text \<open>A message: a constant text, or the format and the arguments of a \<^verbatim>\<open>fmt.Sprintf\<close>.\<close>

datatype message = Msg string | Msgf string "string list"

section \<open>Values\<close>

datatype json =
    JString string
  | JNumber int
  | JBool bool
  | JNull
  | JArray "json list"
  | JObject "(string \<times> json) list"

definition toString :: "json option \<Rightarrow> string" where
  "toString v = (case v of Some (JString s) \<Rightarrow> s | _ \<Rightarrow> '''')"

record FileSemantics =
  sem_Properties :: "(string, string) gomap"
  sem_Relations :: "string list"
  sem_Permissions :: "string list"
  sem_Comments :: "string list"

definition zero_semantics :: FileSemantics where
  "zero_semantics = \<lparr>sem_Properties = [], sem_Relations = [], sem_Permissions = [], sem_Comments = []\<rparr>"

record File =
  f_Path :: string
  f_Type :: string
  f_Target :: string
  f_Mode :: "32 word"
  f_Revision :: string
  f_ContentHash :: string
  f_ContentType :: string
  f_Content :: string
  f_Encoding :: string
  f_Provider :: string
  f_ProviderObjectID :: string
  f_LastEditedAt :: string
  f_Semantics :: FileSemantics

text \<open>\<^verbatim>\<open>File{}\<close>, which a lookup of a missing map key returns.\<close>

definition zero_file :: File where
  "zero_file = \<lparr>f_Path = '''', f_Type = '''', f_Target = '''', f_Mode = 0, f_Revision = '''',
     f_ContentHash = '''', f_ContentType = '''', f_Content = '''', f_Encoding = '''', f_Provider = '''',
     f_ProviderObjectID = '''', f_LastEditedAt = '''', f_Semantics = zero_semantics\<rparr>"

record FileTypeMetadata =
  ftm_Type :: string
  ftm_Target :: string
  ftm_Mode :: "32 word"

record ForkHandle =
  fh_ForkID :: string
  fh_ProposalID :: string
  fh_WorkspaceID :: string
  fh_ExpiresAt :: string
  fh_ParentRevision :: string

record ForkOverlayEntry =
  oe_Type :: string
  oe_File :: "File option"
  oe_Revision :: string
  oe_BaseRevision :: string
  oe_DeletedAt :: string

record ForkCommitResponse =
  fcr_Revision :: string
  fcr_WrittenCount :: nat
  fcr_DeletedCount :: nat

record RebaseConflict =
  rc_Path :: string
  rc_ForkType :: string
  rc_LiveExists :: bool
  rc_LiveRevision :: string
  rc_LiveContentPreview :: string

record RebaseResponse =
  rr_ParentRevision :: string
  rr_CleanCount :: nat
  rr_Conflicts :: "RebaseConflict list"

record ForkCommitEntry =
  fce_Path :: string
  fce_Type :: string
  fce_Permissions :: "string list"

record forkState =
  fs_ForkID :: string
  fs_WorkspaceID :: string
  fs_ProposalID :: string
  fs_ParentRevision :: string
  fs_CreatedAt :: string
  fs_ExpiresAt :: string
  fs_Overlay :: "(string, ForkOverlayEntry) gomap"
  fs_OverlayRevisionCounter :: nat

record Event =
  e_EventID :: string
  e_Type :: string
  e_Path :: string
  e_Revision :: string
  e_ContentHash :: string
  e_Origin :: string
  e_Provider :: string
  e_CorrelationID :: string
  e_Timestamp :: string
  e_TypeMetadata :: "FileTypeMetadata option"
  e_ACLPermissions :: "string list option"

record WriteRequest =
  wr_WorkspaceID :: string
  wr_Path :: string
  wr_IfMatch :: string
  wr_ContentType :: string
  wr_Content :: string
  wr_Encoding :: string
  wr_Type :: string
  wr_Target :: string
  wr_Mode :: "32 word"
  wr_Semantics :: FileSemantics
  wr_CorrelationID :: string

record ContentIdentity =
  ci_Kind :: string
  ci_Key :: string
  ci_TTLSeconds :: int

record BulkWriteFile =
  bf_Path :: string
  bf_Type :: string
  bf_Target :: string
  bf_Mode :: "32 word"
  bf_ContentType :: string
  bf_Content :: string
  bf_Encoding :: string
  bf_ContentIdentity :: "ContentIdentity option"
  bf_WritebackIntent :: string
  bf_IfMatch :: string

record BulkWriteError =
  be_Path :: string
  be_Code :: string
  be_Message :: message
  be_ExpectedRevision :: string
  be_CurrentRevision :: string

record BulkWriteResult =
  br_Path :: string
  br_Revision :: string
  br_ContentType :: string
  br_OpID :: string
  br_ContentIdentity :: "ContentIdentity option"
  br_Writeback :: "(string \<times> string) option"

record DeleteRequest =
  dr_WorkspaceID :: string
  dr_Path :: string
  dr_IfMatch :: string
  dr_CorrelationID :: string

record WriteResult =
  res_OpID :: string
  res_Status :: string
  res_TargetRevision :: string
  res_WritebackProvider :: string
  res_WritebackState :: string

record OperationStatus =
  op_OpID :: string
  op_Path :: string
  op_Revision :: string
  op_Action :: string
  op_Provider :: string
  op_Status :: string
  op_AttemptCount :: int
  op_NextAttemptAt :: "string option"
  op_LastError :: "string option"
  op_ProviderResult :: "(string, json) gomap option"
  op_ContentIdentity :: "ContentIdentity option"
  op_CorrelationID :: string
  op_CreatedAt :: string
  op_UpdatedAt :: string
  op_CompletedAt :: "string option"

record EnvelopeDeadLetter =
  dl_EnvelopeID :: string
  dl_WorkspaceID :: string
  dl_Provider :: string
  dl_DeliveryID :: string
  dl_CorrelationID :: string
  dl_FailedAt :: string
  dl_AttemptCount :: int
  dl_LastError :: string

record WebhookEnvelopeRequest =
  env_EnvelopeID :: string
  env_WorkspaceID :: string
  env_Provider :: string
  env_DeliveryID :: string
  env_ReceivedAt :: string
  env_Headers :: "(string, string) gomap"
  env_Payload :: "(string, json) gomap"
  env_CorrelationID :: string

record WritebackQueueItem =
  wq_WorkspaceID :: string
  wq_OpID :: string
  wq_Path :: string
  wq_Revision :: string
  wq_ContentIdentity :: "ContentIdentity option"
  wq_CorrelationID :: string

record providerIngressCounter =
  pic_AcceptedTotal :: nat
  pic_DroppedTotal :: nat
  pic_DedupedTotal :: nat
  pic_CoalescedTotal :: nat
  pic_SuppressedTotal :: nat
  pic_StaleTotal :: nat

record ingressCounter = providerIngressCounter +
  ic_ByProvider :: "(string, providerIngressCounter) gomap"

record revisionProvenanceEntry =
  pe_Revision :: string
  pe_Hash :: string
  pe_Deleted :: bool

section \<open>Queues and subscribers\<close>

record 'a queue =
  q_items :: "'a list"
  q_cap :: nat
  q_waiting :: "'a list"

text \<open>The writeback queue also keeps its entries by operation id.\<close>

record inMemoryWritebackQueue = "WritebackQueueItem queue" +
  wbq_items :: "(string, WritebackQueueItem) gomap"

record eventSubscriber =
  sub_events :: "Event list"
  sub_cap :: nat
  sub_signals :: bool
  sub_overflowed :: bool
  sub_overflow :: nat

section \<open>The store\<close>

record workspaceState =
  ws_Revision :: string
  ws_Files :: "(string, File) gomap"
  ws_Events :: "Event list"
  ws_ACLPermissionsByEvent :: "(string, string list) gomap"
  ws_Ops :: "(string, OperationStatus) gomap"
  ws_ProviderIndex :: "(string, string) gomap"
  ws_ProviderWatermarks :: "(string, string) gomap"

record persistedState =
  ps_RevCounter :: nat
  ps_OpCounter :: nat
  ps_EventCounter :: nat
  ps_Workspaces :: "(string, workspaceState) gomap"
  ps_Forks :: "(string, forkState) gomap"
  ps_EnvelopesByID :: "(string, WebhookEnvelopeRequest) gomap"
  ps_DeliveryIndex :: "(string, string) gomap"
  ps_ProcessedEnvs :: "(string, bool) gomap"
  ps_IngressByWorkspace :: "(string, ingressCounter) gomap"
  ps_EnvelopeAttempts :: "(string, int) gomap"
  ps_EnvelopeNextAttempt :: "(string, instant) gomap"
  ps_DeadLetters :: "(string, EnvelopeDeadLetter) gomap"
  ps_Suppressions :: "(string, instant) gomap"

record StoreConfig =
  cfg_stateBackend :: bool
  cfg_maxAttempts :: int
  cfg_retryDelay :: duration
  cfg_maxEnvelopeAttempts :: int
  cfg_envelopeRetryDelay :: duration
  cfg_suppressionWindow :: duration
  cfg_coalesceWindow :: duration
  cfg_maxStoredEnvelopes :: int
  cfg_deleteStormThreshold :: int
  cfg_deleteStormWindow :: duration
  cfg_staleRunningOpThreshold :: duration

record Store =
  s_workspaces :: "(string, workspaceState) gomap"
  s_forks :: "(string, forkState) gomap"
  s_forkByWorkspaceProposal :: "(string, string) gomap"
  s_forkByProposal :: "(string, string) gomap"
  s_expiredForks :: "(string, instant) gomap"
  s_revCounter :: nat
  s_opCounter :: nat
  s_eventCounter :: nat
  s_envelopesByID :: "(string, WebhookEnvelopeRequest) gomap"
  s_deliveryIndex :: "(string, string) gomap"
  s_processedEnvs :: "(string, bool) gomap"
  s_processingEnvs :: "(string, bool) gomap"
  s_writebackQueue :: inMemoryWritebackQueue
  s_envelopeQueue :: "string queue"
  s_queuedWritebacks :: "string list"
  s_queuedEnvelopes :: "string list"
  s_ingressByWS :: "(string, ingressCounter) gomap"
  s_coalesceIndex :: "(string, string) gomap"
  s_envelopeAttempts :: "(string, int) gomap"
  s_envelopeNextAttempt :: "(string, instant) gomap"
  s_deadLetters :: "(string, EnvelopeDeadLetter) gomap"
  s_revisionProvenance :: "(string, revisionProvenanceEntry list) gomap"
  s_suppressions :: "(string, instant) gomap"
  s_subscribers :: "(string, (nat, eventSubscriber) gomap) gomap"
  s_subscriberCounter :: nat
  s_deleteStormAdmissions :: "(string, instant list) gomap"
  s_closed :: bool
  s_disk :: "persistedState option"
  s_cfg :: StoreConfig

definition empty_workspace :: workspaceState where
  "empty_workspace = \<lparr>ws_Revision = ''0'', ws_Files = [], ws_Events = [], ws_ACLPermissionsByEvent = [],
     ws_Ops = [], ws_ProviderIndex = [], ws_ProviderWatermarks = []\<rparr>"

end
