(* ===== verification/FileModel.thy ===== *)
theory FileModel
  imports StoreTypes
begin

text \<open>
  The functions of \<^verbatim>\<open>store.go\<close> on single files: semantics normalisation, content encodings and
  hashes, file type metadata, permission resolution along the directories above a file, and the
  content-identity checks of bulk writes.
\<close>

section \<open>Semantics\<close>

fun normalize_properties_loop ::
  "(string, string) gomap \<Rightarrow> (string, string) gomap \<Rightarrow> (string, string) gomap" where
  "normalize_properties_loop out [] = out"
| "normalize_properties_loop out ((k, v) # rest) =
     (let key = TrimSpace k
      in if key = '''' then normalize_properties_loop out rest
         else normalize_properties_loop (mput key (TrimSpace v) out) rest)"

definition normalizeProperties :: "(string, string) gomap \<Rightarrow> (string, string) gomap" where
  "normalizeProperties m = normalize_properties_loop [] m"

fun dedupe_trimmed :: "string list \<Rightarrow> string list \<Rightarrow> string list" where
  "dedupe_trimmed seen [] = []"
| "dedupe_trimmed seen (raw # rest) =
     (let v = TrimSpace raw
      in if v = '''' \<or> v \<in> set seen then dedupe_trimmed seen rest
         else v # dedupe_trimmed (v # seen) rest)"

definition normalizeStringSlice :: "string list \<Rightarrow> string list" where
  "normalizeStringSlice xs = sort (dedupe_trimmed [] xs)"

definition normalizeSemantics :: "FileSemantics \<Rightarrow> FileSemantics" where
  "normalizeSemantics s =
     \<lparr>sem_Properties = normalizeProperties (sem_Properties s),
      sem_Relations = normalizeStringSlice (sem_Relations s),
      sem_Permissions = normalizeStringSlice (sem_Permissions s),
      sem_Comments = normalizeStringSlice (sem_Comments s)\<rparr>"

definition isZeroSemantics :: "FileSemantics \<Rightarrow> bool" where
  "isZeroSemantics s \<longleftrightarrow> sem_Properties s = [] \<and> sem_Relations s = []
     \<and> sem_Permissions s = [] \<and> sem_Comments s = []"

definition stringSliceContains :: "string list \<Rightarrow> string \<Rightarrow> bool" where
  "stringSliceContains values needle =
     (let needle = TrimSpace needle in if needle = '''' then False else needle \<in> set values)"

definition propertiesMatch :: "(string, string) gomap \<Rightarrow> (string, string) gomap \<Rightarrow> bool" where
  "propertiesMatch actual expected \<longleftrightarrow>
     list_all (\<lambda>(k, v). actual \<noteq> [] \<and> mget_or '''' actual k = v) expected"

definition truncatePreview :: "string \<Rightarrow> string" where
  "truncatePreview content = (if length content \<le> 4000 then content else take 4000 content)"

definition normalizeFailureCode :: "string \<Rightarrow> string" where
  "normalizeFailureCode errText =
     (let normalized = ToLower (TrimSpace errText);
          has = (\<lambda>ps. list_ex (Contains normalized) ps)
      in if normalized = '''' then ''unknown''
         else if has [''429'', ''rate limit'', ''rate_limited''] then ''rate_limited''
         else if has [''timeout'', ''timed out'', ''deadline exceeded''] then ''timeout''
         else if has [''401'', ''unauthorized''] then ''unauthorized''
         else if has [''403'', ''forbidden''] then ''forbidden''
         else if has [''404'', ''not found''] then ''not_found''
         else if has [''409'', ''conflict''] then ''conflict''
         else if has [''500'', ''502'', ''503'', ''504'', ''internal server''] then ''provider_unavailable''
         else ''unknown'')"

section \<open>Encodings and hashes\<close>

definition normalizeEncoding :: "string \<Rightarrow> store_error + string" where
  "normalizeEncoding raw =
     (let encoding = ToLower (TrimSpace raw)
      in if encoding = '''' \<or> encoding = ''utf-8'' \<or> encoding = ''utf8'' then Inr ''''
         else if encoding = ''base64'' then Inr ''base64''
         else Inl ErrInvalidInput)"

definition validateEncodedContent :: "string \<Rightarrow> string \<Rightarrow> bool" where
  "validateEncodedContent content encoding \<longleftrightarrow>
     encoding \<noteq> ''base64'' \<or> DecodeString StdEncoding content \<noteq> None
     \<or> DecodeString RawStdEncoding content \<noteq> None"

definition normalizeEncodingForHash :: "string \<Rightarrow> string" where
  "normalizeEncodingForHash raw = (if ToLower (TrimSpace raw) = ''base64'' then ''base64'' else '''')"

definition contentHashForEncodedContent :: "string \<Rightarrow> string \<Rightarrow> string" where
  "contentHashForEncodedContent content encoding =
     sha256_hex
       (if normalizeEncodingForHash encoding = ''base64'' then
          (case DecodeString StdEncoding content of
             Some decoded \<Rightarrow> decoded
           | None \<Rightarrow> (case DecodeString RawStdEncoding content of
                       Some decoded \<Rightarrow> decoded | None \<Rightarrow> content))
        else content)"

definition contentHashForFile :: "File \<Rightarrow> string" where
  "contentHashForFile file = contentHashForEncodedContent (f_Content file) (f_Encoding file)"

definition storedContentHashForFile :: "File \<Rightarrow> string" where
  "storedContentHashForFile file =
     (if TrimSpace (f_ContentHash file) \<noteq> '''' then f_ContentHash file else contentHashForFile file)"

definition ensureStoredContentHash :: "File \<Rightarrow> File" where
  "ensureStoredContentHash file =
     (if TrimSpace (f_ContentHash file) = '''' then file\<lparr>f_ContentHash := contentHashForFile file\<rparr> else file)"

section \<open>File types\<close>

definition normalizeTypeMetadata ::
  "string \<Rightarrow> string \<Rightarrow> 32 word \<Rightarrow> string \<Rightarrow> string \<Rightarrow> message + FileTypeMetadata" where
  "normalizeTypeMetadata rawType target mode rawEncoding content =
     (let t = ToLower (TrimSpace rawType); typeName = (if t = '''' then ''file'' else t)
      in if typeName = ''file'' then
           (if TrimSpace target \<noteq> '''' then Inl (Msg ''regular files cannot carry a symlink target'')
            else Inr \<lparr>ftm_Type = ''file'', ftm_Target = '''', ftm_Mode = mode\<rparr>)
         else if typeName = ''symlink'' then
           (if TrimSpace target = '''' then Inl (Msg ''symlink target is required'')
            else if rawEncoding \<noteq> '''' \<and> \<not> EqualFold (TrimSpace rawEncoding) ''utf-8'' then
              Inl (Msg ''symlink content must use utf-8 encoding'')
            else if content \<noteq> target then Inl (Msg ''symlink content must equal target'')
            else Inr \<lparr>ftm_Type = ''symlink'', ftm_Target = target, ftm_Mode = mode\<rparr>)
         else Inl (Msgf ''unsupported file type %q'' [rawType]))"

definition normalizeBulkWriteTypeMetadata ::
  "BulkWriteFile \<Rightarrow> File option \<Rightarrow> string \<Rightarrow> message + FileTypeMetadata" where
  "normalizeBulkWriteTypeMetadata input existing encoding =
     (let t = ToLower (TrimSpace (bf_Type input)); typeName = (if t = '''' then ''file'' else t);
          mode = (case existing of
                    Some f \<Rightarrow> if bf_Mode input = 0 \<and> typeName = ''file''
                                 \<and> \<not> EqualFold (TrimSpace (f_Type f)) ''symlink''
                               then f_Mode f else bf_Mode input
                  | None \<Rightarrow> bf_Mode input)
      in normalizeTypeMetadata (bf_Type input) (bf_Target input) mode encoding (bf_Content input))"

definition normalizeWriteTypeMetadata ::
  "WriteRequest \<Rightarrow> File option \<Rightarrow> string \<Rightarrow> message + FileTypeMetadata" where
  "normalizeWriteTypeMetadata input existing encoding =
     (let mode = (case existing of
                    Some f \<Rightarrow> if wr_Mode input = 0 \<and> f_Type f \<noteq> ''symlink'' then f_Mode f else wr_Mode input
                  | None \<Rightarrow> wr_Mode input)
      in normalizeTypeMetadata (wr_Type input) (wr_Target input) mode encoding (wr_Content input))"

section \<open>Permissions\<close>

text \<open>
  The three permission resolvers of the source share one loop; \<open>lookup\<close> is the live map, or the fork's
  overlay over it.  Directories come from the root down, the target's own permissions last.
\<close>

definition marker_permissions :: "(string \<Rightarrow> File option) \<Rightarrow> string \<Rightarrow> string \<Rightarrow> string list" where
  "marker_permissions lookup target dir =
     (let markerPath = joinPath dir DirectoryPermissionMarkerFile
      in if markerPath = target then []
         else case lookup markerPath of None \<Rightarrow> [] | Some marker \<Rightarrow> sem_Permissions (f_Semantics marker))"

definition resolve_permissions ::
  "(string \<Rightarrow> File option) \<Rightarrow> string \<Rightarrow> bool \<Rightarrow> string list" where
  "resolve_permissions lookup path includeTarget =
     (let target = normalizePath path
      in concat (map (marker_permissions lookup target) (ancestorDirectories target))
         @ (if includeTarget then
              (case lookup target of None \<Rightarrow> [] | Some file \<Rightarrow> sem_Permissions (f_Semantics file))
            else []))"

definition resolvePermissionsFromFiles ::
  "(string, File) gomap \<Rightarrow> string \<Rightarrow> bool \<Rightarrow> string list" where
  "resolvePermissionsFromFiles files path includeTarget =
     resolve_permissions (map_of files) path includeTarget"

definition fork_lookup ::
  "(string, File) gomap \<Rightarrow> (string, ForkOverlayEntry) gomap \<Rightarrow> string \<Rightarrow> File option" where
  "fork_lookup files overlay target =
     (let target = normalizePath target
      in case map_of overlay target of
           Some entry \<Rightarrow>
             (if oe_Type entry \<noteq> ''write'' then None
              else case oe_File entry of None \<Rightarrow> None
                   | Some file \<Rightarrow> Some (file\<lparr>f_Path := target, f_Revision := oe_Revision entry\<rparr>))
         | None \<Rightarrow> map_of files target)"

definition resolvePermissionsFromForkEntries ::
  "(string, File) gomap \<Rightarrow> (string, ForkOverlayEntry) gomap \<Rightarrow> string \<Rightarrow> bool \<Rightarrow> string list" where
  "resolvePermissionsFromForkEntries files overlay path includeTarget =
     resolve_permissions (fork_lookup files overlay) path includeTarget"

section \<open>Content identities\<close>

definition contentIdentityExpired :: "ContentIdentity option \<Rightarrow> string \<Rightarrow> instant \<Rightarrow> bool" where
  "contentIdentityExpired identity createdAt now =
     (case identity of None \<Rightarrow> False
      | Some i \<Rightarrow>
          if ci_TTLSeconds i \<le> 0 then False
          else case ParseRFC3339Nano (TrimSpace createdAt) of
                 None \<Rightarrow> False
               | Some created \<Rightarrow> \<not> now < created + wrap64 (ci_TTLSeconds i * Second))"

definition identity_matches :: "string \<Rightarrow> string \<Rightarrow> OperationStatus \<Rightarrow> bool" where
  "identity_matches kind key oper =
     (case op_ContentIdentity oper of None \<Rightarrow> False
      | Some i \<Rightarrow> TrimSpace (ci_Kind i) = kind \<and> TrimSpace (ci_Key i) = key)"

text \<open>The loop keeps the match with the least \<open>(CreatedAt, OpID)\<close>, both compared as strings.\<close>

fun find_operation_loop ::
  "string \<Rightarrow> string \<Rightarrow> instant \<Rightarrow> OperationStatus option \<Rightarrow> OperationStatus list \<Rightarrow> OperationStatus option" where
  "find_operation_loop kind key now matched [] = matched"
| "find_operation_loop kind key now matched (oper # rest) =
     (if \<not> identity_matches kind key oper
         \<or> contentIdentityExpired (op_ContentIdentity oper) (op_CreatedAt oper) now then
        find_operation_loop kind key now matched rest
      else case matched of
        None \<Rightarrow> find_operation_loop kind key now (Some oper) rest
      | Some m \<Rightarrow>
          if op_CreatedAt oper < op_CreatedAt m
             \<or> op_CreatedAt oper = op_CreatedAt m \<and> op_OpID oper < op_OpID m then
            find_operation_loop kind key now (Some oper) rest
          else find_operation_loop kind key now matched rest)"

definition findOperationByContentIdentityLocked ::
  "workspaceState \<Rightarrow> ContentIdentity option \<Rightarrow> instant \<Rightarrow> OperationStatus option" where
  "findOperationByContentIdentityLocked ws identity now =
     (case identity of None \<Rightarrow> None
      | Some i \<Rightarrow>
          (let kind = TrimSpace (ci_Kind i); key = TrimSpace (ci_Key i)
           in if kind = '''' \<or> key = '''' then None
              else find_operation_loop kind key now None (map snd (ws_Ops ws))))"

definition bulkWriteResultFromOperationLocked ::
  "workspaceState \<Rightarrow> OperationStatus \<Rightarrow> string \<Rightarrow> string \<Rightarrow> BulkWriteResult" where
  "bulkWriteResultFromOperationLocked ws oper fallbackPath fallbackContentType =
     (let p = normalizePath (op_Path oper);
          path = (if p = ''/'' \<or> p = '''' then normalizePath fallbackPath else p);
          revision = TrimSpace (op_Revision oper);
          contentType = TrimSpace fallbackContentType;
          (revision, contentType) =
            (case map_of (ws_Files ws) path of
               None \<Rightarrow> (revision, contentType)
             | Some file \<Rightarrow>
                 (if revision = '''' then f_Revision file else revision,
                  if TrimSpace (f_ContentType file) \<noteq> '''' then f_ContentType file else contentType))
      in \<lparr>br_Path = path, br_Revision = revision, br_ContentType = contentType, br_OpID = op_OpID oper,
          br_ContentIdentity = op_ContentIdentity oper,
          br_Writeback = Some (op_Provider oper, op_Status oper)\<rparr>)"

section \<open>Properties\<close>

lemma dedupe_trimmed_props:
  "distinct (dedupe_trimmed seen xs) \<and> set (dedupe_trimmed seen xs) = TrimSpace ` set xs - {''''} - set seen"
  by (induction seen xs rule: dedupe_trimmed.induct) (auto simp: Let_def)

lemma normalizeStringSlice_props:
  "sorted (normalizeStringSlice xs)" "distinct (normalizeStringSlice xs)"
  "set (normalizeStringSlice xs) = TrimSpace ` set xs - {''''}"
  using dedupe_trimmed_props [of "[]" xs] by (simp_all add: normalizeStringSlice_def)

lemma normalizeStringSlice_idem: "normalizeStringSlice (normalizeStringSlice xs) = normalizeStringSlice xs"
proof (rule sorted_distinct_set_unique)
  have "TrimSpace ` (TrimSpace ` set xs - {''''}) - {''''} = TrimSpace ` set xs - {''''}"
    by (auto simp: image_iff) (metis DiffI TrimSpace_idem imageI singletonD)
  then show "set (normalizeStringSlice (normalizeStringSlice xs)) = set (normalizeStringSlice xs)"
    by (simp add: normalizeStringSlice_props)
qed (simp_all add: normalizeStringSlice_props)

definition trimmed_map :: "(string, string) gomap \<Rightarrow> bool" where
  "trimmed_map m \<longleftrightarrow> wf_map m \<and> (\<forall>(k, v) \<in> set m. k \<noteq> '''' \<and> TrimSpace k = k \<and> TrimSpace v = v)"

lemma trimmed_mput:
  "trimmed_map m \<Longrightarrow> TrimSpace k \<noteq> '''' \<Longrightarrow> trimmed_map (mput (TrimSpace k) (TrimSpace v) m)"
  unfolding trimmed_map_def by (auto dest!: mem_mput)

lemma trimmed_loop: "trimmed_map out \<Longrightarrow> trimmed_map (normalize_properties_loop out m)"
  by (induction out m rule: normalize_properties_loop.induct) (simp_all add: Let_def trimmed_mput)

lemma mput_new: "k \<notin> fst ` set m \<Longrightarrow> mput k v m = m @ [(k, v)]"
  by (induction m) auto

lemma loop_trimmed_id:
  "trimmed_map (out @ m) \<Longrightarrow> normalize_properties_loop out m = out @ m"
proof (induction m arbitrary: out)
  case (Cons kv m)
  obtain k v where kv: "kv = (k, v)" by (cases kv)
  have "k \<notin> fst ` set out" "TrimSpace k = k" "TrimSpace v = v" "k \<noteq> ''''"
    using Cons.prems by (auto simp: kv trimmed_map_def wf_map_def)
  then show ?case using Cons.IH [of "out @ [(k, v)]"] Cons.prems by (simp add: kv mput_new Let_def)
qed simp

text \<open>Semantics are normalised once and for all: normalising twice changes nothing; the three
  string lists come out sorted, without duplicates, trimmed and without empty strings, and no
  non-empty trimmed entry is lost.\<close>

theorem normalizeSemantics_canonical:
  "normalizeSemantics (normalizeSemantics sem) = normalizeSemantics sem
   \<and> sorted (sem_Permissions (normalizeSemantics sem)) \<and> distinct (sem_Permissions (normalizeSemantics sem))
   \<and> set (sem_Permissions (normalizeSemantics sem)) = TrimSpace ` set (sem_Permissions sem) - {''''}"
proof -
  have "trimmed_map (normalizeProperties (sem_Properties sem))"
    unfolding normalizeProperties_def by (rule trimmed_loop) (simp add: trimmed_map_def)
  then have "normalizeProperties (normalizeProperties (sem_Properties sem)) = normalizeProperties (sem_Properties sem)"
    using loop_trimmed_id [of "[]"] by (simp add: normalizeProperties_def)
  then show ?thesis
    by (simp add: normalizeSemantics_def normalizeStringSlice_idem normalizeStringSlice_props)
qed

lemma joinPath_path_of: "segments_ok ds \<Longrightarrow> joinPath (path_of ds) c = path_of (ds @ [c])"
proof -
  assume ds: "segments_ok ds"
  have "path_of ds = ''/'' \<longleftrightarrow> ds = []" using path_of_inj [of ds "[]"] ds by auto
  then show ?thesis using ds by (simp add: joinPath_def Let_def path_of_snoc)
qed

text \<open>A permission governs a file exactly when the file carries it or a marker file of a
  directory above it does; a marker file is not governed by itself.\<close>

theorem resolve_permissions_exact:
  assumes "segments_ok segs" and "segs \<noteq> []"
  shows "set (resolvePermissionsFromFiles files (path_of segs) True) =
    {p. \<exists>ds f. strict_prefix ds segs \<and> ds @ [DirectoryPermissionMarkerFile] \<noteq> segs
        \<and> map_of files (path_of (ds @ [DirectoryPermissionMarkerFile])) = Some f
        \<and> p \<in> set (sem_Permissions (f_Semantics f))}
    \<union> (case map_of files (path_of segs) of None \<Rightarrow> {} | Some f \<Rightarrow> set (sem_Permissions (f_Semantics f)))"
proof -
  let ?M = "DirectoryPermissionMarkerFile"
  have M: "segments_ok (ds @ [?M])" if "strict_prefix ds segs" for ds
    using assms that by (auto simp: DirectoryPermissionMarkerFile_def strict_prefix_def prefix_def)
  have mark: "set (marker_permissions (map_of files) (path_of segs) (path_of ds)) =
      (if ds @ [?M] = segs then {} else case map_of files (path_of (ds @ [?M])) of
         None \<Rightarrow> {} | Some f \<Rightarrow> set (sem_Permissions (f_Semantics f)))" if "strict_prefix ds segs" for ds
    using M [OF that] assms(1) path_of_inj [of "ds @ [?M]" segs]
    by (auto simp: marker_permissions_def joinPath_path_of Let_def split: option.splits)
  have "set (ancestorDirectories (path_of segs)) = {path_of ds |ds. strict_prefix ds segs}"
    using ancestorDirectories_set [OF assms] .
  then have "(\<Union>d \<in> set (ancestorDirectories (path_of segs)). set (marker_permissions (map_of files) (path_of segs) d))
    = (\<Union>ds \<in> {ds. strict_prefix ds segs}. set (marker_permissions (map_of files) (path_of segs) (path_of ds)))"
    by auto
  then show ?thesis
    using assms(1) mark
    by (auto simp: resolvePermissionsFromFiles_def resolve_permissions_def Let_def split: option.splits if_splits)
qed

theorem resolve_permissions_exact_witness:
  "''deny:agent:a'' \<in> set (resolvePermissionsFromFiles
     [(''/x/.relayfile.acl'', zero_file\<lparr>f_Semantics := zero_semantics\<lparr>sem_Permissions := [''deny:agent:a'']\<rparr>\<rparr>)]
     (path_of [''x'', ''y'']) True)"
  by (subst resolve_permissions_exact)
     (auto simp: path_of_def DirectoryPermissionMarkerFile_def intro!: exI [of _ "[''x'']"])

section \<open>Content identities: which operation is found\<close>

definition live_match :: "string \<Rightarrow> string \<Rightarrow> instant \<Rightarrow> OperationStatus \<Rightarrow> bool" where
  "live_match kind key now oper \<longleftrightarrow>
     identity_matches kind key oper \<and> \<not> contentIdentityExpired (op_ContentIdentity oper) (op_CreatedAt oper) now"

lemma find_operation_loop_live:
  "find_operation_loop kind key now matched ops = Some m \<Longrightarrow>
   matched = Some m \<or> m \<in> set ops \<and> live_match kind key now m"
  by (induction kind key now matched ops rule: find_operation_loop.induct)
     (auto simp: live_match_def split: if_splits option.splits)

lemma find_operation_loop_total:
  "matched \<noteq> None \<or> (\<exists>m \<in> set ops. live_match kind key now m) \<Longrightarrow>
   find_operation_loop kind key now matched ops \<noteq> None"
  by (induction kind key now matched ops rule: find_operation_loop.induct)
     (auto simp: live_match_def split: if_splits option.splits)

text \<open>The age of a content identity is computed in 64-bit nanoseconds: a lifetime just above
  9,223,372,036 seconds wraps to a negative duration, so the identity counts as expired the moment it
  is recorded, while one second less lasts 292 years.\<close>

theorem content_identity_ttl_wraps:
  "contentIdentityExpired (Some \<lparr>ci_Kind = ''k'', ci_Key = ''x'', ci_TTLSeconds = 9223372037\<rparr>)
     ''2023-11-14T22:13:20Z'' 1700000000000000000
   \<and> \<not> contentIdentityExpired (Some \<lparr>ci_Kind = ''k'', ci_Key = ''x'', ci_TTLSeconds = 9223372036\<rparr>)
     ''2023-11-14T22:13:20Z'' 1700000000000000000"
proof -
  have t: "ParseRFC3339Nano (TrimSpace ''2023-11-14T22:13:20Z'') = Some 1700000000000000000" by code_simp
  show ?thesis by (simp add: contentIdentityExpired_def t wrap64_def Second_def)
qed

text \<open>Timestamps are compared as strings, and the order of RFC 3339 strings with trimmed fractions
  is not the order of time: an operation recorded on a whole second sorts after one recorded half a
  second later, so the lookup of a content identity returns the later of the two.\<close>

theorem timestamp_order_not_chronological:
  fixes older newer :: OperationStatus
  assumes "op_CreatedAt older = ''2023-11-14T22:13:20Z''" and "op_CreatedAt newer = ''2023-11-14T22:13:20.5Z''"
    and "op_ContentIdentity older = Some \<lparr>ci_Kind = ''k'', ci_Key = ''x'', ci_TTLSeconds = 0\<rparr>"
    and "op_ContentIdentity newer = Some \<lparr>ci_Kind = ''k'', ci_Key = ''x'', ci_TTLSeconds = 0\<rparr>"
    and "map snd (ws_Ops ws) = [older, newer]"
  shows "findOperationByContentIdentityLocked ws (Some \<lparr>ci_Kind = ''k'', ci_Key = ''x'', ci_TTLSeconds = 0\<rparr>) now
      = Some newer
    \<and> ParseRFC3339Nano (op_CreatedAt older) = Some 1700000000000000000
    \<and> ParseRFC3339Nano (op_CreatedAt newer) = Some 1700000000500000000"
proof -
  have trim: "TrimSpace ''k'' = ''k''" "TrimSpace ''x'' = ''x''" by code_simp+
  have p: "ParseRFC3339Nano (op_CreatedAt older) = Some 1700000000000000000" unfolding assms(1) by code_simp
  have "ParseRFC3339Nano (op_CreatedAt newer) = Some 1700000000500000000"
    unfolding assms(2) by (simp add: ParseRFC3339Nano_def digit_val_def get_frac_def is_digit_def get_zone_def
        daysIn_def days_of_civil_def Second_def)
  moreover have "op_CreatedAt newer < op_CreatedAt older" unfolding assms(1,2) by code_simp
  ultimately show ?thesis
    using p by (simp add: findOperationByContentIdentityLocked_def identity_matches_def assms(3-5)
        contentIdentityExpired_def trim)
qed

theorem timestamp_order_not_chronological_witness:
  "\<exists>ws (older :: OperationStatus) newer. findOperationByContentIdentityLocked ws
     (Some \<lparr>ci_Kind = ''k'', ci_Key = ''x'', ci_TTLSeconds = 0\<rparr>) 0 = Some newer
     \<and> op_CreatedAt older = ''2023-11-14T22:13:20Z'' \<and> op_CreatedAt newer = ''2023-11-14T22:13:20.5Z''"
proof -
  let ?i = "Some \<lparr>ci_Kind = ''k'', ci_Key = ''x'', ci_TTLSeconds = 0\<rparr>"
  let ?op = "\<lambda>id at. \<lparr>op_OpID = id, op_Path = ''/a'', op_Revision = ''rev_1'', op_Action = ''file_upsert'',
      op_Provider = '''', op_Status = ''pending'', op_AttemptCount = 0, op_NextAttemptAt = None, op_LastError = None,
      op_ProviderResult = None, op_ContentIdentity = ?i, op_CorrelationID = '''', op_CreatedAt = at, op_UpdatedAt = at,
      op_CompletedAt = None\<rparr>"
  let ?a = "?op ''op_1'' ''2023-11-14T22:13:20Z''" and ?b = "?op ''op_2'' ''2023-11-14T22:13:20.5Z''"
  let ?ws = "empty_workspace\<lparr>ws_Ops := [(''op_1'', ?a), (''op_2'', ?b)]\<rparr>"
  show ?thesis
  proof (intro exI conjI)
    show "findOperationByContentIdentityLocked ?ws ?i 0 = Some ?b"
      using timestamp_order_not_chronological [of ?a ?b ?ws 0] by simp
    show "op_CreatedAt ?a = ''2023-11-14T22:13:20Z''" by simp
    show "op_CreatedAt ?b = ''2023-11-14T22:13:20.5Z''" by simp
  qed
qed

end
