(* ===== verification/Queues.thy ===== *)
theory Queues
  imports StoreTypes
begin

text \<open>
  The work queues: \<^verbatim>\<open>inMemoryEnvelopeQueue\<close> and \<^verbatim>\<open>inMemoryWritebackQueue\<close> of \<^verbatim>\<open>store.go\<close> (bounded
  channels) and the persistent \<^verbatim>\<open>fileEnvelopeQueue\<close> and \<^verbatim>\<open>fileWritebackQueue\<close> of
  \<^verbatim>\<open>file_queue.go\<close>.  The interface \<^verbatim>\<open>EnvelopeQueue\<close>/\<^verbatim>\<open>WritebackQueue\<close> is the locale
  \<open>bounded_fifo\<close>; what a client may conclude from its laws is proved once there (entries come out in
  the order they were accepted, none twice, none lost, and the depth never exceeds the capacity) and
  all four implementations are interpretations of it.

  A channel is its buffered entries and the entries of the senders that block because it is full; a
  receive lets the first of them in.  The outcome of writing a queue file is an argument.
\<close>

section \<open>The interface\<close>

datatype 'x qcmd = Enq 'x | Deq

text \<open>A run of commands: the entries accepted, the entries delivered, and the queue at the end.\<close>

fun run_queue ::
  "('x \<Rightarrow> 'q \<Rightarrow> 'q \<times> bool) \<Rightarrow> ('q \<Rightarrow> ('x \<times> 'q) option) \<Rightarrow> 'x qcmd list \<Rightarrow> 'q \<Rightarrow> 'x list \<times> 'x list \<times> 'q" where
  "run_queue enq deq [] q = ([], [], q)"
| "run_queue enq deq (Enq x # cmds) q =
     (let (q', ok) = enq x q; (acc, del, q'') = run_queue enq deq cmds q'
      in (if ok then x # acc else acc, del, q''))"
| "run_queue enq deq (Deq # cmds) q =
     (case deq q of
        None \<Rightarrow> run_queue enq deq cmds q
      | Some (x, q') \<Rightarrow> let (acc, del, q'') = run_queue enq deq cmds q' in (acc, x # del, q''))"

locale bounded_fifo =
  fixes try_enqueue :: "'x \<Rightarrow> 'q \<Rightarrow> 'q \<times> bool"
    and dequeue :: "'q \<Rightarrow> ('x \<times> 'q) option"
    and entries :: "'q \<Rightarrow> 'x list"
    and depth :: "'q \<Rightarrow> nat"
    and capacity :: "'q \<Rightarrow> nat"
    and inv :: "'q \<Rightarrow> bool"
  assumes accepted: "inv q \<Longrightarrow> try_enqueue x q = (q', True) \<Longrightarrow> entries q' = entries q @ [x]"
    and refused: "inv q \<Longrightarrow> try_enqueue x q = (q', False) \<Longrightarrow> entries q' = entries q"
    and delivered: "inv q \<Longrightarrow> dequeue q = Some (x, q') \<Longrightarrow> entries q = x # entries q'"
    and bounded: "inv q \<Longrightarrow> depth q \<le> capacity q"
    and inv_enqueue: "inv q \<Longrightarrow> inv (fst (try_enqueue x q))"
    and inv_dequeue: "inv q \<Longrightarrow> dequeue q = Some (x, q') \<Longrightarrow> inv q'"
    and capacity_enqueue: "capacity (fst (try_enqueue x q)) = capacity q"
    and capacity_dequeue: "dequeue q = Some (x, q') \<Longrightarrow> capacity q' = capacity q"
begin

lemma run_fifo:
  "inv q \<Longrightarrow> run_queue try_enqueue dequeue cmds q = (acc, del, q') \<Longrightarrow>
   entries q @ acc = del @ entries q' \<and> inv q' \<and> capacity q' = capacity q"
proof (induction cmds arbitrary: q acc del)
  case (Cons cmd cmds)
  show ?case
  proof (cases cmd)
    case (Enq x)
    obtain q1 ok where e: "try_enqueue x q = (q1, ok)" by force
    obtain acc1 where r: "run_queue try_enqueue dequeue cmds q1 = (acc1, del, q')"
      and acc: "acc = (if ok then x # acc1 else acc1)"
      using Cons.prems(2) Enq e by (auto split: prod.splits)
    have "inv q1" "capacity q1 = capacity q"
      using inv_enqueue [OF Cons.prems(1), of x] capacity_enqueue [of x q] e by simp_all
    then show ?thesis
      using Cons.IH [OF \<open>inv q1\<close> r] acc accepted [OF Cons.prems(1)] refused [OF Cons.prems(1)] e
      by (cases ok) auto
  next
    case Deq
    show ?thesis
    proof (cases "dequeue q")
      case None
      then show ?thesis using Cons Deq by simp
    next
      case (Some r)
      obtain x q1 where d: "dequeue q = Some (x, q1)" using Some by (cases r) simp
      obtain del1 where r: "run_queue try_enqueue dequeue cmds q1 = (acc, del1, q')" and del: "del = x # del1"
        using Cons.prems(2) Deq d by (auto split: prod.splits)
      show ?thesis
        using Cons.IH [OF inv_dequeue [OF Cons.prems(1) d] r] del delivered [OF Cons.prems(1) d]
          capacity_dequeue [OF d] by simp
    qed
  qed
qed simp

lemma run_prefix:
  assumes "inv q" and "entries q = []" and "run_queue try_enqueue dequeue cmds q = (acc, del, q')"
  shows "acc = del @ entries q' \<and> depth q' \<le> capacity q"
  using run_fifo [OF assms(1,3)] bounded [of q'] assms(2) by auto

end

section \<open>Channels\<close>

definition chan_try_send :: "'a \<Rightarrow> ('a, 'b) queue_scheme \<Rightarrow> ('a, 'b) queue_scheme \<times> bool" where
  "chan_try_send x q =
     (if length (q_items q) < q_cap q then (q\<lparr>q_items := q_items q @ [x]\<rparr>, True) else (q, False))"

text \<open>A send that blocks when the buffer is full.\<close>

definition chan_send :: "'a \<Rightarrow> ('a, 'b) queue_scheme \<Rightarrow> ('a, 'b) queue_scheme" where
  "chan_send x q =
     (if length (q_items q) < q_cap q then q\<lparr>q_items := q_items q @ [x]\<rparr>
      else q\<lparr>q_waiting := q_waiting q @ [x]\<rparr>)"

definition chan_recv :: "('a, 'b) queue_scheme \<Rightarrow> ('a \<times> ('a, 'b) queue_scheme) option" where
  "chan_recv q =
     (case q_items q of
        [] \<Rightarrow> None
      | x # xs \<Rightarrow>
          Some (x, case q_waiting q of
                     [] \<Rightarrow> q\<lparr>q_items := xs\<rparr>
                   | w # ws \<Rightarrow> q\<lparr>q_items := xs @ [w], q_waiting := ws\<rparr>))"

definition queue_ok :: "('a, 'b) queue_scheme \<Rightarrow> bool" where
  "queue_ok q \<longleftrightarrow> 0 < q_cap q \<and> length (q_items q) \<le> q_cap q
     \<and> (q_waiting q \<noteq> [] \<longrightarrow> length (q_items q) = q_cap q)"

definition queue_entries :: "('a, 'b) queue_scheme \<Rightarrow> 'a list" where
  "queue_entries q = q_items q @ q_waiting q"

lemma chan_send_ok [simp]: "queue_ok q \<Longrightarrow> queue_ok (chan_send x q)"
  by (auto simp: queue_ok_def chan_send_def)

lemma chan_send_entries: "queue_ok q \<Longrightarrow> queue_entries (chan_send x q) = queue_entries q @ [x]"
  by (auto simp: queue_ok_def chan_send_def queue_entries_def)

lemma chan_recv_ok: "queue_ok q \<Longrightarrow> chan_recv q = Some (x, q') \<Longrightarrow> queue_ok q'"
  by (auto simp: queue_ok_def chan_recv_def split: list.splits)

lemma chan_recv_entries:
  "chan_recv q = Some (x, q') \<Longrightarrow> queue_entries q = x # queue_entries q' \<and> q_cap q' = q_cap q"
  by (auto simp: chan_recv_def queue_entries_def split: list.splits)

lemma chan_try_send_ok: "queue_ok q \<Longrightarrow> queue_ok (fst (chan_try_send x q))"
  by (auto simp: queue_ok_def chan_try_send_def)

lemma chan_try_send_entries:
  "queue_ok q \<Longrightarrow> chan_try_send x q = (q', ok) \<Longrightarrow>
   queue_entries q' = (if ok then queue_entries q @ [x] else queue_entries q) \<and> q_cap q' = q_cap q"
  by (auto simp: chan_try_send_def queue_ok_def queue_entries_def split: if_splits)

section \<open>In-memory queues\<close>

definition queue_capacity :: "int \<Rightarrow> nat" where
  "queue_capacity n = (if n \<le> 0 then 1024 else nat n)"

definition NewInMemoryEnvelopeQueue :: "int \<Rightarrow> string queue" where
  "NewInMemoryEnvelopeQueue n = \<lparr>q_items = [], q_cap = queue_capacity n, q_waiting = []\<rparr>"

definition env_TryEnqueue :: "string \<Rightarrow> string queue \<Rightarrow> string queue \<times> bool" where
  "env_TryEnqueue envelopeID q = (if envelopeID = '''' then (q, False) else chan_try_send envelopeID q)"

definition env_Enqueue :: "string \<Rightarrow> string queue \<Rightarrow> string queue" where
  "env_Enqueue envelopeID q = (if envelopeID = '''' then q else chan_send envelopeID q)"

definition env_Dequeue :: "string queue \<Rightarrow> (string \<times> string queue) option" where
  "env_Dequeue q = chan_recv q"

definition NewInMemoryWritebackQueue :: "int \<Rightarrow> inMemoryWritebackQueue" where
  "NewInMemoryWritebackQueue n =
     \<lparr>q_items = [], q_cap = queue_capacity n, q_waiting = [], wbq_items = []\<rparr>"

text \<open>
  \<^verbatim>\<open>TryEnqueue\<close> indexes the task before it tries the channel and removes the entry when the channel
  is full; \<^verbatim>\<open>Enqueue\<close> keeps it while it waits; \<^verbatim>\<open>Dequeue\<close> removes it.
\<close>

definition wb_TryEnqueue ::
  "WritebackQueueItem \<Rightarrow> inMemoryWritebackQueue \<Rightarrow> inMemoryWritebackQueue \<times> bool" where
  "wb_TryEnqueue task q =
     (if wq_OpID task = '''' then (q, False)
      else let q1 = q\<lparr>wbq_items := mput (wq_OpID task) task (wbq_items q)\<rparr>;
               (q2, ok) = chan_try_send task q1
           in if ok then (q2, True)
              else (q2\<lparr>wbq_items := mdel (wq_OpID task) (wbq_items q2)\<rparr>, False))"

definition wb_Enqueue :: "WritebackQueueItem \<Rightarrow> inMemoryWritebackQueue \<Rightarrow> inMemoryWritebackQueue" where
  "wb_Enqueue task q =
     (if wq_OpID task = '''' then q
      else chan_send task (q\<lparr>wbq_items := mput (wq_OpID task) task (wbq_items q)\<rparr>))"

definition wb_Dequeue :: "inMemoryWritebackQueue \<Rightarrow> (WritebackQueueItem \<times> inMemoryWritebackQueue) option" where
  "wb_Dequeue q =
     (case chan_recv q of
        None \<Rightarrow> None
      | Some (task, q') \<Rightarrow> Some (task, q'\<lparr>wbq_items := mdel (wq_OpID task) (wbq_items q')\<rparr>))"

definition SnapshotWritebacks :: "inMemoryWritebackQueue \<Rightarrow> WritebackQueueItem list" where
  "SnapshotWritebacks q = map snd (wbq_items q)"

text \<open>What one operation does to the entries, with the invariant and the capacity.\<close>

lemma queue_ok_bounded: "queue_ok q \<Longrightarrow> length (q_items q) \<le> q_cap q"
  by (simp add: queue_ok_def)

lemma queue_ext_update [simp]:
  "queue_ok (q\<lparr>wbq_items := m\<rparr>) = queue_ok q" "queue_entries (q\<lparr>wbq_items := m\<rparr>) = queue_entries q"
  by (simp_all add: queue_ok_def queue_entries_def)

lemma env_TryEnqueue_facts:
  assumes "queue_ok q" and "env_TryEnqueue x q = (q', ok)"
  shows "queue_ok q' \<and> queue_entries q' = (if ok then queue_entries q @ [x] else queue_entries q)"
  using assms chan_try_send_ok [of q x] chan_try_send_entries [of q x]
  by (auto simp: env_TryEnqueue_def split: if_splits)

lemma wb_TryEnqueue_facts:
  assumes "queue_ok q" and "wb_TryEnqueue t q = (q', ok)"
  shows "queue_ok q' \<and> queue_entries q' = (if ok then queue_entries q @ [t] else queue_entries q)"
proof (cases "wq_OpID t = ''''")
  case False
  let ?q = "q\<lparr>wbq_items := mput (wq_OpID t) t (wbq_items q)\<rparr>"
  obtain q2 ok' where c: "chan_try_send t ?q = (q2, ok')" by force
  have "queue_ok ?q" using assms by simp
  then have "queue_ok q2" "queue_entries q2 = (if ok' then queue_entries q @ [t] else queue_entries q)"
    using chan_try_send_ok [of ?q t] chan_try_send_entries [OF _ c] c by simp_all
  with False assms(2) c show ?thesis by (auto simp: wb_TryEnqueue_def split: if_splits)
qed (use assms in \<open>simp add: wb_TryEnqueue_def\<close>)

lemma wb_TryEnqueue_cap: "q_cap (fst (wb_TryEnqueue t q)) = q_cap q"
  by (simp add: wb_TryEnqueue_def chan_try_send_def Let_def)

lemma wb_Dequeue_facts:
  assumes "wb_Dequeue q = Some (t, q')"
  shows "queue_entries q = t # queue_entries q'" and "q_cap q' = q_cap q" and "queue_ok q \<Longrightarrow> queue_ok q'"
proof -
  obtain q1 where c: "chan_recv q = Some (t, q1)" and q': "q' = q1\<lparr>wbq_items := mdel (wq_OpID t) (wbq_items q1)\<rparr>"
    using assms by (auto simp: wb_Dequeue_def split: option.splits)
  show "queue_entries q = t # queue_entries q'" "q_cap q' = q_cap q" "queue_ok q \<Longrightarrow> queue_ok q'"
    using chan_recv_entries [OF c] chan_recv_ok [OF _ c] by (simp_all add: q')
qed

interpretation envq: bounded_fifo env_TryEnqueue env_Dequeue queue_entries "\<lambda>q. length (q_items q)" q_cap queue_ok
proof (unfold_locales, goal_cases)
  case (5 q x)
  then show ?case by (simp add: env_TryEnqueue_def chan_try_send_ok)
next
  case (7 x q)
  then show ?case by (simp add: env_TryEnqueue_def chan_try_send_def)
qed (auto simp: env_Dequeue_def queue_ok_bounded
      dest: env_TryEnqueue_facts chan_recv_entries chan_recv_ok)

interpretation wbq: bounded_fifo wb_TryEnqueue wb_Dequeue queue_entries "\<lambda>q. length (q_items q)" q_cap queue_ok
proof (unfold_locales, goal_cases)
  case (5 q x)
  then show ?case using wb_TryEnqueue_facts by (metis prod.collapse)
next
  case (7 x q)
  then show ?case by (rule wb_TryEnqueue_cap)
qed (auto simp: queue_ok_bounded dest: wb_TryEnqueue_facts wb_Dequeue_facts)

section \<open>Queue files\<close>

record 'a fileQueue =
  fq_items :: "'a list"
  fq_cap :: nat
  fq_disk :: "'a list option"

text \<open>
  \<open>saved\<close> is the outcome of \<open>saveLocked\<close>, which replaces the file by a rename: either the new list is
  on disk or the old file still is.  \<open>key\<close> is the identifier the queue checks (the envelope id, or
  the operation id of a task).
\<close>

definition file_TryEnqueue ::
  "('a \<Rightarrow> string) \<Rightarrow> bool \<Rightarrow> 'a \<Rightarrow> 'a fileQueue \<Rightarrow> 'a fileQueue \<times> bool" where
  "file_TryEnqueue key saved x q =
     (if TrimSpace (key x) = '''' \<or> length (fq_items q) \<ge> fq_cap q \<or> \<not> saved then (q, False)
      else (q\<lparr>fq_items := fq_items q @ [x], fq_disk := Some (fq_items q @ [x])\<rparr>, True))"

definition file_Dequeue :: "bool \<Rightarrow> 'a fileQueue \<Rightarrow> ('a \<times> 'a fileQueue) option" where
  "file_Dequeue saved q =
     (case fq_items q of
        [] \<Rightarrow> None
      | x # xs \<Rightarrow> if saved then Some (x, q\<lparr>fq_items := xs, fq_disk := Some xs\<rparr>) else None)"

text \<open>\<open>load\<close> on a file that decodes; a longer list keeps its newest entries.\<close>

definition file_load :: "'a fileQueue \<Rightarrow> 'a fileQueue" where
  "file_load q =
     (case fq_disk q of
        None \<Rightarrow> q
      | Some snapshot \<Rightarrow>
          if length snapshot > fq_cap q then
            (let kept = drop (length snapshot - fq_cap q) snapshot in q\<lparr>fq_items := kept, fq_disk := Some kept\<rparr>)
          else q\<lparr>fq_items := snapshot\<rparr>)"

definition NewFileQueue :: "int \<Rightarrow> 'a list option \<Rightarrow> 'a fileQueue" where
  "NewFileQueue n disk = file_load \<lparr>fq_items = [], fq_cap = queue_capacity n, fq_disk = disk\<rparr>"

definition file_queue_ok :: "'a fileQueue \<Rightarrow> bool" where
  "file_queue_ok q \<longleftrightarrow> length (fq_items q) \<le> fq_cap q
     \<and> (case fq_disk q of None \<Rightarrow> fq_items q = [] | Some xs \<Rightarrow> xs = fq_items q)"

interpretation fileq: bounded_fifo "file_TryEnqueue key saved" "file_Dequeue saved'" fq_items
  "\<lambda>q. length (fq_items q)" fq_cap file_queue_ok for key saved saved'
  by unfold_locales
     (auto simp: file_TryEnqueue_def file_Dequeue_def file_queue_ok_def
       split: if_splits list.splits option.splits)

section \<open>Properties\<close>

text \<open>The writeback queue is first in, first out, loses nothing and delivers nothing twice: after
  any sequence of enqueue attempts and dequeues on an empty queue, the accepted tasks are the
  delivered ones followed by the ones still queued, and the depth stays within the capacity.\<close>

theorem writeback_queue_fifo:
  assumes "run_queue wb_TryEnqueue wb_Dequeue cmds (NewInMemoryWritebackQueue n) = (accepted, delivered, q)"
  shows "accepted = delivered @ queue_entries q \<and> length (q_items q) \<le> queue_capacity n"
proof -
  have "queue_ok (NewInMemoryWritebackQueue n)" "queue_entries (NewInMemoryWritebackQueue n) = []"
    by (auto simp: NewInMemoryWritebackQueue_def queue_ok_def queue_entries_def queue_capacity_def)
  from wbq.run_prefix [OF this assms] show ?thesis by (simp add: NewInMemoryWritebackQueue_def)
qed

definition sample_task :: "string \<Rightarrow> WritebackQueueItem" where
  "sample_task i = \<lparr>wq_WorkspaceID = ''w'', wq_OpID = i, wq_Path = ''/a'', wq_Revision = ''rev_1'',
     wq_ContentIdentity = None, wq_CorrelationID = ''''\<rparr>"

theorem writeback_queue_fifo_witness:
  "\<exists>q :: inMemoryWritebackQueue. [sample_task ''op_1'', sample_task ''op_2''] = [sample_task ''op_1''] @ queue_entries q
     \<and> length (q_items q) \<le> queue_capacity 2"
proof -
  let ?cmds = "[Enq (sample_task ''op_1''), Enq (sample_task ''op_2''), Enq (sample_task ''op_3''), Deq]"
  have run: "run_queue wb_TryEnqueue wb_Dequeue ?cmds (NewInMemoryWritebackQueue 2)
      = ([sample_task ''op_1'', sample_task ''op_2''], [sample_task ''op_1''],
         \<lparr>q_items = [sample_task ''op_2''], q_cap = 2, q_waiting = [], wbq_items = [(''op_2'', sample_task ''op_2'')]\<rparr>)"
    by code_simp
  show ?thesis
    using writeback_queue_fifo [OF run] by blast
qed

text \<open>Any mixture of operations on a queue file, whichever of their writes fail.\<close>

inductive file_queue_steps :: "('a \<Rightarrow> string) \<Rightarrow> 'a fileQueue \<Rightarrow> 'a fileQueue \<Rightarrow> bool" for key where
  fq_refl: "file_queue_steps key q q"
| fq_enqueue: "file_queue_steps key q q' \<Longrightarrow> file_queue_steps key q (fst (file_TryEnqueue key saved x q'))"
| fq_dequeue: "file_queue_steps key q q' \<Longrightarrow> file_Dequeue saved q' = Some (x, q'') \<Longrightarrow> file_queue_steps key q q''"

lemma file_queue_steps_ok: "file_queue_steps key q q' \<Longrightarrow> file_queue_ok q \<Longrightarrow> file_queue_ok q'"
  by (induction rule: file_queue_steps.induct) (auto intro: fileq.inv_enqueue fileq.inv_dequeue)

lemma file_load_ok: "file_queue_ok q \<Longrightarrow> file_load q = q"
  by (auto simp: file_load_def file_queue_ok_def split: option.splits)

text \<open>A queue file survives a restart: whatever mixture of operations ran on a new queue and
  whichever of their writes failed, loading the file again gives exactly the entries the queue held.\<close>

theorem file_queue_restart:
  assumes "file_queue_steps key (NewFileQueue n None) q"
  shows "file_load q = q \<and> length (fq_items q) \<le> fq_cap q"
proof -
  have "file_queue_ok (NewFileQueue n None)"
    by (simp add: NewFileQueue_def file_load_def file_queue_ok_def)
  from file_queue_steps_ok [OF assms this] show ?thesis by (simp add: file_load_ok file_queue_ok_def)
qed

theorem file_queue_restart_witness:
  "file_load (fst (file_TryEnqueue id True ''env_1'' (NewFileQueue 4 None)))
   = fst (file_TryEnqueue id True ''env_1'' (NewFileQueue 4 None))"
  by (rule conjunct1 [OF file_queue_restart [OF fq_enqueue [OF fq_refl]]])

end
