(* ===== verification/StoreCore.thy ===== *)
theory StoreCore
  imports FileModel Queues
begin

text \<open>
  The core operations of \<^verbatim>\<open>store.go\<close> and \<^verbatim>\<open>delete_storm.go\<close> on one workspace: reading, conditional
  writes and deletes, bulk writes, exports, and what every mutation records (an operation, a
  provenance entry, an event, a writeback task).

  An operation of the source runs under the lock and is a function from the store to the new store and
  the result.  \<open>now\<close> is the clock reading of the operation (the source reads the clock a few times
  under the lock; one reading stands for them).  \<open>saveLocked\<close> keeps the last snapshot in \<open>s_disk\<close> when
  a backend is configured; its write errors are ignored by the source, as here.  The source finds
  the id of a workspace from its pointer (\<open>workspaceIDForStateLocked\<close>); the model passes the id.
\<close>

section \<open>Counters, workspaces, snapshots\<close>

definition rev_id :: "nat \<Rightarrow> string" where "rev_id k = ''rev_'' @ itoa k"
definition op_id :: "nat \<Rightarrow> string" where "op_id k = ''op_'' @ itoa k"
definition evt_id :: "nat \<Rightarrow> string" where "evt_id k = ''evt_'' @ itoa k"

definition nextRevisionLocked :: "Store \<Rightarrow> string \<times> Store" where
  "nextRevisionLocked s =
     (let n = s_revCounter s + 1 in (rev_id n, s\<lparr>s_revCounter := n\<rparr>))"

definition nextOperationIDLocked :: "Store \<Rightarrow> string \<times> Store" where
  "nextOperationIDLocked s =
     (let n = s_opCounter s + 1 in (op_id n, s\<lparr>s_opCounter := n\<rparr>))"

definition nextEventIDLocked :: "Store \<Rightarrow> string \<times> Store" where
  "nextEventIDLocked s =
     (let n = s_eventCounter s + 1 in (evt_id n, s\<lparr>s_eventCounter := n\<rparr>))"

definition ws_of :: "Store \<Rightarrow> string \<Rightarrow> workspaceState" where
  "ws_of s workspaceID = mget_or empty_workspace (s_workspaces s) workspaceID"

definition put_ws :: "string \<Rightarrow> workspaceState \<Rightarrow> Store \<Rightarrow> Store" where
  "put_ws workspaceID ws s = s\<lparr>s_workspaces := mput workspaceID ws (s_workspaces s)\<rparr>"

definition ensureWorkspaceLocked :: "string \<Rightarrow> Store \<Rightarrow> Store" where
  "ensureWorkspaceLocked workspaceID s =
     (case map_of (s_workspaces s) workspaceID of
        Some ws \<Rightarrow> s
      | None \<Rightarrow> put_ws workspaceID empty_workspace s)"

definition currentWorkspaceRevisionLocked :: "Store \<Rightarrow> string \<Rightarrow> string" where
  "currentWorkspaceRevisionLocked s workspaceID =
     (case map_of (s_workspaces s) workspaceID of
        Some ws \<Rightarrow> if TrimSpace (ws_Revision ws) \<noteq> '''' then ws_Revision ws else ''0''
      | None \<Rightarrow> ''0'')"

definition snapshot_of :: "Store \<Rightarrow> persistedState" where
  "snapshot_of s =
     \<lparr>ps_RevCounter = s_revCounter s, ps_OpCounter = s_opCounter s, ps_EventCounter = s_eventCounter s,
      ps_Workspaces = s_workspaces s, ps_Forks = s_forks s, ps_EnvelopesByID = s_envelopesByID s,
      ps_DeliveryIndex = s_deliveryIndex s, ps_ProcessedEnvs = s_processedEnvs s,
      ps_IngressByWorkspace = s_ingressByWS s, ps_EnvelopeAttempts = s_envelopeAttempts s,
      ps_EnvelopeNextAttempt = s_envelopeNextAttempt s, ps_DeadLetters = s_deadLetters s,
      ps_Suppressions = s_suppressions s\<rparr>"

definition saveLocked :: "Store \<Rightarrow> Store" where
  "saveLocked s = (if cfg_stateBackend (s_cfg s) then s\<lparr>s_disk := Some (snapshot_of s)\<rparr> else s)"

section \<open>A new store\<close>

record StoreOptions =
  so_StateBackend :: bool
  so_MaxWritebackAttempts :: int
  so_WritebackDelay :: duration
  so_MaxEnvelopeAttempts :: int
  so_EnvelopeRetryDelay :: duration
  so_SuppressionWindow :: duration
  so_CoalesceWindow :: duration
  so_MaxStoredEnvelopes :: int
  so_EnvelopeQueueSize :: int
  so_DeleteStormThreshold :: int
  so_DeleteStormWindow :: duration
  so_StaleRunningOpThreshold :: duration

definition positive_or :: "int \<Rightarrow> int \<Rightarrow> int" where
  "positive_or d n = (if n \<le> 0 then d else n)"

definition store_config :: "StoreOptions \<Rightarrow> StoreConfig" where
  "store_config opts =
     \<lparr>cfg_stateBackend = so_StateBackend opts,
      cfg_maxAttempts = positive_or 3 (so_MaxWritebackAttempts opts),
      cfg_retryDelay = positive_or (50 * 1000000) (so_WritebackDelay opts),
      cfg_maxEnvelopeAttempts = positive_or 3 (so_MaxEnvelopeAttempts opts),
      cfg_envelopeRetryDelay = positive_or (50 * 1000000) (so_EnvelopeRetryDelay opts),
      cfg_suppressionWindow = positive_or (2 * Minute) (so_SuppressionWindow opts),
      cfg_coalesceWindow = positive_or (3 * Second) (so_CoalesceWindow opts),
      cfg_maxStoredEnvelopes = positive_or 10000 (so_MaxStoredEnvelopes opts),
      cfg_deleteStormThreshold = so_DeleteStormThreshold opts,
      cfg_deleteStormWindow = so_DeleteStormWindow opts,
      cfg_staleRunningOpThreshold = so_StaleRunningOpThreshold opts\<rparr>"

text \<open>The store as \<open>NewStoreWithOptions\<close> builds it, before it loads a snapshot; \<open>disk\<close> is what the
  backend holds.\<close>

definition new_store :: "StoreOptions \<Rightarrow> persistedState option \<Rightarrow> Store" where
  "new_store opts disk =
     \<lparr>s_workspaces = [], s_forks = [], s_forkByWorkspaceProposal = [], s_forkByProposal = [], s_expiredForks = [],
      s_revCounter = 0, s_opCounter = 0, s_eventCounter = 0, s_envelopesByID = [], s_deliveryIndex = [],
      s_processedEnvs = [], s_processingEnvs = [],
      s_writebackQueue = NewInMemoryWritebackQueue 1024,
      s_envelopeQueue = NewInMemoryEnvelopeQueue (positive_or 1024 (so_EnvelopeQueueSize opts)),
      s_queuedWritebacks = [], s_queuedEnvelopes = [], s_ingressByWS = [], s_coalesceIndex = [],
      s_envelopeAttempts = [], s_envelopeNextAttempt = [], s_deadLetters = [], s_revisionProvenance = [],
      s_suppressions = [], s_subscribers = [], s_subscriberCounter = 0, s_deleteStormAdmissions = [],
      s_closed = False, s_disk = disk, s_cfg = store_config opts\<rparr>"

definition default_options :: StoreOptions where
  "default_options =
     \<lparr>so_StateBackend = False, so_MaxWritebackAttempts = 0, so_WritebackDelay = 0, so_MaxEnvelopeAttempts = 0,
      so_EnvelopeRetryDelay = 0, so_SuppressionWindow = 0, so_CoalesceWindow = 0, so_MaxStoredEnvelopes = 0,
      so_EnvelopeQueueSize = 0, so_DeleteStormThreshold = 0, so_DeleteStormWindow = 0,
      so_StaleRunningOpThreshold = 0\<rparr>"

definition NewStore :: Store where
  "NewStore = new_store default_options None"

section \<open>Events\<close>

definition snapshotACLPermissions :: "string list \<Rightarrow> string list option" where
  "snapshotACLPermissions permissions = Some permissions"

definition publish_one :: "Event \<Rightarrow> eventSubscriber \<Rightarrow> eventSubscriber" where
  "publish_one event sub =
     (let room = length (sub_events sub) < sub_cap sub
      in if \<not> sub_signals sub then
           (if room then sub\<lparr>sub_events := sub_events sub @ [event]\<rparr> else sub)
         else if sub_overflowed sub then sub
         else if room then sub\<lparr>sub_events := sub_events sub @ [event]\<rparr>
         else sub\<lparr>sub_overflowed := True, sub_overflow := sub_overflow sub + 1\<rparr>)"

definition publishEvent :: "string \<Rightarrow> Event \<Rightarrow> Store \<Rightarrow> Store" where
  "publishEvent workspaceID event s =
     (let workspaceID = TrimSpace workspaceID
      in if workspaceID = '''' then s
         else case map_of (s_subscribers s) workspaceID of
                None \<Rightarrow> s
              | Some subs \<Rightarrow>
                  s\<lparr>s_subscribers := mput workspaceID (map (\<lambda>(i, sub). (i, publish_one event sub)) subs)
                                        (s_subscribers s)\<rparr>)"

definition appendWorkspaceEventLocked :: "string \<Rightarrow> Event \<Rightarrow> Store \<Rightarrow> Store" where
  "appendWorkspaceEventLocked workspaceID event s =
     (let ws = ws_of s workspaceID;
          ws = ws\<lparr>ws_Events := ws_Events ws @ [event]\<rparr>;
          ws = (case e_ACLPermissions event of
                  None \<Rightarrow> ws
                | Some perms \<Rightarrow> ws\<lparr>ws_ACLPermissionsByEvent :=
                    mput (e_EventID event) perms (ws_ACLPermissionsByEvent ws)\<rparr>)
      in publishEvent workspaceID event (put_ws workspaceID ws s))"

section \<open>Provenance\<close>

definition maxRevisionProvenancePerPath :: nat where
  "maxRevisionProvenancePerPath = 20"

definition revisionProvenanceKey :: "string \<Rightarrow> string \<Rightarrow> string" where
  "revisionProvenanceKey workspaceID path = workspaceID @ [CHR 0x00] @ normalizePath path"

definition recordRevisionProvenanceLocked ::
  "string \<Rightarrow> string \<Rightarrow> string \<Rightarrow> string \<Rightarrow> Store \<Rightarrow> Store" where
  "recordRevisionProvenanceLocked workspaceID path revision hash s =
     (let key = revisionProvenanceKey workspaceID path;
          entries = mget_or [] (s_revisionProvenance s) key
                    @ [\<lparr>pe_Revision = revision, pe_Hash = hash, pe_Deleted = (hash = '''')\<rparr>];
          entries = (if length entries > maxRevisionProvenancePerPath
                     then drop (length entries - maxRevisionProvenancePerPath) entries else entries)
      in s\<lparr>s_revisionProvenance := mput key entries (s_revisionProvenance s)\<rparr>)"

definition lookupRevisionProvenanceLocked ::
  "Store \<Rightarrow> string \<Rightarrow> string \<Rightarrow> string \<Rightarrow> revisionProvenanceEntry option" where
  "lookupRevisionProvenanceLocked s workspaceID path revision =
     find (\<lambda>e. pe_Revision e = revision)
       (mget_or [] (s_revisionProvenance s) (revisionProvenanceKey workspaceID path))"

section \<open>Recording a write\<close>

definition writebackActionFromEventType :: "string \<Rightarrow> string" where
  "writebackActionFromEventType eventType =
     (if eventType = ''file.deleted'' then ''file_delete'' else ''file_upsert'')"

text \<open>
  \<open>recordWriteWithContentIdentityAndACLPermissionsLocked\<close>; \<open>acl\<close> is \<open>Some\<close> the permissions that the
  caller resolved (\<open>snapshotACL\<close>), \<open>None\<close> to resolve them here.
\<close>

definition record_operation ::
  "string \<Rightarrow> string \<Rightarrow> string \<Rightarrow> string \<Rightarrow> string \<Rightarrow> string \<Rightarrow> string \<Rightarrow> ContentIdentity option \<Rightarrow> OperationStatus" where
  "record_operation opID path revision eventType provider correlationID nowTS contentIdentity =
     \<lparr>op_OpID = opID, op_Path = path, op_Revision = revision,
      op_Action = writebackActionFromEventType eventType, op_Provider = provider, op_Status = ''pending'',
      op_AttemptCount = 0, op_NextAttemptAt = None, op_LastError = None, op_ProviderResult = None,
      op_ContentIdentity = contentIdentity, op_CorrelationID = correlationID, op_CreatedAt = nowTS,
      op_UpdatedAt = nowTS, op_CompletedAt = None\<rparr>"

definition recordWriteWithContentIdentityAndACLPermissionsLocked ::
  "instant \<Rightarrow> string \<Rightarrow> string \<Rightarrow> string \<Rightarrow> string \<Rightarrow> string \<Rightarrow> string \<Rightarrow> ContentIdentity option \<Rightarrow>
   string list option \<Rightarrow> Store \<Rightarrow> WriteResult \<times> WritebackQueueItem \<times> Store" where
  "recordWriteWithContentIdentityAndACLPermissionsLocked now workspaceID path revision eventType provider
     correlationID contentIdentity acl s =
     (let (opID, s) = nextOperationIDLocked s;
          nowTS = FormatRFC3339Nano now;
          oper = record_operation opID path revision eventType provider correlationID nowTS contentIdentity;
          ws = ws_of s workspaceID;
          s = put_ws workspaceID (ws\<lparr>ws_Ops := mput opID oper (ws_Ops ws)\<rparr>) s;
          file = map_of (ws_Files ws) path;
          contentHash = (if eventType \<noteq> ''file.deleted''
                         then storedContentHashForFile (case file of None \<Rightarrow> zero_file | Some f \<Rightarrow> f) else '''');
          s = recordRevisionProvenanceLocked workspaceID path revision contentHash s;
          (eventID, s) = nextEventIDLocked s;
          event = \<lparr>e_EventID = eventID, e_Type = eventType, e_Path = path, e_Revision = revision,
                   e_ContentHash = contentHash, e_Origin = ''agent_write'', e_Provider = provider,
                   e_CorrelationID = correlationID, e_Timestamp = nowTS,
                   e_TypeMetadata =
                     (case file of
                        Some f \<Rightarrow> if eventType \<noteq> ''file.deleted''
                                  then Some \<lparr>ftm_Type = f_Type f, ftm_Target = f_Target f, ftm_Mode = f_Mode f\<rparr>
                                  else None
                      | None \<Rightarrow> None),
                   e_ACLPermissions =
                     (if HasPrefix eventType ''file.'' then
                        snapshotACLPermissions
                          (case acl of
                             Some perms \<Rightarrow> perms
                           | None \<Rightarrow> resolvePermissionsFromFiles (ws_Files ws) path (eventType \<noteq> ''file.deleted''))
                      else None)\<rparr>;
          s = appendWorkspaceEventLocked workspaceID event s
      in (\<lparr>res_OpID = opID, res_Status = ''queued'', res_TargetRevision = revision,
           res_WritebackProvider = provider, res_WritebackState = ''pending''\<rparr>,
          \<lparr>wq_WorkspaceID = workspaceID, wq_OpID = opID, wq_Path = path, wq_Revision = revision,
           wq_ContentIdentity = contentIdentity, wq_CorrelationID = correlationID\<rparr>, s))"

abbreviation recordWriteWithContentIdentityLocked where
  "recordWriteWithContentIdentityLocked now workspaceID path revision eventType provider corr ident \<equiv>
     recordWriteWithContentIdentityAndACLPermissionsLocked now workspaceID path revision eventType provider corr
       ident None"

abbreviation recordWriteLocked where
  "recordWriteLocked now workspaceID path revision eventType provider corr \<equiv>
     recordWriteWithContentIdentityAndACLPermissionsLocked now workspaceID path revision eventType provider corr
       None None"

abbreviation recordWriteWithACLPermissionsLocked where
  "recordWriteWithACLPermissionsLocked now workspaceID path revision eventType provider corr perms \<equiv>
     recordWriteWithContentIdentityAndACLPermissionsLocked now workspaceID path revision eventType provider corr
       None (Some perms)"

text \<open>\<open>enqueueWriteback\<close>: a task already queued is not queued again; when the channel is full the task
  waits in a goroutine of its own.\<close>

definition enqueueWriteback :: "WritebackQueueItem \<Rightarrow> Store \<Rightarrow> Store" where
  "enqueueWriteback task s =
     (if wq_OpID task = '''' \<or> s_closed s \<or> wq_OpID task \<in> set (s_queuedWritebacks s) then s
      else let s = s\<lparr>s_queuedWritebacks := wq_OpID task # s_queuedWritebacks s\<rparr>;
               (q, ok) = wb_TryEnqueue task (s_writebackQueue s)
           in if ok then s\<lparr>s_writebackQueue := q\<rparr>
              else s\<lparr>s_writebackQueue := wb_Enqueue task q\<rparr>)"

section \<open>The delete-storm breaker\<close>

definition defaultDeleteStormWindow :: duration where
  "defaultDeleteStormWindow = Minute"

definition delete_storm_window :: "Store \<Rightarrow> duration" where
  "delete_storm_window s =
     (if cfg_deleteStormWindow (s_cfg s) \<le> 0 then defaultDeleteStormWindow else cfg_deleteStormWindow (s_cfg s))"

definition admitDeleteLocked :: "string \<Rightarrow> instant \<Rightarrow> Store \<Rightarrow> Store \<times> bool" where
  "admitDeleteLocked workspaceID now s =
     (if cfg_deleteStormThreshold (s_cfg s) \<le> 0 then (s, True)
      else let cutoff = now - delete_storm_window s;
               kept = filter (\<lambda>ts. ts > cutoff) (mget_or [] (s_deleteStormAdmissions s) workspaceID);
               s = s\<lparr>s_deleteStormAdmissions := mput workspaceID (kept @ [now]) (s_deleteStormAdmissions s)\<rparr>
           in (s, \<not> int (length kept) \<ge> cfg_deleteStormThreshold (s_cfg s)))"

section \<open>Reading\<close>

definition ReadFile :: "Store \<Rightarrow> string \<Rightarrow> string \<Rightarrow> store_error + File" where
  "ReadFile s workspaceID path =
     (case map_of (s_workspaces s) workspaceID of
        None \<Rightarrow> Inl ErrNotFound
      | Some ws \<Rightarrow> (case map_of (ws_Files ws) (normalizePath path) of
                     None \<Rightarrow> Inl ErrNotFound | Some file \<Rightarrow> Inr file))"

definition ResolveFilePermissions :: "Store \<Rightarrow> string \<Rightarrow> string \<Rightarrow> bool \<Rightarrow> string list" where
  "ResolveFilePermissions s workspaceID path includeTarget =
     (case map_of (s_workspaces s) workspaceID of
        None \<Rightarrow> []
      | Some ws \<Rightarrow> resolve_permissions (map_of (ws_Files ws)) path includeTarget)"

definition sortedFilesFromMap :: "(string, File) gomap \<Rightarrow> File list" where
  "sortedFilesFromMap files = sort_key f_Path (map snd files)"

definition ExportWorkspace :: "Store \<Rightarrow> string \<Rightarrow> store_error + File list" where
  "ExportWorkspace s workspaceID =
     (if TrimSpace workspaceID = '''' then Inl ErrInvalidInput
      else case map_of (s_workspaces s) workspaceID of
             None \<Rightarrow> Inr []
           | Some ws \<Rightarrow> Inr (sortedFilesFromMap (ws_Files ws)))"

section \<open>Writing and deleting\<close>

text \<open>\<^verbatim>\<open>ws.Files[path] = file; ws.Revision = revision\<close>.\<close>

definition put_file :: "string \<Rightarrow> string \<Rightarrow> File \<Rightarrow> string \<Rightarrow> Store \<Rightarrow> Store" where
  "put_file workspaceID path file revision s =
     (let ws = ws_of s workspaceID
      in put_ws workspaceID (ws\<lparr>ws_Files := mput path file (ws_Files ws), ws_Revision := revision\<rparr>) s)"

definition remove_file :: "string \<Rightarrow> string \<Rightarrow> string \<Rightarrow> Store \<Rightarrow> Store" where
  "remove_file workspaceID path revision s =
     (let ws = ws_of s workspaceID
      in put_ws workspaceID (ws\<lparr>ws_Files := mdel path (ws_Files ws), ws_Revision := revision\<rparr>) s)"

definition created_file ::
  "instant \<Rightarrow> WriteRequest \<Rightarrow> string \<Rightarrow> string \<Rightarrow> FileTypeMetadata \<Rightarrow> string \<Rightarrow> File" where
  "created_file now req path encoding metadata revision =
     \<lparr>f_Path = path, f_Type = ftm_Type metadata, f_Target = ftm_Target metadata, f_Mode = ftm_Mode metadata,
      f_Revision = revision, f_ContentHash = contentHashForEncodedContent (wr_Content req) encoding,
      f_ContentType = (if wr_ContentType req = '''' then ''text/markdown'' else wr_ContentType req),
      f_Content = wr_Content req, f_Encoding = encoding, f_Provider = inferProviderFromPath path,
      f_ProviderObjectID = '''', f_LastEditedAt = FormatRFC3339Nano now,
      f_Semantics = normalizeSemantics (wr_Semantics req)\<rparr>"

definition updated_file ::
  "instant \<Rightarrow> WriteRequest \<Rightarrow> string \<Rightarrow> FileTypeMetadata \<Rightarrow> string \<Rightarrow> File \<Rightarrow> File" where
  "updated_file now req encoding metadata revision existing =
     (let semantics = normalizeSemantics (wr_Semantics req);
          file = existing
            \<lparr>f_Revision := revision,
             f_ContentType := (if wr_ContentType req = '''' then ''text/markdown'' else wr_ContentType req),
             f_Content := wr_Content req, f_Encoding := encoding, f_Type := ftm_Type metadata,
             f_Target := ftm_Target metadata, f_Mode := ftm_Mode metadata,
             f_ContentHash := contentHashForEncodedContent (wr_Content req) encoding,
             f_LastEditedAt := FormatRFC3339Nano now\<rparr>
      in if \<not> isZeroSemantics semantics then file\<lparr>f_Semantics := semantics\<rparr> else file)"

definition WriteFile :: "instant \<Rightarrow> WriteRequest \<Rightarrow> Store \<Rightarrow> Store \<times> (store_error + WriteResult)" where
  "WriteFile now req s =
     (if wr_IfMatch req = '''' then (s, Inl ErrMissingPrecondition)
      else if wr_WorkspaceID req = '''' \<or> wr_Path req = '''' then (s, Inl ErrInvalidInput)
      else case normalizeEncoding (wr_Encoding req) of
        Inl e \<Rightarrow> (s, Inl e)
      | Inr encoding \<Rightarrow>
          if \<not> validateEncodedContent (wr_Content req) encoding then (s, Inl ErrInvalidInput)
          else
            let wsid = wr_WorkspaceID req;
                s = ensureWorkspaceLocked wsid s;
                path = normalizePath (wr_Path req);
                existing = map_of (ws_Files (ws_of s wsid)) path
            in case normalizeWriteTypeMetadata req existing encoding of
                 Inl _ \<Rightarrow> (s, Inl ErrInvalidInput)
               | Inr metadata \<Rightarrow>
                   (case existing of
                      None \<Rightarrow>
                        if wr_IfMatch req \<noteq> ''0'' \<and> wr_IfMatch req \<noteq> ''*'' then (s, Inl ErrNotFound)
                        else
                          let (revision, s) = nextRevisionLocked s;
                              file = created_file now req path encoding metadata revision;
                              s = put_file wsid path file revision s;
                              (result, task, s) = recordWriteLocked now wsid path revision ''file.created''
                                                    (f_Provider file) (wr_CorrelationID req) s
                          in (enqueueWriteback task (saveLocked s), Inr result)
                    | Some file0 \<Rightarrow>
                        if wr_IfMatch req \<noteq> ''*'' \<and> wr_IfMatch req \<noteq> f_Revision file0 then
                          (s, Inl (ErrRevisionConflict (wr_IfMatch req) (f_Revision file0)
                                     (truncatePreview (f_Content file0))))
                        else
                          let (revision, s) = nextRevisionLocked s;
                              file = updated_file now req encoding metadata revision file0;
                              s = put_file wsid path file revision s;
                              (result, task, s) = recordWriteLocked now wsid path revision ''file.updated''
                                                    (f_Provider file) (wr_CorrelationID req) s
                          in (enqueueWriteback task (saveLocked s), Inr result)))"

definition DeleteFile :: "instant \<Rightarrow> DeleteRequest \<Rightarrow> Store \<Rightarrow> Store \<times> (store_error + WriteResult)" where
  "DeleteFile now req s =
     (if dr_IfMatch req = '''' then (s, Inl ErrMissingPrecondition)
      else if dr_WorkspaceID req = '''' \<or> dr_Path req = '''' then (s, Inl ErrInvalidInput)
      else
        let wsid = dr_WorkspaceID req;
            s = ensureWorkspaceLocked wsid s;
            path = normalizePath (dr_Path req)
        in case map_of (ws_Files (ws_of s wsid)) path of
             None \<Rightarrow> (s, Inl ErrNotFound)
           | Some existing \<Rightarrow>
               if dr_IfMatch req \<noteq> ''*'' \<and> dr_IfMatch req \<noteq> f_Revision existing then
                 (s, Inl (ErrRevisionConflict (dr_IfMatch req) (f_Revision existing)
                            (truncatePreview (f_Content existing))))
               else
                 let (s, admitted) = admitDeleteLocked wsid now s
                 in if \<not> admitted then (s, Inl ErrDeleteStormRejected)
                    else
                      let aclPermissions = resolvePermissionsFromFiles (ws_Files (ws_of s wsid)) path True;
                          (revision, s) = nextRevisionLocked s;
                          s = remove_file wsid path revision s;
                          (result, task, s) = recordWriteWithACLPermissionsLocked now wsid path revision
                                                ''file.deleted'' (f_Provider existing) (dr_CorrelationID req)
                                                aclPermissions s
                      in (enqueueWriteback task (saveLocked s), Inr result))"

section \<open>Bulk writes\<close>

definition bulk_error :: "string \<Rightarrow> string \<Rightarrow> message \<Rightarrow> BulkWriteError" where
  "bulk_error path code msg =
     \<lparr>be_Path = path, be_Code = code, be_Message = msg, be_ExpectedRevision = '''', be_CurrentRevision = ''''\<rparr>"

text \<open>The precondition of one file: \<open>None\<close> when it holds.  The fork's bulk write has the same checks.\<close>

definition bulk_if_match :: "string \<Rightarrow> string \<Rightarrow> File option \<Rightarrow> BulkWriteError option" where
  "bulk_if_match path ifMatch existing =
     (if ifMatch = '''' then None
      else case existing of
        None \<Rightarrow>
          if ifMatch \<noteq> ''0'' \<and> ifMatch \<noteq> ''*'' then
            Some ((bulk_error path ''conflict'' (Msgf ''expected revision %q but %s does not exist'' [ifMatch, path]))
                    \<lparr>be_ExpectedRevision := ifMatch\<rparr>)
          else None
      | Some f \<Rightarrow>
          if ifMatch \<noteq> ''*'' \<and> ifMatch \<noteq> f_Revision f then
            Some ((bulk_error path ''conflict''
                     (Msgf ''expected revision %q but current revision is %q'' [ifMatch, f_Revision f]))
                    \<lparr>be_ExpectedRevision := ifMatch, be_CurrentRevision := f_Revision f\<rparr>)
          else None)"

definition bulk_file ::
  "instant \<Rightarrow> BulkWriteFile \<Rightarrow> string \<Rightarrow> string \<Rightarrow> string \<Rightarrow> FileTypeMetadata \<Rightarrow> string \<Rightarrow> File option \<Rightarrow> File" where
  "bulk_file now input path encoding contentType metadata revision existing =
     (let file = (case existing of None \<Rightarrow> zero_file | Some f \<Rightarrow> f)
      in file\<lparr>f_Path := path, f_Revision := revision, f_ContentType := contentType,
              f_Content := bf_Content input, f_Encoding := encoding,
              f_ContentHash := contentHashForEncodedContent (bf_Content input) encoding,
              f_Type := ftm_Type metadata, f_Target := ftm_Target metadata, f_Mode := ftm_Mode metadata,
              f_Provider := (if f_Provider file = '''' then inferProviderFromPath path else f_Provider file),
              f_LastEditedAt := FormatRFC3339Nano now\<rparr>)"

text \<open>One iteration of the loop: an error, or a result with the task to enqueue when the file was
  written (a repeated content identity has none).\<close>

definition bulk_write_one ::
  "instant \<Rightarrow> string \<Rightarrow> BulkWriteFile \<Rightarrow> Store \<Rightarrow>
   Store \<times> (BulkWriteError + BulkWriteResult \<times> WritebackQueueItem option)" where
  "bulk_write_one now wsid input s =
     (let path = normalizePath (bf_Path input)
      in if TrimSpace (bf_Path input) = '''' then
           (s, Inl (bulk_error (bf_Path input) ''invalid_path'' (Msg ''missing path'')))
         else case normalizeEncoding (bf_Encoding input) of
           Inl _ \<Rightarrow> (s, Inl (bulk_error path ''invalid_encoding'' (Msg ''invalid input'')))
         | Inr encoding \<Rightarrow>
             if \<not> validateEncodedContent (bf_Content input) encoding then
               (s, Inl (bulk_error path ''invalid_content'' (Msg ''invalid input'')))
             else
               let ct = TrimSpace (bf_ContentType input);
                   contentType = (if ct = '''' then ''text/markdown'' else ct);
                   ws = ws_of s wsid
               in case findOperationByContentIdentityLocked ws (bf_ContentIdentity input) now of
                    Some oper \<Rightarrow> (s, Inr (bulkWriteResultFromOperationLocked ws oper path contentType, None))
                  | None \<Rightarrow>
                      let existing = map_of (ws_Files ws) path
                      in case normalizeBulkWriteTypeMetadata input existing encoding of
                           Inl msg \<Rightarrow> (s, Inl (bulk_error path ''invalid_type'' msg))
                         | Inr metadata \<Rightarrow>
                             (case bulk_if_match path (TrimSpace (bf_IfMatch input)) existing of
                                Some err \<Rightarrow> (s, Inl err)
                              | None \<Rightarrow>
                                  let (revision, s) = nextRevisionLocked s;
                                      file = bulk_file now input path encoding contentType metadata revision existing;
                                      s = put_file wsid path file revision s;
                                      eventType = (if existing = None then ''file.created'' else ''file.updated'');
                                      (result, task, s) =
                                        recordWriteWithContentIdentityLocked now wsid path revision eventType
                                          (f_Provider file) '''' (bf_ContentIdentity input) s
                                  in (s, Inr (\<lparr>br_Path = path, br_Revision = revision, br_ContentType = contentType,
                                               br_OpID = res_OpID result,
                                               br_ContentIdentity = bf_ContentIdentity input,
                                               br_Writeback = Some (res_WritebackProvider result,
                                                                    res_WritebackState result)\<rparr>,
                                              Some task))))"

fun bulk_write_loop ::
  "instant \<Rightarrow> string \<Rightarrow> BulkWriteFile list \<Rightarrow> Store \<Rightarrow>
   Store \<times> nat \<times> BulkWriteResult list \<times> BulkWriteError list \<times> WritebackQueueItem list" where
  "bulk_write_loop now wsid [] s = (s, 0, [], [], [])"
| "bulk_write_loop now wsid (input # rest) s =
     (case bulk_write_one now wsid input s of
        (s, Inl err) \<Rightarrow>
          (let (s, written, results, errs, tasks) = bulk_write_loop now wsid rest s
           in (s, written, results, err # errs, tasks))
      | (s, Inr (result, None)) \<Rightarrow>
          (let (s, written, results, errs, tasks) = bulk_write_loop now wsid rest s
           in (s, written, result # results, errs, tasks))
      | (s, Inr (result, Some task)) \<Rightarrow>
          (let (s, written, results, errs, tasks) = bulk_write_loop now wsid rest s
           in (s, Suc written, result # results, errs, task # tasks)))"

definition BulkWrite ::
  "instant \<Rightarrow> string \<Rightarrow> BulkWriteFile list \<Rightarrow> Store \<Rightarrow>
   Store \<times> nat \<times> BulkWriteResult list \<times> BulkWriteError list" where
  "BulkWrite now workspaceID files s =
     (if TrimSpace workspaceID = '''' then (s, 0, [], [bulk_error '''' ''invalid_input'' (Msg ''invalid input'')])
      else if files = [] then (s, 0, [], [])
      else let (s, written, results, errs, tasks) =
                 bulk_write_loop now workspaceID files (ensureWorkspaceLocked workspaceID s)
           in (fold enqueueWriteback tasks (saveLocked s), written, results, errs))"

end
