(* ===== verification/StoreCorrect.thy ===== *)
theory StoreCorrect
  imports StoreCore
begin

text \<open>
  The invariant of the store and the correctness of the core operations.

  \<open>store_inv\<close>: in every workspace the file map is keyed by the files' own paths, every file carries a
  revision issued by the counter and no two files share one, operations are keyed by their own ids,
  and the event log is strictly increasing in the event counter.  The contract of an operation that
  changes the store is the locale \<open>store_operation\<close> (the invariant is kept, the event log is only
  appended to, counters never go back); every operation of the core is an interpretation of it.
\<close>

named_theorems store_simps \<open>what the helpers of the store leave alone\<close>

section \<open>Projections\<close>

lemma ws_of_put_ws [store_simps]: "ws_of (put_ws w ws s) w' = (if w' = w then ws else ws_of s w')"
  by (simp add: ws_of_def put_ws_def mget_or_mput)

lemma put_ws_fields [store_simps]:
  "s_revCounter (put_ws w ws s) = s_revCounter s" "s_opCounter (put_ws w ws s) = s_opCounter s"
  "s_eventCounter (put_ws w ws s) = s_eventCounter s" "s_forks (put_ws w ws s) = s_forks s"
  "s_cfg (put_ws w ws s) = s_cfg s" "s_subscribers (put_ws w ws s) = s_subscribers s"
  "s_deleteStormAdmissions (put_ws w ws s) = s_deleteStormAdmissions s"
  "s_workspaces (put_ws w ws s) = mput w ws (s_workspaces s)"
  "s_forkByWorkspaceProposal (put_ws w ws s) = s_forkByWorkspaceProposal s"
  "s_forkByProposal (put_ws w ws s) = s_forkByProposal s" "s_expiredForks (put_ws w ws s) = s_expiredForks s"
  by (simp_all add: put_ws_def)

lemma ws_of_cong: "s_workspaces s' = s_workspaces s \<Longrightarrow> ws_of s' w = ws_of s w"
  by (simp add: ws_of_def)

text \<open>The helpers that do not touch the workspaces.\<close>

definition same_core :: "Store \<Rightarrow> Store \<Rightarrow> bool" where
  "same_core s s' \<longleftrightarrow> s_workspaces s' = s_workspaces s \<and> s_revCounter s' = s_revCounter s
     \<and> s_opCounter s' = s_opCounter s \<and> s_eventCounter s' = s_eventCounter s \<and> s_forks s' = s_forks s
     \<and> s_cfg s' = s_cfg s \<and> s_forkByWorkspaceProposal s' = s_forkByWorkspaceProposal s
     \<and> s_forkByProposal s' = s_forkByProposal s \<and> s_expiredForks s' = s_expiredForks s
     \<and> s_deleteStormAdmissions s' = s_deleteStormAdmissions s"

lemma same_core_refl [simp]: "same_core s s"
  by (simp add: same_core_def)

lemma same_core_trans [trans]: "same_core s s' \<Longrightarrow> same_core s' s'' \<Longrightarrow> same_core s s''"
  by (simp add: same_core_def)

lemma same_core_ws: "same_core s s' \<Longrightarrow> ws_of s' w = ws_of s w"
  by (simp add: same_core_def ws_of_def)

lemma same_core_save [simp]: "same_core s (saveLocked s)"
  by (simp add: same_core_def saveLocked_def)

lemma same_core_publish [simp]: "same_core s (publishEvent w ev s)"
  by (auto simp: same_core_def publishEvent_def Let_def split: option.splits)

lemma same_core_provenance [simp]: "same_core s (recordRevisionProvenanceLocked w p r h s)"
  by (simp add: same_core_def recordRevisionProvenanceLocked_def Let_def)

lemma same_core_enqueue [simp]: "same_core s (enqueueWriteback t s)"
  by (auto simp: same_core_def enqueueWriteback_def Let_def split: prod.splits)

lemma same_core_fold_enqueue [simp]: "same_core s (fold enqueueWriteback ts s)"
proof (induction ts arbitrary: s)
  case (Cons t ts)
  show ?case using same_core_trans [OF same_core_enqueue Cons.IH] by simp
qed simp

lemmas same_core_fields = same_core_save same_core_publish same_core_provenance same_core_enqueue
  same_core_fold_enqueue

lemma core_fields [store_simps]:
  "s_workspaces (saveLocked s) = s_workspaces s" "s_revCounter (saveLocked s) = s_revCounter s"
  "s_opCounter (saveLocked s) = s_opCounter s" "s_eventCounter (saveLocked s) = s_eventCounter s"
  "s_forks (saveLocked s) = s_forks s" "s_cfg (saveLocked s) = s_cfg s" "ws_of (saveLocked s) w = ws_of s w"
  "s_workspaces (enqueueWriteback t s) = s_workspaces s" "s_revCounter (enqueueWriteback t s) = s_revCounter s"
  "s_opCounter (enqueueWriteback t s) = s_opCounter s" "s_eventCounter (enqueueWriteback t s) = s_eventCounter s"
  "s_forks (enqueueWriteback t s) = s_forks s" "s_cfg (enqueueWriteback t s) = s_cfg s"
  "ws_of (enqueueWriteback t s) w = ws_of s w"
  "ws_of (fold enqueueWriteback ts s) w = ws_of s w" "s_revCounter (fold enqueueWriteback ts s) = s_revCounter s"
  "s_opCounter (fold enqueueWriteback ts s) = s_opCounter s"
  "s_eventCounter (fold enqueueWriteback ts s) = s_eventCounter s"
  "s_workspaces (fold enqueueWriteback ts s) = s_workspaces s"
  "s_forks (fold enqueueWriteback ts s) = s_forks s" "s_cfg (fold enqueueWriteback ts s) = s_cfg s"
  using same_core_save [of s] same_core_enqueue [of s t] same_core_fold_enqueue [of s ts]
  by (simp_all add: same_core_def ws_of_def)

lemma counter_fields [store_simps]:
  "ws_of (s\<lparr>s_revCounter := n\<rparr>) w = ws_of s w" "ws_of (s\<lparr>s_opCounter := n\<rparr>) w = ws_of s w"
  "ws_of (s\<lparr>s_eventCounter := n\<rparr>) w = ws_of s w" "ws_of (s\<lparr>s_deleteStormAdmissions := d\<rparr>) w = ws_of s w"
  by (simp_all add: ws_of_def)

lemma ws_of_ensure [store_simps]: "ws_of (ensureWorkspaceLocked w s) w' = ws_of s w'"
  by (auto simp: ensureWorkspaceLocked_def ws_of_def put_ws_def mget_or_def AList.update_conv' split: option.splits)

lemma ensure_fields [store_simps]:
  "s_revCounter (ensureWorkspaceLocked w s) = s_revCounter s" "s_opCounter (ensureWorkspaceLocked w s) = s_opCounter s"
  "s_eventCounter (ensureWorkspaceLocked w s) = s_eventCounter s" "s_forks (ensureWorkspaceLocked w s) = s_forks s"
  "s_cfg (ensureWorkspaceLocked w s) = s_cfg s"
  "s_deleteStormAdmissions (ensureWorkspaceLocked w s) = s_deleteStormAdmissions s"
  by (auto simp: ensureWorkspaceLocked_def put_ws_def split: option.splits)

lemma ensure_known [store_simps]: "w \<in> fst ` set (s_workspaces (ensureWorkspaceLocked w s))"
  by (auto simp: ensureWorkspaceLocked_def put_ws_def AList.dom_update map_of_eq_None_iff split: option.splits
      dest!: map_of_SomeD intro: rev_image_eqI)

section \<open>What recording a write does\<close>

definition write_event ::
  "instant \<Rightarrow> string \<Rightarrow> string \<Rightarrow> string \<Rightarrow> string \<Rightarrow> string \<Rightarrow> string list option \<Rightarrow> workspaceState \<Rightarrow> string \<Rightarrow> Event" where
  "write_event now path revision eventType provider correlationID acl ws eventID =
     \<lparr>e_EventID = eventID, e_Type = eventType, e_Path = path, e_Revision = revision,
      e_ContentHash = (if eventType \<noteq> ''file.deleted'' then storedContentHashForFile
         (case map_of (ws_Files ws) path of None \<Rightarrow> zero_file | Some f \<Rightarrow> f) else ''''),
      e_Origin = ''agent_write'', e_Provider = provider, e_CorrelationID = correlationID,
      e_Timestamp = FormatRFC3339Nano now,
      e_TypeMetadata = (case map_of (ws_Files ws) path of
         Some f \<Rightarrow> if eventType \<noteq> ''file.deleted''
                   then Some \<lparr>ftm_Type = f_Type f, ftm_Target = f_Target f, ftm_Mode = f_Mode f\<rparr> else None
       | None \<Rightarrow> None),
      e_ACLPermissions = (if HasPrefix eventType ''file.'' then Some (case acl of Some perms \<Rightarrow> perms
         | None \<Rightarrow> resolvePermissionsFromFiles (ws_Files ws) path (eventType \<noteq> ''file.deleted'')) else None)\<rparr>"

lemma append_event_ws [store_simps]:
  "ws_of (appendWorkspaceEventLocked w ev s) w' =
     (if w' = w then (ws_of s w)\<lparr>ws_Events := ws_Events (ws_of s w) @ [ev], ws_ACLPermissionsByEvent :=
        (case e_ACLPermissions ev of None \<Rightarrow> ws_ACLPermissionsByEvent (ws_of s w)
         | Some perms \<Rightarrow> mput (e_EventID ev) perms (ws_ACLPermissionsByEvent (ws_of s w)))\<rparr>
      else ws_of s w')"
  using same_core_ws [OF same_core_publish]
  by (auto simp: appendWorkspaceEventLocked_def Let_def ws_of_put_ws split: option.splits)

lemma append_event_fields [store_simps]:
  "s_revCounter (appendWorkspaceEventLocked w ev s) = s_revCounter s"
  "s_opCounter (appendWorkspaceEventLocked w ev s) = s_opCounter s"
  "s_eventCounter (appendWorkspaceEventLocked w ev s) = s_eventCounter s"
  "s_forks (appendWorkspaceEventLocked w ev s) = s_forks s" "s_cfg (appendWorkspaceEventLocked w ev s) = s_cfg s"
  using same_core_publish [of _ w ev, unfolded same_core_def]
  by (simp_all add: appendWorkspaceEventLocked_def Let_def put_ws_fields)

lemma provenance_fields [store_simps]:
  "ws_of (recordRevisionProvenanceLocked w p r h s) w' = ws_of s w'"
  "s_revCounter (recordRevisionProvenanceLocked w p r h s) = s_revCounter s"
  "s_opCounter (recordRevisionProvenanceLocked w p r h s) = s_opCounter s"
  "s_eventCounter (recordRevisionProvenanceLocked w p r h s) = s_eventCounter s"
  "s_forks (recordRevisionProvenanceLocked w p r h s) = s_forks s"
  "s_cfg (recordRevisionProvenanceLocked w p r h s) = s_cfg s"
  using same_core_provenance [of s w p r h] by (simp_all add: same_core_def ws_of_def)

definition after_record ::
  "instant \<Rightarrow> string \<Rightarrow> string \<Rightarrow> string \<Rightarrow> string \<Rightarrow> string \<Rightarrow> string \<Rightarrow> ContentIdentity option \<Rightarrow>
   string list option \<Rightarrow> Store \<Rightarrow> Store" where
  "after_record now w path revision eventType provider corr ident acl s =
     (let opid = op_id (s_opCounter s + 1); ws = ws_of s w;
          ev = write_event now path revision eventType provider corr acl ws (evt_id (s_eventCounter s + 1));
          oper = record_operation opid path revision eventType provider corr (FormatRFC3339Nano now) ident;
          s1 = put_ws w (ws\<lparr>ws_Ops := mput opid oper (ws_Ops ws)\<rparr>) (s\<lparr>s_opCounter := s_opCounter s + 1\<rparr>);
          s2 = recordRevisionProvenanceLocked w path revision (e_ContentHash ev) s1
      in appendWorkspaceEventLocked w ev (s2\<lparr>s_eventCounter := s_eventCounter s + 1\<rparr>))"

lemma record_write_eq:
  "recordWriteWithContentIdentityAndACLPermissionsLocked now w path revision eventType provider corr ident acl s =
     (\<lparr>res_OpID = op_id (s_opCounter s + 1), res_Status = ''queued'', res_TargetRevision = revision,
       res_WritebackProvider = provider, res_WritebackState = ''pending''\<rparr>,
      \<lparr>wq_WorkspaceID = w, wq_OpID = op_id (s_opCounter s + 1), wq_Path = path, wq_Revision = revision,
       wq_ContentIdentity = ident, wq_CorrelationID = corr\<rparr>,
      after_record now w path revision eventType provider corr ident acl s)"
  by (cases "eventType = ''file.deleted''"; cases "map_of (ws_Files (ws_of s w)) path"; cases acl)
     (simp_all add: recordWriteWithContentIdentityAndACLPermissionsLocked_def after_record_def Let_def
      nextOperationIDLocked_def nextEventIDLocked_def write_event_def snapshotACLPermissions_def store_simps)

lemma after_record_fields [store_simps]:
  "s_revCounter (after_record now w path revision eventType provider corr ident acl s) = s_revCounter s"
  "s_opCounter (after_record now w path revision eventType provider corr ident acl s) = s_opCounter s + 1"
  "s_eventCounter (after_record now w path revision eventType provider corr ident acl s) = s_eventCounter s + 1"
  "s_forks (after_record now w path revision eventType provider corr ident acl s) = s_forks s"
  "s_cfg (after_record now w path revision eventType provider corr ident acl s) = s_cfg s"
  by (simp_all add: after_record_def Let_def store_simps)

lemma after_record_ws [store_simps]:
  fixes s :: Store and now w path revision eventType provider corr acl
  defines "opid \<equiv> op_id (s_opCounter s + 1)" and "evid \<equiv> evt_id (s_eventCounter s + 1)"
  defines "ev \<equiv> write_event now path revision eventType provider corr acl (ws_of s w) evid"
  shows "ws_of (after_record now w path revision eventType provider corr ident acl s) w' =
    (if w' = w then (ws_of s w)
      \<lparr>ws_Ops := mput opid (record_operation opid path revision eventType provider corr (FormatRFC3339Nano now) ident)
         (ws_Ops (ws_of s w)),
       ws_Events := ws_Events (ws_of s w) @ [ev],
       ws_ACLPermissionsByEvent := (case e_ACLPermissions ev of None \<Rightarrow> ws_ACLPermissionsByEvent (ws_of s w)
         | Some perms \<Rightarrow> mput evid perms (ws_ACLPermissionsByEvent (ws_of s w)))\<rparr> else ws_of s w')"
proof -
  have "e_EventID ev = evid" by (simp add: ev_def write_event_def)
  then show ?thesis
    unfolding after_record_def Let_def opid_def [symmetric] evid_def [symmetric] ev_def [symmetric]
    by (cases "e_ACLPermissions ev") (simp_all add: store_simps)
qed

section \<open>The invariant\<close>

lemma id_inj [simp]:
  "rev_id j = rev_id k \<longleftrightarrow> j = k" "op_id j = op_id k \<longleftrightarrow> j = k" "evt_id j = evt_id k \<longleftrightarrow> j = k"
  by (simp_all add: rev_id_def op_id_def evt_id_def)

definition issued :: "(nat \<Rightarrow> string) \<Rightarrow> nat \<Rightarrow> string \<Rightarrow> bool" where
  "issued f n x \<longleftrightarrow> (\<exists>k. 0 < k \<and> k \<le> n \<and> x = f k)"

definition log_ok :: "nat \<Rightarrow> Event list \<Rightarrow> bool" where
  "log_ok n evs \<longleftrightarrow> (\<exists>ks. map e_EventID evs = map evt_id ks \<and> sorted_wrt (<) ks \<and> (\<forall>k \<in> set ks. 0 < k \<and> k \<le> n))"

definition files_ok :: "nat \<Rightarrow> (string, File) gomap \<Rightarrow> bool" where
  "files_ok n files \<longleftrightarrow> wf_map files
     \<and> (\<forall>p f. map_of files p = Some f \<longrightarrow> f_Path f = p \<and> issued rev_id n (f_Revision f))
     \<and> (\<forall>p q f g. map_of files p = Some f \<and> map_of files q = Some g \<and> f_Revision f = f_Revision g \<longrightarrow> p = q)"

definition ops_ok :: "nat \<Rightarrow> (string, OperationStatus) gomap \<Rightarrow> bool" where
  "ops_ok n ops \<longleftrightarrow> wf_map ops
     \<and> (\<forall>i oper. map_of ops i = Some oper \<longrightarrow> op_OpID oper = i \<and> issued op_id n i)"

definition ws_inv :: "nat \<Rightarrow> nat \<Rightarrow> nat \<Rightarrow> workspaceState \<Rightarrow> bool" where
  "ws_inv rc oc ec ws \<longleftrightarrow> files_ok rc (ws_Files ws) \<and> ops_ok oc (ws_Ops ws) \<and> log_ok ec (ws_Events ws)"

definition store_inv :: "Store \<Rightarrow> bool" where
  "store_inv s \<longleftrightarrow> wf_map (s_workspaces s)
     \<and> (\<forall>w. ws_inv (s_revCounter s) (s_opCounter s) (s_eventCounter s) (ws_of s w))"

lemma issued_mono: "issued f n x \<Longrightarrow> n \<le> n' \<Longrightarrow> issued f n' x"
  by (auto simp: issued_def)

lemma issued_new [simp]: "issued f (Suc n) (f (Suc n))"
  by (auto simp: issued_def)

lemma log_ok_snoc: "log_ok n evs \<Longrightarrow> e_EventID ev = evt_id (Suc n) \<Longrightarrow> log_ok (Suc n) (evs @ [ev])"
  unfolding log_ok_def
proof (elim exE conjE)
  fix ks assume "map e_EventID evs = map evt_id ks" "sorted_wrt (<) ks" "\<forall>k \<in> set ks. 0 < k \<and> k \<le> n"
    "e_EventID ev = evt_id (Suc n)"
  then show "\<exists>ks. map e_EventID (evs @ [ev]) = map evt_id ks \<and> sorted_wrt (<) ks \<and> (\<forall>k \<in> set ks. 0 < k \<and> k \<le> Suc n)"
    by (intro exI [of _ "ks @ [Suc n]"]) (auto simp: sorted_wrt_append)
qed

lemma log_ok_mono: "log_ok n evs \<Longrightarrow> n \<le> n' \<Longrightarrow> log_ok n' evs"
  unfolding log_ok_def by (meson le_trans)

lemma files_ok_mono: "files_ok n files \<Longrightarrow> n \<le> n' \<Longrightarrow> files_ok n' files"
  unfolding files_ok_def using issued_mono by blast

lemma ops_ok_mono: "ops_ok n ops \<Longrightarrow> n \<le> n' \<Longrightarrow> ops_ok n' ops"
  unfolding ops_ok_def using issued_mono by blast

lemma issued_not_next: "issued rev_id n (rev_id (Suc n)) \<Longrightarrow> False"
  by (auto simp: issued_def)

lemma files_ok_mput:
  assumes ok: "files_ok n files" and f: "f_Path f = p" "f_Revision f = rev_id (Suc n)"
  shows "files_ok (Suc n) (mput p f files)"
proof -
  have fresh: "f_Revision g \<noteq> rev_id (Suc n)" if "map_of files q = Some g" for q g
    using ok that issued_not_next unfolding files_ok_def by metis
  show ?thesis
    using ok f fresh issued_mono [of rev_id n _ "Suc n"] fresh [THEN not_sym]
    unfolding files_ok_def by (auto simp: AList.update_conv' split: if_splits)
qed

lemma files_ok_mdel: "files_ok n files \<Longrightarrow> files_ok n (mdel p files)"
  unfolding files_ok_def by (auto simp: AList.delete_conv' split: if_splits)

lemma ops_ok_mput:
  "ops_ok n ops \<Longrightarrow> op_OpID oper = op_id (Suc n) \<Longrightarrow> ops_ok (Suc n) (mput (op_id (Suc n)) oper ops)"
  unfolding ops_ok_def using issued_mono [of op_id n _ "Suc n"] by (auto simp: AList.update_conv' split: if_splits)

lemma ws_inv_mono:
  "ws_inv rc oc ec ws \<Longrightarrow> rc \<le> rc' \<Longrightarrow> oc \<le> oc' \<Longrightarrow> ec \<le> ec' \<Longrightarrow> ws_inv rc' oc' ec' ws"
  unfolding ws_inv_def using files_ok_mono ops_ok_mono log_ok_mono by blast

lemma ws_inv_empty [simp]: "ws_inv rc oc ec empty_workspace"
  by (simp add: ws_inv_def files_ok_def ops_ok_def log_ok_def empty_workspace_def)

lemma store_inv_same_core: "store_inv s \<Longrightarrow> same_core s s' \<Longrightarrow> store_inv s'"
  by (simp add: store_inv_def same_core_def ws_of_def)

lemma store_inv_put_ws:
  assumes "store_inv s" and "ws_inv (s_revCounter s) (s_opCounter s) (s_eventCounter s) ws"
  shows "store_inv (put_ws w ws s)"
  using assms by (simp add: store_inv_def store_simps)

lemma store_inv_ensure [simp]: "store_inv s \<Longrightarrow> store_inv (ensureWorkspaceLocked w s)"
  by (auto simp: ensureWorkspaceLocked_def intro: store_inv_put_ws split: option.splits)

lemma wf_workspaces_after_record:
  "wf_map (s_workspaces s) \<Longrightarrow> wf_map (s_workspaces (after_record now w p r et prov corr ident acl s))"
  using same_core_publish same_core_provenance
  by (simp add: after_record_def appendWorkspaceEventLocked_def Let_def same_core_def store_simps)

lemma after_record_inv:
  assumes "store_inv s"
  shows "store_inv (after_record now w p r et prov corr ident acl s)"
proof -
  have "op_OpID (record_operation (op_id (Suc (s_opCounter s))) p r et prov corr t ident) = op_id (Suc (s_opCounter s))" for t
    by (simp add: record_operation_def)
  moreover have "e_EventID (write_event now p r et prov corr acl ws (evt_id (Suc (s_eventCounter s)))) = evt_id (Suc (s_eventCounter s))" for ws
    by (simp add: write_event_def)
  ultimately show ?thesis
    using assms wf_workspaces_after_record
    by (auto simp: store_inv_def store_simps ws_inv_def intro!: log_ok_snoc ops_ok_mput
        intro: log_ok_mono ops_ok_mono)
qed

section \<open>The contract of an operation\<close>

text \<open>A file changes only together with its revision: every file of the later store is a file of the
  earlier one or has a revision issued in between.\<close>

definition fresh_files :: "Store \<Rightarrow> Store \<Rightarrow> bool" where
  "fresh_files s s' \<longleftrightarrow> (\<forall>w p f. map_of (ws_Files (ws_of s' w)) p = Some f \<longrightarrow>
     map_of (ws_Files (ws_of s w)) p = Some f \<or> (\<exists>k. s_revCounter s < k \<and> f_Revision f = rev_id k))"

lemma fresh_files_same: "(\<And>w. ws_Files (ws_of s' w) = ws_Files (ws_of s w)) \<Longrightarrow> fresh_files s s'"
  by (simp add: fresh_files_def)

lemma fresh_files_refl [simp]: "fresh_files s s"
  by (simp add: fresh_files_def)

lemma fresh_files_trans:
  assumes "fresh_files s s'" and "fresh_files s' s''" and "s_revCounter s \<le> s_revCounter s'"
  shows "fresh_files s s''"
  unfolding fresh_files_def
proof (intro allI impI)
  fix w p f assume "map_of (ws_Files (ws_of s'' w)) p = Some f"
  with assms(2) consider "map_of (ws_Files (ws_of s' w)) p = Some f" | k where "s_revCounter s' < k" "f_Revision f = rev_id k"
    unfolding fresh_files_def by blast
  then show "map_of (ws_Files (ws_of s w)) p = Some f \<or> (\<exists>k. s_revCounter s < k \<and> f_Revision f = rev_id k)"
    using assms(1,3) unfolding fresh_files_def by cases (blast, force)
qed

text \<open>So a revision identifies the state of a file, across any time.\<close>

lemma fresh_files_revision:
  assumes "store_inv s" and "fresh_files s s'"
    and "map_of (ws_Files (ws_of s w)) p = Some f" and "map_of (ws_Files (ws_of s' w)) p = Some g"
    and "f_Revision g = f_Revision f"
  shows "g = f"
proof -
  have "issued rev_id (s_revCounter s) (f_Revision f)"
    using assms(1,3) by (auto simp: store_inv_def ws_inv_def files_ok_def)
  then have "\<not> (\<exists>k. s_revCounter s < k \<and> f_Revision g = rev_id k)" using assms(5) by (auto simp: issued_def)
  then show ?thesis using assms(2,3,4) unfolding fresh_files_def by (metis option.inject)
qed

locale store_operation =
  fixes exec :: "'req \<Rightarrow> Store \<Rightarrow> Store"
  assumes keeps_inv: "store_inv s \<Longrightarrow> store_inv (exec r s)"
    and extends_log: "store_inv s \<Longrightarrow> prefix (ws_Events (ws_of s w)) (ws_Events (ws_of (exec r s) w))"
    and counters_grow: "store_inv s \<Longrightarrow> s_revCounter s \<le> s_revCounter (exec r s) \<and> s_eventCounter s \<le> s_eventCounter (exec r s)"
    and renews_changed: "store_inv s \<Longrightarrow> fresh_files s (exec r s)"
begin

lemma run_keeps_inv: "store_inv s \<Longrightarrow> store_inv (fold exec rs s)"
  by (induction rs arbitrary: s) (simp_all add: keeps_inv)

lemma run_extends_log:
  "store_inv s \<Longrightarrow> prefix (ws_Events (ws_of s w)) (ws_Events (ws_of (fold exec rs s) w))"
proof (induction rs arbitrary: s)
  case (Cons r rs)
  show ?case using prefix_order.trans [OF extends_log [OF Cons.prems] Cons.IH [OF keeps_inv [OF Cons.prems]]] by simp
qed simp

lemma run_counters:
  "store_inv s \<Longrightarrow> s_revCounter s \<le> s_revCounter (fold exec rs s) \<and> s_eventCounter s \<le> s_eventCounter (fold exec rs s)"
proof (induction rs arbitrary: s)
  case (Cons r rs)
  then show ?case using counters_grow [OF Cons.prems, of r] Cons.IH [OF keeps_inv [OF Cons.prems, of r]] by simp
qed simp

lemma run_renews: "store_inv s \<Longrightarrow> fresh_files s (fold exec rs s)"
proof (induction rs arbitrary: s)
  case (Cons r rs)
  then show ?case
    using fresh_files_trans [OF renews_changed [OF Cons.prems] Cons.IH [OF keeps_inv [OF Cons.prems]]] counters_grow [OF Cons.prems]
    by simp
qed simp

end

section \<open>The two kinds of mutation\<close>

abbreviation put_type :: "string \<Rightarrow> bool" where
  "put_type et \<equiv> et = ''file.created'' \<or> et = ''file.updated''"

definition commit_put ::
  "instant \<Rightarrow> string \<Rightarrow> string \<Rightarrow> File \<Rightarrow> string \<Rightarrow> string \<Rightarrow> ContentIdentity option \<Rightarrow> Store \<Rightarrow> Store" where
  "commit_put now w path file et corr ident s =
     (let r = rev_id (Suc (s_revCounter s))
      in after_record now w path r et (f_Provider file) corr ident None
           (put_file w path file r (s\<lparr>s_revCounter := Suc (s_revCounter s)\<rparr>)))"

definition commit_del ::
  "instant \<Rightarrow> string \<Rightarrow> string \<Rightarrow> string \<Rightarrow> string \<Rightarrow> string list \<Rightarrow> Store \<Rightarrow> Store" where
  "commit_del now w path prov corr acl s =
     (let r = rev_id (Suc (s_revCounter s))
      in after_record now w path r ''file.deleted'' prov corr None (Some acl)
           (remove_file w path r (s\<lparr>s_revCounter := Suc (s_revCounter s)\<rparr>)))"

lemma put_file_ws [store_simps]:
  "ws_of (put_file w p f r s) w' = (if w' = w then (ws_of s w)\<lparr>ws_Files := mput p f (ws_Files (ws_of s w)), ws_Revision := r\<rparr>
     else ws_of s w')"
  by (simp add: put_file_def Let_def store_simps)

lemma remove_file_ws [store_simps]:
  "ws_of (remove_file w p r s) w' = (if w' = w then (ws_of s w)\<lparr>ws_Files := mdel p (ws_Files (ws_of s w)), ws_Revision := r\<rparr>
     else ws_of s w')"
  by (simp add: remove_file_def Let_def store_simps)

lemma put_file_fields [store_simps]:
  "s_revCounter (put_file w p f r s) = s_revCounter s" "s_opCounter (put_file w p f r s) = s_opCounter s"
  "s_eventCounter (put_file w p f r s) = s_eventCounter s" "s_forks (put_file w p f r s) = s_forks s"
  "s_cfg (put_file w p f r s) = s_cfg s"
  "s_revCounter (remove_file w p r s) = s_revCounter s" "s_opCounter (remove_file w p r s) = s_opCounter s"
  "s_eventCounter (remove_file w p r s) = s_eventCounter s" "s_forks (remove_file w p r s) = s_forks s"
  "s_cfg (remove_file w p r s) = s_cfg s"
  by (simp_all add: put_file_def remove_file_def Let_def store_simps)

lemma commit_fields [store_simps]:
  "s_revCounter (commit_put now w p f et corr ident s) = Suc (s_revCounter s)"
  "s_opCounter (commit_put now w p f et corr ident s) = Suc (s_opCounter s)"
  "s_eventCounter (commit_put now w p f et corr ident s) = Suc (s_eventCounter s)"
  "s_forks (commit_put now w p f et corr ident s) = s_forks s" "s_cfg (commit_put now w p f et corr ident s) = s_cfg s"
  "s_revCounter (commit_del now w p prov corr acl s) = Suc (s_revCounter s)"
  "s_opCounter (commit_del now w p prov corr acl s) = Suc (s_opCounter s)"
  "s_eventCounter (commit_del now w p prov corr acl s) = Suc (s_eventCounter s)"
  "s_forks (commit_del now w p prov corr acl s) = s_forks s" "s_cfg (commit_del now w p prov corr acl s) = s_cfg s"
  by (simp_all add: commit_put_def commit_del_def Let_def store_simps)

lemma commit_files [store_simps]:
  "ws_Files (ws_of (commit_put now w p f et corr ident s) w') =
     (if w' = w then mput p f (ws_Files (ws_of s w)) else ws_Files (ws_of s w'))"
  "ws_Files (ws_of (commit_del now w p prov corr acl s) w') =
     (if w' = w then mdel p (ws_Files (ws_of s w)) else ws_Files (ws_of s w'))"
  by (simp_all add: commit_put_def commit_del_def Let_def store_simps)

lemma commit_ops [store_simps]:
  "ws_Ops (ws_of (commit_put now w p f et corr ident s) w') =
     (if w' = w then mput (op_id (Suc (s_opCounter s))) (record_operation (op_id (Suc (s_opCounter s))) p
        (rev_id (Suc (s_revCounter s))) et (f_Provider f) corr (FormatRFC3339Nano now) ident) (ws_Ops (ws_of s w))
      else ws_Ops (ws_of s w'))"
  "ws_Ops (ws_of (commit_del now w p prov corr acl s) w') =
     (if w' = w then mput (op_id (Suc (s_opCounter s))) (record_operation (op_id (Suc (s_opCounter s))) p
        (rev_id (Suc (s_revCounter s))) ''file.deleted'' prov corr (FormatRFC3339Nano now) None) (ws_Ops (ws_of s w))
      else ws_Ops (ws_of s w'))"
  by (simp_all add: commit_put_def commit_del_def Let_def store_simps)

lemma commit_put_event:
  "\<exists>ev. ws_Events (ws_of (commit_put now w p f et corr ident s) w) = ws_Events (ws_of s w) @ [ev]
     \<and> e_EventID ev = evt_id (Suc (s_eventCounter s)) \<and> e_Type ev = et \<and> e_Path ev = p
     \<and> e_Revision ev = rev_id (Suc (s_revCounter s)) \<and> e_ContentHash ev =
         (if et = ''file.deleted'' then '''' else storedContentHashForFile f)"
  by (simp add: commit_put_def Let_def store_simps write_event_def AList.update_conv')

lemma commit_del_event:
  "\<exists>ev. ws_Events (ws_of (commit_del now w p prov corr acl s) w) = ws_Events (ws_of s w) @ [ev]
     \<and> e_EventID ev = evt_id (Suc (s_eventCounter s)) \<and> e_Type ev = ''file.deleted'' \<and> e_Path ev = p
     \<and> e_Revision ev = rev_id (Suc (s_revCounter s)) \<and> e_ACLPermissions ev = Some acl"
  by (simp add: commit_del_def Let_def store_simps write_event_def HasPrefix_def)

lemma commit_log:
  "prefix (ws_Events (ws_of s w')) (ws_Events (ws_of (commit_put now w p f et corr ident s) w'))"
  "prefix (ws_Events (ws_of s w')) (ws_Events (ws_of (commit_del now w p prov corr acl s) w'))"
  by (simp_all add: commit_put_def commit_del_def Let_def store_simps)

lemma commit_fresh:
  "f_Revision f = rev_id (Suc (s_revCounter s)) \<Longrightarrow> fresh_files s (commit_put now w p f et corr ident s)"
  "fresh_files s (commit_del now w p prov corr acl s)"
  by (auto simp: fresh_files_def store_simps gomap_simps)

lemma commit_put_inv:
  assumes "store_inv s" and "f_Path f = p" and "f_Revision f = rev_id (Suc (s_revCounter s))"
  shows "store_inv (commit_put now w p f et corr ident s)"
proof -
  have "store_inv (put_file w p f (rev_id (Suc (s_revCounter s))) (s\<lparr>s_revCounter := Suc (s_revCounter s)\<rparr>))"
    using assms files_ok_mput [OF _ assms(2,3)]
    by (auto simp: store_inv_def put_file_def Let_def store_simps ws_inv_def intro: files_ok_mono)
  then show ?thesis unfolding commit_put_def Let_def by (rule after_record_inv)
qed

lemma commit_del_inv:
  assumes "store_inv s"
  shows "store_inv (commit_del now w p prov corr acl s)"
proof -
  have "store_inv (remove_file w p (rev_id (Suc (s_revCounter s))) (s\<lparr>s_revCounter := Suc (s_revCounter s)\<rparr>))"
    using assms
    by (auto simp: store_inv_def remove_file_def Let_def store_simps ws_inv_def intro: files_ok_mono [OF files_ok_mdel]
        intro: files_ok_mono)
  then show ?thesis unfolding commit_del_def Let_def by (rule after_record_inv)
qed

section \<open>WriteFile\<close>

lemma record_write_put:
  "recordWriteWithContentIdentityAndACLPermissionsLocked now w p (rev_id (Suc (s_revCounter s))) et (f_Provider f) corr ident None
     (put_file w p f (rev_id (Suc (s_revCounter s))) (s\<lparr>s_revCounter := Suc (s_revCounter s)\<rparr>)) =
   (\<lparr>res_OpID = op_id (Suc (s_opCounter s)), res_Status = ''queued'', res_TargetRevision = rev_id (Suc (s_revCounter s)),
     res_WritebackProvider = f_Provider f, res_WritebackState = ''pending''\<rparr>,
    \<lparr>wq_WorkspaceID = w, wq_OpID = op_id (Suc (s_opCounter s)), wq_Path = p, wq_Revision = rev_id (Suc (s_revCounter s)),
     wq_ContentIdentity = ident, wq_CorrelationID = corr\<rparr>, commit_put now w p f et corr ident s)"
  by (simp add: record_write_eq commit_put_def store_simps Let_def)

lemma record_write_del:
  "recordWriteWithContentIdentityAndACLPermissionsLocked now w p (rev_id (Suc (s_revCounter s))) ''file.deleted'' prov corr None (Some acl)
     (remove_file w p (rev_id (Suc (s_revCounter s))) (s\<lparr>s_revCounter := Suc (s_revCounter s)\<rparr>)) =
   (\<lparr>res_OpID = op_id (Suc (s_opCounter s)), res_Status = ''queued'', res_TargetRevision = rev_id (Suc (s_revCounter s)),
     res_WritebackProvider = prov, res_WritebackState = ''pending''\<rparr>,
    \<lparr>wq_WorkspaceID = w, wq_OpID = op_id (Suc (s_opCounter s)), wq_Path = p, wq_Revision = rev_id (Suc (s_revCounter s)),
     wq_ContentIdentity = None, wq_CorrelationID = corr\<rparr>, commit_del now w p prov corr acl s)"
  by (simp add: record_write_eq commit_del_def store_simps Let_def)

text \<open>The precondition of a conditional write.\<close>

definition if_match_ok :: "string \<Rightarrow> File option \<Rightarrow> bool" where
  "if_match_ok ifMatch existing =
     (case existing of None \<Rightarrow> ifMatch = ''0'' \<or> ifMatch = ''*''
      | Some f \<Rightarrow> ifMatch = ''*'' \<or> ifMatch = f_Revision f)"

definition write_file ::
  "instant \<Rightarrow> WriteRequest \<Rightarrow> string \<Rightarrow> FileTypeMetadata \<Rightarrow> string \<Rightarrow> File option \<Rightarrow> File" where
  "write_file now req encoding metadata revision existing =
     (case existing of
        None \<Rightarrow> created_file now req (normalizePath (wr_Path req)) encoding metadata revision
      | Some f \<Rightarrow> updated_file now req encoding metadata revision f)"

text \<open>\<open>WriteFile\<close> in one equation: its checks in order, then one put.\<close>

definition write_checks :: "WriteRequest \<Rightarrow> File option \<Rightarrow> store_error + (string \<times> FileTypeMetadata)" where
  "write_checks req existing =
     (if wr_IfMatch req = '''' then Inl ErrMissingPrecondition
      else if wr_WorkspaceID req = '''' \<or> wr_Path req = '''' then Inl ErrInvalidInput
      else case normalizeEncoding (wr_Encoding req) of Inl e \<Rightarrow> Inl e
      | Inr encoding \<Rightarrow>
          if \<not> validateEncodedContent (wr_Content req) encoding then Inl ErrInvalidInput
          else case normalizeWriteTypeMetadata req existing encoding of Inl _ \<Rightarrow> Inl ErrInvalidInput
          | Inr metadata \<Rightarrow>
              if if_match_ok (wr_IfMatch req) existing then Inr (encoding, metadata)
              else case existing of None \<Rightarrow> Inl ErrNotFound
                   | Some f \<Rightarrow> Inl (ErrRevisionConflict (wr_IfMatch req) (f_Revision f) (truncatePreview (f_Content f))))"

lemma WriteFile_Inl:
  assumes "write_checks req (map_of (ws_Files (ws_of s (wr_WorkspaceID req))) (normalizePath (wr_Path req))) = Inl e"
  shows "WriteFile now req s = (s, Inl e) \<or> WriteFile now req s = (ensureWorkspaceLocked (wr_WorkspaceID req) s, Inl e)"
  using assms
  by (auto simp: WriteFile_def write_checks_def Let_def if_match_ok_def store_simps
      split: if_splits sum.splits option.splits)

lemma WriteFile_Inr:
  fixes s :: Store and req :: WriteRequest
  defines "w \<equiv> wr_WorkspaceID req" and "p \<equiv> normalizePath (wr_Path req)"
  defines "existing \<equiv> map_of (ws_Files (ws_of s w)) p" and "r \<equiv> rev_id (Suc (s_revCounter s))"
  assumes "write_checks req existing = Inr (encoding, metadata)"
  shows "\<exists>task et. WriteFile now req s =
      (enqueueWriteback task (saveLocked (commit_put now w p (write_file now req encoding metadata r existing) et
         (wr_CorrelationID req) None (ensureWorkspaceLocked w s))),
       Inr \<lparr>res_OpID = op_id (Suc (s_opCounter s)), res_Status = ''queued'', res_TargetRevision = r,
            res_WritebackProvider = f_Provider (write_file now req encoding metadata r existing),
            res_WritebackState = ''pending''\<rparr>)
     \<and> et = (if existing = None then ''file.created'' else ''file.updated'')"
proof -
  have eq: "map_of (ws_Files (ws_of (ensureWorkspaceLocked w s) w)) p = existing"
    by (simp add: existing_def store_simps)
  show ?thesis
  proof (cases existing)
    case None
    then show ?thesis
      using assms(5) eq record_write_put [where s = "ensureWorkspaceLocked w s"]
      by (auto simp: WriteFile_def write_checks_def Let_def if_match_ok_def w_def p_def r_def write_file_def
          nextRevisionLocked_def store_simps split: if_splits sum.splits)
  next
    case (Some f)
    then show ?thesis
      using assms(5) eq record_write_put [where s = "ensureWorkspaceLocked w s"]
      by (auto simp: WriteFile_def write_checks_def Let_def if_match_ok_def w_def p_def r_def write_file_def
          nextRevisionLocked_def store_simps split: if_splits sum.splits)
  qed
qed

lemma WriteFile_total:
  fixes s :: Store and req :: WriteRequest
  defines "w \<equiv> wr_WorkspaceID req" and "p \<equiv> normalizePath (wr_Path req)"
  defines "existing \<equiv> map_of (ws_Files (ws_of s w)) p" and "r \<equiv> rev_id (Suc (s_revCounter s))"
  obtains (failed) e s' where "WriteFile now req s = (s', Inl e)" and "write_checks req existing = Inl e"
      and "s' = s \<or> s' = ensureWorkspaceLocked w s"
  | (written) encoding metadata task et where "write_checks req existing = Inr (encoding, metadata)"
      and "WriteFile now req s =
      (enqueueWriteback task (saveLocked (commit_put now w p (write_file now req encoding metadata r existing) et
         (wr_CorrelationID req) None (ensureWorkspaceLocked w s))),
       Inr \<lparr>res_OpID = op_id (Suc (s_opCounter s)), res_Status = ''queued'', res_TargetRevision = r,
            res_WritebackProvider = f_Provider (write_file now req encoding metadata r existing),
            res_WritebackState = ''pending''\<rparr>)"
      and "et = (if existing = None then ''file.created'' else ''file.updated'')"
proof (cases "write_checks req existing")
  case (Inl e)
  then show ?thesis using WriteFile_Inl [of req s e now] failed by (auto simp: w_def p_def existing_def)
next
  case (Inr em)
  obtain encoding metadata where "em = (encoding, metadata)" by (cases em)
  with Inr have c: "write_checks req existing = Inr (encoding, metadata)" by simp
  then show ?thesis
    using WriteFile_Inr [of req s encoding metadata now] written unfolding w_def p_def existing_def r_def by blast
qed

lemma write_checks_if_match: "write_checks req existing = Inr em \<Longrightarrow> if_match_ok (wr_IfMatch req) existing"
  by (auto simp: write_checks_def split: if_splits sum.splits option.splits)

lemma updated_file_fields [simp]:
  "f_Revision (updated_file now req encoding metadata r f) = r"
  "f_Content (updated_file now req encoding metadata r f) = wr_Content req"
  "f_Encoding (updated_file now req encoding metadata r f) = encoding"
  "f_ContentHash (updated_file now req encoding metadata r f) = contentHashForEncodedContent (wr_Content req) encoding"
  "f_Path (updated_file now req encoding metadata r f) = f_Path f"
  by (simp_all add: updated_file_def Let_def)

lemma created_file_fields [simp]:
  "f_Revision (created_file now req p encoding metadata r) = r"
  "f_Content (created_file now req p encoding metadata r) = wr_Content req"
  "f_Encoding (created_file now req p encoding metadata r) = encoding"
  "f_ContentHash (created_file now req p encoding metadata r) = contentHashForEncodedContent (wr_Content req) encoding"
  "f_Path (created_file now req p encoding metadata r) = p"
  by (simp_all add: created_file_def)

lemma write_file_fields [simp]:
  "f_Revision (write_file now req encoding metadata r existing) = r"
  "f_Content (write_file now req encoding metadata r existing) = wr_Content req"
  "f_Encoding (write_file now req encoding metadata r existing) = encoding"
  "f_ContentHash (write_file now req encoding metadata r existing) = contentHashForEncodedContent (wr_Content req) encoding"
  by (simp_all add: write_file_def split: option.split)

lemma write_file_path:
  "(\<And>f. existing = Some f \<Longrightarrow> f_Path f = normalizePath (wr_Path req)) \<Longrightarrow>
   f_Path (write_file now req encoding metadata r existing) = normalizePath (wr_Path req)"
  by (simp add: write_file_def split: option.split)

lemma store_inv_file_path:
  "store_inv s \<Longrightarrow> map_of (ws_Files (ws_of s w)) p = Some f \<Longrightarrow> f_Path f = p \<and> issued rev_id (s_revCounter s) (f_Revision f)"
  unfolding store_inv_def ws_inv_def files_ok_def by blast

text \<open>A step that only enqueues and saves on top of a store that satisfies the contract.\<close>

lemma enqueue_save_inv: "store_inv s \<Longrightarrow> store_inv (enqueueWriteback t (saveLocked s))"
  using store_inv_same_core same_core_trans [OF same_core_save same_core_enqueue] by blast

lemma WriteFile_contract:
  assumes "store_inv s"
  shows "store_inv (fst (WriteFile now req s))
    \<and> prefix (ws_Events (ws_of s w')) (ws_Events (ws_of (fst (WriteFile now req s)) w'))
    \<and> s_revCounter s \<le> s_revCounter (fst (WriteFile now req s)) \<and> s_eventCounter s \<le> s_eventCounter (fst (WriteFile now req s))
    \<and> fresh_files s (fst (WriteFile now req s))"
proof (cases rule: WriteFile_total [of now req s])
  case (failed e s')
  then show ?thesis using assms by (auto simp: store_simps intro: fresh_files_same)
next
  case (written encoding metadata task et)
  let ?w = "wr_WorkspaceID req"
  have inv: "store_inv (ensureWorkspaceLocked ?w s)" using assms by simp
  let ?p = "normalizePath (wr_Path req)"
  let ?f = "write_file now req encoding metadata (rev_id (Suc (s_revCounter s))) (map_of (ws_Files (ws_of s ?w)) ?p)"
  have "f_Path ?f = ?p" using store_inv_file_path [OF assms] by (intro write_file_path) simp
  then have "store_inv (commit_put now ?w ?p ?f et (wr_CorrelationID req) None (ensureWorkspaceLocked ?w s))"
    by (intro commit_put_inv [OF inv]) (simp_all add: store_simps)
  then show ?thesis
    unfolding written(2) fst_conv
    using enqueue_save_inv commit_log(1) [where s = "ensureWorkspaceLocked ?w s"]
    by (auto simp: store_simps fresh_files_def gomap_simps)
qed

interpretation write_op: store_operation "\<lambda>(now, req) s. fst (WriteFile now req s)"
  using WriteFile_contract by unfold_locales (auto split: prod.splits)

lemma ReadFile_ws: "ReadFile s w p = (case map_of (ws_Files (ws_of s w)) (normalizePath p) of
    None \<Rightarrow> Inl ErrNotFound | Some f \<Rightarrow> Inr f)"
  by (auto simp: ReadFile_def ws_of_def mget_or_def empty_workspace_def split: option.splits)

section \<open>A concrete run\<close>

text \<open>A first write to a new store, used by the witnesses.\<close>

definition sample_write :: WriteRequest where
  "sample_write = \<lparr>wr_WorkspaceID = ''w'', wr_Path = ''/notes/a.md'', wr_IfMatch = ''0'', wr_ContentType = '''',
     wr_Content = ''hello'', wr_Encoding = '''', wr_Type = '''', wr_Target = '''', wr_Mode = 0,
     wr_Semantics = zero_semantics, wr_CorrelationID = ''c''\<rparr>"

lemma store_inv_new_store [simp]: "store_inv (new_store opts disk)"
  by (simp add: store_inv_def new_store_def ws_of_def mget_or_def)

lemma store_inv_NewStore [simp]: "store_inv NewStore"
  by (simp add: NewStore_def)

lemma sample_write_ok: "\<exists>s' result. WriteFile now sample_write NewStore = (s', Inr result)"
proof -
  have "map_of (ws_Files (ws_of NewStore (wr_WorkspaceID sample_write))) (normalizePath (wr_Path sample_write)) = None"
    by (simp add: NewStore_def new_store_def ws_of_def mget_or_def empty_workspace_def)
  moreover have "write_checks sample_write None = Inr ('''', \<lparr>ftm_Type = ''file'', ftm_Target = '''', ftm_Mode = 0\<rparr>)"
    by code_simp
  ultimately show ?thesis using WriteFile_Inr [of sample_write NewStore] by force
qed

text \<open>C19. A successful write is what the next read returns: the written content, hashed as the source
  hashes it, under the new revision that the result reports; every other file of every workspace reads
  as before, exactly one event is appended and exactly one pending operation is added.\<close>

theorem write_then_read:
  assumes "WriteFile now req s = (s', Inr result)"
  shows "(\<exists>f. ReadFile s' (wr_WorkspaceID req) (wr_Path req) = Inr f \<and> f_Content f = wr_Content req
      \<and> f_ContentHash f = contentHashForEncodedContent (wr_Content req) (f_Encoding f)
      \<and> f_Revision f = res_TargetRevision result) \<and> res_TargetRevision result = rev_id (s_revCounter s + 1)
    \<and> (\<forall>w q. (w, normalizePath q) \<noteq> (wr_WorkspaceID req, normalizePath (wr_Path req)) \<longrightarrow> ReadFile s' w q = ReadFile s w q)
    \<and> (\<exists>ev. ws_Events (ws_of s' (wr_WorkspaceID req)) = ws_Events (ws_of s (wr_WorkspaceID req)) @ [ev]
        \<and> e_Path ev = normalizePath (wr_Path req) \<and> e_Revision ev = res_TargetRevision result)
    \<and> (\<exists>oper. map_of (ws_Ops (ws_of s' (wr_WorkspaceID req))) (res_OpID result) = Some oper \<and> op_Status oper = ''pending''
        \<and> op_Revision oper = res_TargetRevision result \<and> op_Path oper = normalizePath (wr_Path req))"
proof (cases rule: WriteFile_total [of now req s])
  case (failed e s'')
  then show ?thesis using assms by simp
next
  case (written encoding metadata task et)
  let ?w = "wr_WorkspaceID req" and ?p = "normalizePath (wr_Path req)"
  let ?r = "rev_id (Suc (s_revCounter s))"
  let ?f = "write_file now req encoding metadata ?r (map_of (ws_Files (ws_of s ?w)) ?p)"
  have s': "s' = enqueueWriteback task (saveLocked (commit_put now ?w ?p ?f et (wr_CorrelationID req) None
      (ensureWorkspaceLocked ?w s)))" and res: "res_TargetRevision result = ?r" "res_OpID result = op_id (Suc (s_opCounter s))"
    using assms written(2) by auto
  have files: "ws_Files (ws_of s' w) = (if w = ?w then mput ?p ?f (ws_Files (ws_of s ?w)) else ws_Files (ws_of s w))" for w
    by (simp add: s' store_simps)
  obtain ev where ev: "ws_Events (ws_of s' ?w) = ws_Events (ws_of s ?w) @ [ev]" "e_Path ev = ?p" "e_Revision ev = ?r"
    using commit_put_event [of now ?w ?p ?f et "wr_CorrelationID req" None "ensureWorkspaceLocked ?w s"]
    by (auto simp: s' store_simps)
  have "map_of (ws_Ops (ws_of s' ?w)) (op_id (Suc (s_opCounter s))) = Some (record_operation (op_id (Suc (s_opCounter s))) ?p ?r et
      (f_Provider ?f) (wr_CorrelationID req) (FormatRFC3339Nano now) None)"
    by (simp add: s' store_simps AList.update_conv')
  then show ?thesis
    using ev by (auto simp: ReadFile_ws files res AList.update_conv' record_operation_def)
qed

theorem write_then_read_witness:
  "\<exists>s' f. ReadFile s' ''w'' ''/notes/a.md'' = Inr f \<and> f_Content f = ''hello'' \<and> f_Revision f = rev_id 1"
proof -
  obtain s' result where w: "WriteFile 0 sample_write NewStore = (s', Inr result)" using sample_write_ok by blast
  have "s_revCounter NewStore = 0" by (simp add: NewStore_def new_store_def)
  then obtain f where "ReadFile s' (wr_WorkspaceID sample_write) (wr_Path sample_write) = Inr f"
      "f_Content f = wr_Content sample_write" "f_Revision f = rev_id 1"
    using write_then_read [OF w] by auto
  then show ?thesis unfolding sample_write_def by auto
qed

text \<open>C26. A failed write changes nothing a client can observe: every file reads as before, and the
  event log, the operations and the counters of every workspace are the same.\<close>

theorem failed_write_no_effect:
  assumes "WriteFile now req s = (s', Inl e)"
  shows "ws_of s' w = ws_of s w \<and> ReadFile s' w q = ReadFile s w q
    \<and> s_revCounter s' = s_revCounter s \<and> s_opCounter s' = s_opCounter s \<and> s_eventCounter s' = s_eventCounter s"
proof (cases rule: WriteFile_total [of now req s])
  case (failed e' s'')
  then have "s' = s \<or> s' = ensureWorkspaceLocked (wr_WorkspaceID req) s" using assms by auto
  then show ?thesis by (auto simp: store_simps ReadFile_ws)
qed (use assms in simp)

theorem failed_write_no_effect_witness:
  "\<exists>s' e. WriteFile 0 (sample_write\<lparr>wr_IfMatch := ''''\<rparr>) NewStore = (s', Inl e) \<and> ReadFile s' ''w'' ''/a'' = ReadFile NewStore ''w'' ''/a''"
proof -
  have "WriteFile 0 (sample_write\<lparr>wr_IfMatch := ''''\<rparr>) NewStore = (NewStore, Inl ErrMissingPrecondition)"
    by (simp add: WriteFile_def)
  with failed_write_no_effect [OF this, of "''w''" "''/a''"] show ?thesis by blast
qed

end
