(* ===== verification/StoreDelete.thy ===== *)
theory StoreDelete
  imports StoreCorrect
begin

text \<open>
  Deletes and bulk writes: \<open>DeleteFile\<close> with its delete-storm breaker (\<^verbatim>\<open>delete_storm.go\<close>) and
  \<open>BulkWrite\<close>.  Both satisfy the contract \<open>store_operation\<close>; the breaker never admits more deletes than
  its threshold in any window; a bulk write answers every input exactly once and is idempotent for
  inputs that carry a content identity.
\<close>

section \<open>DeleteFile\<close>

lemma admit_fields [store_simps]:
  "ws_of (fst (admitDeleteLocked w now s)) w' = ws_of s w'"
  "s_workspaces (fst (admitDeleteLocked w now s)) = s_workspaces s"
  "s_revCounter (fst (admitDeleteLocked w now s)) = s_revCounter s"
  "s_opCounter (fst (admitDeleteLocked w now s)) = s_opCounter s"
  "s_eventCounter (fst (admitDeleteLocked w now s)) = s_eventCounter s"
  "s_forks (fst (admitDeleteLocked w now s)) = s_forks s" "s_cfg (fst (admitDeleteLocked w now s)) = s_cfg s"
  by (simp_all add: admitDeleteLocked_def Let_def ws_of_def)

lemma admit_inv [simp]: "store_inv (fst (admitDeleteLocked w now s)) = store_inv s"
  by (simp add: store_inv_def store_simps)

lemma write_then_read_file:
  assumes "WriteFile now req s = (s', Inr result)"
  shows "\<exists>f. map_of (ws_Files (ws_of s' (wr_WorkspaceID req))) (normalizePath (wr_Path req)) = Some f"
  using assms by (cases rule: WriteFile_total [of now req s]) (auto simp: store_simps AList.update_conv')

lemma WriteFile_cfg: "s_cfg (fst (WriteFile now req s)) = s_cfg s"
  by (cases rule: WriteFile_total [of now req s]) (auto simp: store_simps)

text \<open>Everything a delete can do.\<close>

lemma DeleteFile_cases:
  fixes s :: Store and req :: DeleteRequest and now :: instant
  defines "w \<equiv> dr_WorkspaceID req" and "p \<equiv> normalizePath (dr_Path req)"
  defines "s0 \<equiv> ensureWorkspaceLocked w s"
  defines "s1 \<equiv> fst (admitDeleteLocked w now s0)"
  obtains (failed) e s' where "DeleteFile now req s = (s', Inl e)" and "s' = s \<or> s' = s0 \<or> s' = s1"
  | (deleted) f task where "map_of (ws_Files (ws_of s w)) p = Some f" and "dr_IfMatch req = ''*'' \<or> dr_IfMatch req = f_Revision f"
      and "snd (admitDeleteLocked w now s0)"
      and "DeleteFile now req s = (enqueueWriteback task (saveLocked (commit_del now w p (f_Provider f) (dr_CorrelationID req)
             (resolvePermissionsFromFiles (ws_Files (ws_of s w)) p True) s1)),
           Inr \<lparr>res_OpID = op_id (Suc (s_opCounter s)), res_Status = ''queued'',
                res_TargetRevision = rev_id (Suc (s_revCounter s)), res_WritebackProvider = f_Provider f,
                res_WritebackState = ''pending''\<rparr>)"
proof -
  obtain ok where adm: "admitDeleteLocked w now s0 = (s1, ok)" by (cases "admitDeleteLocked w now s0") (simp add: s1_def)
  have ws: "ws_of s1 v = ws_of s v" "ws_of s0 v = ws_of s v" "s_revCounter s1 = s_revCounter s" "s_opCounter s1 = s_opCounter s" for v
    by (simp_all add: s1_def s0_def store_simps)
  show ?thesis
  proof (cases "dr_IfMatch req = '''' \<or> dr_WorkspaceID req = '''' \<or> dr_Path req = ''''")
    case True
    then have "\<exists>e. DeleteFile now req s = (s, Inl e)" by (auto simp: DeleteFile_def)
    then show ?thesis using failed by blast
  next
    case False
    show ?thesis
    proof (cases "map_of (ws_Files (ws_of s w)) p")
      case None
      then show ?thesis
        using False failed [of s0 ErrNotFound] ws by (auto simp: DeleteFile_def Let_def s0_def w_def p_def)
    next
      case (Some f)
      show ?thesis
      proof (cases "(dr_IfMatch req = ''*'' \<or> dr_IfMatch req = f_Revision f)")
        case pre: True
        show ?thesis
        proof (cases ok)
          case True
          then show ?thesis
            using deleted [OF Some pre] adm False Some pre ws
              record_write_del [of now w p s1 "f_Provider f" "dr_CorrelationID req" "resolvePermissionsFromFiles (ws_Files (ws_of s w)) p True"]
            by (auto simp: DeleteFile_def Let_def s0_def w_def p_def nextRevisionLocked_def)
        next
          case no: False
          then show ?thesis
            using failed [of s1 ErrDeleteStormRejected] adm False Some pre ws
            by (auto simp: DeleteFile_def Let_def s0_def w_def p_def)
        qed
      next
        case nopre: False
        then show ?thesis
          using failed [of s0] False Some ws by (auto simp: DeleteFile_def Let_def s0_def w_def p_def)
      qed
    qed
  qed
qed

lemma DeleteFile_contract:
  assumes "store_inv s"
  shows "store_inv (fst (DeleteFile now req s))
    \<and> prefix (ws_Events (ws_of s w')) (ws_Events (ws_of (fst (DeleteFile now req s)) w'))
    \<and> s_revCounter s \<le> s_revCounter (fst (DeleteFile now req s)) \<and> s_eventCounter s \<le> s_eventCounter (fst (DeleteFile now req s))
    \<and> fresh_files s (fst (DeleteFile now req s))"
proof (cases rule: DeleteFile_cases [of now req s])
  case (failed e s')
  then show ?thesis using assms by (auto simp: store_simps intro: fresh_files_same)
next
  case (deleted f task)
  let ?s1 = "fst (admitDeleteLocked (dr_WorkspaceID req) now (ensureWorkspaceLocked (dr_WorkspaceID req) s))"
  have "store_inv ?s1" using assms by simp
  then show ?thesis
    unfolding deleted(4) fst_conv
    using enqueue_save_inv [OF commit_del_inv] commit_log(2) [where s = ?s1]
    by (auto simp: store_simps fresh_files_def gomap_simps split: if_splits)
qed

interpretation delete_op: store_operation "\<lambda>(now, req) s. fst (DeleteFile now req s)"
  using DeleteFile_contract by unfold_locales (auto split: prod.splits)

text \<open>C21. A successful delete removes exactly the file: it reads as not found, every other file reads as
  before, and the event that announces it carries a snapshot of the permissions that governed the file
  just before it was removed.\<close>

theorem delete_then_read:
  assumes "DeleteFile now req s = (s', Inr result)"
  shows "ReadFile s' (dr_WorkspaceID req) (dr_Path req) = Inl ErrNotFound
    \<and> (\<forall>w q. (w, normalizePath q) \<noteq> (dr_WorkspaceID req, normalizePath (dr_Path req)) \<longrightarrow> ReadFile s' w q = ReadFile s w q)
    \<and> (\<exists>ev. ws_Events (ws_of s' (dr_WorkspaceID req)) = ws_Events (ws_of s (dr_WorkspaceID req)) @ [ev]
        \<and> e_Type ev = ''file.deleted'' \<and> e_Path ev = normalizePath (dr_Path req)
        \<and> e_ACLPermissions ev = Some (resolvePermissionsFromFiles (ws_Files (ws_of s (dr_WorkspaceID req))) (normalizePath (dr_Path req)) True))"
proof (cases rule: DeleteFile_cases [of now req s])
  case (failed e s'')
  then show ?thesis using assms by simp
next
  case (deleted f task)
  let ?w = "dr_WorkspaceID req" and ?p = "normalizePath (dr_Path req)"
  let ?acl = "resolvePermissionsFromFiles (ws_Files (ws_of s ?w)) ?p True"
  let ?s1 = "fst (admitDeleteLocked ?w now (ensureWorkspaceLocked ?w s))"
  have s': "s' = enqueueWriteback task (saveLocked (commit_del now ?w ?p (f_Provider f) (dr_CorrelationID req) ?acl ?s1))"
    using assms deleted(4) by simp
  have files: "ws_Files (ws_of s' w) = (if w = ?w then mdel ?p (ws_Files (ws_of s ?w)) else ws_Files (ws_of s w))" for w
    by (simp add: s' store_simps)
  obtain ev where "ws_Events (ws_of s' ?w) = ws_Events (ws_of s ?w) @ [ev]" "e_Type ev = ''file.deleted''" "e_Path ev = ?p"
      "e_ACLPermissions ev = Some ?acl"
    using commit_del_event [of now ?w ?p "f_Provider f" "dr_CorrelationID req" ?acl ?s1] by (auto simp: s' store_simps)
  then show ?thesis by (auto simp: ReadFile_ws files AList.delete_conv')
qed

definition sample_delete :: DeleteRequest where
  "sample_delete = \<lparr>dr_WorkspaceID = ''w'', dr_Path = ''/notes/a.md'', dr_IfMatch = ''*'', dr_CorrelationID = ''c''\<rparr>"

lemma sample_delete_ok:
  "\<exists>s1 s' result. WriteFile 0 sample_write NewStore = (s1, result) \<and> (\<exists>r. DeleteFile 0 sample_delete s1 = (s', Inr r))"
proof -
  obtain s1 res where w: "WriteFile 0 sample_write NewStore = (s1, Inr res)" using sample_write_ok by blast
  have req: "dr_WorkspaceID sample_delete = wr_WorkspaceID sample_write" "dr_Path sample_delete = wr_Path sample_write"
      "dr_IfMatch sample_delete = ''*''" "wr_WorkspaceID sample_write \<noteq> ''''" "wr_Path sample_write \<noteq> ''''"
    by (simp_all add: sample_delete_def sample_write_def)
  obtain f where f: "map_of (ws_Files (ws_of s1 (dr_WorkspaceID sample_delete))) (normalizePath (dr_Path sample_delete)) = Some f"
    using write_then_read_file [OF w] req by auto
  have cfg: "cfg_deleteStormThreshold (s_cfg s1) = 0"
    using WriteFile_cfg [of 0 sample_write NewStore] w by (simp add: NewStore_def new_store_def store_config_def default_options_def)
  have "\<exists>s' r. DeleteFile 0 sample_delete s1 = (s', Inr r)"
    using f req by (simp add: DeleteFile_def Let_def store_simps admitDeleteLocked_def cfg split: prod.splits)
  then show ?thesis using w by blast
qed

theorem delete_then_read_witness:
  "\<exists>s'. ReadFile s' ''w'' ''/notes/a.md'' = Inl ErrNotFound \<and> ws_Events (ws_of s' ''w'') \<noteq> []"
proof -
  obtain s1 s' r where "DeleteFile 0 sample_delete s1 = (s', Inr r)" using sample_delete_ok by blast
  from delete_then_read [OF this]
  have "ReadFile s' (dr_WorkspaceID sample_delete) (dr_Path sample_delete) = Inl ErrNotFound"
    and "ws_Events (ws_of s' (dr_WorkspaceID sample_delete)) \<noteq> []" by auto
  then show ?thesis unfolding sample_delete_def by auto
qed

section \<open>The delete-storm breaker\<close>

text \<open>A sequence of delete attempts at the given times, and which of them are admitted.\<close>

definition admit_state :: "string \<Rightarrow> instant list \<Rightarrow> Store \<Rightarrow> Store" where
  "admit_state w ts s = fold (\<lambda>t s. fst (admitDeleteLocked w t s)) ts s"

fun admit_run :: "string \<Rightarrow> instant list \<Rightarrow> Store \<Rightarrow> (instant \<times> bool) list" where
  "admit_run w [] s = []"
| "admit_run w (t # ts) s =
     (let (s', ok) = admitDeleteLocked w t s in (t, ok) # admit_run w ts s')"

lemma admit_run_snoc:
  "admit_run w (ts @ [x]) s = admit_run w ts s @ [(x, snd (admitDeleteLocked w x (admit_state w ts s)))]"
  by (induction ts arbitrary: s) (simp_all add: admit_state_def split: prod.splits)

lemma admit_run_times: "map fst (admit_run w ts s) = ts"
  by (induction ts arbitrary: s) (simp_all split: prod.splits)

lemma admit_state_cfg: "s_cfg (admit_state w ts s) = s_cfg s"
  unfolding admit_state_def by (induction ts arbitrary: s) (simp_all add: store_simps)

lemma admit_state_snoc: "admit_state w (ts @ [x]) s = fst (admitDeleteLocked w x (admit_state w ts s))"
  by (simp add: admit_state_def)

lemma admit_records:
  "cfg_deleteStormThreshold (s_cfg s) > 0 \<Longrightarrow>
   mget_or [] (s_deleteStormAdmissions (fst (admitDeleteLocked w x s))) w =
     filter (\<lambda>u. u > x - delete_storm_window s) (mget_or [] (s_deleteStormAdmissions s) w) @ [x]"
  by (simp add: admitDeleteLocked_def Let_def mget_or_mput)

lemma admit_stored:
  assumes "cfg_deleteStormThreshold (s_cfg s) > 0" and "mget_or [] (s_deleteStormAdmissions s) w = []"
  shows "sorted ts \<Longrightarrow> (\<And>t. t \<in> set ts \<Longrightarrow> t - delete_storm_window s \<le> c) \<Longrightarrow>
    filter (\<lambda>u. u > c) (mget_or [] (s_deleteStormAdmissions (admit_state w ts s)) w) = filter (\<lambda>u. u > c) ts"
proof (induction ts arbitrary: c rule: rev_induct)
  case Nil
  then show ?case using assms(2) by (simp add: admit_state_def)
next
  case (snoc x ts)
  let ?s = "admit_state w ts s" and ?W = "delete_storm_window s"
  have W: "delete_storm_window ?s = ?W" by (simp add: delete_storm_window_def admit_state_cfg)
  have st: "mget_or [] (s_deleteStormAdmissions (admit_state w (ts @ [x]) s)) w =
      filter (\<lambda>u. u > x - ?W) (mget_or [] (s_deleteStormAdmissions ?s) w) @ [x]"
    using assms(1) admit_records [of ?s w x] by (simp add: admit_state_snoc admit_state_cfg W)
  have x: "x - ?W \<le> c" using snoc.prems(2) by simp
  have "filter (\<lambda>u. u > c) (filter (\<lambda>u. u > x - ?W) (mget_or [] (s_deleteStormAdmissions ?s) w)) =
      filter (\<lambda>u. u > c) (mget_or [] (s_deleteStormAdmissions ?s) w)"
    using x by (auto simp: filter_filter intro: filter_cong)
  with snoc st show ?case by (simp add: sorted_append)
qed

text \<open>C12. The delete-storm breaker bounds the damage: whatever the sequence of delete attempts, in any
  window of the configured length no more deletes are admitted than the threshold allows.\<close>

theorem delete_storm_bound:
  assumes "cfg_deleteStormThreshold (s_cfg s) > 0" and "mget_or [] (s_deleteStormAdmissions s) w = []" and "sorted ts"
  shows "int (length (filter (\<lambda>(u, admitted). admitted \<and> t - delete_storm_window s < u \<and> u \<le> t) (admit_run w ts s)))
    \<le> cfg_deleteStormThreshold (s_cfg s)"
  using assms(3)
proof (induction ts rule: rev_induct)
  case Nil
  then show ?case using assms(1) by simp
next
  case (snoc x ts)
  let ?W = "delete_storm_window s" and ?thr = "cfg_deleteStormThreshold (s_cfg s)"
  let ?P = "\<lambda>(u, admitted). admitted \<and> t - ?W < u \<and> u \<le> t"
  let ?s = "admit_state w ts s" and ?run = "admit_run w ts s"
  have sorted: "sorted ts" and last: "\<And>u. u \<in> set ts \<Longrightarrow> u - ?W \<le> x - ?W" using snoc.prems by (auto simp: sorted_append)
  have W: "delete_storm_window ?s = ?W" by (simp add: delete_storm_window_def admit_state_cfg)
  have ok: "snd (admitDeleteLocked w x ?s) \<longleftrightarrow> int (length (filter (\<lambda>u. u > x - ?W) ts)) < ?thr"
    using assms(1) admit_stored [OF assms(1,2) sorted last]
    by (simp add: admitDeleteLocked_def Let_def admit_state_cfg W not_le)
  show ?case
  proof (cases "?P (x, snd (admitDeleteLocked w x ?s))")
    case True
    have "length (filter ?P ?run) \<le> length (filter (\<lambda>u. u > x - ?W) (map fst ?run))"
      using True by (auto simp: filter_map intro!: length_filter_mono)
    then show ?thesis using True ok by (simp add: admit_run_snoc admit_run_times)
  next
    case False
    then have "filter ?P (admit_run w (ts @ [x]) s) = filter ?P ?run" by (simp only: admit_run_snoc filter_append) simp
    then show ?thesis using snoc.IH [OF sorted] by simp
  qed
qed

theorem delete_storm_bound_witness:
  "int (length (filter (\<lambda>(u, admitted). admitted \<and> 10 - Minute < u \<and> u \<le> 10)
     (admit_run ''w'' [1, 2, 3] (new_store (default_options\<lparr>so_DeleteStormThreshold := 2\<rparr>) None)))) \<le> 2"
proof -
  let ?s = "new_store (default_options\<lparr>so_DeleteStormThreshold := 2\<rparr>) None"
  have "cfg_deleteStormThreshold (s_cfg ?s) = 2" "delete_storm_window ?s = Minute" "mget_or [] (s_deleteStormAdmissions ?s) ''w'' = []"
    by (simp_all add: new_store_def store_config_def default_options_def delete_storm_window_def
        defaultDeleteStormWindow_def mget_or_def)
  with delete_storm_bound [of ?s "''w''" "[1, 2, 3]" 10] show ?thesis by simp
qed

section \<open>BulkWrite\<close>

lemma bulk_file_fields [simp]:
  "f_Path (bulk_file now input p enc ct md r existing) = p"
  "f_Revision (bulk_file now input p enc ct md r existing) = r"
  "f_Content (bulk_file now input p enc ct md r existing) = bf_Content input"
  by (simp_all add: bulk_file_def Let_def)

lemma br_OpID_from_operation: "br_OpID (bulkWriteResultFromOperationLocked ws oper p ct) = op_OpID oper"
  by (simp add: bulkWriteResultFromOperationLocked_def Let_def split: prod.splits)

text \<open>One input: nothing but an answer, or one put.\<close>

lemma bulk_write_one_cases:
  fixes now :: instant and w :: string and input :: BulkWriteFile and s :: Store
  defines "p \<equiv> normalizePath (bf_Path input)" and "r \<equiv> rev_id (Suc (s_revCounter s))"
  obtains (rejected) err where "bulk_write_one now w input s = (s, Inl err)"
  | (repeated) oper result where "bulk_write_one now w input s = (s, Inr (result, None))"
      and "findOperationByContentIdentityLocked (ws_of s w) (bf_ContentIdentity input) now = Some oper"
      and "br_OpID result = op_OpID oper"
  | (written) f et task result where "bulk_write_one now w input s =
         (commit_put now w p f et '''' (bf_ContentIdentity input) s, Inr (result, Some task))"
      and "findOperationByContentIdentityLocked (ws_of s w) (bf_ContentIdentity input) now = None"
      and "f_Path f = p" and "f_Revision f = r" and "f_Content f = bf_Content input"
      and "br_Revision result = r" and "br_Path result = p" and "br_OpID result = op_id (Suc (s_opCounter s))"
      and "bulk_if_match p (TrimSpace (bf_IfMatch input)) (map_of (ws_Files (ws_of s w)) p) = None" and "put_type et"
proof (cases "findOperationByContentIdentityLocked (ws_of s w) (bf_ContentIdentity input) now")
  case (Some oper)
  then have "(\<exists>err. bulk_write_one now w input s = (s, Inl err))
      \<or> (\<exists>result. bulk_write_one now w input s = (s, Inr (result, None)) \<and> br_OpID result = op_OpID oper)"
    by (auto simp: bulk_write_one_def Let_def br_OpID_from_operation split: sum.splits)
  then show ?thesis using rejected repeated Some by blast
next
  case None
  show ?thesis
  proof (cases "bulk_write_one now w input s")
    case (Pair s' res)
    show ?thesis
    proof (cases res)
      case (Inl err)
      then show ?thesis
        using Pair None rejected [of err]
        by (auto simp: bulk_write_one_def Let_def record_write_eq nextRevisionLocked_def split: if_splits sum.splits option.splits)
    next
      case (Inr rt)
      then show ?thesis
        using Pair None written record_write_put [of now w p s]
        by (auto simp: bulk_write_one_def Let_def nextRevisionLocked_def p_def r_def split: if_splits sum.splits option.splits)
    qed
  qed
qed

lemma bulk_write_one_contract:
  assumes "store_inv s"
  shows "store_inv (fst (bulk_write_one now w input s))
    \<and> prefix (ws_Events (ws_of s w')) (ws_Events (ws_of (fst (bulk_write_one now w input s)) w'))
    \<and> s_revCounter s \<le> s_revCounter (fst (bulk_write_one now w input s))
    \<and> s_eventCounter s \<le> s_eventCounter (fst (bulk_write_one now w input s))
    \<and> fresh_files s (fst (bulk_write_one now w input s))"
proof (cases rule: bulk_write_one_cases [of now w input s])
  case (written f et task result)
  then show ?thesis using assms commit_put_inv commit_log(1) commit_fresh(1) by (simp add: store_simps)
qed (use assms in simp_all)

interpretation bulk_one: store_operation "\<lambda>(now, w, input) s. fst (bulk_write_one now w input s)"
  using bulk_write_one_contract by unfold_locales (auto split: prod.splits)

lemma bulk_loop_Cons:
  "fst (bulk_write_loop now w (i # inputs) s) = fst (bulk_write_loop now w inputs (fst (bulk_write_one now w i s)))"
  by (auto split: prod.splits sum.splits option.splits)

lemma bulk_loop_store:
  "fst (bulk_write_loop now w inputs s) = fold (\<lambda>(now, w, input) s. fst (bulk_write_one now w input s)) (map (\<lambda>i. (now, w, i)) inputs) s"
  by (induction inputs arbitrary: s) (simp_all add: bulk_loop_Cons del: bulk_write_loop.simps(2))

lemma BulkWrite_store:
  "fst (BulkWrite now w files s) = s \<or> (\<exists>tasks. fst (BulkWrite now w files s) = fold enqueueWriteback tasks
     (saveLocked (fst (bulk_write_loop now w files (ensureWorkspaceLocked w s)))))"
  by (auto simp: BulkWrite_def split: prod.splits)

lemma BulkWrite_contract:
  assumes "store_inv s"
  shows "store_inv (fst (BulkWrite now w files s))
    \<and> prefix (ws_Events (ws_of s w')) (ws_Events (ws_of (fst (BulkWrite now w files s)) w'))
    \<and> s_revCounter s \<le> s_revCounter (fst (BulkWrite now w files s))
    \<and> s_eventCounter s \<le> s_eventCounter (fst (BulkWrite now w files s))
    \<and> fresh_files s (fst (BulkWrite now w files s))"
  using BulkWrite_store [of now w files s]
proof (elim disjE exE)
  fix tasks
  let ?s = "ensureWorkspaceLocked w s"
  let ?l = "fst (bulk_write_loop now w files ?s)"
  assume eq: "fst (BulkWrite now w files s) = fold enqueueWriteback tasks (saveLocked ?l)"
  have inv: "store_inv ?s" using assms by simp
  note run = bulk_one.run_keeps_inv [OF inv] bulk_one.run_extends_log [OF inv] bulk_one.run_counters [OF inv] bulk_one.run_renews [OF inv]
  have "same_core ?l (fold enqueueWriteback tasks (saveLocked ?l))"
    using same_core_trans [OF same_core_save same_core_fold_enqueue] .
  then have "store_inv (fold enqueueWriteback tasks (saveLocked ?l))"
    using store_inv_same_core run(1) by (metis bulk_loop_store)
  then show ?thesis
    using run(2) [of w'] run(3,4) by (simp add: eq store_simps bulk_loop_store fresh_files_def)
qed (use assms in simp)

interpretation bulk_op: store_operation "\<lambda>(now, w, files) s. fst (BulkWrite now w files s)"
  using BulkWrite_contract by unfold_locales (auto split: prod.splits)

text \<open>A bulk write answers every input exactly once, with a result or an error, and the number it
  reports as written is the number of operations it created.\<close>

theorem bulk_write_accounts_for_all:
  "case bulk_write_loop now w inputs s of (s', written, results, errs, tasks) \<Rightarrow>
     length results + length errs = length inputs \<and> written = length tasks \<and> written \<le> length results
     \<and> s_opCounter s' = s_opCounter s + written \<and> s_revCounter s' = s_revCounter s + written"
proof (induction inputs arbitrary: s)
  case (Cons input inputs)
  show ?case
  proof (cases rule: bulk_write_one_cases [of now w input s])
    case (rejected err)
    then show ?thesis using Cons.IH [of s] by (auto split: prod.splits)
  next
    case (repeated oper result)
    then show ?thesis using Cons.IH [of s] by (auto split: prod.splits)
  next
    case (written f et task result)
    then show ?thesis
      using Cons.IH [of "commit_put now w (normalizePath (bf_Path input)) f et '''' (bf_ContentIdentity input) s"]
      by (auto simp: store_simps split: prod.splits)
  qed
qed simp

lemma bulk_write_one_checked:
  assumes "bulk_write_one now w input s = (s1, Inr x)"
  shows "TrimSpace (bf_Path input) \<noteq> ''''
    \<and> (\<exists>enc. normalizeEncoding (bf_Encoding input) = Inr enc \<and> validateEncodedContent (bf_Content input) enc)"
proof (cases "TrimSpace (bf_Path input) = ''''")
  case True
  then show ?thesis using assms by (simp add: bulk_write_one_def)
next
  case path: False
  show ?thesis
  proof (cases "normalizeEncoding (bf_Encoding input)")
    case (Inl e)
    then show ?thesis using assms path by (simp add: bulk_write_one_def)
  next
    case (Inr enc)
    then show ?thesis using assms path by (cases "validateEncodedContent (bf_Content input) enc") (simp_all add: bulk_write_one_def)
  qed
qed

text \<open>A bulk write with a content identity is applied once: after an input was written, the same input
  again (at any later time, when its identity has no expiry) is answered from the recorded operation
  and leaves the store as it is.\<close>

theorem bulk_write_idempotent:
  assumes "bulk_write_one now w input s = (s1, Inr (result, Some task))"
    and "bf_ContentIdentity input = Some i" and "TrimSpace (ci_Kind i) \<noteq> ''''" and "TrimSpace (ci_Key i) \<noteq> ''''"
    and "ci_TTLSeconds i \<le> 0"
  shows "\<exists>result'. bulk_write_one now' w input s1 = (s1, Inr (result', None))"
proof -
  obtain f et where s1: "s1 = commit_put now w (normalizePath (bf_Path input)) f et '''' (Some i) s"
    using assms(1,2) by (cases rule: bulk_write_one_cases [of now w input s]) auto
  let ?oper = "record_operation (op_id (Suc (s_opCounter s))) (normalizePath (bf_Path input)) (rev_id (Suc (s_revCounter s)))
      et (f_Provider f) '''' (FormatRFC3339Nano now) (Some i)"
  have "(op_id (Suc (s_opCounter s)), ?oper) \<in> set (ws_Ops (ws_of s1 w))"
    by (simp add: s1 store_simps mem_mput_same)
  then have "?oper \<in> set (map snd (ws_Ops (ws_of s1 w)))" by force
  moreover have "live_match (TrimSpace (ci_Kind i)) (TrimSpace (ci_Key i)) now' ?oper"
    using assms(5) by (simp add: live_match_def identity_matches_def contentIdentityExpired_def record_operation_def)
  ultimately have "find_operation_loop (TrimSpace (ci_Kind i)) (TrimSpace (ci_Key i)) now' None
      (map snd (ws_Ops (ws_of s1 w))) \<noteq> None"
    by (intro find_operation_loop_total) blast
  then have "findOperationByContentIdentityLocked (ws_of s1 w) (bf_ContentIdentity input) now' \<noteq> None"
    using assms(2-4) by (simp add: findOperationByContentIdentityLocked_def Let_def)
  then obtain oper where "findOperationByContentIdentityLocked (ws_of s1 w) (bf_ContentIdentity input) now' = Some oper" by blast
  then show ?thesis
    using bulk_write_one_checked [OF assms(1)] by (auto simp: bulk_write_one_def Let_def)
qed

definition sample_bulk :: BulkWriteFile where
  "sample_bulk = \<lparr>bf_Path = ''/a'', bf_Type = '''', bf_Target = '''', bf_Mode = 0, bf_ContentType = '''', bf_Content = ''x'',
     bf_Encoding = '''', bf_ContentIdentity = Some \<lparr>ci_Kind = ''k'', ci_Key = ''1'', ci_TTLSeconds = 0\<rparr>,
     bf_WritebackIntent = '''', bf_IfMatch = ''''\<rparr>"

lemma sample_bulk_ok: "\<exists>s1 result task. bulk_write_one now ''w'' sample_bulk NewStore = (s1, Inr (result, Some task))"
proof -
  have ws: "ws_of NewStore ''w'' = empty_workspace" by (simp add: NewStore_def new_store_def ws_of_def mget_or_def)
  have trim: "TrimSpace ''/a'' \<noteq> ''''" "normalizeEncoding '''' = Inr ''''" "TrimSpace '''' = ''''" by code_simp+
  have "findOperationByContentIdentityLocked (ws_of NewStore ''w'') (bf_ContentIdentity sample_bulk) now = None"
    by (simp add: ws findOperationByContentIdentityLocked_def empty_workspace_def Let_def sample_bulk_def)
  moreover have "normalizeBulkWriteTypeMetadata sample_bulk None '''' = Inr \<lparr>ftm_Type = ''file'', ftm_Target = '''', ftm_Mode = 0\<rparr>"
    by code_simp
  moreover have "bf_Path sample_bulk = ''/a''" "bf_Encoding sample_bulk = ''''" "bf_IfMatch sample_bulk = ''''"
    by (simp_all add: sample_bulk_def)
  ultimately show ?thesis
    using trim by (simp add: bulk_write_one_def Let_def validateEncodedContent_def ws empty_workspace_def bulk_if_match_def
        nextRevisionLocked_def record_write_eq)
qed

theorem bulk_write_idempotent_witness:
  "\<exists>s1 result'. bulk_write_one 5 ''w'' sample_bulk s1 = (s1, Inr (result', None))"
proof -
  obtain s1 result task where "bulk_write_one 0 ''w'' sample_bulk NewStore = (s1, Inr (result, Some task))"
    using sample_bulk_ok by blast
  moreover have "TrimSpace ''k'' \<noteq> ''''" "TrimSpace ''1'' \<noteq> ''''" by code_simp+
  ultimately have "\<exists>result'. bulk_write_one 5 ''w'' sample_bulk s1 = (s1, Inr (result', None))"
    using bulk_write_idempotent [of 0 "''w''" sample_bulk NewStore s1 result task "\<lparr>ci_Kind = ''k'', ci_Key = ''1'', ci_TTLSeconds = 0\<rparr>" 5]
    by (simp add: sample_bulk_def)
  then show ?thesis by blast
qed

end
