(* ===== verification/Forks.thy ===== *)
theory Forks
  imports StoreDelete
begin

text \<open>
  Forks of a workspace (\<^verbatim>\<open>store.go\<close>): an overlay of writes and deletes over the live files, pinned
  path by path to the revision each path had when it was first touched, committed as a whole or not at
  all.  This theory has the operations; \<open>ForksCorrect\<close> has their correctness.

  The random part of a new fork id is an argument.  Expiry timers are the step \<open>expireForkByTimer\<close>,
  which may happen at any time.
\<close>

section \<open>Keys, lifetimes, expiry\<close>

definition DefaultForkTTLSeconds :: int where "DefaultForkTTLSeconds = 7 * 24 * 60 * 60"
definition MaxForkTTLSeconds :: int where "MaxForkTTLSeconds = 30 * 24 * 60 * 60"

definition forkWorkspaceProposalKey :: "string \<Rightarrow> string \<Rightarrow> string" where
  "forkWorkspaceProposalKey workspaceID proposalID = workspaceID @ [CHR 0x00] @ proposalID"

definition normalizeForkTTL :: "int \<Rightarrow> duration" where
  "normalizeForkTTL ttlSeconds =
     (let ttl = (if ttlSeconds \<le> 0 then DefaultForkTTLSeconds else ttlSeconds);
          ttl = (if ttl > MaxForkTTLSeconds then MaxForkTTLSeconds else ttl)
      in ttl * Second)"

definition isForkExpiredAt :: "forkState \<Rightarrow> instant \<Rightarrow> bool" where
  "isForkExpiredAt fork now =
     (case ParseRFC3339Nano (fs_ExpiresAt fork) of None \<Rightarrow> True | Some expiresAt \<Rightarrow> \<not> now < expiresAt)"

definition fork_handle :: "forkState \<Rightarrow> ForkHandle" where
  "fork_handle f = \<lparr>fh_ForkID = fs_ForkID f, fh_ProposalID = fs_ProposalID f, fh_WorkspaceID = fs_WorkspaceID f,
     fh_ExpiresAt = fs_ExpiresAt f, fh_ParentRevision = fs_ParentRevision f\<rparr>"

definition deleteForkLocked :: "instant \<Rightarrow> string \<Rightarrow> bool \<Rightarrow> Store \<Rightarrow> Store" where
  "deleteForkLocked now forkID markExpired s =
     (case map_of (s_forks s) forkID of
        None \<Rightarrow> s
      | Some fork \<Rightarrow>
          s\<lparr>s_forks := mdel forkID (s_forks s),
            s_forkByWorkspaceProposal :=
              mdel (forkWorkspaceProposalKey (fs_WorkspaceID fork) (fs_ProposalID fork)) (s_forkByWorkspaceProposal s),
            s_forkByProposal := mdel (fs_ProposalID fork) (s_forkByProposal s),
            s_expiredForks :=
              (if markExpired then
                 mput forkID (case ParseRFC3339Nano (fs_ExpiresAt fork) of Some t \<Rightarrow> t | None \<Rightarrow> now) (s_expiredForks s)
               else mdel forkID (s_expiredForks s))\<rparr>)"

definition expireForksLocked :: "instant \<Rightarrow> Store \<Rightarrow> Store" where
  "expireForksLocked now s =
     fold (\<lambda>(forkID, fork) s. if isForkExpiredAt fork now then deleteForkLocked now forkID True s else s) (s_forks s) s"

definition expireForkByTimer :: "instant \<Rightarrow> string \<Rightarrow> Store \<Rightarrow> Store" where
  "expireForkByTimer now forkID s =
     (case map_of (s_forks s) forkID of
        None \<Rightarrow> s
      | Some fork \<Rightarrow> if \<not> isForkExpiredAt fork now then s else saveLocked (deleteForkLocked now forkID True s))"

definition getLiveForkLocked ::
  "instant \<Rightarrow> string \<Rightarrow> string \<Rightarrow> Store \<Rightarrow> Store \<times> (store_error + forkState)" where
  "getLiveForkLocked now workspaceID forkID s =
     (let workspaceID = TrimSpace workspaceID; forkID = TrimSpace forkID
      in if workspaceID = '''' \<or> forkID = '''' then (s, Inl ErrInvalidInput)
         else case map_of (s_forks s) forkID of
           None \<Rightarrow> (s, Inl (if map_of (s_expiredForks s) forkID \<noteq> None then ErrForkExpired else ErrNotFound))
         | Some fork \<Rightarrow>
             if fs_WorkspaceID fork \<noteq> workspaceID then (s, Inl ErrNotFound)
             else if isForkExpiredAt fork now then (saveLocked (deleteForkLocked now forkID True s), Inl ErrForkExpired)
             else (s, Inr fork))"

definition put_fork :: "string \<Rightarrow> forkState \<Rightarrow> Store \<Rightarrow> Store" where
  "put_fork forkID fork s = s\<lparr>s_forks := mput forkID fork (s_forks s)\<rparr>"

section \<open>Creating and discarding\<close>

definition CreateFork ::
  "instant \<Rightarrow> string \<Rightarrow> string \<Rightarrow> string \<Rightarrow> int \<Rightarrow> Store \<Rightarrow> Store \<times> (store_error + ForkHandle)" where
  "CreateFork now newForkID workspaceID proposalID ttlSeconds s =
     (let workspaceID = TrimSpace workspaceID; proposalID = TrimSpace proposalID
      in if workspaceID = '''' \<or> proposalID = '''' then (s, Inl ErrInvalidInput)
         else
           let s = expireForksLocked now s;
               key = forkWorkspaceProposalKey workspaceID proposalID;
               existingForkID = mget_or '''' (s_forkByWorkspaceProposal s) key;
               existing = (if existingForkID = '''' then None else map_of (s_forks s) existingForkID)
           in case existing of
                Some fork \<Rightarrow> (s, Inr (fork_handle fork))
              | None \<Rightarrow>
                  let s = (if existingForkID = '''' then s
                           else s\<lparr>s_forkByWorkspaceProposal := mdel key (s_forkByWorkspaceProposal s)\<rparr>);
                      otherID = mget_or '''' (s_forkByProposal s) proposalID;
                      other = (if otherID = '''' then None else map_of (s_forks s) otherID)
                  in if (case other of None \<Rightarrow> False | Some f \<Rightarrow> fs_WorkspaceID f \<noteq> workspaceID)
                     then (s, Inl ErrForkProposalConflict)
                     else
                       let expiresAt = FormatRFC3339Nano (now + normalizeForkTTL ttlSeconds);
                           fork = \<lparr>fs_ForkID = newForkID, fs_WorkspaceID = workspaceID, fs_ProposalID = proposalID,
                                   fs_ParentRevision = currentWorkspaceRevisionLocked s workspaceID,
                                   fs_CreatedAt = FormatRFC3339Nano now, fs_ExpiresAt = expiresAt,
                                   fs_Overlay = [], fs_OverlayRevisionCounter = 0\<rparr>;
                           s = s\<lparr>s_forks := mput newForkID fork (s_forks s),
                                 s_forkByWorkspaceProposal := mput key newForkID (s_forkByWorkspaceProposal s),
                                 s_forkByProposal := mput proposalID newForkID (s_forkByProposal s),
                                 s_expiredForks := mdel newForkID (s_expiredForks s)\<rparr>
                       in (saveLocked s, Inr (fork_handle fork)))"

definition DiscardFork :: "instant \<Rightarrow> string \<Rightarrow> string \<Rightarrow> Store \<Rightarrow> Store \<times> (store_error + unit)" where
  "DiscardFork now workspaceID forkID s =
     (let workspaceID = TrimSpace workspaceID; forkID = TrimSpace forkID
      in if workspaceID = '''' \<or> forkID = '''' then (s, Inl ErrInvalidInput)
         else case map_of (s_forks s) forkID of
                None \<Rightarrow> (s, Inr ())
              | Some fork \<Rightarrow>
                  if fs_WorkspaceID fork \<noteq> workspaceID then (s, Inr ())
                  else (saveLocked (deleteForkLocked now forkID False s), Inr ()))"

section \<open>Reading\<close>

definition readForkFileLocked :: "Store \<Rightarrow> forkState \<Rightarrow> string \<Rightarrow> File option" where
  "readForkFileLocked s fork path =
     (let path = normalizePath path;
          live = (case map_of (s_workspaces s) (fs_WorkspaceID fork) of
                    None \<Rightarrow> None | Some ws \<Rightarrow> map_of (ws_Files ws) path)
      in case map_of (fs_Overlay fork) path of
           None \<Rightarrow> live
         | Some entry \<Rightarrow>
             if oe_Type entry = ''delete'' then None
             else if oe_Type entry = ''write'' then
               (case oe_File entry of None \<Rightarrow> None
                | Some file \<Rightarrow> Some (file\<lparr>f_Path := path, f_Revision := oe_Revision entry\<rparr>))
             else live)"

definition ReadForkFile ::
  "instant \<Rightarrow> string \<Rightarrow> string \<Rightarrow> string \<Rightarrow> Store \<Rightarrow> Store \<times> (store_error + File)" where
  "ReadForkFile now workspaceID forkID path s =
     (if TrimSpace path = '''' then (s, Inl ErrInvalidInput)
      else case getLiveForkLocked now workspaceID forkID s of
        (s, Inl e) \<Rightarrow> (s, Inl e)
      | (s, Inr fork) \<Rightarrow>
          (case readForkFileLocked s fork (normalizePath path) of
             None \<Rightarrow> (s, Inl ErrNotFound) | Some file \<Rightarrow> (s, Inr file)))"

definition merged_entry :: "string \<times> ForkOverlayEntry \<Rightarrow> (string, File) gomap \<Rightarrow> (string, File) gomap" where
  "merged_entry pe files =
     (let (path, entry) = pe; normalized = normalizePath path
      in if oe_Type entry = ''delete'' then mdel normalized files
         else if oe_Type entry = ''write'' then
           (case oe_File entry of None \<Rightarrow> files
            | Some file \<Rightarrow> mput normalized (file\<lparr>f_Path := normalized, f_Revision := oe_Revision entry\<rparr>) files)
         else files)"

definition mergedForkFilesLocked :: "Store \<Rightarrow> forkState \<Rightarrow> (string, File) gomap" where
  "mergedForkFilesLocked s fork =
     fold merged_entry (fs_Overlay fork)
       (case map_of (s_workspaces s) (fs_WorkspaceID fork) of None \<Rightarrow> [] | Some ws \<Rightarrow> ws_Files ws)"

definition ExportForkWorkspace ::
  "instant \<Rightarrow> string \<Rightarrow> string \<Rightarrow> Store \<Rightarrow> Store \<times> (store_error + File list)" where
  "ExportForkWorkspace now workspaceID forkID s =
     (if TrimSpace workspaceID = '''' \<or> TrimSpace forkID = '''' then (s, Inl ErrInvalidInput)
      else case getLiveForkLocked now workspaceID forkID s of
        (s, Inl e) \<Rightarrow> (s, Inl e)
      | (s, Inr fork) \<Rightarrow> (s, Inr (sortedFilesFromMap (mergedForkFilesLocked s fork))))"

definition ResolveForkFilePermissions ::
  "instant \<Rightarrow> string \<Rightarrow> string \<Rightarrow> string \<Rightarrow> bool \<Rightarrow> Store \<Rightarrow> Store \<times> string list" where
  "ResolveForkFilePermissions now workspaceID forkID path includeTarget s =
     (case getLiveForkLocked now workspaceID forkID s of
        (s, Inl e) \<Rightarrow> (s, [])
      | (s, Inr fork) \<Rightarrow>
          (case map_of (s_workspaces s) workspaceID of
             None \<Rightarrow> (s, [])
           | Some ws \<Rightarrow> (s, resolvePermissionsFromForkEntries (ws_Files ws) (fs_Overlay fork) path includeTarget)))"

section \<open>Writing and deleting in a fork\<close>

definition fork_revision :: "forkState \<Rightarrow> nat \<Rightarrow> string" where
  "fork_revision fork n = ''fork:'' @ fs_ForkID fork @ '':'' @ itoa n"

definition nextForkOverlayRevisionLocked :: "forkState \<Rightarrow> string \<times> forkState" where
  "nextForkOverlayRevisionLocked fork =
     (let n = fs_OverlayRevisionCounter fork + 1
      in (fork_revision fork n, fork\<lparr>fs_OverlayRevisionCounter := n\<rparr>))"

definition fork_op_id :: "forkState \<Rightarrow> string" where
  "fork_op_id fork = ''fork:'' @ fs_ForkID fork @ '':op:'' @ itoa (fs_OverlayRevisionCounter fork)"

text \<open>The base revision an overlay entry is pinned to.\<close>

definition pinned_base :: "forkState \<Rightarrow> string \<Rightarrow> File option \<Rightarrow> string option \<Rightarrow> string" where
  "pinned_base fork path existing resolvedBaseRevision =
     (case resolvedBaseRevision of
        Some base \<Rightarrow> base
      | None \<Rightarrow>
          (case map_of (fs_Overlay fork) path of
             Some entry \<Rightarrow> oe_BaseRevision entry
           | None \<Rightarrow> (case existing of Some f \<Rightarrow> f_Revision f | None \<Rightarrow> ''0'')))"

definition writeForkOverlayLocked ::
  "instant \<Rightarrow> forkState \<Rightarrow> WriteRequest \<Rightarrow> File option \<Rightarrow> string option \<Rightarrow> forkState \<times> WriteResult" where
  "writeForkOverlayLocked now fork req existing resolvedBaseRevision =
     (let path = normalizePath (wr_Path req);
          ct = TrimSpace (wr_ContentType req);
          contentType = (if ct = '''' then ''text/markdown'' else ct);
          sem0 = normalizeSemantics (wr_Semantics req);
          semantics = (case existing of
                         Some f \<Rightarrow> if isZeroSemantics sem0 then normalizeSemantics (f_Semantics f) else sem0
                       | None \<Rightarrow> sem0);
          prov0 = (case existing of Some f \<Rightarrow> f_Provider f | None \<Rightarrow> '''');
          provider = (if prov0 = '''' then inferProviderFromPath path else prov0);
          baseRevision = pinned_base fork path existing resolvedBaseRevision;
          (revision, fork) = nextForkOverlayRevisionLocked fork;
          file = \<lparr>f_Path = path, f_Type = wr_Type req, f_Target = wr_Target req, f_Mode = wr_Mode req,
                  f_Revision = revision, f_ContentHash = contentHashForEncodedContent (wr_Content req) (wr_Encoding req),
                  f_ContentType = contentType, f_Content = wr_Content req, f_Encoding = wr_Encoding req,
                  f_Provider = provider, f_ProviderObjectID = '''', f_LastEditedAt = FormatRFC3339Nano now,
                  f_Semantics = semantics\<rparr>;
          entry = \<lparr>oe_Type = ''write'', oe_File = Some file, oe_Revision = revision, oe_BaseRevision = baseRevision,
                   oe_DeletedAt = ''''\<rparr>;
          fork = fork\<lparr>fs_Overlay := mput path entry (fs_Overlay fork)\<rparr>
      in (fork, \<lparr>res_OpID = fork_op_id fork, res_Status = ''queued'', res_TargetRevision = revision,
                 res_WritebackProvider = provider, res_WritebackState = ''pending''\<rparr>))"

text \<open>
  The revision check of \<open>WriteForkFile\<close> and \<open>DeleteForkFile\<close> on a path that exists in the fork: \<open>Inr None\<close>
  when it matches, \<open>Inr (Some base)\<close> when the caller resolves a reported rebase conflict by citing the live
  revision, and the store with the workspace the check may create.
\<close>

definition fork_if_match ::
  "string \<Rightarrow> string \<Rightarrow> string \<Rightarrow> forkState \<Rightarrow> File \<Rightarrow> Store \<Rightarrow> Store \<times> (store_error + string option)" where
  "fork_if_match ifMatch workspaceID path fork existing s =
     (if ifMatch = ''*'' \<or> ifMatch = f_Revision existing then (s, Inr None)
      else
        let conflict = ErrRevisionConflict ifMatch (f_Revision existing) (truncatePreview (f_Content existing))
        in if map_of (fs_Overlay fork) path = None then (s, Inl conflict)
           else
             let s = ensureWorkspaceLocked workspaceID s;
                 liveRevision = (case map_of (ws_Files (ws_of s workspaceID)) path of
                                   Some f \<Rightarrow> f_Revision f | None \<Rightarrow> ''0'')
             in if ifMatch = liveRevision then (s, Inr (Some liveRevision)) else (s, Inl conflict))"

definition WriteForkFile ::
  "instant \<Rightarrow> WriteRequest \<Rightarrow> string \<Rightarrow> Store \<Rightarrow> Store \<times> (store_error + WriteResult)" where
  "WriteForkFile now req forkID s =
     (if wr_IfMatch req = '''' then (s, Inl ErrMissingPrecondition)
      else if wr_WorkspaceID req = '''' \<or> wr_Path req = '''' \<or> TrimSpace forkID = '''' then (s, Inl ErrInvalidInput)
      else case normalizeEncoding (wr_Encoding req) of
        Inl e \<Rightarrow> (s, Inl e)
      | Inr encoding \<Rightarrow>
          if \<not> validateEncodedContent (wr_Content req) encoding then (s, Inl ErrInvalidInput)
          else case getLiveForkLocked now (wr_WorkspaceID req) forkID s of
            (s, Inl e) \<Rightarrow> (s, Inl e)
          | (s, Inr fork) \<Rightarrow>
              let path = normalizePath (wr_Path req);
                  existing = readForkFileLocked s fork path
              in case normalizeWriteTypeMetadata req existing encoding of
                   Inl _ \<Rightarrow> (s, Inl ErrInvalidInput)
                 | Inr metadata \<Rightarrow>
                     let (s, check) =
                           (case existing of
                              Some f \<Rightarrow> fork_if_match (wr_IfMatch req) (wr_WorkspaceID req) path fork f s
                            | None \<Rightarrow> if wr_IfMatch req \<noteq> ''0'' \<and> wr_IfMatch req \<noteq> ''*''
                                      then (s, Inl ErrNotFound) else (s, Inr None))
                     in case check of
                          Inl e \<Rightarrow> (s, Inl e)
                        | Inr resolved \<Rightarrow>
                            let (fork, result) =
                                  writeForkOverlayLocked now fork
                                    (req\<lparr>wr_Path := path, wr_Encoding := encoding, wr_Type := ftm_Type metadata,
                                         wr_Target := ftm_Target metadata, wr_Mode := ftm_Mode metadata\<rparr>)
                                    existing resolved
                            in (saveLocked (put_fork (TrimSpace forkID) fork s), Inr result))"

definition DeleteForkFile ::
  "instant \<Rightarrow> DeleteRequest \<Rightarrow> string \<Rightarrow> Store \<Rightarrow> Store \<times> (store_error + WriteResult)" where
  "DeleteForkFile now req forkID s =
     (if dr_IfMatch req = '''' then (s, Inl ErrMissingPrecondition)
      else if dr_WorkspaceID req = '''' \<or> dr_Path req = '''' \<or> TrimSpace forkID = '''' then (s, Inl ErrInvalidInput)
      else case getLiveForkLocked now (dr_WorkspaceID req) forkID s of
        (s, Inl e) \<Rightarrow> (s, Inl e)
      | (s, Inr fork) \<Rightarrow>
          let path = normalizePath (dr_Path req)
          in case readForkFileLocked s fork path of
               None \<Rightarrow> (s, Inl ErrNotFound)
             | Some existing \<Rightarrow>
                 (case fork_if_match (dr_IfMatch req) (dr_WorkspaceID req) path fork existing s of
                    (s, Inl e) \<Rightarrow> (s, Inl e)
                  | (s, Inr resolved) \<Rightarrow>
                      let baseRevision = pinned_base fork path (Some existing) resolved;
                          (revision, fork) = nextForkOverlayRevisionLocked fork;
                          entry = \<lparr>oe_Type = ''delete'', oe_File = None, oe_Revision = revision,
                                   oe_BaseRevision = baseRevision, oe_DeletedAt = FormatRFC3339Nano now\<rparr>;
                          fork = fork\<lparr>fs_Overlay := mput path entry (fs_Overlay fork)\<rparr>
                      in (saveLocked (put_fork (TrimSpace forkID) fork s),
                          Inr \<lparr>res_OpID = fork_op_id fork, res_Status = ''queued'', res_TargetRevision = revision,
                               res_WritebackProvider = f_Provider existing, res_WritebackState = ''pending''\<rparr>)))"

definition forkBulkErrorCode :: "store_error \<Rightarrow> string" where
  "forkBulkErrorCode err =
     (case err of ErrForkExpired \<Rightarrow> ''fork_expired'' | ErrNotFound \<Rightarrow> ''not_found'' | _ \<Rightarrow> ''invalid_input'')"

definition fork_error_text :: "store_error \<Rightarrow> string" where
  "fork_error_text err =
     (case err of ErrForkExpired \<Rightarrow> ''fork expired'' | ErrNotFound \<Rightarrow> ''not found'' | _ \<Rightarrow> ''invalid input'')"

definition bulk_fork_one ::
  "instant \<Rightarrow> string \<Rightarrow> BulkWriteFile \<Rightarrow> Store \<Rightarrow> forkState \<Rightarrow> forkState \<times> (BulkWriteError + BulkWriteResult)" where
  "bulk_fork_one now workspaceID input s fork =
     (let path = normalizePath (bf_Path input)
      in if TrimSpace (bf_Path input) = '''' then
           (fork, Inl (bulk_error (bf_Path input) ''invalid_path'' (Msg ''missing path'')))
         else case normalizeEncoding (bf_Encoding input) of
           Inl _ \<Rightarrow> (fork, Inl (bulk_error path ''invalid_encoding'' (Msg ''invalid input'')))
         | Inr encoding \<Rightarrow>
             if \<not> validateEncodedContent (bf_Content input) encoding then
               (fork, Inl (bulk_error path ''invalid_content'' (Msg ''invalid input'')))
             else
               let existing = readForkFileLocked s fork path
               in case normalizeBulkWriteTypeMetadata input existing encoding of
                    Inl msg \<Rightarrow> (fork, Inl (bulk_error path ''invalid_type'' msg))
                  | Inr metadata \<Rightarrow>
                      (case bulk_if_match path (TrimSpace (bf_IfMatch input)) existing of
                         Some err \<Rightarrow> (fork, Inl err)
                       | None \<Rightarrow>
                           let req = \<lparr>wr_WorkspaceID = workspaceID, wr_Path = path, wr_IfMatch = ''*'',
                                      wr_ContentType = bf_ContentType input, wr_Content = bf_Content input,
                                      wr_Encoding = encoding, wr_Type = ftm_Type metadata,
                                      wr_Target = ftm_Target metadata, wr_Mode = ftm_Mode metadata,
                                      wr_Semantics = zero_semantics, wr_CorrelationID = ''''\<rparr>;
                               (fork, result) = writeForkOverlayLocked now fork req existing None;
                               fork = (case map_of (fs_Overlay fork) path of
                                         None \<Rightarrow> fork
                                       | Some entry \<Rightarrow>
                                           (case oe_File entry of None \<Rightarrow> fork
                                            | Some file \<Rightarrow>
                                                fork\<lparr>fs_Overlay := mput path
                                                  (entry\<lparr>oe_File := Some (file\<lparr>f_Type := ftm_Type metadata,
                                                     f_Target := ftm_Target metadata, f_Mode := ftm_Mode metadata\<rparr>)\<rparr>)
                                                  (fs_Overlay fork)\<rparr>));
                               ct = TrimSpace (bf_ContentType input)
                           in (fork, Inr \<lparr>br_Path = path, br_Revision = res_TargetRevision result,
                                          br_ContentType = (if ct = '''' then ''text/markdown'' else ct),
                                          br_OpID = '''', br_ContentIdentity = None, br_Writeback = None\<rparr>)))"

fun bulk_fork_loop ::
  "instant \<Rightarrow> string \<Rightarrow> BulkWriteFile list \<Rightarrow> Store \<Rightarrow> forkState \<Rightarrow>
   forkState \<times> nat \<times> BulkWriteResult list \<times> BulkWriteError list" where
  "bulk_fork_loop now workspaceID [] s fork = (fork, 0, [], [])"
| "bulk_fork_loop now workspaceID (input # rest) s fork =
     (case bulk_fork_one now workspaceID input s fork of
        (fork, Inl err) \<Rightarrow>
          (let (fork, written, results, errs) = bulk_fork_loop now workspaceID rest s fork
           in (fork, written, results, err # errs))
      | (fork, Inr result) \<Rightarrow>
          (let (fork, written, results, errs) = bulk_fork_loop now workspaceID rest s fork
           in (fork, Suc written, result # results, errs)))"

definition BulkWriteFork ::
  "instant \<Rightarrow> string \<Rightarrow> string \<Rightarrow> BulkWriteFile list \<Rightarrow> Store \<Rightarrow>
   Store \<times> nat \<times> BulkWriteResult list \<times> BulkWriteError list" where
  "BulkWriteFork now workspaceID forkID files s =
     (if TrimSpace workspaceID = '''' \<or> TrimSpace forkID = '''' then
        (s, 0, [], [bulk_error '''' ''invalid_input'' (Msg ''invalid input'')])
      else if files = [] then (s, 0, [], [])
      else case getLiveForkLocked now workspaceID forkID s of
        (s, Inl e) \<Rightarrow> (s, 0, [], [bulk_error '''' (forkBulkErrorCode e) (Msg (fork_error_text e))])
      | (s, Inr fork) \<Rightarrow>
          (let (fork, written, results, errs) = bulk_fork_loop now workspaceID files s fork
           in (saveLocked (put_fork (TrimSpace forkID) fork s), written, results, errs)))"

section \<open>Committing\<close>

definition path_revision :: "(string, File) gomap \<Rightarrow> string \<Rightarrow> string" where
  "path_revision files path = (case map_of files path of Some f \<Rightarrow> f_Revision f | None \<Rightarrow> ''0'')"

text \<open>Whether the parent moved under an overlay entry; entries without a base revision (written by an old
  binary) fall back to the workspace revision.\<close>

definition entry_moved ::
  "string \<Rightarrow> string \<Rightarrow> (string, File) gomap \<Rightarrow> string \<times> ForkOverlayEntry \<Rightarrow> bool" where
  "entry_moved currentRevision parentRevision files pe =
     (let (path, entry) = pe
      in if oe_BaseRevision entry = '''' then currentRevision \<noteq> parentRevision
         else path_revision files path \<noteq> oe_BaseRevision entry)"

definition sorted_overlay :: "forkState \<Rightarrow> (string \<times> ForkOverlayEntry) list" where
  "sorted_overlay fork = sort_key fst (fs_Overlay fork)"

definition commit_entries :: "(string, File) gomap \<Rightarrow> (string \<times> ForkOverlayEntry) list \<Rightarrow> ForkCommitEntry list" where
  "commit_entries files entries =
     map (\<lambda>(path, entry).
            \<lparr>fce_Path = normalizePath path, fce_Type = oe_Type entry,
             fce_Permissions = resolvePermissionsFromFiles files path
               (map_of files path \<noteq> None \<or> oe_Type entry = ''delete'')\<rparr>)
       (filter (\<lambda>(path, entry). oe_Type entry = ''write'' \<or> oe_Type entry = ''delete'') entries)"

record commit_state =
  cs_store :: Store
  cs_revision :: string
  cs_written :: nat
  cs_deleted :: nat
  cs_tasks :: "WritebackQueueItem list"

definition commit_write_file :: "instant \<Rightarrow> string \<Rightarrow> File option \<Rightarrow> string \<Rightarrow> File \<Rightarrow> File" where
  "commit_write_file now path existing revision file =
     (let file = file\<lparr>f_Path := normalizePath path, f_Revision := revision\<rparr>;
          file = (if f_ContentType file = '''' then file\<lparr>f_ContentType := ''text/markdown''\<rparr> else file);
          existingProvider = (case existing of Some f \<Rightarrow> f_Provider f | None \<Rightarrow> '''');
          file = (if f_Provider file = '''' then
                    file\<lparr>f_Provider := (if existingProvider \<noteq> '''' then existingProvider
                                          else inferProviderFromPath (f_Path file))\<rparr>
                  else file)
      in if f_LastEditedAt file = '''' then file\<lparr>f_LastEditedAt := FormatRFC3339Nano now\<rparr> else file)"

definition commit_one ::
  "instant \<Rightarrow> string \<Rightarrow> string \<Rightarrow> string \<times> ForkOverlayEntry \<Rightarrow> commit_state \<Rightarrow> commit_state" where
  "commit_one now wsid correlationID pe cs =
     (let (path, entry) = pe; s = cs_store cs; existing = map_of (ws_Files (ws_of s wsid)) path
      in if oe_Type entry = ''write'' then
           (case oe_File entry of
              None \<Rightarrow> cs
            | Some file0 \<Rightarrow>
                let (revision, s) = nextRevisionLocked s;
                    file = commit_write_file now path existing revision file0;
                    s = put_file wsid (f_Path file) file revision s;
                    eventType = (if existing = None then ''file.created'' else ''file.updated'');
                    (result, task, s) = recordWriteLocked now wsid (f_Path file) revision eventType (f_Provider file)
                                          correlationID s
                in cs\<lparr>cs_store := s, cs_revision := revision, cs_written := cs_written cs + 1,
                      cs_tasks := cs_tasks cs @ [task]\<rparr>)
         else if oe_Type entry = ''delete'' then
           (case existing of
              None \<Rightarrow> cs
            | Some f \<Rightarrow>
                let aclPermissions = resolvePermissionsFromFiles (ws_Files (ws_of s wsid)) path True;
                    (revision, s) = nextRevisionLocked s;
                    s = remove_file wsid path revision s;
                    (result, task, s) = recordWriteWithACLPermissionsLocked now wsid path revision ''file.deleted''
                                          (f_Provider f) correlationID aclPermissions s
                in cs\<lparr>cs_store := s, cs_revision := revision, cs_deleted := cs_deleted cs + 1,
                      cs_tasks := cs_tasks cs @ [task]\<rparr>)
         else cs)"

text \<open>\<open>validate\<close> is the caller's check of the entries to commit; \<open>None\<close> accepts.\<close>

definition CommitForkWithValidator ::
  "instant \<Rightarrow> string \<Rightarrow> string \<Rightarrow> string \<Rightarrow> (ForkCommitEntry list \<Rightarrow> store_error option) \<Rightarrow> Store \<Rightarrow>
   Store \<times> (store_error + ForkCommitResponse)" where
  "CommitForkWithValidator now workspaceID forkID correlationID validate s =
     (let workspaceID = TrimSpace workspaceID; forkID = TrimSpace forkID
      in if workspaceID = '''' \<or> forkID = '''' then (s, Inl ErrInvalidInput)
         else case getLiveForkLocked now workspaceID forkID s of
           (s, Inl e) \<Rightarrow> (s, Inl e)
         | (s, Inr fork) \<Rightarrow>
             let currentRevision = currentWorkspaceRevisionLocked s workspaceID;
                 s = ensureWorkspaceLocked workspaceID s;
                 files = ws_Files (ws_of s workspaceID);
                 entries = sorted_overlay fork
             in if list_ex (entry_moved currentRevision (fs_ParentRevision fork) files) entries
                then (s, Inl (ErrParentMoved currentRevision))
                else case validate (commit_entries files entries) of
                  Some err \<Rightarrow> (s, Inl err)
                | None \<Rightarrow>
                    let cs = fold (commit_one now workspaceID correlationID) entries
                               \<lparr>cs_store = s, cs_revision = currentRevision, cs_written = 0, cs_deleted = 0, cs_tasks = []\<rparr>;
                        s = saveLocked (deleteForkLocked now forkID False (cs_store cs))
                    in (fold enqueueWriteback (cs_tasks cs) s,
                        Inr \<lparr>fcr_Revision = cs_revision cs, fcr_WrittenCount = cs_written cs,
                             fcr_DeletedCount = cs_deleted cs\<rparr>))"

definition CommitFork ::
  "instant \<Rightarrow> string \<Rightarrow> string \<Rightarrow> string \<Rightarrow> Store \<Rightarrow> Store \<times> (store_error + ForkCommitResponse)" where
  "CommitFork now workspaceID forkID correlationID s =
     CommitForkWithValidator now workspaceID forkID correlationID (\<lambda>_. None) s"

section \<open>Rebasing\<close>

definition entry_clean :: "(string, File) gomap \<Rightarrow> string \<times> ForkOverlayEntry \<Rightarrow> bool" where
  "entry_clean files pe =
     (let (path, entry) = pe
      in oe_BaseRevision entry \<noteq> '''' \<and> oe_BaseRevision entry = path_revision files path)"

definition rebase_conflict :: "(string, File) gomap \<Rightarrow> string \<times> ForkOverlayEntry \<Rightarrow> RebaseConflict" where
  "rebase_conflict files pe =
     (let (path, entry) = pe
      in \<lparr>rc_Path = path, rc_ForkType = oe_Type entry, rc_LiveExists = (map_of files path \<noteq> None),
          rc_LiveRevision = path_revision files path,
          rc_LiveContentPreview = (case map_of files path of Some f \<Rightarrow> truncatePreview (f_Content f) | None \<Rightarrow> '''')\<rparr>)"

definition RebaseFork ::
  "instant \<Rightarrow> string \<Rightarrow> string \<Rightarrow> Store \<Rightarrow> Store \<times> (store_error + RebaseResponse)" where
  "RebaseFork now workspaceID forkID s =
     (let workspaceID = TrimSpace workspaceID; forkID = TrimSpace forkID
      in if workspaceID = '''' \<or> forkID = '''' then (s, Inl ErrInvalidInput)
         else case getLiveForkLocked now workspaceID forkID s of
           (s, Inl e) \<Rightarrow> (s, Inl e)
         | (s, Inr fork) \<Rightarrow>
             let s = ensureWorkspaceLocked workspaceID s;
                 files = ws_Files (ws_of s workspaceID);
                 entries = sorted_overlay fork;
                 fork = fork\<lparr>fs_ParentRevision := currentWorkspaceRevisionLocked s workspaceID\<rparr>
             in (saveLocked (put_fork forkID fork s),
                 Inr \<lparr>rr_ParentRevision = fs_ParentRevision fork,
                      rr_CleanCount = length (filter (entry_clean files) entries),
                      rr_Conflicts = map (rebase_conflict files) (filter (Not \<circ> entry_clean files) entries)\<rparr>))"

section \<open>Indexes at start-up\<close>

definition rebuildForkIndexesLocked :: "instant \<Rightarrow> Store \<Rightarrow> Store" where
  "rebuildForkIndexesLocked now s =
     fold (\<lambda>(forkID, fork) s.
             if fs_ForkID fork = '''' then s\<lparr>s_forks := mdel forkID (s_forks s)\<rparr>
             else if isForkExpiredAt fork now then deleteForkLocked now forkID True s
             else s\<lparr>s_forkByWorkspaceProposal :=
                      mput (forkWorkspaceProposalKey (fs_WorkspaceID fork) (fs_ProposalID fork)) (fs_ForkID fork)
                        (s_forkByWorkspaceProposal s),
                    s_forkByProposal := mput (fs_ProposalID fork) (fs_ForkID fork) (s_forkByProposal s)\<rparr>)
       (s_forks s) (s\<lparr>s_forkByWorkspaceProposal := [], s_forkByProposal := []\<rparr>)"

end
