(* ===== verification/ForksCorrect.thy ===== *)
theory ForksCorrect
  imports Forks
begin

text \<open>
  Correctness of fork commits.  A commit is all or nothing: when it fails no workspace changes; when it succeeds, the
  workspace shows what the fork showed (\<open>commit_refines_view\<close>), and it succeeds only if no path of the fork changed since
  it was first touched.  The fork table and its indexes are in \<open>ForkIndex\<close>, rebasing in \<open>ForkRebase\<close>.
\<close>

section \<open>What fork operations leave alone\<close>

lemma delete_fork_fields [store_simps]:
  "s_workspaces (deleteForkLocked now i m s) = s_workspaces s" "ws_of (deleteForkLocked now i m s) w = ws_of s w"
  "s_revCounter (deleteForkLocked now i m s) = s_revCounter s" "s_opCounter (deleteForkLocked now i m s) = s_opCounter s"
  "s_eventCounter (deleteForkLocked now i m s) = s_eventCounter s" "s_cfg (deleteForkLocked now i m s) = s_cfg s"
  by (simp_all add: deleteForkLocked_def ws_of_def split: option.split)

lemma mdel_absent: "map_of m k = None \<Longrightarrow> mdel k m = m"
  by (induction m) (auto split: if_splits)

lemma delete_fork_forks [store_simps]: "s_forks (deleteForkLocked now i m s) = mdel i (s_forks s)"
  using mdel_absent [of "s_forks s" i] by (simp add: deleteForkLocked_def split: option.split)

lemma put_fork_fields [store_simps]:
  "s_workspaces (put_fork i f s) = s_workspaces s" "ws_of (put_fork i f s) w = ws_of s w"
  "s_revCounter (put_fork i f s) = s_revCounter s" "s_opCounter (put_fork i f s) = s_opCounter s"
  "s_eventCounter (put_fork i f s) = s_eventCounter s" "s_cfg (put_fork i f s) = s_cfg s"
  "s_forks (put_fork i f s) = mput i f (s_forks s)"
  "s_forkByWorkspaceProposal (put_fork i f s) = s_forkByWorkspaceProposal s"
  "s_forkByProposal (put_fork i f s) = s_forkByProposal s"
  by (simp_all add: put_fork_def ws_of_def)

definition same_workspaces :: "Store \<Rightarrow> Store \<Rightarrow> bool" where
  "same_workspaces s s' \<longleftrightarrow> (\<forall>w. ws_of s' w = ws_of s w) \<and> s_revCounter s' = s_revCounter s
     \<and> s_opCounter s' = s_opCounter s \<and> s_eventCounter s' = s_eventCounter s
     \<and> (wf_map (s_workspaces s) \<longrightarrow> wf_map (s_workspaces s'))"

lemma same_workspaces_refl [simp]: "same_workspaces s s"
  by (simp add: same_workspaces_def)

lemma same_workspaces_trans: "same_workspaces s s' \<Longrightarrow> same_workspaces s' s'' \<Longrightarrow> same_workspaces s s''"
  by (simp add: same_workspaces_def)

lemma same_workspaces_inv: "same_workspaces s s' \<Longrightarrow> store_inv s \<Longrightarrow> store_inv s'"
  by (simp add: same_workspaces_def store_inv_def)

lemma same_workspaces_save [simp]: "same_workspaces s (saveLocked s)"
  by (simp add: same_workspaces_def store_simps)

lemma same_workspaces_put_fork [simp]: "same_workspaces s (put_fork i f s)"
  by (simp add: same_workspaces_def store_simps)

lemma same_workspaces_delete_fork [simp]: "same_workspaces s (deleteForkLocked now i m s)"
  by (simp add: same_workspaces_def store_simps)

lemma same_workspaces_ensure [simp]: "same_workspaces s (ensureWorkspaceLocked w s)"
proof -
  have "wf_map (s_workspaces s) \<Longrightarrow> wf_map (s_workspaces (ensureWorkspaceLocked w s))"
    by (simp add: ensureWorkspaceLocked_def put_ws_def split: option.split)
  then show ?thesis by (simp add: same_workspaces_def store_simps)
qed

lemma getLive_cases:
  fixes s :: Store and w i :: string and now :: instant
  obtains (refused) e s' where "getLiveForkLocked now w i s = (s', Inl e)"
      and "s' = s \<or> (s' = saveLocked (deleteForkLocked now (TrimSpace i) True s) \<and> e = ErrForkExpired)"
  | (live) fork where "getLiveForkLocked now w i s = (s, Inr fork)" and "map_of (s_forks s) (TrimSpace i) = Some fork"
      and "fs_WorkspaceID fork = TrimSpace w" and "\<not> isForkExpiredAt fork now" and "TrimSpace w \<noteq> ''''" and "TrimSpace i \<noteq> ''''"
proof (cases "TrimSpace w = '''' \<or> TrimSpace i = ''''")
  case True
  then show ?thesis using refused [of s ErrInvalidInput] by (auto simp: getLiveForkLocked_def)
next
  case nonblank: False
  show ?thesis
  proof (cases "map_of (s_forks s) (TrimSpace i)")
    case None
    with nonblank show ?thesis using refused [of s] by (simp add: getLiveForkLocked_def)
  next
    case (Some fork)
    with nonblank show ?thesis
      using refused [of s ErrNotFound] refused [of _ ErrForkExpired] live [of fork]
      by (cases "fs_WorkspaceID fork = TrimSpace w"; cases "isForkExpiredAt fork now")
         (simp_all add: getLiveForkLocked_def)
  qed
qed

lemma getLive_workspaces: "same_workspaces s (fst (getLiveForkLocked now w i s))"
  by (cases rule: getLive_cases [of now w i s])
     (auto intro: same_workspaces_trans [OF same_workspaces_delete_fork same_workspaces_save])

section \<open>Committing: one entry\<close>

lemma commit_write_file_fields [simp]:
  "f_Path (commit_write_file now p ex r f) = normalizePath p" "f_Revision (commit_write_file now p ex r f) = r"
  "f_Content (commit_write_file now p ex r f) = f_Content f" "f_Encoding (commit_write_file now p ex r f) = f_Encoding f"
  "f_Type (commit_write_file now p ex r f) = f_Type f" "f_Target (commit_write_file now p ex r f) = f_Target f"
  "f_Mode (commit_write_file now p ex r f) = f_Mode f" "f_Semantics (commit_write_file now p ex r f) = f_Semantics f"
  "f_ContentHash (commit_write_file now p ex r f) = f_ContentHash f"
  by (simp_all add: commit_write_file_def Let_def)

lemma commit_one_cases:
  fixes now :: instant and w c p :: string and e :: ForkOverlayEntry and cs :: commit_state
  obtains (skip) "commit_one now w c (p, e) cs = cs"
      and "\<not> (oe_Type e = ''write'' \<and> oe_File e \<noteq> None)"
      and "\<not> (oe_Type e = ''delete'' \<and> map_of (ws_Files (ws_of (cs_store cs) w)) p \<noteq> None)"
  | (put) f0 f et where "oe_Type e = ''write''" and "oe_File e = Some f0"
      and "f = commit_write_file now p (map_of (ws_Files (ws_of (cs_store cs) w)) p) (rev_id (Suc (s_revCounter (cs_store cs)))) f0"
      and "cs_store (commit_one now w c (p, e) cs) = commit_put now w (normalizePath p) f et c None (cs_store cs)" and "put_type et"
  | (del) f where "oe_Type e = ''delete''" and "map_of (ws_Files (ws_of (cs_store cs) w)) p = Some f"
      and "cs_store (commit_one now w c (p, e) cs) = commit_del now w p (f_Provider f) c
             (resolvePermissionsFromFiles (ws_Files (ws_of (cs_store cs) w)) p True) (cs_store cs)"
proof (cases "oe_Type e = ''write''")
  case True
  show ?thesis
  proof (cases "oe_File e")
    case None
    then show ?thesis using skip True by (simp add: commit_one_def)
  next
    case (Some f0)
    then show ?thesis
      using put [OF True Some refl] True
      by (auto simp: commit_one_def Let_def nextRevisionLocked_def record_write_put)
  qed
next
  case False
  show ?thesis
  proof (cases "oe_Type e = ''delete'' \<and> map_of (ws_Files (ws_of (cs_store cs) w)) p \<noteq> None")
    case True
    then obtain f where "map_of (ws_Files (ws_of (cs_store cs) w)) p = Some f" by blast
    then show ?thesis
      using del True by (auto simp: commit_one_def Let_def nextRevisionLocked_def record_write_del)
  next
    case no: False
    then show ?thesis using skip False by (auto simp: commit_one_def Let_def split: option.splits)
  qed
qed

section \<open>Committing: all entries\<close>

text \<open>What a step of the commit loop keeps.\<close>

definition commit_step :: "string \<Rightarrow> Store \<Rightarrow> Store \<Rightarrow> bool" where
  "commit_step w s s' \<longleftrightarrow> store_inv s' \<and> (\<forall>w'. prefix (ws_Events (ws_of s w')) (ws_Events (ws_of s' w')))
    \<and> s_revCounter s \<le> s_revCounter s' \<and> s_eventCounter s \<le> s_eventCounter s' \<and> s_forks s' = s_forks s \<and> s_cfg s' = s_cfg s
    \<and> (\<forall>w'. w' \<noteq> w \<longrightarrow> ws_Files (ws_of s' w') = ws_Files (ws_of s w')) \<and> fresh_files s s'"

lemma commit_step_refl: "store_inv s \<Longrightarrow> commit_step w s s"
  by (simp add: commit_step_def)

lemma commit_step_trans: "commit_step w s s' \<Longrightarrow> commit_step w s' s'' \<Longrightarrow> commit_step w s s''"
  unfolding commit_step_def by (auto intro: prefix_order.trans fresh_files_trans)

lemma commit_one_step:
  assumes "store_inv (cs_store cs)"
  shows "commit_step w (cs_store cs) (cs_store (commit_one now w c (p, e) cs))"
proof (cases rule: commit_one_cases [of now w c p e cs])
  case skip
  then show ?thesis using assms by (simp add: commit_step_refl)
next
  case (put f0 f et)
  have "store_inv (commit_put now w (normalizePath p) f et c None (cs_store cs))"
    using assms put(3) by (intro commit_put_inv) simp_all
  then show ?thesis unfolding put(4) commit_step_def using commit_log(1) commit_fresh(1) put(3) by (simp add: store_simps)
next
  case (del f)
  have "store_inv (cs_store (commit_one now w c (p, e) cs))" unfolding del(3) by (rule commit_del_inv [OF assms])
  then show ?thesis unfolding del(3) commit_step_def using commit_log(2) commit_fresh(2) by (simp add: store_simps)
qed

lemma commit_all_step:
  "store_inv (cs_store cs) \<Longrightarrow> commit_step w (cs_store cs) (cs_store (fold (commit_one now w c) es cs))"
proof (induction es arbitrary: cs)
  case (Cons e es)
  have one: "commit_step w (cs_store cs) (cs_store (commit_one now w c e cs))"
    using commit_one_step [OF Cons.prems, of w now c "fst e" "snd e"] by simp
  then show ?case using commit_step_trans [OF one] Cons.IH [of "commit_one now w c e cs"] by (simp add: commit_step_def)
qed (simp add: commit_step_refl)

text \<open>What a client sees of a file, its revision apart.\<close>

definition payload ::
  "File \<Rightarrow> string \<times> string \<times> string \<times> string \<times> string \<times> 32 word \<times> FileSemantics \<times> string" where
  "payload f = (f_Path f, f_Content f, f_Encoding f, f_Type f, f_Target f, f_Mode f, f_Semantics f, f_ContentHash f)"

definition entry_ok :: "string \<times> ForkOverlayEntry \<Rightarrow> bool" where
  "entry_ok pe \<longleftrightarrow> normalizePath (fst pe) = fst pe
     \<and> (oe_Type (snd pe) = ''write'' \<and> oe_File (snd pe) \<noteq> None \<or> oe_Type (snd pe) = ''delete'')"

definition overlay_ok :: "forkState \<Rightarrow> bool" where
  "overlay_ok fork \<longleftrightarrow> wf_map (fs_Overlay fork) \<and> list_all entry_ok (fs_Overlay fork)"

definition overlay_payload :: "(string \<times> ForkOverlayEntry) list \<Rightarrow> (string \<Rightarrow> File option) \<Rightarrow> string \<Rightarrow> _ option" where
  "overlay_payload es live p =
     (case map_of es p of
        None \<Rightarrow> map_option payload (live p)
      | Some e \<Rightarrow> if oe_Type e = ''write'' then map_option (\<lambda>f. payload (f\<lparr>f_Path := p\<rparr>)) (oe_File e) else None)"

lemma commit_one_payload:
  assumes "entry_ok (p, e)"
  shows "map_option payload (map_of (ws_Files (ws_of (cs_store (commit_one now w c (p, e) cs)) w)) q) =
    (if q = p then (if oe_Type e = ''write'' then map_option (\<lambda>f. payload (f\<lparr>f_Path := p\<rparr>)) (oe_File e) else None)
     else map_option payload (map_of (ws_Files (ws_of (cs_store cs) w)) q))"
proof (cases rule: commit_one_cases [of now w c p e cs])
  case skip
  then show ?thesis using assms by (auto simp: entry_ok_def)
next
  case (put f0 f et)
  then show ?thesis using assms by (simp add: store_simps AList.update_conv' entry_ok_def payload_def)
next
  case (del f)
  then show ?thesis by (simp add: store_simps AList.delete_conv')
qed

lemma commit_all_payload:
  assumes "list_all entry_ok es" and "distinct (map fst es)"
  shows "map_option payload (map_of (ws_Files (ws_of (cs_store (fold (commit_one now w c) es cs)) w)) q) =
    overlay_payload es (map_of (ws_Files (ws_of (cs_store cs) w))) q"
  using assms
proof (induction es arbitrary: cs)
  case Nil
  then show ?case by (simp add: overlay_payload_def)
next
  case (Cons pe es)
  obtain p e where pe: "pe = (p, e)" by (cases pe)
  have "map_of es p = None" using Cons.prems(2) pe by (auto simp: map_of_eq_None_iff)
  then show ?case
    using Cons.IH [of "commit_one now w c pe cs"] Cons.prems commit_one_payload [of p e now w c cs q]
    by (auto simp: pe overlay_payload_def split: option.splits)
qed

section \<open>CommitFork\<close>

text \<open>Everything a commit can do.\<close>

lemma CommitFork_cases:
  fixes s :: Store and w i c :: string and now :: instant
  defines "w' \<equiv> TrimSpace w" and "i' \<equiv> TrimSpace i"
  obtains (refused) s' e where "CommitForkWithValidator now w i c validate s = (s', Inl e)" and "same_workspaces s s'"
      and "s' \<in> {s, fst (getLiveForkLocked now w' i' s), ensureWorkspaceLocked w' s}"
  | (committed) fork s' resp cs where "CommitForkWithValidator now w i c validate s = (s', Inr resp)"
      and "map_of (s_forks s) i' = Some fork" and "fs_WorkspaceID fork = w'" and "\<not> isForkExpiredAt fork now"
      and "\<not> list_ex (entry_moved (currentWorkspaceRevisionLocked s w') (fs_ParentRevision fork) (ws_Files (ws_of s w'))) (fs_Overlay fork)"
      and "cs = fold (commit_one now w' c) (sorted_overlay fork)
             \<lparr>cs_store = ensureWorkspaceLocked w' s, cs_revision = currentWorkspaceRevisionLocked s w', cs_written = 0, cs_deleted = 0, cs_tasks = []\<rparr>"
      and "s' = fold enqueueWriteback (cs_tasks cs) (saveLocked (deleteForkLocked now i' False (cs_store cs)))"
proof (cases "w' = '''' \<or> i' = ''''")
  case True
  then show ?thesis using refused [of s ErrInvalidInput] by (auto simp: CommitForkWithValidator_def w'_def i'_def)
next
  case nonblank: False
  have trim: "TrimSpace w' = w'" "TrimSpace i' = i'" by (simp_all add: w'_def i'_def)
  show ?thesis
  proof (cases rule: getLive_cases [of now w' i' s])
    case (refused e s')
    moreover have "same_workspaces s s'" using getLive_workspaces [of s now w' i'] refused(1) by simp
    ultimately show ?thesis
      using that(1) [of s' e] nonblank by (simp add: CommitForkWithValidator_def w'_def [symmetric] i'_def [symmetric])
  next
    case (live fork)
    let ?cur = "currentWorkspaceRevisionLocked s w'" and ?s = "ensureWorkspaceLocked w' s"
    let ?moved = "list_ex (entry_moved ?cur (fs_ParentRevision fork) (ws_Files (ws_of s w'))) (sorted_overlay fork)"
    have eq: "CommitForkWithValidator now w i c validate s =
        (if ?moved then (?s, Inl (ErrParentMoved ?cur))
         else case validate (commit_entries (ws_Files (ws_of s w')) (sorted_overlay fork)) of
           Some err \<Rightarrow> (?s, Inl err)
         | None \<Rightarrow> let cs = fold (commit_one now w' c) (sorted_overlay fork)
               \<lparr>cs_store = ?s, cs_revision = ?cur, cs_written = 0, cs_deleted = 0, cs_tasks = []\<rparr>
             in (fold enqueueWriteback (cs_tasks cs) (saveLocked (deleteForkLocked now i' False (cs_store cs))),
                 Inr \<lparr>fcr_Revision = cs_revision cs, fcr_WrittenCount = cs_written cs, fcr_DeletedCount = cs_deleted cs\<rparr>))"
      using nonblank live(1) by (simp add: CommitForkWithValidator_def w'_def [symmetric] i'_def [symmetric] store_simps Let_def split: option.split)
    have moved: "?moved \<longleftrightarrow> list_ex (entry_moved ?cur (fs_ParentRevision fork) (ws_Files (ws_of s w'))) (fs_Overlay fork)"
      by (simp add: list_ex_iff sorted_overlay_def)
    show ?thesis
    proof (cases "?moved \<or> validate (commit_entries (ws_Files (ws_of s w')) (sorted_overlay fork)) \<noteq> None")
      case True
      then have "\<exists>e. CommitForkWithValidator now w i c validate s = (?s, Inl e)" unfolding eq by auto
      then show ?thesis using that(1) [of ?s] same_workspaces_ensure by blast
    next
      case False
      show ?thesis
        by (rule that(2) [OF _ live(2) [unfolded trim] live(3) [unfolded trim] live(4)])
           (use False moved in \<open>simp_all add: eq Let_def\<close>)
    qed
  qed
qed

text \<open>When a commit succeeds: exactly for a live fork of the workspace none of whose paths moved and
  whose entries the validator accepts.\<close>

definition commit_ready :: "instant \<Rightarrow> string \<Rightarrow> string \<Rightarrow> (ForkCommitEntry list \<Rightarrow> store_error option) \<Rightarrow> Store \<Rightarrow> bool" where
  "commit_ready now w i validate s \<longleftrightarrow> w \<noteq> '''' \<and> i \<noteq> ''''
     \<and> (case map_of (s_forks s) i of
           None \<Rightarrow> False
         | Some fork \<Rightarrow> fs_WorkspaceID fork = w \<and> \<not> isForkExpiredAt fork now
             \<and> \<not> list_ex (entry_moved (currentWorkspaceRevisionLocked s w) (fs_ParentRevision fork) (ws_Files (ws_of s w))) (fs_Overlay fork)
             \<and> validate (commit_entries (ws_Files (ws_of s w)) (sorted_overlay fork)) = None)"

lemma CommitFork_ready:
  assumes "commit_ready now (TrimSpace w) (TrimSpace i) validate s"
  shows "is_ok (snd (CommitForkWithValidator now w i c validate s))"
  using assms
  by (auto simp: commit_ready_def CommitForkWithValidator_def getLiveForkLocked_def store_simps list_ex_iff sorted_overlay_def
      Let_def split: option.splits)

lemma CommitFork_contract:
  assumes "store_inv s"
  shows "store_inv (fst (CommitForkWithValidator now w i c validate s))
    \<and> prefix (ws_Events (ws_of s w')) (ws_Events (ws_of (fst (CommitForkWithValidator now w i c validate s)) w'))
    \<and> s_revCounter s \<le> s_revCounter (fst (CommitForkWithValidator now w i c validate s))
    \<and> s_eventCounter s \<le> s_eventCounter (fst (CommitForkWithValidator now w i c validate s))
    \<and> fresh_files s (fst (CommitForkWithValidator now w i c validate s))"
proof (cases rule: CommitFork_cases [of now w i c validate s])
  case (refused s' e)
  then show ?thesis using assms same_workspaces_inv [OF refused(2)] by (simp add: same_workspaces_def fresh_files_def)
next
  case (committed fork s' resp cs)
  have "commit_step (TrimSpace w) (ensureWorkspaceLocked (TrimSpace w) s) (cs_store cs)"
    using commit_all_step [of "\<lparr>cs_store = ensureWorkspaceLocked (TrimSpace w) s,
        cs_revision = currentWorkspaceRevisionLocked s (TrimSpace w), cs_written = 0, cs_deleted = 0, cs_tasks = []\<rparr>"]
      assms committed(6) by simp
  moreover have "same_workspaces (cs_store cs) s'"
    unfolding committed(7) using same_workspaces_delete_fork same_workspaces_save same_core_fold_enqueue
    by (simp add: same_workspaces_def store_simps)
  moreover from calculation have "store_inv s'"
    using same_workspaces_inv commit_step_def by blast
  ultimately show ?thesis
    by (simp add: committed(1) commit_step_def same_workspaces_def store_simps fresh_files_def)
qed

interpretation commit_op: store_operation "\<lambda>(now, w, i, c, validate) s. fst (CommitForkWithValidator now w i c validate s)"
  using CommitFork_contract by unfold_locales (auto split: prod.splits)

text \<open>A fork with one new file, for the witnesses.\<close>

definition sample_entry :: ForkOverlayEntry where
  "sample_entry = \<lparr>oe_Type = ''write'', oe_File = Some (zero_file\<lparr>f_Path := ''/a'', f_Content := ''x''\<rparr>),
     oe_Revision = ''fork:f:1'', oe_BaseRevision = ''0'', oe_DeletedAt = ''''\<rparr>"

definition sample_fork :: forkState where
  "sample_fork = \<lparr>fs_ForkID = ''f'', fs_WorkspaceID = ''w'', fs_ProposalID = ''p'', fs_ParentRevision = ''0'',
     fs_CreatedAt = ''1970-01-01T00:00:00Z'', fs_ExpiresAt = ''1970-01-08T00:00:00Z'',
     fs_Overlay = [(''/a'', sample_entry)], fs_OverlayRevisionCounter = 1\<rparr>"

definition sample_fork_store :: Store where
  "sample_fork_store = NewStore\<lparr>s_forks := [(''f'', sample_fork)]\<rparr>"

lemma sample_trim: "TrimSpace ''w'' = ''w''" "TrimSpace ''f'' = ''f''" by code_simp+
lemma sample_live: "\<not> isForkExpiredAt sample_fork 0" by code_simp
lemma sample_ok: "overlay_ok sample_fork" by code_simp
lemma sample_commit_ready: "commit_ready 0 ''w'' ''f'' (\<lambda>_. None) sample_fork_store"
  using sample_live by (simp add: commit_ready_def sample_fork_store_def) (simp add: sample_fork_def sample_entry_def entry_moved_def path_revision_def ws_of_def NewStore_def new_store_def mget_or_def empty_workspace_def)

lemma sample_store_inv: "store_inv sample_fork_store"
  using store_inv_NewStore by (simp add: sample_fork_store_def store_inv_def ws_of_def)

lemma sample_commit_ok: "\<exists>s' resp. CommitForkWithValidator 0 ''w'' ''f'' c (\<lambda>_. None) sample_fork_store = (s', Inr resp)"
proof -
  have "is_ok (snd (CommitForkWithValidator 0 ''w'' ''f'' c (\<lambda>_. None) sample_fork_store))"
    using sample_commit_ready by (intro CommitFork_ready) (simp add: sample_trim)
  then show ?thesis
    by (cases "CommitForkWithValidator 0 ''w'' ''f'' c (\<lambda>_. None) sample_fork_store"; cases "snd (CommitForkWithValidator 0 ''w'' ''f'' c (\<lambda>_. None) sample_fork_store)") auto
qed

text \<open>C17. A failed commit changes no workspace: every file, event, operation and counter is as it was.\<close>

theorem commit_failure_atomic:
  assumes "CommitForkWithValidator now w i c validate s = (s', Inl e)"
  shows "ws_of s' v = ws_of s v \<and> s_revCounter s' = s_revCounter s \<and> s_opCounter s' = s_opCounter s
    \<and> s_eventCounter s' = s_eventCounter s"
  using assms by (cases rule: CommitFork_cases [of now w i c validate s]) (auto simp: same_workspaces_def)

theorem commit_failure_atomic_witness:
  "\<exists>s' e. CommitForkWithValidator 0 '''' ''f'' ''c'' (\<lambda>_. None) sample_fork_store = (s', Inl e)
     \<and> s_revCounter s' = s_revCounter sample_fork_store"
proof -
  have "CommitForkWithValidator 0 '''' ''f'' ''c'' (\<lambda>_. None) sample_fork_store = (sample_fork_store, Inl ErrInvalidInput)"
    by (simp add: CommitForkWithValidator_def)
  with commit_failure_atomic [OF this] show ?thesis by blast
qed

lemma distinct_keys_set: "distinct (map fst m) \<longleftrightarrow> distinct m \<and> inj_on fst (set m)"
  by (simp add: distinct_map)

lemma distinct_sorted_overlay:
  "overlay_ok fork \<Longrightarrow> distinct (map fst (sorted_overlay fork))"
  by (simp add: overlay_ok_def wf_map_def sorted_overlay_def distinct_keys_set)

lemma sorted_overlay_map:
  assumes "overlay_ok fork"
  shows "map_of (sorted_overlay fork) = map_of (fs_Overlay fork)"
proof
  fix p
  have "distinct (map fst (fs_Overlay fork))" using assms by (simp add: overlay_ok_def wf_map_def)
  then show "map_of (sorted_overlay fork) p = map_of (fs_Overlay fork) p"
    using map_of_eq_Some_iff [OF distinct_sorted_overlay [OF assms], of p]
      map_of_eq_Some_iff [of "fs_Overlay fork" p]
    by (cases "map_of (fs_Overlay fork) p") (auto simp: sorted_overlay_def)
qed

lemma commit_publishes_view:
  assumes "store_inv s" and "CommitForkWithValidator now w i c validate s = (s', Inr resp)"
    and "map_of (s_forks s) (TrimSpace i) = Some fork" and "overlay_ok fork"
  shows "(\<forall>p. normalizePath p = p \<longrightarrow>
      map_option payload (map_of (ws_Files (ws_of s' (TrimSpace w))) p) = map_option payload (readForkFileLocked s fork p))
    \<and> (\<forall>v. v \<noteq> TrimSpace w \<longrightarrow> ws_Files (ws_of s' v) = ws_Files (ws_of s v))
    \<and> map_of (s_forks s') (TrimSpace i) = None"
proof (cases rule: CommitFork_cases [of now w i c validate s])
  case (refused s'' e)
  then show ?thesis using assms by simp
next
  case (committed fork' s'' resp' cs)
  have eqs: "fork' = fork" "s'' = s'" using committed(1,2) assms(2,3) by simp_all
  let ?w = "TrimSpace w"
  let ?cs0 = "\<lparr>cs_store = ensureWorkspaceLocked ?w s, cs_revision = currentWorkspaceRevisionLocked s ?w,
      cs_written = 0, cs_deleted = 0, cs_tasks = []\<rparr>"
  have step: "commit_step ?w (ensureWorkspaceLocked ?w s) (cs_store cs)"
    using commit_all_step [of ?cs0] assms(1) committed(6) by simp
  have ws: "ws_of s' v = ws_of (cs_store cs) v" and forks: "s_forks s' = mdel (TrimSpace i) (s_forks s)" for v
    using step by (simp_all add: committed(7) eqs(2) [symmetric] store_simps commit_step_def)
  have ok: "list_all entry_ok (sorted_overlay fork)" "distinct (map fst (sorted_overlay fork))"
    using assms(4) distinct_sorted_overlay by (simp_all add: overlay_ok_def sorted_overlay_def list_all_iff)
  have live: "(case map_of (s_workspaces s) (fs_WorkspaceID fork) of None \<Rightarrow> None | Some ws \<Rightarrow> map_of (ws_Files ws) p)
      = map_of (ws_Files (ws_of s ?w)) p" for p
    using committed(3) eqs by (simp add: ws_of_def mget_or_def empty_workspace_def split: option.split)
  have "map_option payload (map_of (ws_Files (ws_of (cs_store cs) ?w)) p) = map_option payload (readForkFileLocked s fork p)"
    if "normalizePath p = p" for p
  proof -
    have "map_option payload (map_of (ws_Files (ws_of (cs_store cs) ?w)) p) =
        overlay_payload (fs_Overlay fork) (map_of (ws_Files (ws_of s ?w))) p"
      using commit_all_payload [OF ok, of now ?w c ?cs0 p] sorted_overlay_map [OF assms(4)]
      by (simp add: committed(6) eqs overlay_payload_def store_simps)
    also have "\<dots> = map_option payload (readForkFileLocked s fork p)"
    proof (cases "map_of (fs_Overlay fork) p")
      case None
      then show ?thesis using that live [of p] by (simp add: overlay_payload_def readForkFileLocked_def Let_def)
    next
      case (Some e)
      then have "entry_ok (p, e)" using assms(4) by (auto simp: overlay_ok_def list_all_iff dest!: map_of_SomeD)
      then show ?thesis using that Some
        by (auto simp: overlay_payload_def readForkFileLocked_def Let_def entry_ok_def payload_def)
    qed
    finally show ?thesis .
  qed
  then show ?thesis using step ws forks by (simp add: commit_step_def store_simps AList.delete_conv')
qed

text \<open>C4. A commit publishes exactly the view of the fork: after a successful commit every path of the
  workspace shows the content, type and semantics the fork showed before, whether the fork wrote it,
  deleted it or never touched it; no other workspace changes and the fork is gone.\<close>

theorem commit_refines_view:
  assumes "store_inv s" and "CommitForkWithValidator now w i c validate s = (s', Inr resp)"
    and "map_of (s_forks s) (TrimSpace i) = Some fork" and "overlay_ok fork"
  shows "(\<forall>p. normalizePath p = p \<longrightarrow>
      map_option payload (map_of (ws_Files (ws_of s' (TrimSpace w))) p) = map_option payload (readForkFileLocked s fork p))
    \<and> (\<forall>v. v \<noteq> TrimSpace w \<longrightarrow> ws_Files (ws_of s' v) = ws_Files (ws_of s v))
    \<and> map_of (s_forks s') (TrimSpace i) = None"
  by (rule commit_publishes_view [OF assms])

lemma sample_fork_lookup: "map_of (s_forks sample_fork_store) (TrimSpace ''f'') = Some sample_fork"
  by (simp add: sample_fork_store_def sample_trim)

theorem commit_refines_view_witness:
  "\<exists>s' resp. CommitForkWithValidator 0 ''w'' ''f'' ''c'' (\<lambda>_. None) sample_fork_store = (s', Inr resp)
     \<and> map_option payload (map_of (ws_Files (ws_of s' ''w'')) ''/a'') = map_option payload (oe_File sample_entry)"
proof -
  obtain s' resp where c: "CommitForkWithValidator 0 ''w'' ''f'' ''c'' (\<lambda>_. None) sample_fork_store = (s', Inr resp)"
    using sample_commit_ok by blast
  have "normalizePath ''/a'' = ''/a''" by code_simp
  moreover have "map_option payload (readForkFileLocked sample_fork_store sample_fork ''/a'') = map_option payload (oe_File sample_entry)"
    using calculation by (simp add: readForkFileLocked_def Let_def sample_fork_def sample_entry_def payload_def zero_file_def)
  ultimately show ?thesis
    using c commit_refines_view [OF sample_store_inv c sample_fork_lookup sample_ok] by (simp add: sample_trim)
qed

text \<open>C16. A commit succeeds only if nothing the fork touched moved: every overlay path still has, in the live
  workspace, the revision it was pinned to when the fork first touched it.\<close>

theorem commit_checks_every_path:
  assumes "CommitForkWithValidator now w i c validate s = (s', Inr resp)"
    and "map_of (s_forks s) (TrimSpace i) = Some fork" and "(p, e) \<in> set (fs_Overlay fork)" and "oe_BaseRevision e \<noteq> ''''"
  shows "path_revision (ws_Files (ws_of s (TrimSpace w))) p = oe_BaseRevision e \<and> \<not> isForkExpiredAt fork now"
proof (cases rule: CommitFork_cases [of now w i c validate s])
  case (refused s'' e')
  then show ?thesis using assms by simp
next
  case (committed fork' s'' resp' cs)
  then show ?thesis using assms by (auto simp: list_ex_iff entry_moved_def split: prod.splits)
qed

theorem commit_checks_every_path_witness:
  "\<exists>s' resp. CommitForkWithValidator 0 ''w'' ''f'' ''c'' (\<lambda>_. None) sample_fork_store = (s', Inr resp)
     \<and> path_revision (ws_Files (ws_of sample_fork_store ''w'')) ''/a'' = ''0''"
proof -
  obtain s' resp where c: "CommitForkWithValidator 0 ''w'' ''f'' ''c'' (\<lambda>_. None) sample_fork_store = (s', Inr resp)"
    using sample_commit_ok by blast
  moreover have "(''/a'', sample_entry) \<in> set (fs_Overlay sample_fork)" "oe_BaseRevision sample_entry = ''0''"
    by (simp_all add: sample_fork_def sample_entry_def)
  ultimately show ?thesis
    using commit_checks_every_path [OF c sample_fork_lookup, of "''/a''" sample_entry] by (simp add: sample_trim)
qed

end
