(* ===== verification/ForkIndex.thy ===== *)
theory ForkIndex
  imports ForksCorrect
begin

text \<open>
  The fork table and its two indexes, \<open>forkByWorkspaceProposal\<close> and \<open>forkByProposal\<close>.

  \<open>fork_inv\<close>: forks are keyed by their own id and the indexes are exactly the indexes of the forks, so a
  proposal has at most one live fork.  Every fork operation keeps it (\<open>fork_only\<close>), creating a fork
  for a proposal that has one returns that fork, and a fork lives exactly as long as its time to live.
\<close>

section \<open>The invariant\<close>

abbreviation fork_key :: "forkState \<Rightarrow> string" where
  "fork_key f \<equiv> forkWorkspaceProposalKey (fs_WorkspaceID f) (fs_ProposalID f)"

definition index_exact :: "(forkState \<Rightarrow> string) \<Rightarrow> (string, forkState) gomap \<Rightarrow> (string, string) gomap \<Rightarrow> bool" where
  "index_exact key forks ix \<longleftrightarrow>
     (\<forall>i f. map_of forks i = Some f \<longrightarrow> map_of ix (key f) = Some i)
   \<and> (\<forall>k i. map_of ix k = Some i \<longrightarrow> (\<exists>f. map_of forks i = Some f \<and> key f = k))"

definition fork_inv :: "Store \<Rightarrow> bool" where
  "fork_inv s \<longleftrightarrow> wf_map (s_forks s)
     \<and> (\<forall>i f. map_of (s_forks s) i = Some f \<longrightarrow> fs_ForkID f = i \<and> i \<noteq> '''')
     \<and> index_exact fork_key (s_forks s) (s_forkByWorkspaceProposal s)
     \<and> index_exact fs_ProposalID (s_forks s) (s_forkByProposal s)"

lemma index_exactI:
  assumes "\<And>i f. map_of forks i = Some f \<Longrightarrow> map_of ix (key f) = Some i"
    and "\<And>k i. map_of ix k = Some i \<Longrightarrow> \<exists>f. map_of forks i = Some f \<and> key f = k"
  shows "index_exact key forks ix"
  using assms by (simp add: index_exact_def)

lemma index_exact_find: "index_exact key forks ix \<Longrightarrow> map_of forks i = Some f \<Longrightarrow> map_of ix (key f) = Some i"
  by (simp add: index_exact_def)

lemma index_exact_sound:
  assumes "index_exact key forks ix" and "map_of ix k = Some i"
  obtains f where "map_of forks i = Some f" and "key f = k"
  using assms unfolding index_exact_def by blast

lemma index_exact_delete:
  assumes ix: "index_exact key forks ix" and f: "map_of forks i = Some f"
  shows "index_exact key (mdel i forks) (mdel (key f) ix)"
proof (rule index_exactI)
  fix j g assume "map_of (mdel i forks) j = Some g"
  then have "j \<noteq> i" "map_of forks j = Some g" by (auto simp: AList.delete_conv' split: if_splits)
  then show "map_of (mdel (key f) ix) (key g) = Some j"
    using index_exact_find [OF ix f] index_exact_find [OF ix, of j g] by (auto simp: AList.delete_conv')
next
  fix k j assume "map_of (mdel (key f) ix) k = Some j"
  then have k: "k \<noteq> key f" "map_of ix k = Some j" by (auto simp: AList.delete_conv' split: if_splits)
  then obtain g where "map_of forks j = Some g" "key g = k" using index_exact_sound [OF ix] by blast
  then show "\<exists>g. map_of (mdel i forks) j = Some g \<and> key g = k"
    using f k(1) by (cases "j = i") (auto simp: AList.delete_conv')
qed

lemma index_exact_insert:
  assumes ix: "index_exact key forks ix" and i: "map_of forks i = None" and k: "map_of ix (key f) = None"
  shows "index_exact key (mput i f forks) (mput (key f) i ix)"
proof (rule index_exactI)
  fix j g assume "map_of (mput i f forks) j = Some g"
  then show "map_of (mput (key f) i ix) (key g) = Some j"
    using index_exact_find [OF ix, of j g] k by (auto simp: AList.update_conv' split: if_splits)
next
  fix k' j assume k'j: "map_of (mput (key f) i ix) k' = Some j"
  show "\<exists>g. map_of (mput i f forks) j = Some g \<and> key g = k'"
  proof (cases "k' = key f")
    case True
    then have "j = i" using k'j by (simp add: AList.update_conv')
    then show ?thesis using True by (simp add: AList.update_conv')
  next
    case False
    then have "map_of ix k' = Some j" using k'j by (simp add: AList.update_conv')
    then obtain g where "map_of forks j = Some g" "key g = k'" using index_exact_sound [OF ix] by blast
    then show ?thesis using i by (intro exI [of _ g]) (auto simp: AList.update_conv')
  qed
qed

lemma index_exact_update:
  assumes ix: "index_exact key forks ix" and f: "map_of forks i = Some f" and "key f' = key f"
  shows "index_exact key (mput i f' forks) ix"
proof (rule index_exactI)
  fix j g assume "map_of (mput i f' forks) j = Some g"
  then show "map_of ix (key g) = Some j"
    using index_exact_find [OF ix f] index_exact_find [OF ix, of j g] assms(3)
    by (auto simp: AList.update_conv' split: if_splits)
next
  fix k j assume "map_of ix k = Some j"
  then obtain g where "map_of forks j = Some g" "key g = k" using index_exact_sound [OF ix] by blast
  then show "\<exists>g. map_of (mput i f' forks) j = Some g \<and> key g = k"
    using f assms(3) by (cases "j = i") (auto simp: AList.update_conv')
qed

lemma index_exact_unique:
  "index_exact key forks ix \<Longrightarrow> map_of forks i = Some f \<Longrightarrow> map_of forks j = Some g \<Longrightarrow> key f = key g \<Longrightarrow> i = j"
  unfolding index_exact_def by (metis option.inject)

lemma fork_inv_cong:
  "s_forks s' = s_forks s \<Longrightarrow> s_forkByWorkspaceProposal s' = s_forkByWorkspaceProposal s \<Longrightarrow>
   s_forkByProposal s' = s_forkByProposal s \<Longrightarrow> fork_inv s' = fork_inv s"
  by (simp add: fork_inv_def)

lemma fork_inv_same_core: "same_core s s' \<Longrightarrow> fork_inv s' = fork_inv s"
  by (rule fork_inv_cong) (simp_all add: same_core_def)

lemma fork_inv_save [simp]: "fork_inv (saveLocked s) = fork_inv s"
  by (rule fork_inv_same_core) simp

lemma fork_inv_ensure [simp]: "fork_inv (ensureWorkspaceLocked w s) = fork_inv s"
  by (rule fork_inv_cong) (simp_all add: ensureWorkspaceLocked_def put_ws_def split: option.split)

lemma fork_inv_delete: "fork_inv s \<Longrightarrow> fork_inv (deleteForkLocked now i m s)"
proof (cases "map_of (s_forks s) i")
  case (Some f)
  assume "fork_inv s"
  then show ?thesis
    using Some index_exact_delete [OF _ Some, of fork_key] index_exact_delete [OF _ Some, of fs_ProposalID]
    by (simp add: fork_inv_def deleteForkLocked_def AList.delete_conv')
qed (simp add: deleteForkLocked_def)

lemma fork_inv_put:
  assumes "fork_inv s" and "map_of (s_forks s) i = Some f" and "fs_ForkID f' = fs_ForkID f"
    and "fs_WorkspaceID f' = fs_WorkspaceID f" and "fs_ProposalID f' = fs_ProposalID f"
  shows "fork_inv (put_fork i f' s)"
  using assms index_exact_update [OF _ assms(2), of fork_key _ f'] index_exact_update [OF _ assms(2), of fs_ProposalID _ f']
  by (auto simp: fork_inv_def put_fork_def AList.update_conv' split: if_splits)

lemma fork_inv_get_live: "fork_inv s \<Longrightarrow> fork_inv (fst (getLiveForkLocked now w i s))"
  by (cases rule: getLive_cases [of now w i s]) (auto intro: fork_inv_delete)

lemma fork_inv_expire: "fork_inv s \<Longrightarrow> fork_inv (expireForksLocked now s)"
proof -
  have "fork_inv t \<Longrightarrow> fork_inv (fold (\<lambda>(i, f) s. if isForkExpiredAt f now then deleteForkLocked now i True s else s) fs t)" for fs t
    by (induction fs arbitrary: t) (auto simp: fork_inv_delete)
  then show "fork_inv s \<Longrightarrow> fork_inv (expireForksLocked now s)" by (simp add: expireForksLocked_def)
qed

lemma expire_forks_lookup:
  assumes "wf_map (s_forks s)"
  shows "map_of (s_forks (expireForksLocked now s)) i =
    (case map_of (s_forks s) i of None \<Rightarrow> None | Some f \<Rightarrow> if isForkExpiredAt f now then None else Some f)"
proof -
  have "map_of (s_forks (fold (\<lambda>(i, f) s. if isForkExpiredAt f now then deleteForkLocked now i True s else s) fs t)) i
      = (if \<exists>f. (i, f) \<in> set fs \<and> isForkExpiredAt f now then None else map_of (s_forks t) i)" for fs t
    by (induction fs arbitrary: t) (auto simp: store_simps AList.delete_conv')
  then show ?thesis using assms map_of_mem [OF assms] by (auto simp: expireForksLocked_def split: option.split)
qed

section \<open>Creating a fork\<close>

text \<open>A stale index entry cannot exist, so \<open>CreateFork\<close> has three outcomes on valid input.\<close>

lemma CreateFork_cases:
  fixes now :: instant and i w p :: string and ttl :: int and s :: Store
  defines "w' \<equiv> TrimSpace w" and "p' \<equiv> TrimSpace p" and "s1 \<equiv> expireForksLocked now s"
  assumes "fork_inv s"
  obtains (blank) "w' = '''' \<or> p' = ''''" and "CreateFork now i w p ttl s = (s, Inl ErrInvalidInput)"
  | (existing) f where "map_of (s_forks s1) (fs_ForkID f) = Some f" and "fork_key f = forkWorkspaceProposalKey w' p'"
      and "CreateFork now i w p ttl s = (s1, Inr (fork_handle f))"
  | (conflict) "CreateFork now i w p ttl s = (s1, Inl ErrForkProposalConflict)"
  | (created) f where "w' \<noteq> ''''" and "p' \<noteq> ''''" and "map_of (s_forkByWorkspaceProposal s1) (forkWorkspaceProposalKey w' p') = None"
      and "map_of (s_forkByProposal s1) p' = None"
      and "f = \<lparr>fs_ForkID = i, fs_WorkspaceID = w', fs_ProposalID = p',
             fs_ParentRevision = currentWorkspaceRevisionLocked s1 w', fs_CreatedAt = FormatRFC3339Nano now,
             fs_ExpiresAt = FormatRFC3339Nano (now + normalizeForkTTL ttl), fs_Overlay = [], fs_OverlayRevisionCounter = 0\<rparr>"
      and "CreateFork now i w p ttl s = (saveLocked (s1\<lparr>s_forks := mput i f (s_forks s1),
             s_forkByWorkspaceProposal := mput (forkWorkspaceProposalKey w' p') i (s_forkByWorkspaceProposal s1),
             s_forkByProposal := mput p' i (s_forkByProposal s1), s_expiredForks := mdel i (s_expiredForks s1)\<rparr>),
             Inr (fork_handle f))"
proof (cases "w' = '''' \<or> p' = ''''")
  case True
  then show ?thesis by (intro blank) (auto simp: CreateFork_def w'_def p'_def)
next
  case nonblank: False
  have inv: "fork_inv s1" unfolding s1_def by (rule fork_inv_expire) fact
  let ?k = "forkWorkspaceProposalKey w' p'"
  show ?thesis
  proof (cases "map_of (s_forkByWorkspaceProposal s1) ?k")
    case (Some j)
    then obtain f where f: "map_of (s_forks s1) j = Some f" "fork_key f = ?k"
      using inv unfolding fork_inv_def by (blast elim: index_exact_sound)
    moreover have "fs_ForkID f = j" "j \<noteq> ''''" using inv f(1) by (auto simp: fork_inv_def)
    ultimately show ?thesis
      using nonblank Some
      by (intro existing [of f])
         (auto simp: CreateFork_def w'_def p'_def s1_def Let_def mget_or_def)
  next
    case no_wp: None
    show ?thesis
    proof (cases "map_of (s_forkByProposal s1) p'")
      case (Some j)
      then obtain f where f: "map_of (s_forks s1) j = Some f" "fs_ProposalID f = p'"
        using inv unfolding fork_inv_def by (blast elim: index_exact_sound)
      moreover have "j \<noteq> ''''" using inv f(1) by (auto simp: fork_inv_def)
      moreover have "fs_WorkspaceID f \<noteq> w'" using inv f no_wp index_exact_find [of fork_key _ _ j f] by (auto simp: fork_inv_def)
      ultimately show ?thesis
        using nonblank Some no_wp
        by (intro conflict) (simp add: CreateFork_def w'_def [symmetric] p'_def [symmetric] s1_def [symmetric] Let_def mget_or_def)
    next
      case None
      show ?thesis
        by (rule created [OF _ _ no_wp None refl])
           (use nonblank None no_wp in \<open>simp_all add: CreateFork_def w'_def [symmetric] p'_def [symmetric] s1_def [symmetric] Let_def mget_or_def\<close>)
    qed
  qed
qed

lemma fork_inv_create:
  assumes "fork_inv s" and "i \<noteq> ''''" and "map_of (s_forks s) i = None"
  shows "fork_inv (fst (CreateFork now i w p ttl s))"
  using assms(1)
proof (cases rule: CreateFork_cases [where now = now and i = i and w = w and p = p and ttl = ttl])
  case (created f)
  let ?s1 = "expireForksLocked now s"
  have inv: "fork_inv ?s1" using assms(1) by (rule fork_inv_expire)
  have i: "map_of (s_forks ?s1) i = None"
    using assms(1,3) by (simp add: expire_forks_lookup fork_inv_def)
  have "index_exact fork_key (mput i f (s_forks ?s1)) (mput (fork_key f) i (s_forkByWorkspaceProposal ?s1))"
    using inv i created(3,5) by (intro index_exact_insert) (simp_all add: fork_inv_def)
  moreover have "index_exact fs_ProposalID (mput i f (s_forks ?s1)) (mput (fs_ProposalID f) i (s_forkByProposal ?s1))"
    using inv i created(4,5) by (intro index_exact_insert) (simp_all add: fork_inv_def)
  ultimately show ?thesis
    using inv assms(2) by (simp add: created(6)) (simp add: fork_inv_def created(5) AList.update_conv')
qed (use assms(1) fork_inv_expire [OF assms(1)] in simp_all)

section \<open>Operations on one fork\<close>

text \<open>What every operation on a fork other than a commit does to the rest of the store: nothing in any
  workspace, and the indexes stay exact.\<close>

definition fork_only :: "Store \<Rightarrow> Store \<Rightarrow> bool" where
  "fork_only s s' \<longleftrightarrow> same_workspaces s s' \<and> (fork_inv s \<longrightarrow> fork_inv s')"

lemma fork_onlyI: "same_workspaces s s' \<Longrightarrow> (fork_inv s \<Longrightarrow> fork_inv s') \<Longrightarrow> fork_only s s'"
  by (simp add: fork_only_def)

lemma fork_only_refl [simp]: "fork_only s s"
  by (simp add: fork_only_def)

lemma fork_only_trans: "fork_only s s' \<Longrightarrow> fork_only s' s'' \<Longrightarrow> fork_only s s''"
  unfolding fork_only_def using same_workspaces_trans by blast

lemma fork_only_get_live: "fork_only s (fst (getLiveForkLocked now w i s))"
  by (intro fork_onlyI getLive_workspaces fork_inv_get_live)

lemma fork_only_ensure: "fork_only s (ensureWorkspaceLocked w s)"
  by (simp add: fork_only_def)

lemma fork_only_save: "fork_only s (saveLocked s)"
  by (simp add: fork_only_def)

lemma fork_only_delete: "fork_only s (deleteForkLocked now i m s)"
  by (intro fork_onlyI fork_inv_delete) simp_all

definition same_ids :: "forkState \<Rightarrow> forkState \<Rightarrow> bool" where
  "same_ids f f' \<longleftrightarrow> fs_ForkID f' = fs_ForkID f \<and> fs_WorkspaceID f' = fs_WorkspaceID f \<and> fs_ProposalID f' = fs_ProposalID f
     \<and> fs_ExpiresAt f' = fs_ExpiresAt f"

lemma same_ids_trans: "same_ids f f' \<Longrightarrow> same_ids f' f'' \<Longrightarrow> same_ids f f''"
  by (simp add: same_ids_def)

lemma fork_only_put:
  assumes "map_of (s_forks s) i = Some f" and "same_ids f f'"
  shows "fork_only s (saveLocked (put_fork i f' s))"
proof (rule fork_onlyI)
  show "same_workspaces s (saveLocked (put_fork i f' s))" by (simp add: same_workspaces_def store_simps)
  show "fork_inv s \<Longrightarrow> fork_inv (saveLocked (put_fork i f' s))"
    using fork_inv_put [OF _ assms(1)] assms(2) by (simp add: same_ids_def)
qed

lemma overlay_write_ids: "same_ids f (fst (writeForkOverlayLocked now f req ex res))"
  by (simp add: same_ids_def writeForkOverlayLocked_def nextForkOverlayRevisionLocked_def Let_def)

lemma fork_if_match_only:
  "fork_only s (fst (fork_if_match m w p f ex s))" "s_forks (fst (fork_if_match m w p f ex s)) = s_forks s"
  by (simp_all add: fork_if_match_def fork_only_ensure store_simps Let_def)

lemma WriteForkFile_cases:
  fixes now :: instant and req :: WriteRequest and i :: string and s :: Store
  defines "p \<equiv> normalizePath (wr_Path req)"
  obtains (refused) s' e where "WriteForkFile now req i s = (s', Inl e)" and "fork_only s s'"
  | (written) f s1 enc and md :: FileTypeMetadata and res where "map_of (s_forks s) (TrimSpace i) = Some f" and "\<not> isForkExpiredAt f now"
      and "fs_WorkspaceID f = TrimSpace (wr_WorkspaceID req)" and "fork_only s s1" and "s_forks s1 = s_forks s"
      and "WriteForkFile now req i s =
        (let (f', r) = writeForkOverlayLocked now f (req\<lparr>wr_Path := p, wr_Encoding := enc, wr_Type := ftm_Type md,
              wr_Target := ftm_Target md, wr_Mode := ftm_Mode md\<rparr>) (readForkFileLocked s f p) res
         in (saveLocked (put_fork (TrimSpace i) f' s1), Inr r))"
proof -
  define bad where "bad \<longleftrightarrow> wr_IfMatch req = '''' \<or> wr_WorkspaceID req = '''' \<or> wr_Path req = '''' \<or> TrimSpace i = ''''
    \<or> (\<exists>e. normalizeEncoding (wr_Encoding req) = Inl e)"
  show ?thesis
  proof (cases "bad")
    case True
    then have "\<exists>e. WriteForkFile now req i s = (s, Inl e)" by (auto simp: bad_def WriteForkFile_def)
    then show ?thesis using refused fork_only_refl by blast
  next
    case ok: False
    then obtain enc where enc: "normalizeEncoding (wr_Encoding req) = Inr enc"
      by (cases "normalizeEncoding (wr_Encoding req)") (auto simp: bad_def)
    show ?thesis
    proof (cases rule: getLive_cases [of now "wr_WorkspaceID req" i s])
      case live: (refused e s')
      moreover have "fork_only s s'" using fork_only_get_live [of s now "wr_WorkspaceID req" i] live by simp
      ultimately show ?thesis
        using ok refused [of s] refused [of s'] enc by (cases "validateEncodedContent (wr_Content req) enc") (auto simp: bad_def WriteForkFile_def)
    next
      case (live f)
      let ?ex = "readForkFileLocked s f p"
      define chk where "chk = (case ?ex of Some g \<Rightarrow> fork_if_match (wr_IfMatch req) (wr_WorkspaceID req) p f g s
          | None \<Rightarrow> if wr_IfMatch req \<noteq> ''0'' \<and> wr_IfMatch req \<noteq> ''*'' then (s, Inl ErrNotFound) else (s, Inr None))"
      have chk: "fork_only s (fst chk)" "s_forks (fst chk) = s_forks s"
        by (simp_all add: chk_def fork_if_match_only split: option.split)
      show ?thesis
      proof (cases "validateEncodedContent (wr_Content req) enc \<and> is_ok (normalizeWriteTypeMetadata req ?ex enc) \<and> is_ok (snd chk)")
        case False
        then have "\<exists>e. WriteForkFile now req i s = (s, Inl e) \<or> WriteForkFile now req i s = (fst chk, Inl e)"
          using ok enc live(1) unfolding WriteForkFile_def bad_def
          by (cases "normalizeWriteTypeMetadata req ?ex enc"; cases chk; cases "snd chk")
             (auto simp: Let_def p_def [symmetric] chk_def [symmetric])
        then show ?thesis using refused chk(1) fork_only_refl by blast
      next
        case True
        then obtain md res where "normalizeWriteTypeMetadata req ?ex enc = Inr md" "snd chk = Inr res"
          by (cases "normalizeWriteTypeMetadata req ?ex enc"; cases "snd chk") auto
        then show ?thesis
          using ok enc live True chk
          by (intro written [of f "fst chk" md enc res])
             (cases chk; simp add: WriteForkFile_def bad_def Let_def p_def [symmetric] chk_def [symmetric] split: prod.split)+
      qed
    qed
  qed
qed

lemma WriteForkFile_only: "fork_only s (fst (WriteForkFile now req i s))"
proof (cases rule: WriteForkFile_cases [of now req i s])
  case (written f s1 enc md res)
  show ?thesis
    unfolding written(6) using fork_only_trans [OF written(4) fork_only_put [of s1 "TrimSpace i" f]] written(1,5) overlay_write_ids
    by (auto split: prod.split) (metis fst_conv)
qed simp

lemma DeleteForkFile_only: "fork_only s (fst (DeleteForkFile now req i s))"
proof (cases rule: getLive_cases [of now "dr_WorkspaceID req" i s])
  case (refused e s')
  then show ?thesis
    using fork_only_get_live [of s now "dr_WorkspaceID req" i] by (simp add: DeleteForkFile_def)
next
  case (live f)
  let ?p = "normalizePath (dr_Path req)"
  show ?thesis
  proof (cases "readForkFileLocked s f ?p")
    case None
    then show ?thesis using live(1) by (simp add: DeleteForkFile_def Let_def)
  next
    case (Some ex)
    define chk where "chk = fork_if_match (dr_IfMatch req) (dr_WorkspaceID req) ?p f ex s"
    have chk: "fork_only s (fst chk)" "s_forks (fst chk) = s_forks s" by (simp_all add: chk_def fork_if_match_only)
    have put: "fork_only s (saveLocked (put_fork (TrimSpace i) f' (fst chk)))" if "same_ids f f'" for f'
      using fork_only_trans [OF chk(1) fork_only_put [OF _ that]] live(2) chk(2) by simp
    show ?thesis
      using live(1) Some chk put
      by (cases chk; cases "snd chk")
         (auto simp: DeleteForkFile_def Let_def chk_def [symmetric] nextForkOverlayRevisionLocked_def same_ids_def)
  qed
qed

lemma bulk_fork_one_ids: "same_ids f (fst (bulk_fork_one now w input s f))"
proof -
  have one: "same_ids f (fst (writeForkOverlayLocked now f req ex None))" for req ex by (rule overlay_write_ids)
  show ?thesis
    using one
    by (auto simp: bulk_fork_one_def Let_def same_ids_def split: sum.splits option.splits prod.splits) (metis fst_conv)+
qed

lemma bulk_fork_loop_ids: "same_ids f (fst (bulk_fork_loop now w inputs s f))"
proof (induction inputs arbitrary: f)
  case (Cons x xs)
  show ?case
    using same_ids_trans [OF bulk_fork_one_ids Cons.IH, of f now w x s]
    by (auto simp: Let_def split: prod.splits sum.splits)
qed (simp add: same_ids_def)

lemma BulkWriteFork_only: "fork_only s (fst (BulkWriteFork now w i files s))"
proof (cases rule: getLive_cases [of now w i s])
  case (refused e s')
  then show ?thesis
    using fork_only_get_live [of s now w i] by (simp add: BulkWriteFork_def)
next
  case (live f)
  then show ?thesis
    using fork_only_put [OF live(2) bulk_fork_loop_ids [of f now w files s]]
    by (auto simp: BulkWriteFork_def Let_def split: prod.splits)
qed

lemma RebaseFork_only: "fork_only s (fst (RebaseFork now w i s))"
proof (cases rule: getLive_cases [of now "TrimSpace w" "TrimSpace i" s])
  case (refused e s')
  then show ?thesis
    using fork_only_get_live [of s now "TrimSpace w" "TrimSpace i"] by (simp add: RebaseFork_def Let_def)
next
  case (live f)
  let ?s = "ensureWorkspaceLocked (TrimSpace w) s"
  have "fork_only s (saveLocked (put_fork (TrimSpace i) (f\<lparr>fs_ParentRevision := r\<rparr>) ?s))" for r
    by (rule fork_only_trans [OF fork_only_ensure fork_only_put [where f = f]])
       (use live(2) in \<open>simp_all add: store_simps same_ids_def\<close>)
  then show ?thesis using live(1) by (simp add: RebaseFork_def Let_def)
qed

lemma DiscardFork_only: "fork_only s (fst (DiscardFork now w i s))"
  using fork_only_trans [OF fork_only_delete fork_only_save]
  by (simp add: DiscardFork_def Let_def split: option.split)

lemma expireForkByTimer_only: "fork_only s (expireForkByTimer now i s)"
  using fork_only_trans [OF fork_only_delete fork_only_save]
  by (simp add: expireForkByTimer_def split: option.split)

lemma expireForks_workspaces: "same_workspaces s (expireForksLocked now s)"
proof -
  have "same_workspaces t (fold (\<lambda>(i, f) s. if isForkExpiredAt f now then deleteForkLocked now i True s else s) fs t)" for fs t
  proof (induction fs arbitrary: t)
    case (Cons x fs)
    show ?case
      using Cons.IH [of t] same_workspaces_trans [OF same_workspaces_delete_fork Cons.IH] by (cases x) simp
  qed simp
  then show ?thesis by (simp add: expireForksLocked_def)
qed

lemma CreateFork_workspaces:
  assumes "fork_inv s"
  shows "same_workspaces s (fst (CreateFork now i w p ttl s))"
  using assms
proof (cases rule: CreateFork_cases [where now = now and i = i and w = w and p = p and ttl = ttl])
  case (created f)
  then show ?thesis
    using expireForks_workspaces [of s now] by (simp add: created(6) same_workspaces_def store_simps) (simp add: ws_of_def)
qed (simp_all add: expireForks_workspaces)

section \<open>Operations on files leave the fork tables alone\<close>

definition fork_tables :: "Store \<Rightarrow> (string, forkState) gomap \<times> (string, string) gomap \<times> (string, string) gomap" where
  "fork_tables s = (s_forks s, s_forkByWorkspaceProposal s, s_forkByProposal s)"

lemma fork_inv_tables: "fork_tables s' = fork_tables s \<Longrightarrow> fork_inv s' = fork_inv s"
  by (rule fork_inv_cong) (simp_all add: fork_tables_def)

lemma fork_tables_same_core: "same_core s s' \<Longrightarrow> fork_tables s' = fork_tables s"
  by (simp add: same_core_def fork_tables_def)

lemma fork_tables_helpers [store_simps]:
  "fork_tables (saveLocked s) = fork_tables s" "fork_tables (enqueueWriteback t s) = fork_tables s"
  "fork_tables (fold enqueueWriteback ts s) = fork_tables s" "fork_tables (publishEvent w ev s) = fork_tables s"
  "fork_tables (recordRevisionProvenanceLocked w p r h s) = fork_tables s"
  by (rule fork_tables_same_core, simp)+

lemma fork_tables_updates [store_simps]:
  "fork_tables (put_ws w ws s) = fork_tables s" "fork_tables (s\<lparr>s_revCounter := n\<rparr>) = fork_tables s"
  "fork_tables (s\<lparr>s_opCounter := n\<rparr>) = fork_tables s" "fork_tables (s\<lparr>s_eventCounter := n\<rparr>) = fork_tables s"
  by (simp_all add: fork_tables_def store_simps)

lemma fork_tables_append_event [store_simps]: "fork_tables (appendWorkspaceEventLocked w ev s) = fork_tables s"
  by (simp add: appendWorkspaceEventLocked_def Let_def store_simps)

lemma fork_tables_after_record [store_simps]:
  "fork_tables (after_record now w p r et prov corr ident acl s) = fork_tables s"
  by (simp add: after_record_def Let_def store_simps)

lemma fork_tables_commit [store_simps]:
  "fork_tables (commit_put now w p f et corr ident s) = fork_tables s"
  "fork_tables (commit_del now w p prov corr acl s) = fork_tables s"
  by (simp_all add: commit_put_def commit_del_def put_file_def remove_file_def Let_def store_simps)

lemma fork_tables_ensure [store_simps]: "fork_tables (ensureWorkspaceLocked w s) = fork_tables s"
  by (simp add: ensureWorkspaceLocked_def store_simps split: option.split)

lemma fork_tables_commit_all: "fork_tables (cs_store (fold (commit_one now w c) es cs)) = fork_tables (cs_store cs)"
proof (induction es arbitrary: cs)
  case (Cons e es)
  have "fork_tables (cs_store (commit_one now w c e cs)) = fork_tables (cs_store cs)"
    by (cases rule: commit_one_cases [of now w c "fst e" "snd e" cs]) (simp_all add: store_simps)
  then show ?case using Cons.IH by simp
qed simp

lemma fork_inv_commit:
  assumes "fork_inv s"
  shows "fork_inv (fst (CommitForkWithValidator now w i c validate s))"
proof (cases rule: CommitFork_cases [of now w i c validate s])
  case (refused s' e)
  then show ?thesis using assms fork_inv_get_live by auto
next
  case (committed fork s' resp cs)
  have "fork_tables (cs_store cs) = fork_tables s"
    unfolding committed(6) by (simp add: fork_tables_commit_all store_simps)
  then have "fork_inv (cs_store cs)" using assms fork_inv_tables by blast
  then show ?thesis
    using fork_inv_delete fork_inv_tables [OF fork_tables_helpers(3)] by (simp add: committed(1,7))
qed

section \<open>Creating twice, and how long a fork lives\<close>

lemma CreateFork_result:
  assumes "fork_inv s" and "CreateFork now i w p ttl s = (s', Inr h)"
  obtains f where "map_of (s_forks s') (fh_ForkID h) = Some f" and "fork_handle f = h"
    and "fork_key f = forkWorkspaceProposalKey (TrimSpace w) (TrimSpace p)" and "TrimSpace w \<noteq> ''''" and "TrimSpace p \<noteq> ''''"
  using assms(1)
proof (cases rule: CreateFork_cases [where now = now and i = i and w = w and p = p and ttl = ttl])
  case (existing f)
  moreover have "TrimSpace w \<noteq> '''' \<and> TrimSpace p \<noteq> ''''" using assms(2) by (auto simp: CreateFork_def split: if_splits)
  ultimately show ?thesis using assms(2) that [of f] by (simp add: fork_handle_def)
next
  case (created f)
  then show ?thesis using assms(2) that [of f] by (simp add: fork_handle_def store_simps AList.update_conv')
qed (use assms(2) in simp_all)

lemma create_again:
  assumes "fork_inv s" and "map_of (s_forks s) j = Some f" and "\<not> isForkExpiredAt f now"
    and "fork_key f = forkWorkspaceProposalKey (TrimSpace w) (TrimSpace p)" and "TrimSpace w \<noteq> ''''" and "TrimSpace p \<noteq> ''''"
  shows "snd (CreateFork now i w p ttl s) = Inr (fork_handle f)"
proof -
  let ?s1 = "expireForksLocked now s"
  have inv: "fork_inv ?s1" using assms(1) by (rule fork_inv_expire)
  have f: "map_of (s_forks ?s1) j = Some f"
    using assms(1-3) by (simp add: expire_forks_lookup fork_inv_def)
  then have ix: "map_of (s_forkByWorkspaceProposal ?s1) (fork_key f) = Some j" and "j \<noteq> ''''"
    using inv index_exact_find by (auto simp: fork_inv_def)
  then show ?thesis using f assms(4-6) by (simp add: CreateFork_def Let_def mget_or_def)
qed

text \<open>Creating a fork is idempotent per proposal: while the fork that \<open>CreateFork\<close> returned lives,
  creating a fork for the same workspace and proposal, with any time to live, returns the same handle.\<close>

theorem create_fork_idempotent:
  assumes "fork_inv s" and "i \<noteq> ''''" and "map_of (s_forks s) i = None"
    and "CreateFork now i w p ttl s = (s', Inr h)"
  shows "\<exists>f. map_of (s_forks s') (fh_ForkID h) = Some f \<and> fork_handle f = h
    \<and> (\<forall>now' i' ttl'. \<not> isForkExpiredAt f now' \<longrightarrow> snd (CreateFork now' i' w p ttl' s') = Inr h)"
proof -
  have "fork_inv s'" using fork_inv_create [OF assms(1-3), of now w p ttl] assms(4) by simp
  then show ?thesis using CreateFork_result [OF assms(1,4)] create_again by metis
qed

lemma fork_inv_NewStore [simp]: "fork_inv NewStore"
  by (simp add: fork_inv_def index_exact_def NewStore_def new_store_def)

lemma new_store_forks [simp]: "s_forks NewStore = []"
  by (simp add: NewStore_def new_store_def)

lemma sample_create: "\<exists>s' h. CreateFork 0 ''f'' ''w'' ''p'' 60 NewStore = (s', Inr h) \<and> fh_ForkID h = ''f''"
  using fork_inv_NewStore
proof (cases rule: CreateFork_cases [where now = 0 and i = "''f''" and w = "''w''" and p = "''p''" and ttl = 60])
  case blank
  moreover have "TrimSpace ''w'' = ''w''" "TrimSpace ''p'' = ''p''" by code_simp+
  ultimately show ?thesis by simp
next
  case (existing f)
  then show ?thesis by (simp add: expireForksLocked_def)
next
  case conflict
  moreover have "TrimSpace ''w'' = ''w''" "TrimSpace ''p'' = ''p''" by code_simp+
  ultimately show ?thesis by (simp add: CreateFork_def expireForksLocked_def Let_def mget_or_def NewStore_def new_store_def split: if_splits)
next
  case (created f)
  then show ?thesis by (simp add: fork_handle_def)
qed

theorem create_fork_idempotent_witness:
  "\<exists>s' h f. CreateFork 0 ''f'' ''w'' ''p'' 60 NewStore = (s', Inr h) \<and> map_of (s_forks s') (fh_ForkID h) = Some f \<and> fork_handle f = h"
proof -
  obtain s' h where c: "CreateFork 0 ''f'' ''w'' ''p'' 60 NewStore = (s', Inr h)" using sample_create by blast
  show ?thesis using create_fork_idempotent [OF _ _ _ c] c by auto
qed

lemma normalizeForkTTL_bounds: "Second \<le> normalizeForkTTL ttl" "normalizeForkTTL ttl \<le> MaxForkTTLSeconds * Second"
  by (simp_all add: normalizeForkTTL_def Let_def MaxForkTTLSeconds_def DefaultForkTTLSeconds_def Second_def)

text \<open>A fork lives exactly as long as its time to live: a newly created fork counts as expired from the
  nanosecond \<open>now + ttl\<close> on and never before, where the time to live is the requested one if it is at most
  30 days, and at least a second.  The stored expiry goes through its textual form.\<close>

theorem fork_lifetime_exact:
  assumes "fork_inv s" and "map_of (s_forks s) i = None" and "CreateFork now i w p ttl s = (s', Inr h)" and "fh_ForkID h = i"
    and "four_digit_year (now + normalizeForkTTL ttl)"
  shows "\<exists>f. map_of (s_forks s') i = Some f
    \<and> (\<forall>now'. isForkExpiredAt f now' \<longleftrightarrow> now + normalizeForkTTL ttl \<le> now')
    \<and> Second \<le> normalizeForkTTL ttl \<and> normalizeForkTTL ttl \<le> 30 * 86400 * Second
    \<and> (0 < ttl \<and> ttl \<le> 30 * 86400 \<longrightarrow> normalizeForkTTL ttl = ttl * Second)"
  using assms(1)
proof (cases rule: CreateFork_cases [where now = now and i = i and w = w and p = p and ttl = ttl])
  case (existing f)
  then have "fs_ForkID f = i" using assms(3,4) by (simp add: fork_handle_def)
  then show ?thesis using existing(1) assms(1,2) by (simp add: expire_forks_lookup fork_inv_def)
next
  case (created f)
  have "map_of (s_forks s') i = Some f" using created(6) assms(3) by (simp add: store_simps AList.update_conv')
  moreover have "isForkExpiredAt f now' \<longleftrightarrow> now + normalizeForkTTL ttl \<le> now'" for now'
    using ParseRFC3339Nano_Format [OF assms(5)] by (auto simp: isForkExpiredAt_def created(5))
  ultimately show ?thesis
    using normalizeForkTTL_bounds [of ttl]
    by (auto simp: MaxForkTTLSeconds_def normalizeForkTTL_def Let_def)
qed (use assms(3) in simp_all)

theorem fork_lifetime_exact_witness:
  "\<exists>s' f. fst (CreateFork 0 ''f'' ''w'' ''p'' 60 NewStore) = s' \<and> map_of (s_forks s') ''f'' = Some f \<and> isForkExpiredAt f (60 * Second)"
proof -
  obtain s' h where c: "CreateFork 0 ''f'' ''w'' ''p'' 60 NewStore = (s', Inr h)" "fh_ForkID h = ''f''" using sample_create by blast
  have "four_digit_year (0 + normalizeForkTTL 60)" by code_simp
  then obtain f where "map_of (s_forks s') ''f'' = Some f" "isForkExpiredAt f (60 * Second) \<longleftrightarrow> 0 + normalizeForkTTL 60 \<le> 60 * Second"
    "normalizeForkTTL 60 = 60 * Second"
    using fork_lifetime_exact [OF _ _ c] by auto
  then show ?thesis using c by auto
qed

end
