(* ===== verification/ForkRebase.thy ===== *)
theory ForkRebase
  imports ForkIndex
begin

text \<open>
  Rebasing a fork onto the moved workspace.

  A rebase reports exactly the paths a commit would refuse, leaves the overlay alone, and citing the live
  revision in a write resolves the conflict of a written path.  Two promises of the comments on
  \<open>RebaseFork\<close> and \<open>RebaseResponse\<close> do not hold: the conflict of an overlay entry without a base revision
  is cleared by the rebase that reports it, and the conflict of a deleted path cannot be resolved by
  any write or delete.
\<close>

section \<open>What a rebase does\<close>

lemma RebaseFork_live:
  assumes "map_of (s_forks s) (TrimSpace i) = Some f" and "fs_WorkspaceID f = TrimSpace w" and "\<not> isForkExpiredAt f now"
    and "TrimSpace w \<noteq> ''''" and "TrimSpace i \<noteq> ''''"
  shows "RebaseFork now w i s =
    (saveLocked (put_fork (TrimSpace i) (f\<lparr>fs_ParentRevision := currentWorkspaceRevisionLocked s (TrimSpace w)\<rparr>)
       (ensureWorkspaceLocked (TrimSpace w) s)),
     Inr \<lparr>rr_ParentRevision = currentWorkspaceRevisionLocked s (TrimSpace w),
          rr_CleanCount = length (filter (entry_clean (ws_Files (ws_of s (TrimSpace w)))) (sorted_overlay f)),
          rr_Conflicts = map (rebase_conflict (ws_Files (ws_of s (TrimSpace w))))
            (filter (Not \<circ> entry_clean (ws_Files (ws_of s (TrimSpace w)))) (sorted_overlay f))\<rparr>)"
proof -
  have rev: "currentWorkspaceRevisionLocked (ensureWorkspaceLocked v s) v = currentWorkspaceRevisionLocked s v" for v
    by (simp add: currentWorkspaceRevisionLocked_def ensureWorkspaceLocked_def put_ws_def empty_workspace_def AList.update_conv'
        split: option.split)
  show ?thesis
    using assms by (simp add: RebaseFork_def getLiveForkLocked_def Let_def store_simps rev)
qed

text \<open>A rebase reports exactly the paths that block a commit: when every entry of the overlay knows its
  base revision, a commit right after the rebase succeeds if and only if the rebase reported no conflict.\<close>

theorem rebase_reports_blockers:
  assumes "map_of (s_forks s) (TrimSpace i) = Some f" and "fs_WorkspaceID f = TrimSpace w" and "\<not> isForkExpiredAt f now"
    and "TrimSpace w \<noteq> ''''" and "TrimSpace i \<noteq> ''''" and "list_all (\<lambda>(p, e). oe_BaseRevision e \<noteq> '''') (fs_Overlay f)"
    and "RebaseFork now w i s = (s', Inr r)"
  shows "is_ok (snd (CommitFork now w i c s')) \<longleftrightarrow> rr_Conflicts r = []"
proof -
  let ?f' = "f\<lparr>fs_ParentRevision := currentWorkspaceRevisionLocked s (TrimSpace w)\<rparr>" and ?files = "ws_Files (ws_of s (TrimSpace w))"
  have s': "map_of (s_forks s') (TrimSpace i) = Some ?f'" "ws_of s' v = ws_of s v" for v
    using RebaseFork_live [OF assms(1-5)] assms(7) by (auto simp: store_simps AList.update_conv')
  have live: "getLiveForkLocked now (TrimSpace w) (TrimSpace i) s' = (s', Inr ?f')"
    using assms(2-5) s'(1) by (simp add: getLiveForkLocked_def isForkExpiredAt_def)
  have "is_ok (snd (CommitFork now w i c s')) \<longleftrightarrow>
      \<not> list_ex (entry_moved (currentWorkspaceRevisionLocked s' (TrimSpace w)) (fs_ParentRevision ?f') ?files) (fs_Overlay f)"
    using assms(4,5) live s'(2)
    by (auto simp: CommitFork_def CommitForkWithValidator_def Let_def store_simps sorted_overlay_def list_ex_iff)
  also have "\<dots> \<longleftrightarrow> (\<forall>pe \<in> set (fs_Overlay f). entry_clean ?files pe)"
    using assms(6) by (auto simp: list_ex_iff entry_moved_def entry_clean_def list_all_iff split: prod.splits)
  also have "\<dots> \<longleftrightarrow> rr_Conflicts r = []"
    using RebaseFork_live [OF assms(1-5)] assms(7) by (auto simp: filter_empty_conv sorted_overlay_def)
  finally show ?thesis .
qed

theorem rebase_reports_blockers_witness:
  "\<exists>s' r. RebaseFork 0 ''w'' ''f'' sample_fork_store = (s', Inr r) \<and> (is_ok (snd (CommitFork 0 ''w'' ''f'' ''c'' s')) \<longleftrightarrow> rr_Conflicts r = [])"
proof -
  have f: "fs_WorkspaceID sample_fork = TrimSpace ''w''" "TrimSpace ''w'' \<noteq> ''''" "TrimSpace ''f'' \<noteq> ''''"
    "list_all (\<lambda>(p, e). oe_BaseRevision e \<noteq> '''') (fs_Overlay sample_fork)"
    by (simp_all add: sample_trim sample_fork_def sample_entry_def)
  obtain s' r where r: "RebaseFork 0 ''w'' ''f'' sample_fork_store = (s', Inr r)"
    using RebaseFork_live [OF sample_fork_lookup f(1) sample_live f(2,3)] by blast
  show ?thesis using rebase_reports_blockers [OF sample_fork_lookup f(1) sample_live f(2-4) r] r by blast
qed

section \<open>Where the comments promise more\<close>

text \<open>The conflict of a legacy entry does not survive the rebase that reports it: for a fork whose entries
  have no base revision, a rebase reports every path as a conflict, and the commit right after it succeeds all
  the same, although the comment says the caller must resolve each conflict before a commit can succeed.\<close>

theorem rebase_clears_legacy_conflicts:
  assumes "map_of (s_forks s) (TrimSpace i) = Some f" and "fs_WorkspaceID f = TrimSpace w" and "\<not> isForkExpiredAt f now"
    and "TrimSpace w \<noteq> ''''" and "TrimSpace i \<noteq> ''''" and "list_all (\<lambda>(p, e). oe_BaseRevision e = '''') (fs_Overlay f)"
    and "map_of (s_workspaces s) (TrimSpace w) \<noteq> None"
  shows "\<exists>s' r. RebaseFork now w i s = (s', Inr r) \<and> length (rr_Conflicts r) = length (fs_Overlay f)
    \<and> is_ok (snd (CommitFork now w i c s'))"
proof -
  let ?w = "TrimSpace w" let ?i = "TrimSpace i"
  let ?f' = "f\<lparr>fs_ParentRevision := currentWorkspaceRevisionLocked s ?w\<rparr>"
  let ?s' = "saveLocked (put_fork ?i ?f' (ensureWorkspaceLocked ?w s))"
  have rev: "currentWorkspaceRevisionLocked ?s' ?w = currentWorkspaceRevisionLocked s ?w"
    using assms(7) by (auto simp: currentWorkspaceRevisionLocked_def ensureWorkspaceLocked_def store_simps split: option.split)
  have clean: "filter (Not \<circ> entry_clean files) (sorted_overlay f) = sorted_overlay f" for files
    using assms(6) by (auto simp: filter_id_conv list_all_iff entry_clean_def sorted_overlay_def)
  have live: "getLiveForkLocked now ?w ?i ?s' = (?s', Inr ?f')"
    using assms(2-5) by (simp add: getLiveForkLocked_def isForkExpiredAt_def Let_def store_simps AList.update_conv')
  have "\<not> list_ex (entry_moved (currentWorkspaceRevisionLocked ?s' ?w) (fs_ParentRevision ?f') files) (sorted_overlay ?f')" for files
    using assms(6) rev by (auto simp: list_ex_iff entry_moved_def sorted_overlay_def list_all_iff split: prod.splits)
  then have "is_ok (snd (CommitFork now w i c ?s'))"
    using assms(4,5) live by (simp add: CommitFork_def CommitForkWithValidator_def Let_def store_simps)
  then show ?thesis
    using RebaseFork_live [OF assms(1-5)] clean by (auto simp: sorted_overlay_def)
qed

definition legacy_store :: Store where
  "legacy_store = (ensureWorkspaceLocked ''w'' NewStore)\<lparr>s_forks := [(''f'', sample_fork\<lparr>fs_ParentRevision := ''rev_9'',
     fs_Overlay := [(''/a'', sample_entry\<lparr>oe_BaseRevision := ''''\<rparr>)]\<rparr>)]\<rparr>"

theorem rebase_clears_legacy_conflicts_witness:
  "\<exists>s' r. RebaseFork 0 ''w'' ''f'' legacy_store = (s', Inr r) \<and> length (rr_Conflicts r) = 1 \<and> is_ok (snd (CommitFork 0 ''w'' ''f'' ''c'' s'))"
proof -
  let ?f = "sample_fork\<lparr>fs_ParentRevision := ''rev_9'', fs_Overlay := [(''/a'', sample_entry\<lparr>oe_BaseRevision := ''''\<rparr>)]\<rparr>"
  have "map_of (s_workspaces legacy_store) ''w'' \<noteq> None" "map_of (s_forks legacy_store) ''f'' = Some ?f" "\<not> isForkExpiredAt ?f 0"
    using ensure_known [of "''w''" NewStore] sample_live
    by (auto simp: legacy_store_def map_of_eq_None_iff isForkExpiredAt_def)
  then show ?thesis
    using rebase_clears_legacy_conflicts [of legacy_store "''f''" ?f "''w''" 0 "''c''"]
    by (simp add: sample_trim) (simp add: sample_fork_def)
qed

lemma write_over_delete:
  assumes "map_of (s_forks s) (TrimSpace i) = Some f" and "map_of (fs_Overlay f) (normalizePath (wr_Path req)) = Some e"
    and "oe_Type e = ''delete''" and "normalizePath (normalizePath (wr_Path req)) = normalizePath (wr_Path req)"
    and "WriteForkFile now req i s = (s', Inr r)"
  shows "\<exists>f' e'. map_of (s_forks s') (TrimSpace i) = Some f' \<and> map_of (fs_Overlay f') (normalizePath (wr_Path req)) = Some e'
    \<and> oe_BaseRevision e' = oe_BaseRevision e"
proof -
  let ?p = "normalizePath (wr_Path req)"
  have none: "readForkFileLocked s f ?p = None" using assms(2-4) by (simp add: readForkFileLocked_def Let_def)
  have live: "getLiveForkLocked now (wr_WorkspaceID req) i s = (s, Inr f)"
    using assms(1,5) by (auto simp: WriteForkFile_def getLiveForkLocked_def Let_def split: if_splits sum.splits)
  obtain enc and md :: FileTypeMetadata where "normalizeEncoding (wr_Encoding req) = Inr enc" "normalizeWriteTypeMetadata req None enc = Inr md"
    using assms(5) live none by (auto simp: WriteForkFile_def Let_def split: if_splits sum.splits)
  then show ?thesis
    using assms live none
    by (auto simp: WriteForkFile_def Let_def writeForkOverlayLocked_def nextForkOverlayRevisionLocked_def pinned_base_def store_simps
        AList.update_conv' split: if_splits)
qed

lemma write_refused_forks:
  assumes "getLiveForkLocked now (wr_WorkspaceID req) i s = (s, Inr f)" and "WriteForkFile now req i s = (s', Inl e)"
  shows "s_forks s' = s_forks s"
  using assms fork_if_match_only(2)
  by (auto simp: WriteForkFile_def Let_def split: if_splits sum.splits option.splits prod.splits) (metis fst_conv)+

lemma delete_over_delete:
  assumes "map_of (fs_Overlay f) (normalizePath (dr_Path req)) = Some e"
    and "oe_Type e = ''delete''" and "normalizePath (normalizePath (dr_Path req)) = normalizePath (dr_Path req)"
    and "getLiveForkLocked now (dr_WorkspaceID req) i s = (s, Inr f)"
  shows "\<exists>err. DeleteForkFile now req i s = (s, Inl err)"
  using assms by (simp add: DeleteForkFile_def readForkFileLocked_def Let_def)

text \<open>The conflict of a path the fork deleted cannot be resolved: whatever precondition a caller cites, a
  write to the path keeps the base revision that conflicts, and a delete fails, so every commit keeps
  failing until the live revision happens to be the old one again.  The comment says that citing the reported
  live revision resolves a conflict.\<close>

theorem delete_conflict_unresolvable:
  assumes "map_of (s_forks s) (TrimSpace i) = Some f" and "fs_WorkspaceID f = TrimSpace w" and "\<not> isForkExpiredAt f now"
    and "w \<noteq> ''''" and "TrimSpace w \<noteq> ''''" and "TrimSpace i \<noteq> ''''" and "map_of (fs_Overlay f) p = Some e" and "oe_Type e = ''delete''"
    and "normalizePath p = p" and "oe_BaseRevision e \<noteq> ''''" and "path_revision (ws_Files (ws_of s (TrimSpace w))) p \<noteq> oe_BaseRevision e"
    and "dr_WorkspaceID del = w" and "dr_Path del = p" and "wr_WorkspaceID req = w" and "wr_Path req = p"
  shows "(\<exists>err. DeleteForkFile now del i s = (s, Inl err)) \<and> \<not> is_ok (snd (CommitFork now w i c (fst (WriteForkFile now req i s))))"
proof
  have live: "getLiveForkLocked now w i s = (s, Inr f)"
    using assms(1-3,5,6) by (simp add: getLiveForkLocked_def)
  then show "\<exists>err. DeleteForkFile now del i s = (s, Inl err)"
    using assms(7-9,12,13) by (intro delete_over_delete) simp_all
  obtain s' res where w: "WriteForkFile now req i s = (s', res)" by (cases "WriteForkFile now req i s")
  have only: "same_workspaces s s'" using WriteForkFile_only [of s now req i] w by (simp add: fork_only_def)
  have entry: "\<exists>f' e'. map_of (s_forks s') (TrimSpace i) = Some f' \<and> (p, e') \<in> set (fs_Overlay f') \<and> oe_BaseRevision e' = oe_BaseRevision e"
  proof (cases res)
    case (Inl err)
    then have "s_forks s' = s_forks s" using write_refused_forks [of now req i s f s' err] live w assms(14) by simp
    then show ?thesis using assms(1,7) map_of_SomeD by fastforce
  next
    case (Inr r)
    then show ?thesis using write_over_delete [OF assms(1), of req e now s' r] w assms(7-9,15) map_of_SomeD by fastforce
  qed
  show "\<not> is_ok (snd (CommitFork now w i c (fst (WriteForkFile now req i s))))"
  proof (cases rule: CommitFork_cases [of now w i c "\<lambda>_. None" s'])
    case (refused s'' err)
    then show ?thesis using w by (simp add: CommitFork_def)
  next
    case (committed f' s'' resp cs)
    obtain e' where "(p, e') \<in> set (fs_Overlay f')" "oe_BaseRevision e' = oe_BaseRevision e"
      using entry committed(2) by auto
    then have "entry_moved (currentWorkspaceRevisionLocked s' (TrimSpace w)) (fs_ParentRevision f') (ws_Files (ws_of s' (TrimSpace w))) (p, e')"
      using assms(10,11) only by (simp add: entry_moved_def same_workspaces_def)
    then show ?thesis using committed(5) \<open>(p, e') \<in> set (fs_Overlay f')\<close> by (auto simp: list_ex_iff)
  qed
qed

definition conflict_store :: Store where
  "conflict_store = NewStore\<lparr>s_forks := [(''f'', sample_fork\<lparr>fs_Overlay :=
     [(''/a'', sample_entry\<lparr>oe_Type := ''delete'', oe_File := None, oe_BaseRevision := ''rev_3''\<rparr>)]\<rparr>)]\<rparr>"

theorem delete_conflict_unresolvable_witness:
  "\<not> is_ok (snd (CommitFork 0 ''w'' ''f'' ''c'' (fst (WriteForkFile 0 (sample_write\<lparr>wr_Path := ''/a''\<rparr>) ''f'' conflict_store))))"
proof -
  let ?e = "sample_entry\<lparr>oe_Type := ''delete'', oe_File := None, oe_BaseRevision := ''rev_3''\<rparr>"
  let ?f = "sample_fork\<lparr>fs_Overlay := [(''/a'', ?e)]\<rparr>"
  have "map_of (s_forks conflict_store) ''f'' = Some ?f" "\<not> isForkExpiredAt ?f 0" "normalizePath ''/a'' = ''/a''"
    using sample_live by (simp add: conflict_store_def, simp add: isForkExpiredAt_def, code_simp)
  moreover have "path_revision (ws_Files (ws_of conflict_store ''w'')) ''/a'' = ''0''"
    by (simp add: conflict_store_def path_revision_def ws_of_def mget_or_def empty_workspace_def NewStore_def new_store_def)
  ultimately show ?thesis
    using delete_conflict_unresolvable [of conflict_store "''f''" ?f "''w''" 0 "''/a''" ?e
      "\<lparr>dr_WorkspaceID = ''w'', dr_Path = ''/a'', dr_IfMatch = ''0'', dr_CorrelationID = ''''\<rparr>" "sample_write\<lparr>wr_Path := ''/a''\<rparr>" "''c''"]
    by (simp add: sample_trim) (simp add: sample_fork_def sample_write_def)
qed

end
