(* ===== verification/Paging.thy ===== *)
theory Paging
  imports Prelude
begin

text \<open>
  Pages of a listing.

  The list operations of the store share one contract: a page is the next \<open>limit\<close> items after the item
  a cursor names, with a cursor to go on when there are more.  The locale \<open>paged\<close> states it and proves once
  that a client who follows the cursors gets every item exactly once, in order; \<open>crawl\<close> is that client.

  The second half is the bounded scan the tree and query listings use to keep one page in memory while
  they range over a map: \<open>retain\<close> drops the greatest key whenever the page overflows.  The scan
  ends with the smallest keys of the map it never builds, whatever the iteration order.
\<close>

section \<open>The contract of a paged listing\<close>

definition page_at :: "nat \<Rightarrow> ('a \<Rightarrow> string) \<Rightarrow> 'a list \<Rightarrow> nat \<Rightarrow> 'a list \<times> string option" where
  "page_at limit key items start =
     (take limit (drop start items),
      if start + limit < length items then Some (key (items ! (start + limit - 1))) else None)"

text \<open>A client that follows the cursors, for at most \<open>n\<close> pages.\<close>

fun crawl :: "(string \<Rightarrow> 'e + 'a list \<times> string option) \<Rightarrow> nat \<Rightarrow> string \<Rightarrow> 'a list option" where
  "crawl page 0 cursor = None"
| "crawl page (Suc n) cursor =
     (case page cursor of
        Inl e \<Rightarrow> None
      | Inr (xs, None) \<Rightarrow> Some xs
      | Inr (xs, Some cursor') \<Rightarrow> map_option ((@) xs) (crawl page n cursor'))"

locale paged =
  fixes page :: "string \<Rightarrow> 'e + 'a list \<times> string option" and key :: "'a \<Rightarrow> string" and items :: "'a list" and limit :: nat
  assumes limit_pos: "0 < limit"
    and first_page: "page '''' = Inr (page_at limit key items 0)"
    and next_page: "i < length items \<Longrightarrow> page (key (items ! i)) = Inr (page_at limit key items (Suc i))"
begin

lemma crawl_step:
  assumes "page c = Inr (page_at limit key items start)" and "start \<le> length items" and "length items - start < n"
  shows "crawl page n c = Some (drop start items)"
  using assms
proof (induction n arbitrary: c start)
  case (Suc n)
  show ?case
  proof (cases "start + limit < length items")
    case True
    let ?i = "start + limit - 1"
    have i: "?i < length items" "Suc ?i = start + limit" using True limit_pos by simp_all
    have "crawl page n (key (items ! ?i)) = Some (drop (start + limit) items)"
      using Suc.IH [OF next_page [OF i(1)]] Suc.prems(3) True i(2) limit_pos by simp
    then show ?thesis
      using True Suc.prems(1) append_take_drop_id [of limit "drop start items"] by (simp add: page_at_def add.commute)
  next
    case False
    then show ?thesis using Suc.prems(1) by (simp add: page_at_def)
  qed
qed simp

lemma crawl_all: "crawl page (Suc (length items)) '''' = Some items"
  using crawl_step [OF first_page, of "Suc (length items)"] by (simp del: crawl.simps)

end

section \<open>Keeping one page while ranging over a map\<close>

definition greatest_key :: "string list \<Rightarrow> string" where
  "greatest_key ks = fold (\<lambda>candidate greatest. if greatest = '''' \<or> candidate > greatest then candidate else greatest) ks ''''"

definition retain :: "nat \<Rightarrow> (string, 'v) gomap \<Rightarrow> (string, 'v) gomap" where
  "retain n m = (if length m > n then mdel (greatest_key (map fst m)) m else m)"

lemma greatest_fold:
  "fold (\<lambda>c g. if g = '''' \<or> c > g then c else g) ks (g :: string) = Max (insert g (set ks))"
proof (induction ks arbitrary: g)
  case (Cons c ks)
  have "(if g = '''' \<or> c > g then c else g) = max g c" by (cases "g = ''''") (auto simp: max_def)
  moreover have "Max (insert (max g c) (set ks)) = Max (insert g (insert c (set ks)))"
    by (cases "ks = []") (simp_all add: max.assoc)
  ultimately show ?case using Cons.IH [of "max g c"] by simp
qed simp

lemma greatest_key_Max: "ks \<noteq> [] \<Longrightarrow> greatest_key ks = Max (set ks)"
  unfolding greatest_key_def greatest_fold by (cases ks) (auto simp: max_def)

text \<open>One step of a scan: update the entry of a key, then drop the greatest key if the page overflows.
  \<open>unbounded\<close> is the same scan without the bound.\<close>

definition scan_put :: "nat \<Rightarrow> string \<times> ('v option \<Rightarrow> 'v) \<Rightarrow> (string, 'v) gomap \<Rightarrow> (string, 'v) gomap" where
  "scan_put n u m = retain n (mput (fst u) (snd u (map_of m (fst u))) m)"

definition unbounded :: "string \<times> ('v option \<Rightarrow> 'v) \<Rightarrow> (string, 'v) gomap \<Rightarrow> (string, 'v) gomap" where
  "unbounded u m = mput (fst u) (snd u (map_of m (fst u))) m"

abbreviation keys :: "('k, 'v) gomap \<Rightarrow> 'k list" where "keys m \<equiv> map fst m"

text \<open>\<open>b\<close> is \<open>full\<close> cut down to its \<open>n\<close> smallest keys.\<close>

definition cut_to :: "nat \<Rightarrow> (string, 'v) gomap \<Rightarrow> (string, 'v) gomap \<Rightarrow> bool" where
  "cut_to n full b \<longleftrightarrow> wf_map full \<and> wf_map b \<and> sort (keys b) = take n (sort (keys full))
     \<and> (\<forall>k \<in> set (keys b). map_of b k = map_of full k)"

lemma take_insort: "take n (insort x xs) = take n (insort x (take n xs))"
proof (induction xs arbitrary: n)
  case (Cons y ys)
  show ?case
  proof (cases n)
    case (Suc m)
    have "take m (y # ys) = take m (y # take m ys)" by (cases m) simp_all
    then show ?thesis using Suc Cons.IH [of m] by simp
  qed simp
qed simp

lemma sorted_last_Max: "sorted xs \<Longrightarrow> xs \<noteq> [] \<Longrightarrow> Max (set xs) = last xs"
proof (induction xs rule: rev_induct)
  case (snoc x xs)
  then show ?case by (intro Max_eqI) (auto simp: sorted_append)
qed simp

lemma insort_same_take:
  assumes "sorted xs" and "distinct xs" and "x \<in> set xs" and "x \<notin> set (take n xs)"
  shows "insort x (take n xs) = take n xs @ [x]" and "length (take n xs) = n"
proof -
  have less: "\<forall>y \<in> set (take n xs). y < x" using sorted_distinct_set_take [OF assms(1-3)] assms(4) by blast
  have "insort x ys = ys @ [x]" if "\<forall>y \<in> set ys. y < x" for ys using that by (induction ys) auto
  then show "insort x (take n xs) = take n xs @ [x]" using less by blast
  show "length (take n xs) = n" using assms(3,4) by (cases "n \<le> length xs") simp_all
qed

lemma sort_keys_mput_new:
  fixes m :: "('k :: linorder, 'v) gomap"
  assumes "k \<notin> set (keys m)" and "wf_map m"
  shows "sort (keys (mput k v m)) = insort k (sort (keys m))"
  using assms
  by (intro sorted_distinct_set_unique)
     (auto simp: sorted_insort distinct_insort set_insort_key wf_map_def AList.distinct_update AList.update_keys)

lemma sort_keys_mput_old: "k \<in> set (keys m) \<Longrightarrow> keys (mput k v m) = keys m"
  by (simp add: AList.update_keys)

lemma retain_sort:
  assumes "wf_map m" and "length m \<le> Suc n"
  shows "sort (keys (retain n m)) = take n (sort (keys m))
    \<and> (\<forall>k \<in> set (keys (retain n m)). map_of (retain n m) k = map_of m k)"
proof (cases "length m > n")
  case False
  then show ?thesis by (simp add: retain_def)
next
  case True
  let ?g = "greatest_key (keys m)" and ?ks = "sort (keys m)"
  have len: "length ?ks = Suc n" and ne: "keys m \<noteq> []" using True assms(2) by auto
  then have g: "?g = last ?ks"
    using sorted_last_Max [of ?ks] by (simp add: greatest_key_Max) (metis len length_0_conv nat.distinct(1))
  have split: "?ks = butlast ?ks @ [last ?ks]" using len by (metis append_butlast_last_id length_0_conv nat.distinct(1))
  have dist: "distinct ?ks" using assms(1) by (simp add: wf_map_def)
  have "set (butlast ?ks) = set ?ks - {last ?ks}"
    using split dist by (metis Diff_insert_absorb Un_insert_right append_Nil2 distinct_butlast list.simps(15) not_distinct_conv_prefix set_append list.set(1) sup_bot_right)
  then have "sort (keys (mdel ?g m)) = butlast ?ks"
    using assms(1) dist unfolding g
    by (intro sorted_distinct_set_unique) (auto simp: wf_map_def AList.delete_keys distinct_removeAll sorted_butlast distinct_butlast)
  moreover have "butlast ?ks = take n ?ks" using len by (simp add: butlast_conv_take)
  ultimately show ?thesis using True by (auto simp: retain_def AList.delete_conv' AList.delete_keys)
qed

lemma wf_map_retain: "wf_map m \<Longrightarrow> wf_map (retain n m)"
  by (simp add: retain_def)

lemma cut_to_length: "cut_to n full b \<Longrightarrow> length b \<le> n"
  unfolding cut_to_def by (metis length_map length_sort length_take min.cobounded2)

lemma cut_to_keys: "cut_to n full b \<Longrightarrow> set (keys b) = set (take n (sort (keys full)))"
  unfolding cut_to_def by (metis set_sort)

lemma cut_to_step:
  assumes "cut_to n full b"
  shows "cut_to n (unbounded u full) (scan_put n u b)"
proof -
  obtain k f where u: "u = (k, f)" by (cases u)
  note wf = assms [unfolded cut_to_def]
  let ?full' = "mput k (f (map_of full k)) full" and ?b1 = "mput k (f (map_of b k)) b"
  have wf1: "wf_map ?b1" "wf_map ?full'" using wf by simp_all
  have "length ?b1 \<le> Suc (length b)" by (metis AList.update_keys length_append_singleton length_map le_SucI order_refl)
  then have len: "length ?b1 \<le> Suc n" using cut_to_length [OF assms] by simp
  note keep = retain_sort [OF wf1(1) len]
  consider (kept) "k \<in> set (keys b)" | (dropped) "k \<in> set (keys full)" "k \<notin> set (keys b)" | (new) "k \<notin> set (keys full)" "k \<notin> set (keys b)"
    using cut_to_keys [OF assms] by (metis in_set_takeD set_sort)
  then have keys: "take n (sort (keys ?b1)) = take n (sort (keys ?full'))"
  proof cases
    case kept
    then have "k \<in> set (keys full)" using cut_to_keys [OF assms] by (metis in_set_takeD set_sort)
    then show ?thesis using kept wf by (simp add: sort_keys_mput_old)
  next
    case dropped
    have "insort k (sort (keys b)) = sort (keys b) @ [k]" "length (sort (keys b)) = n"
      using insort_same_take [of "sort (keys full)" k n] dropped wf cut_to_keys [OF assms] by (simp_all add: wf_map_def)
    then show ?thesis using dropped wf by (simp add: sort_keys_mput_old sort_keys_mput_new)
  next
    case new
    then show ?thesis using wf take_insort [of n k "sort (keys full)"] by (simp add: sort_keys_mput_new)
  qed
  have vals: "map_of ?b1 j = map_of ?full' j" if "j \<in> set (take n (sort (keys ?full')))" for j
  proof (cases "k \<in> set (keys full) \<and> k \<notin> set (keys b)")
    case True
    have "j \<in> set (keys b)" using that True wf by (metis in_set_takeD set_sort sort_keys_mput_old take_all_iff set_map)
    then show ?thesis using True wf by (auto simp: AList.update_conv')
  next
    case False
    then have "map_of b k = map_of full k" using wf by (metis map_of_eq_None_iff set_map)
    moreover have "j = k \<or> j \<in> set (keys b)"
      using that wf keys cut_to_keys [OF assms] by (metis AList.update_keys in_set_takeD insert_iff list.simps(15) rotate1.simps(2) set_rotate1 set_sort)
    ultimately show ?thesis using wf by (auto simp: AList.update_conv')
  qed
  have sorted: "sort (keys (retain n ?b1)) = take n (sort (keys ?full'))" using keep keys by simp
  then have "set (keys (retain n ?b1)) = set (take n (sort (keys ?full')))" by (metis set_sort)
  then have "\<forall>j \<in> set (keys (retain n ?b1)). map_of (retain n ?b1) j = map_of ?full' j" using keep vals by simp
  then show ?thesis
    using sorted wf1 wf_map_retain [OF wf1(1), of n] by (simp add: cut_to_def u scan_put_def unbounded_def)
qed

lemma cut_to_scan:
  "cut_to n full b \<Longrightarrow> cut_to n (fold unbounded us full) (fold (scan_put n) us b)"
  by (induction us arbitrary: full b) (simp_all add: cut_to_step)

lemma scan_keeps_smallest: "cut_to n (fold unbounded us []) (fold (scan_put n) us [])"
  by (rule cut_to_scan) (simp add: cut_to_def)

end
