(* ===== verification/Listing.thy ===== *)
theory Listing
  imports ForkIndex Paging
begin

text \<open>
  Listing a workspace: the tree below a path (\<open>ListTree\<close>, \<open>ListForkTree\<close>) and the files that match a query
  (\<open>QueryFiles\<close>, \<open>QueryForkFiles\<close>), page by page.  Both range over the file map once and keep one page
  plus a sentinel.

  The theorems say that the bounded scan returns what sorting the whole listing would, so that the
  pages of a tree or query are the contract of \<open>paged\<close>.
\<close>

section \<open>Trees\<close>

definition maxTreeEntriesPerPage :: nat where "maxTreeEntriesPerPage = 1000"

record TreeEntry =
  te_Path :: string
  te_Type :: string
  te_Target :: string
  te_Mode :: "32 word"
  te_Revision :: string
  te_ContentHash :: string
  te_Provider :: string
  te_ProviderObjectID :: string
  te_Size :: nat
  te_UpdatedAt :: string
  te_PropertyCount :: nat
  te_RelationCount :: nat
  te_PermissionCount :: nat
  te_CommentCount :: nat

record TreeResponse =
  tr_Path :: string
  tr_Entries :: "TreeEntry list"
  tr_NextCursor :: "string option"
  tr_TotalFiles :: nat

definition file_tree_entry :: "string \<Rightarrow> File \<Rightarrow> TreeEntry" where
  "file_tree_entry child file =
     \<lparr>te_Path = child, te_Type = (if TrimSpace (f_Type file) = '''' then ''file'' else f_Type file),
      te_Target = f_Target file, te_Mode = f_Mode file, te_Revision = f_Revision file,
      te_ContentHash = storedContentHashForFile file, te_Provider = f_Provider file,
      te_ProviderObjectID = f_ProviderObjectID file, te_Size = length (f_Content file), te_UpdatedAt = f_LastEditedAt file,
      te_PropertyCount = length (sem_Properties (f_Semantics file)),
      te_RelationCount = length (sem_Relations (f_Semantics file)),
      te_PermissionCount = length (sem_Permissions (f_Semantics file)),
      te_CommentCount = length (sem_Comments (f_Semantics file))\<rparr>"

definition dir_tree_entry :: "string \<Rightarrow> TreeEntry" where
  "dir_tree_entry child =
     \<lparr>te_Path = child, te_Type = ''dir'', te_Target = '''', te_Mode = 0, te_Revision = ''dir'', te_ContentHash = '''',
      te_Provider = '''', te_ProviderObjectID = '''', te_Size = 0, te_UpdatedAt = '''', te_PropertyCount = 0,
      te_RelationCount = 0, te_PermissionCount = 0, te_CommentCount = 0\<rparr>"

record tree_scan =
  ts_entries :: "(string, TreeEntry) gomap"
  ts_total :: nat
  ts_found :: bool

definition tree_child :: "string \<Rightarrow> string list \<Rightarrow> nat \<Rightarrow> string" where
  "tree_child base parts level = joinPath base (Join (take level parts) ''/'')"

definition tree_level :: "string \<Rightarrow> string \<Rightarrow> string list \<Rightarrow> File \<Rightarrow> nat \<Rightarrow> tree_scan \<Rightarrow> tree_scan" where
  "tree_level base cursor parts file level st =
     (let child = tree_child base parts level;
          st = (if child = cursor then st\<lparr>ts_found := True\<rparr> else st)
      in if cursor \<noteq> '''' \<and> child \<le> cursor then st
         else let m = ts_entries st;
                  m = (if level = length parts then mput child (file_tree_entry child file) m
                       else if map_of m child = None then mput child (dir_tree_entry child) m else m)
              in st\<lparr>ts_entries := retain (maxTreeEntriesPerPage + 1) m\<rparr>)"

definition tree_rest :: "string \<Rightarrow> string \<Rightarrow> string" where
  "tree_rest base filePath = TrimPrefix (TrimPrefix filePath base) ''/''"

definition tree_visit :: "string \<Rightarrow> nat \<Rightarrow> string \<Rightarrow> string \<times> File \<Rightarrow> tree_scan \<Rightarrow> tree_scan" where
  "tree_visit base depth cursor pf st =
     (let (filePath, file) = pf
      in if \<not> withinBase base filePath then st
         else let rest = tree_rest base filePath
              in if rest = '''' then st
                 else let st = st\<lparr>ts_total := ts_total st + 1\<rparr>;
                          parts = Split rest (CHR ''/'');
                          maxLevel = (if length parts < depth then length parts else depth)
                      in fold (tree_level base cursor parts file) [1..<Suc maxLevel] st)"

text \<open>\<open>visits\<close> is the sequence of calls of \<open>visit\<close> that the iterator makes.\<close>

definition listTreeFromEntries ::
  "(string \<times> File) list \<Rightarrow> string \<Rightarrow> int \<Rightarrow> string \<Rightarrow> store_error + TreeResponse" where
  "listTreeFromEntries visits path depth cursor =
     (let base = normalizePath path;
          depth = (if depth \<le> 0 then 1 else nat depth);
          st = fold (tree_visit base depth cursor) visits \<lparr>ts_entries = [], ts_total = 0, ts_found = (cursor = '''')\<rparr>
      in if \<not> ts_found st then Inl ErrInvalidInput
         else let entries = sort_key te_Path (map snd (ts_entries st));
                  entries = (if length entries > maxTreeEntriesPerPage then take maxTreeEntriesPerPage entries else entries);
                  nextCursor = (if length (ts_entries st) > maxTreeEntriesPerPage then Some (te_Path (last entries)) else None)
              in Inr \<lparr>tr_Path = base, tr_Entries = entries, tr_NextCursor = nextCursor, tr_TotalFiles = ts_total st\<rparr>)"

definition listTreeFromFiles :: "(string, File) gomap \<Rightarrow> string \<Rightarrow> int \<Rightarrow> string \<Rightarrow> store_error + TreeResponse" where
  "listTreeFromFiles files path depth cursor = listTreeFromEntries files path depth cursor"

text \<open>The files a fork shows: untouched live files, then what the overlay writes.\<close>

definition fork_entries :: "(string, File) gomap \<Rightarrow> (string, ForkOverlayEntry) gomap \<Rightarrow> (string \<times> File) list" where
  "fork_entries files overlay =
     filter (\<lambda>(filePath, file). map_of overlay (normalizePath filePath) = None) files
     @ List.map_filter (\<lambda>(filePath, entry).
         case oe_File entry of
           Some file \<Rightarrow>
             if oe_Type entry \<noteq> ''write'' then None
             else Some (normalizePath filePath, file\<lparr>f_Path := normalizePath filePath, f_Revision := oe_Revision entry\<rparr>)
         | None \<Rightarrow> None) overlay"

definition listTreeFromForkEntries ::
  "(string, File) gomap \<Rightarrow> (string, ForkOverlayEntry) gomap \<Rightarrow> string \<Rightarrow> int \<Rightarrow> string \<Rightarrow> store_error + TreeResponse" where
  "listTreeFromForkEntries files overlay path depth cursor = listTreeFromEntries (fork_entries files overlay) path depth cursor"

definition empty_tree :: "string \<Rightarrow> TreeResponse" where
  "empty_tree path = \<lparr>tr_Path = normalizePath path, tr_Entries = [], tr_NextCursor = None, tr_TotalFiles = 0\<rparr>"

definition ListTree :: "Store \<Rightarrow> string \<Rightarrow> string \<Rightarrow> int \<Rightarrow> string \<Rightarrow> store_error + TreeResponse" where
  "ListTree s workspaceID path depth cursor =
     (case map_of (s_workspaces s) workspaceID of
        None \<Rightarrow> Inr (empty_tree path)
      | Some ws \<Rightarrow> listTreeFromFiles (ws_Files ws) path depth cursor)"

definition ListForkTree ::
  "instant \<Rightarrow> string \<Rightarrow> string \<Rightarrow> string \<Rightarrow> int \<Rightarrow> string \<Rightarrow> Store \<Rightarrow> Store \<times> (store_error + TreeResponse)" where
  "ListForkTree now workspaceID forkID path depth cursor s =
     (case getLiveForkLocked now workspaceID forkID s of
        (s, Inl e) \<Rightarrow> (s, Inl e)
      | (s, Inr fork) \<Rightarrow>
          (case map_of (s_workspaces s) workspaceID of
             None \<Rightarrow> (s, Inr (empty_tree path))
           | Some ws \<Rightarrow> (s, listTreeFromForkEntries (ws_Files ws) (fs_Overlay fork) path depth cursor)))"

section \<open>Queries\<close>

record FileQueryRequest =
  fq_PathPrefix :: string
  fq_Provider :: string
  fq_Relation :: string
  fq_Permission :: string
  fq_Comment :: string
  fq_Properties :: "(string, string) gomap"
  fq_Cursor :: string
  fq_Limit :: int

record FileQueryItem =
  qi_Path :: string
  qi_Revision :: string
  qi_ContentType :: string
  qi_Provider :: string
  qi_ProviderObjectID :: string
  qi_LastEditedAt :: string
  qi_Size :: nat
  qi_Properties :: "(string, string) gomap"
  qi_Relations :: "string list"
  qi_Permissions :: "string list"
  qi_Comments :: "string list"

record FileQueryResponse =
  qr_Items :: "FileQueryItem list"
  qr_NextCursor :: "string option"

text \<open>The filters of a query, the cursor apart.\<close>

definition query_matches :: "FileQueryRequest \<Rightarrow> string \<Rightarrow> File \<Rightarrow> bool" where
  "query_matches req path file =
     (let base = (if fq_PathPrefix req = '''' then ''/'' else normalizePath (fq_PathPrefix req));
          provider = normalizeProvider (fq_Provider req);
          relation = TrimSpace (fq_Relation req);
          permission = TrimSpace (fq_Permission req);
          comment = TrimSpace (fq_Comment req);
          semantics = normalizeSemantics (f_Semantics file)
      in withinBase base path
         \<and> \<not> (provider \<noteq> '''' \<and> normalizeProvider (f_Provider file) \<noteq> provider)
         \<and> \<not> (relation \<noteq> '''' \<and> \<not> stringSliceContains (sem_Relations semantics) relation)
         \<and> \<not> (permission \<noteq> '''' \<and> \<not> stringSliceContains (sem_Permissions semantics) permission)
         \<and> \<not> (comment \<noteq> '''' \<and> \<not> stringSliceContains (sem_Comments semantics) comment)
         \<and> propertiesMatch (sem_Properties semantics) (normalizeProperties (fq_Properties req)))"

definition query_item :: "string \<Rightarrow> File \<Rightarrow> FileQueryItem" where
  "query_item path file =
     (let semantics = normalizeSemantics (f_Semantics file)
      in \<lparr>qi_Path = path, qi_Revision = f_Revision file, qi_ContentType = f_ContentType file, qi_Provider = f_Provider file,
          qi_ProviderObjectID = f_ProviderObjectID file, qi_LastEditedAt = f_LastEditedAt file,
          qi_Size = length (f_Content file), qi_Properties = sem_Properties semantics, qi_Relations = sem_Relations semantics,
          qi_Permissions = sem_Permissions semantics, qi_Comments = sem_Comments semantics\<rparr>)"

definition query_limit :: "FileQueryRequest \<Rightarrow> nat" where
  "query_limit req = (let limit = (if fq_Limit req \<le> 0 then 100 else fq_Limit req) in nat (if limit > 1000 then 1000 else limit))"

record query_scan =
  qs_candidates :: "(string, FileQueryItem) gomap"
  qs_found :: bool

definition query_visit :: "FileQueryRequest \<Rightarrow> string \<times> File \<Rightarrow> query_scan \<Rightarrow> query_scan" where
  "query_visit req pf st =
     (let (path, file) = pf; cursor = normalizePath (fq_Cursor req);
          st = (if path = cursor then st\<lparr>qs_found := True\<rparr> else st)
      in if TrimSpace (fq_Cursor req) \<noteq> '''' \<and> path \<le> cursor then st
         else if \<not> query_matches req path file then st
         else st\<lparr>qs_candidates := retain (query_limit req + 1) (mput path (query_item path file) (qs_candidates st))\<rparr>)"

definition queryFilesFromEntries :: "(string \<times> File) list \<Rightarrow> FileQueryRequest \<Rightarrow> store_error + FileQueryResponse" where
  "queryFilesFromEntries visits req =
     (let limit = query_limit req;
          st = fold (query_visit req) visits \<lparr>qs_candidates = [], qs_found = (TrimSpace (fq_Cursor req) = '''')\<rparr>
      in if \<not> qs_found st then Inl ErrInvalidInput
         else let items = map (\<lambda>path. the (map_of (qs_candidates st) path)) (sort (map fst (qs_candidates st)))
              in Inr (if length items > limit
                      then \<lparr>qr_Items = take limit items, qr_NextCursor = Some (qi_Path (items ! (limit - 1)))\<rparr>
                      else \<lparr>qr_Items = items, qr_NextCursor = None\<rparr>))"

definition queryFilesFromMap :: "(string, File) gomap \<Rightarrow> FileQueryRequest \<Rightarrow> store_error + FileQueryResponse" where
  "queryFilesFromMap files req = queryFilesFromEntries files req"

definition queryFilesFromForkEntries ::
  "(string, File) gomap \<Rightarrow> (string, ForkOverlayEntry) gomap \<Rightarrow> FileQueryRequest \<Rightarrow> store_error + FileQueryResponse" where
  "queryFilesFromForkEntries files overlay req = queryFilesFromEntries (fork_entries files overlay) req"

definition empty_query :: "FileQueryRequest \<Rightarrow> store_error + FileQueryResponse" where
  "empty_query req =
     (if TrimSpace (fq_Cursor req) \<noteq> '''' then Inl ErrInvalidInput else Inr \<lparr>qr_Items = [], qr_NextCursor = None\<rparr>)"

definition QueryFiles :: "Store \<Rightarrow> string \<Rightarrow> FileQueryRequest \<Rightarrow> store_error + FileQueryResponse" where
  "QueryFiles s workspaceID req =
     (if workspaceID = '''' then Inl ErrInvalidInput
      else case map_of (s_workspaces s) workspaceID of
        None \<Rightarrow> empty_query req
      | Some ws \<Rightarrow> queryFilesFromMap (ws_Files ws) req)"

definition QueryForkFiles ::
  "instant \<Rightarrow> string \<Rightarrow> string \<Rightarrow> FileQueryRequest \<Rightarrow> Store \<Rightarrow> Store \<times> (store_error + FileQueryResponse)" where
  "QueryForkFiles now workspaceID forkID req s =
     (if workspaceID = '''' \<or> TrimSpace forkID = '''' then (s, Inl ErrInvalidInput)
      else case getLiveForkLocked now workspaceID forkID s of
        (s, Inl e) \<Rightarrow> (s, Inl e)
      | (s, Inr fork) \<Rightarrow>
          (case map_of (s_workspaces s) workspaceID of
             None \<Rightarrow> (s, empty_query req)
           | Some ws \<Rightarrow> (s, queryFilesFromForkEntries (ws_Files ws) (fs_Overlay fork) req)))"

section \<open>The bounded tree scan\<close>

text \<open>What the visits put into the entry map, in order, if there were no cursor and no bound.\<close>

definition tree_update :: "string \<Rightarrow> string list \<Rightarrow> File \<Rightarrow> nat \<Rightarrow> string \<times> (TreeEntry option \<Rightarrow> TreeEntry)" where
  "tree_update base parts file level =
     (let child = tree_child base parts level
      in (child, \<lambda>old. if level = length parts then file_tree_entry child file
                       else case old of None \<Rightarrow> dir_tree_entry child | Some e \<Rightarrow> e))"

definition tree_parts :: "string \<Rightarrow> string \<times> File \<Rightarrow> string list" where
  "tree_parts base pf =
     (if withinBase base (fst pf) \<and> tree_rest base (fst pf) \<noteq> '''' then Split (tree_rest base (fst pf)) (CHR ''/'') else [])"

definition tree_updates :: "string \<Rightarrow> nat \<Rightarrow> (string \<times> File) list \<Rightarrow> (string \<times> (TreeEntry option \<Rightarrow> TreeEntry)) list" where
  "tree_updates base depth visits =
     concat (map (\<lambda>pf. map (tree_update base (tree_parts base pf) (snd pf)) [1..<Suc (min depth (length (tree_parts base pf)))]) visits)"

definition after_cursor :: "string \<Rightarrow> string \<times> 'b \<Rightarrow> bool" where
  "after_cursor cursor u \<longleftrightarrow> cursor = '''' \<or> fst u > cursor"

lemma mput_same: "map_of m k = Some v \<Longrightarrow> mput k v m = m"
  by (induction m) (auto split: if_splits)

lemma tree_level_scan:
  "tree_level base cursor parts file level st =
     st\<lparr>ts_entries := fold (scan_put (maxTreeEntriesPerPage + 1)) (filter (after_cursor cursor) [tree_update base parts file level]) (ts_entries st),
        ts_found := ts_found st \<or> cursor = tree_child base parts level\<rparr>"
  by (auto simp: tree_level_def tree_update_def after_cursor_def scan_put_def Let_def not_le mput_same split: option.split)

lemma tree_levels_scan:
  "fold (tree_level base cursor parts file) ls st =
     st\<lparr>ts_entries := fold (scan_put (maxTreeEntriesPerPage + 1)) (filter (after_cursor cursor) (map (tree_update base parts file) ls)) (ts_entries st),
        ts_found := ts_found st \<or> cursor \<in> tree_child base parts ` set ls\<rparr>"
  by (induction ls arbitrary: st) (auto simp: tree_level_scan)

definition counted :: "string \<Rightarrow> string \<times> File \<Rightarrow> bool" where
  "counted base pf \<longleftrightarrow> withinBase base (fst pf) \<and> tree_rest base (fst pf) \<noteq> ''''"

lemma if_less_min: "(if a < b then a else b) = min b (a :: nat)"
  by (simp add: min_def)

lemma tree_visit_scan:
  "tree_visit base depth cursor pf st =
     st\<lparr>ts_entries := fold (scan_put (maxTreeEntriesPerPage + 1)) (filter (after_cursor cursor) (tree_updates base depth [pf])) (ts_entries st),
        ts_total := ts_total st + (if counted base pf then 1 else 0),
        ts_found := ts_found st \<or> cursor \<in> fst ` set (tree_updates base depth [pf])\<rparr>"
proof (cases "counted base pf")
  case True
  let ?parts = "tree_parts base pf" and ?ls = "[1..<Suc (min depth (length (tree_parts base pf)))]"
  have visit: "tree_visit base depth cursor pf st = fold (tree_level base cursor ?parts (snd pf)) ?ls (st\<lparr>ts_total := ts_total st + 1\<rparr>)"
    using True by (cases pf) (simp add: tree_visit_def counted_def tree_parts_def Let_def min.commute min_def [symmetric] if_less_min del: upt_Suc)
  have "tree_updates base depth [pf] = map (tree_update base ?parts (snd pf)) ?ls" by (simp only: tree_updates_def) simp
  moreover have "fst ` set (map (tree_update base ?parts (snd pf)) ?ls) = tree_child base ?parts ` set ?ls"
    by (simp only: set_map image_image) (simp add: tree_update_def Let_def)
  ultimately show ?thesis using True unfolding visit tree_levels_scan by simp
next
  case False
  then show ?thesis by (cases pf) (simp add: tree_visit_def counted_def tree_updates_def tree_parts_def Let_def)
qed

lemma tree_visits_scan:
  "fold (tree_visit base depth cursor) visits st =
     st\<lparr>ts_entries := fold (scan_put (maxTreeEntriesPerPage + 1)) (filter (after_cursor cursor) (tree_updates base depth visits)) (ts_entries st),
        ts_total := ts_total st + length (filter (counted base) visits),
        ts_found := ts_found st \<or> cursor \<in> fst ` set (tree_updates base depth visits)\<rparr>"
proof (induction visits arbitrary: st)
  case (Cons v vs)
  have "tree_updates base depth (v # vs) = tree_updates base depth [v] @ tree_updates base depth vs" by (simp add: tree_updates_def)
  then show ?case by (simp add: Cons.IH tree_visit_scan [of base depth cursor v] image_Un disj_assoc)
qed (simp add: tree_updates_def)

section \<open>What a listing holds\<close>

definition sorted_values :: "(string, 'v) gomap \<Rightarrow> 'v list" where
  "sorted_values m = map (\<lambda>k. the (map_of m k)) (sort (keys m))"

lemma sorted_values_cut: "cut_to n full b \<Longrightarrow> sorted_values b = take n (sorted_values full)"
proof -
  assume cut: "cut_to n full b"
  then have "\<forall>k \<in> set (keys b). map_of b k = map_of full k" unfolding cut_to_def by blast
  then have "sorted_values b = map (\<lambda>k. the (map_of full k)) (sort (keys b))" by (simp add: sorted_values_def)
  also have "\<dots> = take n (sorted_values full)" using cut by (simp add: sorted_values_def cut_to_def take_map)
  finally show ?thesis .
qed

lemma unbounded_keys: "set (keys (fold unbounded us m)) = set (keys m) \<union> fst ` set us"
  by (induction us arbitrary: m) (auto simp: unbounded_def AList.dom_update simp del: AList.update.simps)

lemma unbounded_wf: "wf_map m \<Longrightarrow> wf_map (fold unbounded us m)"
  by (induction us arbitrary: m) (simp_all add: unbounded_def)

lemma unbounded_filter:
  assumes "\<And>k. P k \<Longrightarrow> map_of m' k = map_of m k" and "\<And>k. \<not> P k \<Longrightarrow> map_of m' k = None"
  shows "map_of (fold unbounded (filter (\<lambda>u. P (fst u)) us) m') k = (if P k then map_of (fold unbounded us m) k else None)"
  using assms
proof (induction us arbitrary: m m')
  case (Cons u us)
  show ?case
  proof (cases "P (fst u)")
    case True
    then have "map_of (fold unbounded (filter (\<lambda>u. P (fst u)) us) (unbounded u m')) k
        = (if P k then map_of (fold unbounded us (unbounded u m)) k else None)"
      using Cons.prems by (intro Cons.IH) (auto simp: unbounded_def AList.update_conv')
    then show ?thesis using True by simp
  next
    case False
    have "map_of m' j = map_of (unbounded u m) j" if "P j" for j
      using Cons.prems(1) [OF that] that False by (auto simp: unbounded_def AList.update_conv')
    then have "map_of (fold unbounded (filter (\<lambda>u. P (fst u)) us) m') k
        = (if P k then map_of (fold unbounded us (unbounded u m)) k else None)"
      using Cons.prems(2) by (intro Cons.IH)
    then show ?thesis using False by simp
  qed
qed simp

lemma map_of_keys_iff: "k \<in> set (keys m) \<longleftrightarrow> map_of m k \<noteq> None"
  by (simp add: map_of_eq_None_iff)

lemma sorted_values_filter:
  assumes "wf_map full" and "wf_map m" and "\<And>k. map_of m k = (if P k then map_of full k else None)"
  shows "sorted_values m = map (\<lambda>k. the (map_of full k)) (filter P (sort (keys full)))"
proof -
  have "set (keys m) = {k \<in> set (keys full). P k}" using assms(3) by (auto simp: map_of_keys_iff simp del: set_map split: if_splits)
  then have "sort (keys m) = filter P (sort (keys full))"
    using assms(1,2) by (intro sorted_distinct_set_unique) (auto simp: wf_map_def sorted_filter [of id, simplified])
  then show ?thesis using assms(3) by (auto simp: sorted_values_def)
qed

lemma filter_above:
  assumes "sorted xs" and "distinct xs" and "i < length xs"
  shows "filter (\<lambda>x. x > xs ! i) xs = drop (Suc i) xs"
proof -
  have "xs = take (Suc i) xs @ drop (Suc i) xs" by simp
  moreover have "filter (\<lambda>x. x > xs ! i) (take (Suc i) xs) = []"
    using assms by (auto simp: filter_empty_conv in_set_conv_nth not_less less_Suc_eq_le sorted_nth_mono)
  moreover have "filter (\<lambda>x. x > xs ! i) (drop (Suc i) xs) = drop (Suc i) xs"
    using sorted_wrt_nth_less [of "(<)" xs i] assms by (auto simp: filter_id_conv in_set_conv_nth strict_sorted_iff)
  ultimately show ?thesis by (metis filter_append append_Nil)
qed

lemma unbounded_key_field:
  assumes "\<And>u old. u \<in> set us \<Longrightarrow> (\<And>v. old = Some v \<Longrightarrow> fld v = fst u) \<Longrightarrow> fld (snd u old) = fst u"
    and "\<And>k v. map_of m k = Some v \<Longrightarrow> fld v = k"
    and "map_of (fold unbounded us m) k = Some v"
  shows "fld v = k"
  using assms
proof (induction us arbitrary: m)
  case (Cons u us)
  have "fld w = j" if "map_of (unbounded u m) j = Some w" for j w
    using that Cons.prems(1) [of u "map_of m (fst u)"] Cons.prems(2) by (auto simp: unbounded_def AList.update_conv' split: if_splits)
  then show ?case using Cons.IH [of "unbounded u m"] Cons.prems(1,3) by simp
qed simp

lemma sort_by_path:
  assumes "wf_map m" and "\<And>k v. map_of m k = Some v \<Longrightarrow> fld v = k"
  shows "sort_key fld (map snd m) = sorted_values m"
proof -
  have fld: "\<forall>kv \<in> set m. fld (snd kv) = fst kv" using assms map_of_mem [OF assms(1)] by force
  have keys: "map fld (map snd m) = keys m" using fld by simp
  have vals: "map fld (sorted_values m) = sort (keys m)"
    unfolding sorted_values_def map_map by (rule map_idI) (use assms(2) in \<open>auto simp: map_of_keys_iff simp del: set_map\<close>)
  have "set (sorted_values m) = set (map snd m)"
    using map_of_mem [OF assms(1)] by (force simp: sorted_values_def image_iff)
  moreover have dist: "distinct (map fld (map snd m))" using assms(1) unfolding keys wf_map_def .
 
  moreover from dist have "inj_on fld (set (map snd m))" "distinct (map snd m)" by (simp_all only: distinct_map)
  moreover have "sorted (map fld (sorted_values m))" "distinct (map fld (sorted_values m))"
    using vals assms(1) by (simp_all add: wf_map_def)
  ultimately show ?thesis
    by (intro map_sorted_distinct_set_unique [of fld]) (simp_all add: distinct_map)
qed

text \<open>A bounded scan from a cursor on, for entries that carry their key in the field \<open>fld\<close>.\<close>

lemma scan_after_cursor:
  assumes fld: "\<And>k v. map_of (fold unbounded us []) k = Some v \<Longrightarrow> fld v = k"
  shows "sorted_values (fold (scan_put n) (filter (after_cursor cursor) us) []) =
      take n (filter (\<lambda>v. cursor = '''' \<or> fld v > cursor) (sorted_values (fold unbounded us [])))
    \<and> wf_map (fold (scan_put n) (filter (after_cursor cursor) us) [])
    \<and> (\<forall>k v. map_of (fold (scan_put n) (filter (after_cursor cursor) us) []) k = Some v \<longrightarrow> fld v = k)"
proof -
  let ?P = "\<lambda>k. cursor = '''' \<or> k > cursor" and ?us' = "filter (after_cursor cursor) us" and ?all = "fold unbounded us []"
  let ?full = "fold unbounded ?us' []" and ?b = "fold (scan_put n) ?us' []"
  have cut: "cut_to n ?full ?b" by (rule scan_keeps_smallest)
  have us': "?us' = filter (\<lambda>u. ?P (fst u)) us" by (rule filter_cong) (simp_all add: after_cursor_def)
  have lookup: "map_of ?full k = (if ?P k then map_of ?all k else None)" for k
    unfolding us' by (rule unbounded_filter) simp_all
  have path: "fld v = k" if "map_of ?b k = Some v" for k v
  proof -
    have "k \<in> set (keys ?b)" using that by (simp add: map_of_keys_iff del: set_map)
    then have "map_of ?full k = Some v" using cut that unfolding cut_to_def by metis
    then show ?thesis using lookup fld by (simp split: if_splits)
  qed
  have "sorted_values ?b = take n (sorted_values ?full)" using cut by (rule sorted_values_cut)
  also have "sorted_values ?full = map (\<lambda>k. the (map_of ?all k)) (filter ?P (sort (keys ?all)))"
    using lookup by (intro sorted_values_filter) (simp_all add: unbounded_wf)
  also have "\<dots> = filter (\<lambda>v. ?P (fld v)) (sorted_values ?all)"
    unfolding sorted_values_def filter_map
    using fld by (intro arg_cong2 [of _ _ _ _ map] refl filter_cong) (auto simp: map_of_keys_iff simp del: set_map)
  finally show ?thesis using cut path by (auto simp: cut_to_def)
qed

lemma sorted_values_field:
  assumes "\<And>k v. map_of m k = Some v \<Longrightarrow> fld v = k"
  shows "map fld (sorted_values m) = sort (keys m)"
  unfolding sorted_values_def map_map
  by (rule map_idI) (use assms in \<open>auto simp: map_of_keys_iff simp del: set_map\<close>)

text \<open>What follows an entry in a strictly sorted listing.\<close>

lemma filter_after_nth:
  fixes fld :: "'a \<Rightarrow> 'b :: linorder"
  assumes "sorted_wrt (<) (map fld xs)" and "i < length xs"
  shows "filter (\<lambda>e. fld e > fld (xs ! i)) xs = drop (Suc i) xs"
proof -
  have inj: "inj_on fld (set xs)" using assms(1) by (simp add: strict_sorted_iff distinct_map)
  have "map fld (filter (\<lambda>e. fld e > fld (xs ! i)) xs) = filter (\<lambda>k. k > map fld xs ! i) (map fld xs)"
    using assms(2) by (simp add: filter_map comp_def)
  also have "\<dots> = map fld (drop (Suc i) xs)"
    using filter_above [of "map fld xs" i] assms by (simp add: strict_sorted_iff drop_map)
  finally show ?thesis by (rule map_inj_on) (rule inj_on_subset [OF inj], auto dest: in_set_dropD)
qed

section \<open>The tree, page by page\<close>

definition tree_depth :: "int \<Rightarrow> nat" where
  "tree_depth depth = (if depth \<le> 0 then 1 else nat depth)"

definition tree_map :: "(string \<times> File) list \<Rightarrow> string \<Rightarrow> int \<Rightarrow> (string, TreeEntry) gomap" where
  "tree_map visits path depth = fold unbounded (tree_updates (normalizePath path) (tree_depth depth) visits) []"

definition tree_listing :: "(string \<times> File) list \<Rightarrow> string \<Rightarrow> int \<Rightarrow> TreeEntry list" where
  "tree_listing visits path depth = sorted_values (tree_map visits path depth)"

lemma tree_update_path:
  assumes "u \<in> set (tree_updates base depth visits)" and "\<And>v. old = Some v \<Longrightarrow> te_Path v = fst u"
  shows "te_Path (snd u old) = fst u"
  using assms by (auto simp: tree_updates_def tree_update_def file_tree_entry_def dir_tree_entry_def Let_def split: option.split)

lemma tree_map_facts:
  "wf_map (tree_map visits path depth)" "map_of (tree_map visits path depth) k = Some e \<Longrightarrow> te_Path e = k"
  "set (keys (tree_map visits path depth)) = fst ` set (tree_updates (normalizePath path) (tree_depth depth) visits)"
proof -
  show "wf_map (tree_map visits path depth)" by (simp add: tree_map_def unbounded_wf)
  show "te_Path e = k" if "map_of (tree_map visits path depth) k = Some e"
    using that unfolding tree_map_def by (rule unbounded_key_field [rotated 2]) (auto intro: tree_update_path)
  show "set (keys (tree_map visits path depth)) = fst ` set (tree_updates (normalizePath path) (tree_depth depth) visits)"
    unfolding tree_map_def unbounded_keys by simp
qed

lemma tree_listing_paths: "map te_Path (tree_listing visits path depth) = sort (keys (tree_map visits path depth))"
  unfolding tree_listing_def by (rule sorted_values_field) (rule tree_map_facts(2))

text \<open>The part of the listing after a cursor.\<close>

definition tree_after :: "(string \<times> File) list \<Rightarrow> string \<Rightarrow> int \<Rightarrow> string \<Rightarrow> TreeEntry list" where
  "tree_after visits path depth cursor = filter (\<lambda>e. cursor = '''' \<or> te_Path e > cursor) (tree_listing visits path depth)"

lemma tree_scan_result:
  "sort_key te_Path (map snd (fold (scan_put n) (filter (after_cursor cursor)
      (tree_updates (normalizePath path) (tree_depth depth) visits)) [])) = take n (tree_after visits path depth cursor)"
proof -
  let ?us = "tree_updates (normalizePath path) (tree_depth depth) visits"
  have fld: "\<And>k v. map_of (fold unbounded ?us []) k = Some v \<Longrightarrow> te_Path v = k" using tree_map_facts(2) unfolding tree_map_def .
  note scan = scan_after_cursor [where us = ?us and fld = te_Path and cursor = cursor and n = n, OF fld]
  show ?thesis
    using scan by (simp add: sort_by_path tree_after_def tree_listing_def tree_map_def)
qed

lemma tree_page:
  assumes "cursor = '''' \<or> cursor \<in> te_Path ` set (tree_listing visits path depth)"
  shows "listTreeFromEntries visits path depth cursor =
    Inr \<lparr>tr_Path = normalizePath path, tr_Entries = take maxTreeEntriesPerPage (tree_after visits path depth cursor),
         tr_NextCursor = (if length (tree_after visits path depth cursor) > maxTreeEntriesPerPage
           then Some (te_Path (tree_after visits path depth cursor ! (maxTreeEntriesPerPage - 1))) else None),
         tr_TotalFiles = length (filter (counted (normalizePath path)) visits)\<rparr>"
proof -
  let ?us = "tree_updates (normalizePath path) (tree_depth depth) visits"
  let ?after = "tree_after visits path depth cursor" and ?n = maxTreeEntriesPerPage
  let ?b = "fold (scan_put (?n + 1)) (filter (after_cursor cursor) ?us) []"
  have "te_Path ` set (tree_listing visits path depth) = fst ` set ?us"
    using tree_listing_paths [of visits path depth] tree_map_facts(3) [of visits path depth] by (metis set_map set_sort)
  then have found: "cursor = '''' \<or> cursor \<in> fst ` set ?us" using assms by simp
  have entries: "sort_key te_Path (map snd ?b) = take (?n + 1) ?after" by (rule tree_scan_result)
  then have len: "length ?b = min (length ?after) (?n + 1)" by (metis length_map length_sort length_take)
  have last: "te_Path (last (take ?n ?after)) = te_Path (?after ! (?n - 1))" if "length ?after > ?n"
    using that by (simp add: last_conv_nth maxTreeEntriesPerPage_def) (subst last_conv_nth; auto)
  show ?thesis
    using found entries len last
    by (auto simp: listTreeFromEntries_def tree_depth_def [symmetric] tree_visits_scan Let_def min_def take_Suc_conv_app_nth)
qed

lemma tree_after_start: "tree_after visits path depth '''' = tree_listing visits path depth"
  by (simp add: tree_after_def)

lemma tree_listing_strict: "sorted_wrt (<) (map te_Path (tree_listing visits path depth))"
  using tree_map_facts(1) [of visits path depth] by (simp add: tree_listing_paths strict_sorted_iff wf_map_def)

lemma child_nonempty: "tree_child base parts level \<noteq> ''''"
  by (simp add: tree_child_def joinPath_def Let_def)

lemma tree_listing_nonempty: "e \<in> set (tree_listing visits path depth) \<Longrightarrow> te_Path e \<noteq> ''''"
proof -
  assume "e \<in> set (tree_listing visits path depth)"
  then have "te_Path e \<in> fst ` set (tree_updates (normalizePath path) (tree_depth depth) visits)"
    using tree_listing_paths [of visits path depth] tree_map_facts(3) [of visits path depth] by (metis image_eqI set_map set_sort)
  then show ?thesis by (auto simp: tree_updates_def tree_update_def Let_def child_nonempty child_nonempty [symmetric])
qed

lemma tree_after_nth:
  assumes "i < length (tree_listing visits path depth)"
  shows "tree_after visits path depth (te_Path (tree_listing visits path depth ! i)) = drop (Suc i) (tree_listing visits path depth)"
  using filter_after_nth [OF tree_listing_strict assms] tree_listing_nonempty [OF nth_mem [OF assms]] by (simp add: tree_after_def)

definition tree_page_of :: "store_error + TreeResponse \<Rightarrow> store_error + TreeEntry list \<times> string option" where
  "tree_page_of r = (case r of Inl e \<Rightarrow> Inl e | Inr resp \<Rightarrow> Inr (tr_Entries resp, tr_NextCursor resp))"

interpretation tree: paged "\<lambda>cursor. tree_page_of (listTreeFromEntries visits path depth cursor)" te_Path
  "tree_listing visits path depth" maxTreeEntriesPerPage for visits path depth
proof unfold_locales
  show "0 < maxTreeEntriesPerPage" by (simp add: maxTreeEntriesPerPage_def)
  show "tree_page_of (listTreeFromEntries visits path depth '''') = Inr (page_at maxTreeEntriesPerPage te_Path (tree_listing visits path depth) 0)"
    by (simp add: tree_page tree_page_of_def page_at_def tree_after_start)
  fix i assume i: "i < length (tree_listing visits path depth)"
  then have "te_Path (tree_listing visits path depth ! i) \<in> te_Path ` set (tree_listing visits path depth)" by simp
  then show "tree_page_of (listTreeFromEntries visits path depth (te_Path (tree_listing visits path depth ! i))) =
      Inr (page_at maxTreeEntriesPerPage te_Path (tree_listing visits path depth) (Suc i))"
    using i by (auto simp: tree_page tree_page_of_def page_at_def tree_after_nth maxTreeEntriesPerPage_def)
qed

text \<open>C37. Paging through a tree loses nothing and repeats nothing, whatever the iteration order of the map: a client
  that follows the cursors of \<open>ListTree\<close> gets the whole listing, strictly ordered by path, and the
  listing has an entry for a path exactly when some file below the base has it as its own path or as an
  ancestor at most \<open>depth\<close> levels down.\<close>

theorem list_tree_pages_complete:
  fixes s :: Store and w path :: string and depth :: int
  defines "L \<equiv> tree_listing (ws_Files (ws_of s w)) path depth"
  shows "crawl (\<lambda>cursor. tree_page_of (ListTree s w path depth cursor)) (Suc (length L)) '''' = Some L
    \<and> sorted_wrt (<) (map te_Path L)
    \<and> te_Path ` set L = {tree_child (normalizePath path) (tree_parts (normalizePath path) pf) level | pf level.
         pf \<in> set (ws_Files (ws_of s w)) \<and> 1 \<le> level \<and> level \<le> tree_depth depth
         \<and> level \<le> length (tree_parts (normalizePath path) pf)}"
proof (intro conjI)
  show "crawl (\<lambda>cursor. tree_page_of (ListTree s w path depth cursor)) (Suc (length L)) '''' = Some L"
  proof (cases "map_of (s_workspaces s) w")
    case None
    then have "L = []" by (simp add: L_def ws_of_def mget_or_def empty_workspace_def tree_listing_def sorted_values_def tree_map_def tree_updates_def)
    then show ?thesis using None by (simp add: ListTree_def empty_tree_def tree_page_of_def)
  next
    case (Some ws)
    then have "L = tree_listing (ws_Files ws) path depth" by (simp add: L_def ws_of_def mget_or_def)
    then show ?thesis using Some tree.crawl_all [of "ws_Files ws" path depth] by (simp add: ListTree_def listTreeFromFiles_def del: crawl.simps)
  qed
  show "sorted_wrt (<) (map te_Path L)" unfolding L_def by (rule tree_listing_strict)
  have "te_Path ` set L = fst ` set (tree_updates (normalizePath path) (tree_depth depth) (ws_Files (ws_of s w)))"
    unfolding L_def using tree_listing_paths tree_map_facts(3) by (metis set_map set_sort)
  also have "\<dots> = {tree_child (normalizePath path) (tree_parts (normalizePath path) pf) level | pf level.
         pf \<in> set (ws_Files (ws_of s w)) \<and> 1 \<le> level \<and> level \<le> tree_depth depth
         \<and> level \<le> length (tree_parts (normalizePath path) pf)}"
    by (force simp: tree_updates_def tree_update_def Let_def image_iff)
  finally show "te_Path ` set L = \<dots>" .
qed

section \<open>Queries, page by page\<close>

definition query_updates :: "FileQueryRequest \<Rightarrow> (string \<times> File) list \<Rightarrow> (string \<times> (FileQueryItem option \<Rightarrow> FileQueryItem)) list" where
  "query_updates req visits = map (\<lambda>(p, f). (p, \<lambda>_. query_item p f)) (filter (\<lambda>(p, f). query_matches req p f) visits)"

definition query_listing :: "FileQueryRequest \<Rightarrow> (string \<times> File) list \<Rightarrow> FileQueryItem list" where
  "query_listing req visits = sorted_values (fold unbounded (query_updates req visits) [])"

text \<open>The cursor a request stands for; blank means from the start.\<close>

definition query_cursor :: "FileQueryRequest \<Rightarrow> string" where
  "query_cursor req = (if TrimSpace (fq_Cursor req) = '''' then '''' else normalizePath (fq_Cursor req))"

lemma normalizePath_nonempty: "normalizePath p \<noteq> ''''"
proof -
  have "length q > 1 \<Longrightarrow> TrimSuffix q ''/'' \<noteq> []" for q by (auto simp: TrimSuffix_def)
  then show ?thesis by (auto simp: normalizePath_def Let_def)
qed

lemma query_visits_scan:
  "fold (query_visit req) visits st =
     st\<lparr>qs_candidates := fold (scan_put (query_limit req + 1)) (filter (after_cursor (query_cursor req)) (query_updates req visits)) (qs_candidates st),
        qs_found := qs_found st \<or> normalizePath (fq_Cursor req) \<in> fst ` set visits\<rparr>"
proof (induction visits arbitrary: st)
  case (Cons v vs)
  obtain p f where v: "v = (p, f)" by (cases v)
  have step: "query_visit req v st =
     st\<lparr>qs_candidates := fold (scan_put (query_limit req + 1)) (filter (after_cursor (query_cursor req)) (query_updates req [v])) (qs_candidates st),
        qs_found := qs_found st \<or> normalizePath (fq_Cursor req) = p\<rparr>"
    using normalizePath_nonempty
    by (auto simp: v query_visit_def query_updates_def after_cursor_def query_cursor_def scan_put_def Let_def not_le)
  have "query_updates req (v # vs) = query_updates req [v] @ query_updates req vs" by (simp add: query_updates_def)
  then show ?case by (simp add: Cons.IH step) (simp add: v disj_assoc)
qed (simp add: query_updates_def)

lemma query_listing_facts:
  "map_of (fold unbounded (query_updates req visits) []) k = Some v \<Longrightarrow> qi_Path v = k"
  "sorted_wrt (<) (map qi_Path (query_listing req visits))"
  "qi_Path ` set (query_listing req visits) = fst ` set (query_updates req visits)"
proof -
  show fld: "qi_Path v = k" if "map_of (fold unbounded (query_updates req visits) []) k = Some v" for k v
    using that by (rule unbounded_key_field [rotated 2]) (auto simp: query_updates_def query_item_def Let_def)
  have paths: "map qi_Path (query_listing req visits) = sort (keys (fold unbounded (query_updates req visits) []))"
    unfolding query_listing_def by (rule sorted_values_field) (rule fld)
  show "sorted_wrt (<) (map qi_Path (query_listing req visits))"
    unfolding paths using unbounded_wf [of "[]" "query_updates req visits"] by (simp add: strict_sorted_iff wf_map_def)
  show "qi_Path ` set (query_listing req visits) = fst ` set (query_updates req visits)"
    using paths unbounded_keys [of "query_updates req visits" "[]"] by (metis set_map set_sort list.simps(8) list.set(1) sup_bot_left)
qed

definition query_page_of :: "store_error + FileQueryResponse \<Rightarrow> store_error + FileQueryItem list \<times> string option" where
  "query_page_of r = (case r of Inl e \<Rightarrow> Inl e | Inr resp \<Rightarrow> Inr (qr_Items resp, qr_NextCursor resp))"

definition query_after :: "FileQueryRequest \<Rightarrow> (string \<times> File) list \<Rightarrow> FileQueryItem list" where
  "query_after req visits = filter (\<lambda>v. query_cursor req = '''' \<or> qi_Path v > query_cursor req) (query_listing req visits)"

lemma query_limit_pos: "0 < query_limit req"
  by (simp add: query_limit_def Let_def)

lemma query_page:
  assumes "query_cursor req = '''' \<or> query_cursor req \<in> fst ` set visits"
  shows "query_page_of (queryFilesFromEntries visits req) =
    Inr (take (query_limit req) (query_after req visits),
         if length (query_after req visits) > query_limit req then Some (qi_Path (query_after req visits ! (query_limit req - 1))) else None)"
proof -
  let ?n = "query_limit req" and ?us = "query_updates req visits"
  let ?b = "fold (scan_put (?n + 1)) (filter (after_cursor (query_cursor req)) ?us) []"
  have "sorted_values ?b = take (?n + 1) (query_after req visits)"
    using scan_after_cursor [where us = ?us and fld = qi_Path and cursor = "query_cursor req" and n = "?n + 1", OF query_listing_facts(1)]
    by (simp add: query_after_def query_listing_def)
  moreover have "TrimSpace (fq_Cursor req) = '''' \<or> normalizePath (fq_Cursor req) \<in> fst ` set visits"
    using assms normalizePath_nonempty [of "fq_Cursor req"] by (auto simp: query_cursor_def split: if_splits)
  ultimately show ?thesis
    using query_limit_pos [of req]
    by (simp add: queryFilesFromEntries_def query_page_of_def query_visits_scan Let_def flip: sorted_values_def)
qed

text \<open>The matching items do not depend on the cursor of the request.\<close>

lemma query_cursor_irrelevant [simp]:
  "query_listing (req\<lparr>fq_Cursor := c\<rparr>) visits = query_listing req visits" "query_limit (req\<lparr>fq_Cursor := c\<rparr>) = query_limit req"
  by (simp_all add: query_listing_def query_updates_def query_matches_def query_limit_def Let_def)

definition canonical_paths :: "(string \<times> File) list \<Rightarrow> bool" where
  "canonical_paths visits \<longleftrightarrow> list_all (\<lambda>(p, f). normalizePath p = p \<and> TrimSpace p \<noteq> '''') visits"

lemma query_paged:
  assumes "canonical_paths visits"
  shows "paged (\<lambda>c. query_page_of (queryFilesFromEntries visits (req\<lparr>fq_Cursor := c\<rparr>))) qi_Path (query_listing req visits) (query_limit req)"
proof
  show "0 < query_limit req" by (rule query_limit_pos)
  have start: "query_cursor (req\<lparr>fq_Cursor := ''''\<rparr>) = ''''" by (simp add: query_cursor_def)
  then show "query_page_of (queryFilesFromEntries visits (req\<lparr>fq_Cursor := ''''\<rparr>)) = Inr (page_at (query_limit req) qi_Path (query_listing req visits) 0)"
    by (simp add: query_page query_after_def page_at_def)
  fix i assume i: "i < length (query_listing req visits)"
  let ?p = "qi_Path (query_listing req visits ! i)"
  have "?p \<in> fst ` set (query_updates req visits)" using i query_listing_facts(3) [of req visits] by (metis image_eqI nth_mem)
  then have mem: "?p \<in> fst ` set visits" by (force simp: query_updates_def)
  then have cursor: "query_cursor (req\<lparr>fq_Cursor := ?p\<rparr>) = ?p" "?p \<noteq> ''''"
    using assms normalizePath_nonempty [of ?p] by (auto simp: canonical_paths_def list_all_iff query_cursor_def)
  have "query_after (req\<lparr>fq_Cursor := ?p\<rparr>) visits = drop (Suc i) (query_listing req visits)"
    using filter_after_nth [OF query_listing_facts(2) i] cursor by (simp add: query_after_def)
  then show "query_page_of (queryFilesFromEntries visits (req\<lparr>fq_Cursor := ?p\<rparr>)) =
      Inr (page_at (query_limit req) qi_Path (query_listing req visits) (Suc i))"
    using query_page [of "req\<lparr>fq_Cursor := ?p\<rparr>" visits] cursor mem query_limit_pos [of req] by (auto simp: page_at_def)
qed

text \<open>Paging through a query loses nothing and repeats nothing: when the files are stored under normalised
  paths, a client that follows the cursors of \<open>QueryFiles\<close> gets exactly the files that match, strictly
  ordered by path, whatever the page size and the iteration order of the map.\<close>

theorem query_pages_complete:
  assumes "map_of (s_workspaces s) w = Some ws" and "w \<noteq> ''''" and "canonical_paths (ws_Files ws)"
  shows "crawl (\<lambda>c. query_page_of (QueryFiles s w (req\<lparr>fq_Cursor := c\<rparr>))) (Suc (length (query_listing req (ws_Files ws)))) ''''
      = Some (query_listing req (ws_Files ws))
    \<and> sorted_wrt (<) (map qi_Path (query_listing req (ws_Files ws)))
    \<and> qi_Path ` set (query_listing req (ws_Files ws)) = {p. \<exists>f. (p, f) \<in> set (ws_Files ws) \<and> query_matches req p f}"
proof -
  have "fst ` set (query_updates req (ws_Files ws)) = {p. \<exists>f. (p, f) \<in> set (ws_Files ws) \<and> query_matches req p f}"
    by (force simp: query_updates_def)
  then show ?thesis
    using paged.crawl_all [OF query_paged [OF assms(3), of req]] query_listing_facts(2,3) assms(1,2)
    by (simp add: QueryFiles_def queryFilesFromMap_def del: crawl.simps)
qed

definition sample_query :: FileQueryRequest where
  "sample_query = \<lparr>fq_PathPrefix = '''', fq_Provider = '''', fq_Relation = '''', fq_Permission = '''', fq_Comment = '''',
     fq_Properties = [], fq_Cursor = '''', fq_Limit = 1\<rparr>"

definition two_files :: workspaceState where
  "two_files = empty_workspace\<lparr>ws_Files := [(''/b'', zero_file\<lparr>f_Path := ''/b''\<rparr>), (''/a'', zero_file\<lparr>f_Path := ''/a''\<rparr>)]\<rparr>"

theorem query_pages_complete_witness:
  "crawl (\<lambda>c. query_page_of (QueryFiles (NewStore\<lparr>s_workspaces := [(''w'', two_files)]\<rparr>) ''w'' (sample_query\<lparr>fq_Cursor := c\<rparr>)))
     (Suc (length (query_listing sample_query (ws_Files two_files)))) '''' = Some (query_listing sample_query (ws_Files two_files))"
proof -
  have "canonical_paths (ws_Files two_files)" by code_simp
  then show ?thesis
    using query_pages_complete [of "NewStore\<lparr>s_workspaces := [(''w'', two_files)]\<rparr>" "''w''" two_files sample_query] by (simp del: crawl.simps)
qed

text \<open>A fork of a workspace that has no state yet lists nothing, although it reads its own writes: the tree of
  the fork is empty whatever its overlay holds.\<close>

theorem fork_tree_of_new_workspace_empty:
  assumes "map_of (s_workspaces s) w = None" and "getLiveForkLocked now w i s = (s, Inr fork)"
    and "map_of (fs_Overlay fork) p = Some e" and "normalizePath p = p" and "TrimSpace p \<noteq> ''''" and "oe_Type e = ''write''" and "oe_File e = Some file"
  shows "ListForkTree now w i ''/'' depth '''' s = (s, Inr (empty_tree ''/'')) \<and> (\<exists>f. ReadForkFile now w i p s = (s, Inr f) \<and> f_Content f = f_Content file)"
  using assms by (simp add: ListForkTree_def ReadForkFile_def readForkFileLocked_def Let_def)

theorem fork_tree_of_new_workspace_empty_witness:
  "ListForkTree 0 ''w'' ''f'' ''/'' 1 '''' sample_fork_store = (sample_fork_store, Inr (empty_tree ''/''))"
proof -
  have live: "getLiveForkLocked 0 ''w'' ''f'' sample_fork_store = (sample_fork_store, Inr sample_fork)"
    using sample_live by (simp add: getLiveForkLocked_def sample_trim sample_fork_store_def) (simp add: sample_fork_def)
  have "map_of (s_workspaces sample_fork_store) ''w'' = None" by (simp add: sample_fork_store_def NewStore_def new_store_def)
  moreover have "normalizePath ''/a'' = ''/a''" "TrimSpace ''/a'' \<noteq> ''''" by code_simp+
  ultimately show ?thesis
    using fork_tree_of_new_workspace_empty [OF _ live, of "''/a''" sample_entry] by (simp add: sample_fork_def sample_entry_def)
qed

end
