(* ===== verification/Feeds.thy ===== *)
theory Feeds
  imports Listing "HOL-Library.Product_Lexorder"
begin

text \<open>
  The feeds of a workspace: its events (\<open>GetEvents\<close>, \<open>GetEventsTail\<close>, \<open>GetRecentEvents\<close> and the binary search of
  \<open>GetEventsAfterCursor\<close>), live subscribers, its operations, dead letters and pending writebacks.

  The event log is append-only with increasing ids (\<open>log_ok\<close>), so the binary search finds what a
  linear scan would.  A subscriber that asked for overflow signals sees an unbroken stretch of the log,
  and what it missed is what \<open>GetEventsAfterCursor\<close> returns after its last event.
\<close>

section \<open>Pages by cursor\<close>

text \<open>The index after the first item with the cursor as its key.\<close>

fun cursor_start :: "('a \<Rightarrow> string) \<Rightarrow> string \<Rightarrow> 'a list \<Rightarrow> nat option" where
  "cursor_start key cursor [] = None"
| "cursor_start key cursor (x # xs) =
     (if key x = cursor then Some 1 else map_option Suc (cursor_start key cursor xs))"

text \<open>The slice from \<open>start\<close> and the cursor of its last item if the slice does not reach the end.\<close>

definition page_slice :: "('a \<Rightarrow> string) \<Rightarrow> nat \<Rightarrow> nat \<Rightarrow> 'a list \<Rightarrow> 'a list \<times> string option" where
  "page_slice key limit start items =
     (if start \<ge> length items then ([], None)
      else let stop = (if start + limit > length items then length items else start + limit)
           in (take (stop - start) (drop start items),
               if stop < length items then Some (key (items ! (stop - 1))) else None))"

definition feed_limit :: "nat \<Rightarrow> int \<Rightarrow> nat" where
  "feed_limit fallback limit = (if limit \<le> 0 then fallback else nat limit)"

section \<open>Events\<close>

record EventFeed =
  ef_Events :: "Event list"
  ef_NextCursor :: "string option"

definition eventProvider :: "Event \<Rightarrow> string" where
  "eventProvider event =
     (let normalized = normalizeProvider (e_Provider event)
      in if normalized \<noteq> '''' then normalized
         else let path = normalizePath (e_Path event) in if path = ''/'' then '''' else inferProviderFromPath path)"

definition provider_events :: "string \<Rightarrow> Event list \<Rightarrow> Event list" where
  "provider_events provider events =
     (let normalized = normalizeProvider provider
      in if normalized \<noteq> '''' then filter (\<lambda>event. eventProvider event = normalized) events else events)"

definition empty_feed :: EventFeed where
  "empty_feed = \<lparr>ef_Events = [], ef_NextCursor = None\<rparr>"

definition GetEvents :: "Store \<Rightarrow> string \<Rightarrow> string \<Rightarrow> string \<Rightarrow> int \<Rightarrow> EventFeed" where
  "GetEvents s workspaceID provider cursor limit =
     (case map_of (s_workspaces s) workspaceID of
        None \<Rightarrow> empty_feed
      | Some ws \<Rightarrow>
          if ws_Events ws = [] then empty_feed
          else let limit = feed_limit 200 limit;
                   events = provider_events provider (ws_Events ws)
               in if events = [] then empty_feed
                  else let start = (if cursor \<noteq> '''' then (case cursor_start e_EventID cursor events of Some i \<Rightarrow> i | None \<Rightarrow> 0) else 0);
                           (chunk, next) = page_slice e_EventID limit start events
                       in \<lparr>ef_Events = chunk, ef_NextCursor = next\<rparr>)"

definition GetEventsTail :: "Store \<Rightarrow> string \<Rightarrow> string \<Rightarrow> string \<Rightarrow> int \<Rightarrow> EventFeed" where
  "GetEventsTail s workspaceID provider cursor limit =
     (case map_of (s_workspaces s) workspaceID of
        None \<Rightarrow> empty_feed
      | Some ws \<Rightarrow>
          if ws_Events ws = [] then empty_feed
          else let limit = feed_limit 200 limit;
                   events = provider_events provider (ws_Events ws)
               in if events = [] then empty_feed
                  else let stop = (if cursor \<noteq> '''' then (case cursor_start e_EventID cursor events of Some i \<Rightarrow> i - 1 | None \<Rightarrow> 0)
                                   else length events)
                       in if stop = 0 then empty_feed
                          else let start = stop - limit
                               in \<lparr>ef_Events = rev (take (stop - start) (drop start events)),
                                   ef_NextCursor = (if start > 0 then Some (e_EventID (events ! start)) else None)\<rparr>)"

definition GetRecentEvents :: "Store \<Rightarrow> string \<Rightarrow> int \<Rightarrow> store_error + Event list" where
  "GetRecentEvents s workspaceID limit =
     (if workspaceID = '''' then Inl ErrInvalidInput
      else if limit \<le> 0 then Inr []
      else case map_of (s_workspaces s) workspaceID of
        None \<Rightarrow> Inr []
      | Some ws \<Rightarrow> Inr (drop (length (ws_Events ws) - nat limit) (ws_Events ws)))"

definition parseEventIDOrdinal :: "string \<Rightarrow> nat option" where
  "parseEventIDOrdinal eventID =
     (let value = TrimPrefix (TrimSpace eventID) ''evt_''
      in if value = '''' \<or> value = eventID then None else ParseUint (2 ^ 64) value)"

text \<open>\<^verbatim>\<open>sort.Search\<close>: the loop keeps \<open>f\<close> false below \<open>i\<close> and true from \<open>j\<close> on.\<close>

function search_loop :: "nat \<Rightarrow> nat \<Rightarrow> (nat \<Rightarrow> bool) \<Rightarrow> nat" where
  "search_loop i j f =
     (if i < j then let h = (i + j) div 2 in if \<not> f h then search_loop (h + 1) j f else search_loop i h f else i)"
  by pat_completeness auto
termination by (relation "measure (\<lambda>(i, j, f). j - i)") auto

declare search_loop.simps [simp del]

definition Search :: "nat \<Rightarrow> (nat \<Rightarrow> bool) \<Rightarrow> nat" where
  "Search n f = search_loop 0 n f"

definition GetEventsAfterCursor :: "Store \<Rightarrow> string \<Rightarrow> string \<Rightarrow> int \<Rightarrow> store_error + Event list" where
  "GetEventsAfterCursor s workspaceID cursor limit =
     (if workspaceID = '''' \<or> TrimSpace cursor = '''' then Inl ErrInvalidInput
      else if limit \<le> 0 then Inr []
      else case map_of (s_workspaces s) workspaceID of
        None \<Rightarrow> Inr []
      | Some ws \<Rightarrow>
          let events = ws_Events ws
          in if events = [] then Inr []
             else case parseEventIDOrdinal cursor of
               None \<Rightarrow> Inr []
             | Some cursorOrdinal \<Rightarrow>
                 let index = Search (length events)
                       (\<lambda>i. case parseEventIDOrdinal (e_EventID (events ! i)) of None \<Rightarrow> False | Some ordinal \<Rightarrow> ordinal \<ge> cursorOrdinal)
                 in if index \<ge> length events \<or> e_EventID (events ! index) \<noteq> cursor then Inr []
                    else let start = index + 1
                         in if start \<ge> length events then Inr []
                            else Inr (take (nat limit) (drop start events)))"

section \<open>Subscribers\<close>

text \<open>\<open>cap\<close> is the capacity of the event channel, \<open>overflow\<close> the capacity and fill of the overflow channel if
  one is given.  \<open>Inl\<close> is the panic on an unusable overflow channel; the subscription id stands for the
  returned unsubscribe function.\<close>

definition SubscribeWithOverflow ::
  "string \<Rightarrow> nat option \<Rightarrow> (nat \<times> nat) option \<Rightarrow> Store \<Rightarrow> unit + Store \<times> nat option" where
  "SubscribeWithOverflow workspaceID ch overflow s =
     (let workspaceID = TrimSpace workspaceID
      in case ch of
           None \<Rightarrow> Inr (s, None)
         | Some cap \<Rightarrow>
             if workspaceID = '''' then Inr (s, None)
             else if (case overflow of None \<Rightarrow> False | Some (ocap, olen) \<Rightarrow> ocap < 1 \<or> olen \<noteq> 0) then Inl ()
             else let subID = s_subscriberCounter s + 1;
                      sub = \<lparr>sub_events = [], sub_cap = cap, sub_signals = (overflow \<noteq> None), sub_overflowed = False, sub_overflow = 0\<rparr>;
                      subs = mget_or [] (s_subscribers s) workspaceID
                  in Inr (s\<lparr>s_subscriberCounter := subID,
                            s_subscribers := mput workspaceID (mput subID sub subs) (s_subscribers s)\<rparr>, Some subID))"

definition Subscribe :: "string \<Rightarrow> nat option \<Rightarrow> Store \<Rightarrow> unit + Store \<times> nat option" where
  "Subscribe workspaceID ch s = SubscribeWithOverflow workspaceID ch None s"

definition unsubscribe :: "string \<Rightarrow> nat \<Rightarrow> Store \<Rightarrow> Store" where
  "unsubscribe workspaceID subID s =
     (let workspaceID = TrimSpace workspaceID
      in case map_of (s_subscribers s) workspaceID of
           None \<Rightarrow> s
         | Some subs \<Rightarrow>
             let subs = mdel subID subs
             in s\<lparr>s_subscribers := (if subs = [] then mdel workspaceID (s_subscribers s)
                                    else mput workspaceID subs (s_subscribers s))\<rparr>)"

section \<open>Operations, dead letters, pending writebacks\<close>

definition GetOperation :: "Store \<Rightarrow> string \<Rightarrow> string \<Rightarrow> store_error + OperationStatus" where
  "GetOperation s workspaceID opID =
     (case map_of (s_workspaces s) workspaceID of
        None \<Rightarrow> Inl ErrNotFound
      | Some ws \<Rightarrow> (case map_of (ws_Ops ws) opID of None \<Rightarrow> Inl ErrNotFound | Some op \<Rightarrow> Inr op))"

text \<open>\<^verbatim>\<open>strconv.ParseInt(s, 10, 64)\<close>.\<close>

definition ParseInt64 :: "string \<Rightarrow> int option" where
  "ParseInt64 s =
     (case s of
        [] \<Rightarrow> None
      | c # r \<Rightarrow>
          if c = CHR ''-'' then map_option (\<lambda>n. - int n) (ParseUint (2 ^ 63 + 1) r)
          else if c = CHR ''+'' then map_option int (ParseUint (2 ^ 63) r)
          else map_option int (ParseUint (2 ^ 63) s))"

definition operationIDSeq :: "string \<Rightarrow> int" where
  "operationIDSeq opID =
     (if \<not> HasPrefix opID ''op_'' then - 1
      else case ParseInt64 (TrimPrefix opID ''op_'') of None \<Rightarrow> - 1 | Some n \<Rightarrow> n)"

record OperationFeed =
  of_Items :: "OperationStatus list"
  of_NextCursor :: "string option"

definition operation_filter :: "string \<Rightarrow> string \<Rightarrow> string \<Rightarrow> OperationStatus \<Rightarrow> bool" where
  "operation_filter status action provider oper \<longleftrightarrow>
     (status = '''' \<or> op_Status oper = status) \<and> (action = '''' \<or> op_Action oper = action)
     \<and> (provider = '''' \<or> op_Provider oper = provider)"

text \<open>Newest first: the ids in descending order of their number, then of the id.\<close>

definition sorted_op_ids :: "string \<Rightarrow> string \<Rightarrow> string \<Rightarrow> (string, OperationStatus) gomap \<Rightarrow> string list" where
  "sorted_op_ids status action provider ops =
     rev (sort_key (\<lambda>opID. (operationIDSeq opID, opID)) (map fst (filter (\<lambda>(opID, oper). operation_filter status action provider oper) ops)))"

definition ListOperations ::
  "Store \<Rightarrow> string \<Rightarrow> string \<Rightarrow> string \<Rightarrow> string \<Rightarrow> string \<Rightarrow> int \<Rightarrow> store_error + OperationFeed" where
  "ListOperations s workspaceID status action provider cursor limit =
     (if workspaceID = '''' then Inl ErrInvalidInput
      else
        let provider = normalizeProvider provider; limit = feed_limit 100 limit
        in case map_of (s_workspaces s) workspaceID of
             None \<Rightarrow> if cursor \<noteq> '''' then Inl ErrInvalidInput else Inr \<lparr>of_Items = [], of_NextCursor = None\<rparr>
           | Some ws \<Rightarrow>
               let opIDs = sorted_op_ids status action provider (ws_Ops ws);
                   start = (if cursor \<noteq> '''' then cursor_start id cursor opIDs else Some 0)
               in case start of
                    None \<Rightarrow> Inl ErrInvalidInput
                  | Some start \<Rightarrow>
                      let (chunk, next) = page_slice id limit start opIDs
                      in Inr \<lparr>of_Items = map (\<lambda>opID. the (map_of (ws_Ops ws) opID)) chunk, of_NextCursor = next\<rparr>)"

record DeadLetterFeed =
  df_Items :: "EnvelopeDeadLetter list"
  df_NextCursor :: "string option"

definition sorted_dead_letters :: "string \<Rightarrow> string \<Rightarrow> Store \<Rightarrow> EnvelopeDeadLetter list" where
  "sorted_dead_letters workspaceID provider s =
     (let items = filter (\<lambda>dead. dl_WorkspaceID dead = workspaceID \<and> (provider = '''' \<or> dl_Provider dead = provider)) (map snd (s_deadLetters s))
      in rev (sort_key dl_FailedAt (rev (sort_key dl_EnvelopeID items))))"

definition ListDeadLetters :: "Store \<Rightarrow> string \<Rightarrow> string \<Rightarrow> string \<Rightarrow> int \<Rightarrow> store_error + DeadLetterFeed" where
  "ListDeadLetters s workspaceID provider cursor limit =
     (if workspaceID = '''' then Inl ErrInvalidInput
      else
        let provider = normalizeProvider provider; limit = feed_limit 100 limit;
            items = sorted_dead_letters workspaceID provider s;
            start = (if cursor \<noteq> '''' then cursor_start dl_EnvelopeID cursor items else Some 0)
        in case start of
             None \<Rightarrow> Inl ErrInvalidInput
           | Some start \<Rightarrow>
               let (chunk, next) = page_slice dl_EnvelopeID limit start items
               in Inr \<lparr>df_Items = chunk, df_NextCursor = next\<rparr>)"

definition GetDeadLetter :: "Store \<Rightarrow> string \<Rightarrow> string \<Rightarrow> store_error + EnvelopeDeadLetter" where
  "GetDeadLetter s workspaceID envelopeID =
     (if workspaceID = '''' \<or> envelopeID = '''' then Inl ErrInvalidInput
      else case map_of (s_deadLetters s) envelopeID of
        None \<Rightarrow> Inl ErrNotFound
      | Some item \<Rightarrow> if dl_WorkspaceID item \<noteq> workspaceID then Inl ErrNotFound else Inr item)"

record AckResponse =
  ack_Status :: string
  ack_ID :: string
  ack_CorrelationID :: string

definition AcknowledgeDeadLetter :: "string \<Rightarrow> string \<Rightarrow> string \<Rightarrow> Store \<Rightarrow> Store \<times> (store_error + AckResponse)" where
  "AcknowledgeDeadLetter workspaceID envelopeID correlationID s =
     (if workspaceID = '''' \<or> envelopeID = '''' then (s, Inl ErrInvalidInput)
      else case map_of (s_deadLetters s) envelopeID of
        None \<Rightarrow> (s, Inl ErrNotFound)
      | Some item \<Rightarrow>
          if dl_WorkspaceID item \<noteq> workspaceID then (s, Inl ErrNotFound)
          else (saveLocked (s\<lparr>s_deadLetters := mdel envelopeID (s_deadLetters s)\<rparr>),
                Inr \<lparr>ack_Status = ''acknowledged'', ack_ID = envelopeID, ack_CorrelationID = correlationID\<rparr>))"

text \<open>An item of \<open>GetPendingWritebacks\<close>: the queued task with the content identity the caller sees.\<close>

definition pending_item :: "workspaceState \<Rightarrow> WritebackQueueItem \<Rightarrow> WritebackQueueItem option" where
  "pending_item ws item =
     (case map_of (ws_Ops ws) (wq_OpID item) of
        None \<Rightarrow> None
      | Some oper \<Rightarrow>
          if op_Status oper \<noteq> ''pending'' \<and> op_Status oper \<noteq> ''running'' then None
          else Some (item\<lparr>wq_ContentIdentity :=
                 (if wq_ContentIdentity item \<noteq> None then wq_ContentIdentity item else op_ContentIdentity oper)\<rparr>))"

definition GetPendingWritebacks :: "Store \<Rightarrow> string \<Rightarrow> WritebackQueueItem list" where
  "GetPendingWritebacks s workspaceID =
     (case map_of (s_workspaces s) workspaceID of
        None \<Rightarrow> []
      | Some ws \<Rightarrow>
          List.map_filter (pending_item ws)
            (filter (\<lambda>item. wq_WorkspaceID item = workspaceID) (SnapshotWritebacks (s_writebackQueue s))))"

end
