(* ===== verification/FeedsCorrect.thy ===== *)
theory FeedsCorrect
  imports Feeds
begin

text \<open>
  Correctness of the feeds: the binary search over the event log against a linear scan, the pages of
  events against the contract of \<open>paged\<close>, and what a subscriber sees of the log.
\<close>

section \<open>Binary search\<close>

lemma search_loop_correct:
  assumes "i \<le> j" and "j \<le> n" and "\<forall>k < i. \<not> f k" and "\<forall>k. j \<le> k \<and> k < n \<longrightarrow> f k"
    and "\<forall>a b. a \<le> b \<and> b < n \<and> f a \<longrightarrow> f b"
  shows "search_loop i j f \<le> n \<and> (\<forall>k < search_loop i j f. \<not> f k) \<and> (\<forall>k. search_loop i j f \<le> k \<and> k < n \<longrightarrow> f k)"
  using assms
proof (induction i j f rule: search_loop.induct)
  case (1 i j f)
  show ?case
  proof (cases "i < j")
    case True
    let ?h = "(i + j) div 2"
    have h: "i \<le> ?h" "?h < j" "?h < n" using True 1(4) by auto
    show ?thesis
    proof (cases "f ?h")
      case False
      have "\<forall>k < ?h + 1. \<not> f k" using False 1(7) h(3) by (metis less_Suc_eq_le Suc_eq_plus1)
      moreover have "search_loop i j f = search_loop (?h + 1) j f" using False True by (subst search_loop.simps) (simp add: Let_def)
      moreover have "?h + 1 \<le> j" using h(2) by simp
      ultimately show ?thesis using 1(1) [OF True refl False _ 1(4) _ 1(6,7)] by metis
    next
      case ft: True
      have "\<forall>k. ?h \<le> k \<and> k < n \<longrightarrow> f k" using ft 1(7) by blast
      moreover have "search_loop i j f = search_loop i ?h f" using ft True by (subst search_loop.simps) (simp add: Let_def)
      moreover have "?h \<le> n" using h(3) by simp
      moreover have "\<not> \<not> f ?h" using ft by simp
      ultimately show ?thesis using 1(2) [OF True refl _ h(1) _ 1(5) _ 1(7)] by metis
    qed
  next
    case False
    moreover have "search_loop i j f = i" using False by (subst search_loop.simps) simp
    moreover have "i = j" using False 1(3) by simp
    ultimately show ?thesis using 1(4-6) by metis
  qed
qed

lemma Search_correct:
  assumes "\<And>a b. a \<le> b \<Longrightarrow> b < n \<Longrightarrow> f a \<Longrightarrow> f b"
  shows "Search n f \<le> n" and "k < Search n f \<Longrightarrow> \<not> f k" and "Search n f \<le> k \<Longrightarrow> k < n \<Longrightarrow> f k"
proof -
  have "Search n f \<le> n \<and> (\<forall>k < Search n f. \<not> f k) \<and> (\<forall>k. Search n f \<le> k \<and> k < n \<longrightarrow> f k)"
    unfolding Search_def by (rule search_loop_correct) (use assms in auto)
  then show "Search n f \<le> n" "k < Search n f \<Longrightarrow> \<not> f k" "Search n f \<le> k \<Longrightarrow> k < n \<Longrightarrow> f k" by blast+
qed

section \<open>Event ids\<close>

lemma TrimSpace_printable:
  assumes "s \<noteq> []" and "32 < (of_char (hd s) :: nat)" and "(of_char (hd s) :: nat) < 128"
    and "32 < (of_char (last s) :: nat)" and "(of_char (last s) :: nat) < 128"
  shows "TrimSpace s = s"
proof -
  have clean: "\<forall>q \<in> set space_seqs. q \<noteq> [] \<longrightarrow> \<not> (32 < (of_char (hd q) :: nat) \<and> (of_char (hd q) :: nat) < 128)
      \<and> \<not> (32 < (of_char (last q) :: nat) \<and> (of_char (last q) :: nat) < 128)"
    by (simp add: space_seqs_def)
  have "\<not> HasPrefix s q" if "q \<in> set space_seqs" "q \<noteq> []" for q
    using that clean assms by (auto simp: HasPrefix_iff hd_append)
  then have 1: "strip_front space_seqs s = s" by (intro strip_front_id) (simp add: front_clean_def)
  have "\<not> HasPrefix (rev s) (rev q)" if "q \<in> set space_seqs" "q \<noteq> []" for q
  proof
    assume "HasPrefix (rev s) (rev q)"
    then obtain r where "rev s = rev q @ r" by (auto simp: HasPrefix_iff)
    then have "s = rev r @ q" by (metis rev_append rev_rev_ident)
    then show False using that clean assms by auto
  qed
  then have "strip_front (map rev space_seqs) (rev s) = rev s" by (intro strip_front_id) (auto simp: front_clean_def)
  then show ?thesis using 1 by (simp add: TrimSpace_def)
qed

lemma parse_evt_id: "k < 2 ^ 64 \<Longrightarrow> parseEventIDOrdinal (evt_id k) = Some k"
proof -
  assume k: "k < 2 ^ 64"
  have "TrimSpace (evt_id k) = evt_id k"
  proof (rule TrimSpace_printable)
    show "32 < (of_char (last (evt_id k)) :: nat)" "(of_char (last (evt_id k)) :: nat) < 128"
      using itoa_digits [OF last_in_set [OF itoa_nonempty], of k] by (auto simp: evt_id_def)
  qed (simp_all add: evt_id_def)
  then show ?thesis using k by (simp add: parseEventIDOrdinal_def evt_id_def Let_def TrimPrefix_def HasPrefix_iff)
qed

section \<open>The event log\<close>

text \<open>The reference: what follows the first event with the cursor as its id, nothing if there is none.\<close>

definition events_after :: "string \<Rightarrow> Event list \<Rightarrow> Event list" where
  "events_after cursor events = (case cursor_start e_EventID cursor events of None \<Rightarrow> [] | Some i \<Rightarrow> drop i events)"

lemma cursor_start_Some: "cursor_start key c xs = Some i \<Longrightarrow> 0 < i \<and> i \<le> length xs \<and> key (xs ! (i - 1)) = c"
proof (induction xs arbitrary: i)
  case (Cons x xs)
  then show ?case by (auto split: if_splits simp: nth_Cons' )
qed simp

lemma cursor_start_None: "cursor_start key c xs = None \<longleftrightarrow> c \<notin> key ` set xs"
  by (induction xs) auto

lemma cursor_start_nth:
  assumes "distinct (map key xs)" and "i < length xs"
  shows "cursor_start key (key (xs ! i)) xs = Some (Suc i)"
  using assms
proof (induction xs arbitrary: i)
  case (Cons x xs)
  then show ?case by (cases i) (auto simp: image_iff)
qed simp

lemma log_ok_ids:
  assumes "log_ok n events"
  obtains ks where "map e_EventID events = map evt_id ks" and "sorted_wrt (<) ks" and "\<And>k. k \<in> set ks \<Longrightarrow> 0 < k \<and> k \<le> n"
  using assms unfolding log_ok_def by blast

lemma log_ok_distinct: "log_ok n events \<Longrightarrow> distinct (map e_EventID events)"
proof -
  assume "log_ok n events"
  then obtain ks where ks: "map e_EventID events = map evt_id ks" "sorted_wrt (<) ks" by (rule log_ok_ids)
  then show ?thesis by (simp add: distinct_map strict_sorted_iff inj_on_def)
qed

text \<open>C38. The binary search over the event log is a linear scan: for every workspace of a store that satisfies the
  invariant, and for any cursor and limit, \<open>GetEventsAfterCursor\<close> returns what follows the event with the
  cursor as its id, and nothing when there is no such event.\<close>

theorem events_after_cursor_is_linear_scan:
  assumes "store_inv s" and "s_eventCounter s < 2 ^ 64" and "w \<noteq> ''''" and "TrimSpace cursor \<noteq> ''''" and "0 < limit"
  shows "GetEventsAfterCursor s w cursor limit = Inr (take (nat limit) (events_after cursor (ws_Events (ws_of s w))))"
proof -
  let ?events = "ws_Events (ws_of s w)"
  have log: "log_ok (s_eventCounter s) ?events" using assms(1) by (simp add: store_inv_def ws_inv_def)
  then obtain ks where ks: "map e_EventID ?events = map evt_id ks" "sorted_wrt (<) ks" "\<And>k. k \<in> set ks \<Longrightarrow> k \<le> s_eventCounter s"
    by (rule log_ok_ids) auto
  have len: "length ks = length ?events" using ks(1) by (metis length_map)
  have id: "e_EventID (?events ! i) = evt_id (ks ! i)" if "i < length ?events" for i
    using ks(1) that len by (metis nth_map)
  have ord: "parseEventIDOrdinal (e_EventID (?events ! i)) = Some (ks ! i)" if "i < length ?events" for i
    using that id len ks(3) [of "ks ! i"] assms(2) by (simp add: parse_evt_id)
  show ?thesis
  proof (cases "parseEventIDOrdinal cursor")
    case None
    then have "cursor \<notin> e_EventID ` set ?events" using ord by (metis imageE in_set_conv_nth option.distinct(1))
    then have "events_after cursor ?events = []" using cursor_start_None [of e_EventID cursor ?events] by (simp add: events_after_def)
    then show ?thesis using None assms(3-5) by (simp add: GetEventsAfterCursor_def ws_of_def mget_or_def empty_workspace_def Let_def split: option.splits)
  next
    case (Some c)
    let ?f = "\<lambda>i. case parseEventIDOrdinal (e_EventID (?events ! i)) of None \<Rightarrow> False | Some ordinal \<Rightarrow> ordinal \<ge> c"
    have f: "?f i \<longleftrightarrow> c \<le> ks ! i" if "i < length ?events" for i using ord [OF that] by simp
    have mono: "?f b" if "a \<le> b" "b < length ?events" "?f a" for a b
      using that f ks(2) len by (metis order.trans le_less_trans sorted_nth_mono strict_sorted_iff)
    define r where "r = Search (length ?events) ?f"
    have r: "r \<le> length ?events" "\<And>k. k < r \<Longrightarrow> \<not> ?f k" "\<And>k. r \<le> k \<Longrightarrow> k < length ?events \<Longrightarrow> ?f k"
      unfolding r_def by (rule Search_correct [OF mono]; assumption)+
    have "GetEventsAfterCursor s w cursor limit =
        (if r \<ge> length ?events \<or> e_EventID (?events ! r) \<noteq> cursor then Inr [] else Inr (take (nat limit) (drop (r + 1) ?events)))"
      using assms(3-5) Some
      by (auto simp: GetEventsAfterCursor_def ws_of_def mget_or_def empty_workspace_def Let_def r_def split: option.splits)
    moreover have "events_after cursor ?events = (if r \<ge> length ?events \<or> e_EventID (?events ! r) \<noteq> cursor then [] else drop (r + 1) ?events)"
    proof (cases "r < length ?events \<and> e_EventID (?events ! r) = cursor")
      case True
      then show ?thesis using cursor_start_nth [OF log_ok_distinct [OF log], of r] by (auto simp: events_after_def)
    next
      case False
      have "cursor \<notin> e_EventID ` set ?events"
      proof
        assume "cursor \<in> e_EventID ` set ?events"
        then obtain i where i: "i < length ?events" "e_EventID (?events ! i) = cursor" by (auto simp: in_set_conv_nth)
        then have "ks ! i = c" using ord [OF i(1)] Some by simp
        then have "r \<le> i" using r(2) f i(1) by (metis not_less order_refl)
        moreover have "c \<le> ks ! r" if "r < length ?events" using r(3) f that by blast
        ultimately have "r = i" using \<open>ks ! i = c\<close> i(1) ks(2) len by (metis le_less_trans linorder_not_less nat_less_le sorted_wrt_nth_less)
        then show False using False i by simp
      qed
      then show ?thesis using False cursor_start_None [of e_EventID cursor ?events] by (auto simp: events_after_def)
    qed
    ultimately show ?thesis by auto
  qed
qed

theorem events_after_cursor_is_linear_scan_witness:
  "\<exists>s' result. WriteFile 0 sample_write NewStore = (s', Inr result)
     \<and> GetEventsAfterCursor s' ''w'' ''evt_1'' 10 = Inr (take 10 (events_after ''evt_1'' (ws_Events (ws_of s' ''w''))))"
proof -
  obtain s' result where w: "WriteFile 0 sample_write NewStore = (s', Inr result)" using sample_write_ok by blast
  have inv: "store_inv s'" using write_op.keeps_inv [OF store_inv_NewStore, of "(0, sample_write)"] w by simp
  have "s_eventCounter NewStore = 0" by (simp add: NewStore_def new_store_def)
  then have "s_eventCounter s' < 2 ^ 64"
    using w by (cases rule: WriteFile_total [of 0 sample_write NewStore]) (auto simp: store_simps)
  moreover have "TrimSpace ''evt_1'' \<noteq> ''''" by code_simp
  ultimately show ?thesis using events_after_cursor_is_linear_scan [OF inv, of "''w''" "''evt_1''" 10] w by auto
qed

section \<open>Subscribers\<close>

text \<open>A subscription with overflow signals, as its consumer sees it: events are published and the consumer
  takes them off the channel, in any order.\<close>

datatype sub_cmd = Publish Event | Receive

fun run_sub :: "sub_cmd list \<Rightarrow> eventSubscriber \<Rightarrow> Event list \<times> Event list \<times> eventSubscriber" where
  "run_sub [] sub = ([], [], sub)"
| "run_sub (Publish ev # cmds) sub =
     (let (published, received, sub') = run_sub cmds (publish_one ev sub) in (ev # published, received, sub'))"
| "run_sub (Receive # cmds) sub =
     (case sub_events sub of
        [] \<Rightarrow> run_sub cmds sub
      | ev # evs \<Rightarrow> (let (published, received, sub') = run_sub cmds (sub\<lparr>sub_events := evs\<rparr>) in (published, ev # received, sub')))"

lemma overflowed_stays:
  assumes "run_sub cmds sub = (published, received, sub')" and "sub_signals sub" and "sub_overflowed sub"
  shows "received @ sub_events sub' = sub_events sub \<and> sub_overflowed sub' \<and> sub_overflow sub' = sub_overflow sub"
  using assms
  by (induction cmds sub arbitrary: published received rule: run_sub.induct)
     (auto simp: publish_one_def Let_def split: prod.splits list.splits)

lemma run_sub_contiguous:
  assumes "run_sub cmds sub = (published, received, sub')" and "sub_signals sub" and "\<not> sub_overflowed sub" and "sub_overflow sub = 0"
  shows "\<exists>missed. sub_events sub @ published = received @ sub_events sub' @ missed
    \<and> (missed \<noteq> [] \<longleftrightarrow> sub_overflowed sub') \<and> sub_overflow sub' = (if sub_overflowed sub' then 1 else 0)"
  using assms
proof (induction cmds sub arbitrary: published received rule: run_sub.induct)
  case (1 sub)
  then show ?case by auto
next
  case (2 ev cmds sub)
  obtain pub where run: "run_sub cmds (publish_one ev sub) = (pub, received, sub')" "published = ev # pub"
    using 2(2) by (auto split: prod.splits)
  show ?case
  proof (cases "length (sub_events sub) < sub_cap sub")
    case True
    then have "publish_one ev sub = sub\<lparr>sub_events := sub_events sub @ [ev]\<rparr>" using 2(3,4) by (simp add: publish_one_def Let_def)
    then show ?thesis using 2(1) [OF run(1)] 2(3-5) run(2) by simp
  next
    case False
    then have "publish_one ev sub = sub\<lparr>sub_overflowed := True, sub_overflow := 1\<rparr>" using 2(3-5) by (simp add: publish_one_def Let_def)
    then have "received @ sub_events sub' = sub_events sub \<and> sub_overflowed sub'" "sub_overflow sub' = 1"
      using overflowed_stays [OF run(1)] 2(3) by auto
    then show ?thesis using run(2) by (intro exI [of _ "ev # pub"]) (auto simp: append_assoc [symmetric] simp del: append_assoc)
  qed
next
  case (3 cmds sub)
  then show ?case by (auto split: prod.splits list.splits)
qed

definition new_subscriber :: "nat \<Rightarrow> eventSubscriber" where
  "new_subscriber n = \<lparr>sub_events = [], sub_cap = n, sub_signals = True, sub_overflowed = False, sub_overflow = 0\<rparr>"

text \<open>A subscriber never skips an event unnoticed: whatever the interleaving of publishing and receiving, the
  events it received are the first ones published after it subscribed, in order; if it missed any, it was
  signalled exactly once; and the events after the last one it received are exactly those that follow it in
  the workspace log, so it can catch up from that cursor.\<close>

theorem subscriber_can_resume:
  assumes "run_sub cmds (new_subscriber n) = (published, received, sub')" and "log_ok k (old @ published)" and "received \<noteq> []"
  shows "received = take (length received) published
    \<and> events_after (e_EventID (last received)) (old @ published) = drop (length received) published
    \<and> (sub_overflow sub' = 1 \<longleftrightarrow> received @ sub_events sub' \<noteq> published) \<and> sub_overflow sub' \<le> 1"
proof -
  obtain missed where m: "published = received @ sub_events sub' @ missed" "missed \<noteq> [] \<longleftrightarrow> sub_overflowed sub'"
    "sub_overflow sub' = (if sub_overflowed sub' then 1 else 0)"
    using run_sub_contiguous [OF assms(1)] by (auto simp: new_subscriber_def)
  let ?log = "old @ published" and ?i = "length old + length received - 1"
  have i: "?i < length ?log" "?log ! ?i = last received"
    using assms(3) m(1) by (cases received rule: rev_cases; simp add: nth_append)+
  have "cursor_start e_EventID (e_EventID (?log ! ?i)) ?log = Some (Suc ?i)"
    by (rule cursor_start_nth [OF log_ok_distinct [OF assms(2)] i(1)])
  then have "events_after (e_EventID (last received)) ?log = drop (Suc ?i) ?log" using i(2) by (simp add: events_after_def)
  also have "Suc ?i = length old + length received" using assms(3) by (cases received) simp_all
  finally show ?thesis using m by (auto simp: length_0_conv)
qed

lemma log_ok_single: "e_EventID ev = ''evt_1'' \<Longrightarrow> log_ok 1 [ev]"
proof -
  assume "e_EventID ev = ''evt_1''"
  moreover have "evt_id 1 = ''evt_1''" by code_simp
  ultimately show ?thesis unfolding log_ok_def by (intro exI [of _ "[1]"]) simp
qed

theorem subscriber_can_resume_witness:
  "\<exists>ev :: Event. events_after (e_EventID ev) [ev] = []"
proof -
  define ev where "ev = write_event 0 ''/a'' ''rev_1'' ''file.created'' '''' '''' None empty_workspace ''evt_1''"
  have run: "run_sub [Publish ev, Receive] (new_subscriber 1) = ([ev], [ev], new_subscriber 1)"
    by (simp add: new_subscriber_def publish_one_def Let_def)
  have "e_EventID ev = ''evt_1''" by (simp add: ev_def write_event_def)
  then have "log_ok 1 ([] @ [ev])" using log_ok_single by simp
  from subscriber_can_resume [OF run this] show ?thesis by auto
qed

section \<open>Pages of events\<close>

lemma page_slice_page_at: "0 < limit \<Longrightarrow> page_slice key limit start items = page_at limit key items start"
  by (auto simp: page_slice_def page_at_def Let_def)

definition event_page_of :: "EventFeed \<Rightarrow> store_error + Event list \<times> string option" where
  "event_page_of feed = Inr (ef_Events feed, ef_NextCursor feed)"

lemma feed_limit_pos: "0 < d \<Longrightarrow> 0 < feed_limit d n"
  by (simp add: feed_limit_def)

lemma events_paged:
  assumes "log_ok n (ws_Events ws)" and "map_of (s_workspaces s) w = Some ws"
  shows "paged (\<lambda>c. event_page_of (GetEvents s w provider c limit)) e_EventID (provider_events provider (ws_Events ws)) (feed_limit 200 limit)"
proof
  let ?E = "provider_events provider (ws_Events ws)"
  show pos: "0 < feed_limit 200 limit" by (simp add: feed_limit_pos)
  have nil: "ws_Events ws = [] \<Longrightarrow> ?E = []" by (simp add: provider_events_def Let_def)
  have page: "event_page_of (GetEvents s w provider c limit) = Inr (page_at (feed_limit 200 limit) e_EventID ?E
      (if c \<noteq> '''' then case cursor_start e_EventID c ?E of Some i \<Rightarrow> i | None \<Rightarrow> 0 else 0))" for c
    using assms(2) nil pos
    by (auto simp: GetEvents_def event_page_of_def empty_feed_def Let_def page_slice_page_at split: prod.splits) (auto simp: page_at_def)
  show "event_page_of (GetEvents s w provider '''' limit) = Inr (page_at (feed_limit 200 limit) e_EventID ?E 0)" by (simp add: page)
  fix i assume i: "i < length ?E"
  have dist: "distinct (map e_EventID ?E)"
    using log_ok_distinct [OF assms(1)] by (auto simp: provider_events_def Let_def distinct_map_filter)
  obtain ks where ks: "map e_EventID (ws_Events ws) = map evt_id ks" using log_ok_ids [OF assms(1)] by metis
  have "?E ! i \<in> set (ws_Events ws)" using nth_mem [OF i] by (auto simp: provider_events_def Let_def split: if_splits)
  then have "e_EventID (?E ! i) \<in> evt_id ` set ks" using ks by (metis image_eqI set_map)
  then have "e_EventID (?E ! i) \<noteq> ''''" by (auto simp: evt_id_def)
  then show "event_page_of (GetEvents s w provider (e_EventID (?E ! i)) limit) = Inr (page_at (feed_limit 200 limit) e_EventID ?E (Suc i))"
    using cursor_start_nth [OF dist i] by (simp add: page)
qed

text \<open>A reader that follows the cursors of \<open>GetEvents\<close> sees every event of the workspace (of the provider, if one
  is given) exactly once and in the order they happened.\<close>

theorem event_feed_complete:
  assumes "store_inv s" and "map_of (s_workspaces s) w = Some ws"
  shows "crawl (\<lambda>c. event_page_of (GetEvents s w provider c limit)) (Suc (length (provider_events provider (ws_Events ws)))) ''''
    = Some (provider_events provider (ws_Events ws))"
proof -
  have "ws_of s w = ws" using assms(2) by (simp add: ws_of_def mget_or_def)
  then have "log_ok (s_eventCounter s) (ws_Events ws)" using assms(1) by (auto simp: store_inv_def ws_inv_def)
  from paged.crawl_all [OF events_paged [OF this assms(2)]] show ?thesis .
qed

theorem event_feed_complete_witness:
  "\<exists>ws :: workspaceState. crawl (\<lambda>c. event_page_of (GetEvents (ensureWorkspaceLocked ''w'' NewStore) ''w'' '''' c 1)) (Suc (length (provider_events '''' (ws_Events ws)))) ''''
    = Some (provider_events '''' (ws_Events ws))"
proof -
  obtain ws where "map_of (s_workspaces (ensureWorkspaceLocked ''w'' NewStore)) ''w'' = Some ws"
    using ensure_known [of "''w''" NewStore] by (metis map_of_eq_None_iff not_None_eq)
  then show ?thesis using event_feed_complete [of "ensureWorkspaceLocked ''w'' NewStore" "''w''" ws "''''" 1] store_inv_ensure [OF store_inv_NewStore] by (intro exI [of _ ws]) simp
qed

end
