(* ===== verification/Writeback.thy ===== *)
theory Writeback
  imports FeedsCorrect
begin

text \<open>
  Writebacks: the operations a write leaves behind are executed against the external provider by a worker
  (or by an external consumer that acknowledges them), retried, dead-lettered, replayed, and quarantined at boot.

  The provider is code outside the repository and is called outside the store lock: its outcome is an argument, and an
  attempt is two steps, \<open>wb_begin\<close> and \<open>wb_finish\<close>, between which other operations may run.  A retry timer is
  the task it will enqueue, returned by the step that starts it.
\<close>

section \<open>Suppression markers\<close>

definition pruneSuppressionsLocked :: "instant \<Rightarrow> Store \<Rightarrow> Store" where
  "pruneSuppressionsLocked now s = s\<lparr>s_suppressions := filter (\<lambda>(key, expiresAt). now < expiresAt) (s_suppressions s)\<rparr>"

definition recordSuppressionLocked :: "string \<Rightarrow> string \<Rightarrow> string \<Rightarrow> string \<Rightarrow> instant \<Rightarrow> Store \<Rightarrow> Store" where
  "recordSuppressionLocked workspaceID provider opID correlationID now s =
     (if cfg_suppressionWindow (s_cfg s) \<le> 0 \<or> workspaceID = '''' \<or> provider = '''' then s
      else let s = pruneSuppressionsLocked now s;
               expiresAt = now + cfg_suppressionWindow (s_cfg s);
               sup = s_suppressions s;
               sup = (if opID \<noteq> '''' then mput (suppressionKey workspaceID provider (''op:'' @ opID)) expiresAt sup else sup);
               sup = (if correlationID \<noteq> '''' then mput (suppressionKey workspaceID provider (''corr:'' @ correlationID)) expiresAt sup else sup)
           in s\<lparr>s_suppressions := sup\<rparr>)"

section \<open>One attempt\<close>

record WritebackAction =
  wa_WorkspaceID :: string
  wa_Path :: string
  wa_Revision :: string
  wa_Type :: string
  wa_ContentType :: string
  wa_Content :: string
  wa_ContentIdentity :: "ContentIdentity option"
  wa_Provider :: string
  wa_ProviderObjectID :: string
  wa_CorrelationID :: string

type_synonym provider_outcome = "string + (string, json) gomap"

definition mergeProviderResult :: "string \<Rightarrow> (string, json) gomap \<Rightarrow> (string, json) gomap" where
  "mergeProviderResult revision providerResult = mput ''providerRevision'' (JString revision) providerResult"

definition armed :: "OperationStatus \<Rightarrow> bool" where
  "armed oper \<longleftrightarrow> op_Status oper = ''pending'' \<or> op_Status oper = ''running''"

text \<open>Step 1: the task with its path and revision filled in, the action to execute and the number of the attempt;
  \<open>None\<close> when there is nothing to do.\<close>

definition wb_begin :: "WritebackQueueItem \<Rightarrow> Store \<Rightarrow> (WritebackQueueItem \<times> WritebackAction \<times> int) option" where
  "wb_begin task s =
     (case map_of (s_workspaces s) (wq_WorkspaceID task) of
        None \<Rightarrow> None
      | Some ws \<Rightarrow>
          (case map_of (ws_Ops ws) (wq_OpID task) of
             None \<Rightarrow> None
           | Some oper \<Rightarrow>
               if op_Status oper \<noteq> ''pending'' \<and> op_Status oper \<noteq> ''running'' then None
               else
                 let task = (if wq_Path task = '''' then task\<lparr>wq_Path := op_Path oper\<rparr> else task);
                     task = (if wq_Revision task = '''' then task\<lparr>wq_Revision := op_Revision oper\<rparr> else task);
                     existing = map_of (ws_Files ws) (wq_Path task);
                     type1 = op_Action oper;
                     type2 = (if type1 = '''' then (if existing \<noteq> None then ''file_upsert'' else ''file_delete'') else type1);
                     action = \<lparr>wa_WorkspaceID = wq_WorkspaceID task, wa_Path = wq_Path task, wa_Revision = wq_Revision task,
                               wa_Type = type2, wa_ContentType = '''', wa_Content = '''',
                               wa_ContentIdentity = (if wq_ContentIdentity task = None then op_ContentIdentity oper else wq_ContentIdentity task),
                               wa_Provider = op_Provider oper, wa_ProviderObjectID = '''', wa_CorrelationID = wq_CorrelationID task\<rparr>;
                     action = (case existing of
                                 None \<Rightarrow> action
                               | Some file \<Rightarrow>
                                   let action = action\<lparr>wa_Provider := f_Provider file, wa_ProviderObjectID := f_ProviderObjectID file\<rparr>
                                   in if type2 = ''file_upsert''
                                      then action\<lparr>wa_ContentType := f_ContentType file, wa_Content := f_Content file\<rparr> else action)
                 in Some (task, action, op_AttemptCount oper + 1)))"

text \<open>The writers the store was configured with; an adapter may lack the outbound half.\<close>

record writers =
  w_action :: "(WritebackAction \<Rightarrow> provider_outcome) option"
  w_write :: "(string \<Rightarrow> string \<Rightarrow> string \<Rightarrow> provider_outcome) option"
  w_adapters :: "(string, (WritebackAction \<Rightarrow> provider_outcome) option) gomap"

definition provider_write :: "writers \<Rightarrow> WritebackQueueItem \<Rightarrow> provider_outcome" where
  "provider_write ws task =
     (case w_write ws of
        Some f \<Rightarrow> f (wq_WorkspaceID task) (wq_Path task) (wq_Revision task)
      | None \<Rightarrow> Inr [])"

definition execute_write :: "writers \<Rightarrow> WritebackQueueItem \<Rightarrow> WritebackAction \<Rightarrow> provider_outcome" where
  "execute_write ws task action =
     (case w_action ws of
        Some f \<Rightarrow> f action
      | None \<Rightarrow>
          if w_write ws \<noteq> None then provider_write ws task
          else case map_of (w_adapters ws) (wa_Provider action) of
                 Some (Some apply_writeback) \<Rightarrow> apply_writeback action
               | _ \<Rightarrow> provider_write ws task)"

definition usesBuiltinNoopWriteback :: "writers \<Rightarrow> bool" where
  "usesBuiltinNoopWriteback ws \<longleftrightarrow> w_write ws = None \<and> w_action ws = None \<and> w_adapters ws = []"

definition writeback_event :: "string \<Rightarrow> string \<Rightarrow> string \<Rightarrow> WritebackQueueItem \<Rightarrow> string \<Rightarrow> Event" where
  "writeback_event eventID eventType provider task nowTS =
     \<lparr>e_EventID = eventID, e_Type = eventType, e_Path = wq_Path task, e_Revision = wq_Revision task, e_ContentHash = '''',
      e_Origin = ''system'', e_Provider = provider, e_CorrelationID = wq_CorrelationID task, e_Timestamp = nowTS,
      e_TypeMetadata = None, e_ACLPermissions = None\<rparr>"

definition put_op :: "string \<Rightarrow> string \<Rightarrow> OperationStatus \<Rightarrow> Store \<Rightarrow> Store" where
  "put_op workspaceID opID oper s =
     (let ws = ws_of s workspaceID in put_ws workspaceID (ws\<lparr>ws_Ops := mput opID oper (ws_Ops ws)\<rparr>) s)"

text \<open>Step 3: record the outcome.  The result is the store, whether it changed, and the retry timer.\<close>

definition wb_finish ::
  "instant \<Rightarrow> WritebackQueueItem \<Rightarrow> WritebackAction \<Rightarrow> int \<Rightarrow> provider_outcome \<Rightarrow> Store \<Rightarrow> Store \<times> bool \<times> WritebackQueueItem option" where
  "wb_finish now task action attempt outcome s =
     (let w = wq_WorkspaceID task
      in case map_of (s_workspaces s) w of
           None \<Rightarrow> (s, False, None)
         | Some ws \<Rightarrow>
             (case map_of (ws_Ops ws) (wq_OpID task) of
                None \<Rightarrow> (s, False, None)
              | Some oper \<Rightarrow>
                  let nowTS = FormatRFC3339Nano now;
                      oper = oper\<lparr>op_AttemptCount := attempt, op_Path := wq_Path task, op_Revision := wq_Revision task,
                                  op_CorrelationID := wq_CorrelationID task,
                                  op_Provider := (if op_Provider oper = '''' then wa_Provider action else op_Provider oper)\<rparr>
                  in case outcome of
                       Inr providerResult \<Rightarrow>
                         let oper = oper\<lparr>op_Status := ''succeeded'', op_LastError := None, op_NextAttemptAt := None,
                                         op_ProviderResult := Some (mergeProviderResult (wq_Revision task) providerResult),
                                         op_UpdatedAt := nowTS, op_CompletedAt := Some nowTS\<rparr>;
                             s = put_op w (wq_OpID task) oper s;
                             (eventID, s) = nextEventIDLocked s;
                             s = appendWorkspaceEventLocked w (writeback_event eventID ''writeback.succeeded'' (wa_Provider action) task nowTS) s
                         in (recordSuppressionLocked w (wa_Provider action) (wq_OpID task) (wq_CorrelationID task) now s, True, None)
                     | Inl errText \<Rightarrow>
                         let oper = oper\<lparr>op_LastError := Some errText\<rparr>
                         in if attempt \<ge> cfg_maxAttempts (s_cfg s) then
                              let oper = oper\<lparr>op_Status := ''dead_lettered'', op_NextAttemptAt := None, op_UpdatedAt := nowTS,
                                              op_CompletedAt := Some nowTS\<rparr>;
                                  s = put_op w (wq_OpID task) oper s;
                                  (eventID, s) = nextEventIDLocked s
                              in (appendWorkspaceEventLocked w (writeback_event eventID ''writeback.failed'' (wa_Provider action) task nowTS) s,
                                  True, None)
                            else
                              let oper = oper\<lparr>op_Status := ''pending'',
                                              op_NextAttemptAt := Some (FormatRFC3339Nano (now + cfg_retryDelay (s_cfg s))),
                                              op_UpdatedAt := nowTS, op_CompletedAt := None\<rparr>
                              in (put_op w (wq_OpID task) oper s, True, Some task)))"

definition processWritebackMutation ::
  "instant \<Rightarrow> writers \<Rightarrow> WritebackQueueItem \<Rightarrow> Store \<Rightarrow> Store \<times> bool \<times> WritebackQueueItem option" where
  "processWritebackMutation now ws task s =
     (case wb_begin task s of
        None \<Rightarrow> (s, False, None)
      | Some (task, action, attempt) \<Rightarrow> wb_finish now task action attempt (execute_write ws task action) s)"

definition processWriteback :: "instant \<Rightarrow> writers \<Rightarrow> WritebackQueueItem \<Rightarrow> Store \<Rightarrow> Store \<times> WritebackQueueItem option" where
  "processWriteback now ws task s =
     (case processWritebackMutation now ws task s of
        (s, mutated, retry) \<Rightarrow> (if mutated then saveLocked s else s, retry))"

section \<open>The worker\<close>

definition markWritebackDequeued :: "WritebackQueueItem \<Rightarrow> Store \<Rightarrow> Store" where
  "markWritebackDequeued task s = s\<lparr>s_queuedWritebacks := removeAll (wq_OpID task) (s_queuedWritebacks s)\<rparr>"

text \<open>Draining at most \<open>n\<close> further tasks for a batch.\<close>

fun drain :: "nat \<Rightarrow> Store \<Rightarrow> WritebackQueueItem list \<times> Store" where
  "drain 0 s = ([], s)"
| "drain (Suc n) s =
     (case wb_Dequeue (s_writebackQueue s) of
        None \<Rightarrow> ([], s)
      | Some (task, q) \<Rightarrow>
          (case drain n (markWritebackDequeued task (s\<lparr>s_writebackQueue := q\<rparr>)) of (tasks, s) \<Rightarrow> (task # tasks, s)))"

definition process_batch :: "instant \<Rightarrow> writers \<Rightarrow> WritebackQueueItem list \<Rightarrow> Store \<Rightarrow> Store \<times> bool \<times> WritebackQueueItem list" where
  "process_batch now ws tasks s =
     fold (\<lambda>task (s, mutated, retries).
             case processWritebackMutation now ws task s of
               (s, m, retry) \<Rightarrow> (s, m \<or> mutated, retries @ (case retry of None \<Rightarrow> [] | Some t \<Rightarrow> [t])))
       tasks (s, False, [])"

text \<open>One round of the worker loop; \<open>extra\<close> is how many tasks it finds before the drain times out, \<open>None\<close> when the
  queue is empty and the worker blocks.\<close>

definition writebackWorker :: "instant \<Rightarrow> nat \<Rightarrow> writers \<Rightarrow> Store \<Rightarrow> (Store \<times> WritebackQueueItem list) option" where
  "writebackWorker now extra ws s =
     (case wb_Dequeue (s_writebackQueue s) of
        None \<Rightarrow> None
      | Some (task, q) \<Rightarrow>
          let s = markWritebackDequeued task (s\<lparr>s_writebackQueue := q\<rparr>)
          in if \<not> usesBuiltinNoopWriteback ws
             then (case processWriteback now ws task s of (s, retry) \<Rightarrow> Some (s, case retry of None \<Rightarrow> [] | Some t \<Rightarrow> [t]))
             else (case drain (min extra 255) s of
                     (batch, s) \<Rightarrow>
                       (case process_batch now ws (task # batch) s of
                          (s, mutated, retries) \<Rightarrow> Some (if mutated then saveLocked s else s, retries))))"

section \<open>Replaying\<close>

record QueuedResponse =
  qd_Status :: string
  qd_ID :: string
  qd_CorrelationID :: string

definition ReplayOperation :: "instant \<Rightarrow> string \<Rightarrow> string \<Rightarrow> string \<Rightarrow> Store \<Rightarrow> Store \<times> (store_error + QueuedResponse)" where
  "ReplayOperation now workspaceID opID correlationID s =
     (case map_of (s_workspaces s) workspaceID of
        None \<Rightarrow> (s, Inl ErrNotFound)
      | Some ws \<Rightarrow>
          (case map_of (ws_Ops ws) opID of
             None \<Rightarrow> (s, Inl ErrNotFound)
           | Some oper \<Rightarrow>
               if op_Status oper \<noteq> ''dead_lettered'' then (s, Inl ErrInvalidState)
               else
                 let oper = oper\<lparr>op_Status := ''pending'', op_AttemptCount := 0, op_LastError := None, op_CorrelationID := correlationID,
                                 op_NextAttemptAt := None, op_CompletedAt := None, op_UpdatedAt := FormatRFC3339Nano now\<rparr>;
                     s = saveLocked (put_op workspaceID opID oper s)
                 in (enqueueWriteback \<lparr>wq_WorkspaceID = workspaceID, wq_OpID = opID, wq_Path = op_Path oper, wq_Revision = op_Revision oper,
                                       wq_ContentIdentity = None, wq_CorrelationID = correlationID\<rparr> s,
                     Inr \<lparr>qd_Status = ''queued'', qd_ID = opID, qd_CorrelationID = correlationID\<rparr>)))"

definition ReplayOperationAny :: "instant \<Rightarrow> string \<Rightarrow> string \<Rightarrow> Store \<Rightarrow> Store \<times> (store_error + QueuedResponse)" where
  "ReplayOperationAny now opID correlationID s =
     (let workspaceID = (case find (\<lambda>(wsID, ws). map_of (ws_Ops ws) opID \<noteq> None) (s_workspaces s) of
                           None \<Rightarrow> '''' | Some (wsID, ws) \<Rightarrow> wsID)
      in if workspaceID = '''' then (s, Inl ErrNotFound) else ReplayOperation now workspaceID opID correlationID s)"

section \<open>Quarantine and re-arming at boot\<close>

definition storm_ops :: "workspaceState \<Rightarrow> string list" where
  "storm_ops ws = map fst (filter (\<lambda>(opID, oper). (op_Status oper = ''pending'' \<or> op_Status oper = ''running'') \<and> op_Action oper = ''file_delete'') (ws_Ops ws))"

definition stale_ops :: "instant \<Rightarrow> duration \<Rightarrow> workspaceState \<Rightarrow> string list" where
  "stale_ops now threshold ws =
     map fst (filter (\<lambda>(opID, oper). op_Status oper = ''running''
       \<and> (case ParseRFC3339Nano (op_UpdatedAt oper) of None \<Rightarrow> True | Some updatedAt \<Rightarrow> TimeSub now updatedAt > threshold)) (ws_Ops ws))"

definition quarantine_list :: "instant \<Rightarrow> StoreConfig \<Rightarrow> workspaceState \<Rightarrow> string list" where
  "quarantine_list now cfg ws =
     (if cfg_deleteStormThreshold cfg > 0 \<and> int (length (storm_ops ws)) > cfg_deleteStormThreshold cfg then storm_ops ws else [])
     @ (if cfg_staleRunningOpThreshold cfg > 0 then stale_ops now (cfg_staleRunningOpThreshold cfg) ws else [])"

definition quarantine_one :: "string \<Rightarrow> string \<Rightarrow> workspaceState \<Rightarrow> workspaceState" where
  "quarantine_one nowTS opID ws =
     (case map_of (ws_Ops ws) opID of
        None \<Rightarrow> ws
      | Some oper \<Rightarrow>
          if op_Status oper = ''quarantined'' then ws
          else ws\<lparr>ws_Ops := mput opID (oper\<lparr>op_Status := ''quarantined'', op_NextAttemptAt := None, op_UpdatedAt := nowTS\<rparr>) (ws_Ops ws)\<rparr>)"

definition quarantine_workspace :: "instant \<Rightarrow> StoreConfig \<Rightarrow> workspaceState \<Rightarrow> workspaceState" where
  "quarantine_workspace now cfg ws = fold (quarantine_one (FormatRFC3339Nano now)) (quarantine_list now cfg ws) ws"

definition quarantineBootDeleteStorms :: "instant \<Rightarrow> Store \<Rightarrow> Store" where
  "quarantineBootDeleteStorms now s =
     (if cfg_deleteStormThreshold (s_cfg s) \<le> 0 \<and> cfg_staleRunningOpThreshold (s_cfg s) \<le> 0 then s
      else let changed = list_ex (\<lambda>(w, ws). quarantine_list now (s_cfg s) ws \<noteq> []) (s_workspaces s);
               s = s\<lparr>s_workspaces := map (\<lambda>(w, ws). (w, quarantine_workspace now (s_cfg s) ws)) (s_workspaces s)\<rparr>
           in if changed then saveLocked s else s)"

definition boot_task :: "string \<Rightarrow> string \<Rightarrow> OperationStatus \<Rightarrow> WritebackQueueItem" where
  "boot_task workspaceID opID oper =
     \<lparr>wq_WorkspaceID = workspaceID, wq_OpID = opID, wq_Path = op_Path oper, wq_Revision = op_Revision oper,
      wq_ContentIdentity = op_ContentIdentity oper, wq_CorrelationID = op_CorrelationID oper\<rparr>"

text \<open>The delay of a re-armed task, \<open>0\<close> for one to enqueue at once.\<close>

definition boot_delay :: "instant \<Rightarrow> OperationStatus \<Rightarrow> duration" where
  "boot_delay now oper =
     (case op_NextAttemptAt oper of
        None \<Rightarrow> 0
      | Some ts \<Rightarrow> (case ParseRFC3339Nano ts of None \<Rightarrow> 0 | Some nextAt \<Rightarrow> (let until = TimeSub nextAt now in if until > 0 then until else 0)))"

definition boot_writebacks :: "instant \<Rightarrow> Store \<Rightarrow> (WritebackQueueItem \<times> duration) list" where
  "boot_writebacks now s =
     concat (map (\<lambda>(w, ws). map (\<lambda>(opID, oper). (boot_task w opID oper, boot_delay now oper))
                              (filter (\<lambda>(opID, oper). armed oper) (ws_Ops ws))) (s_workspaces s))"

definition boot_enqueue :: "instant \<Rightarrow> Store \<Rightarrow> Store \<times> (WritebackQueueItem \<times> duration) list" where
  "boot_enqueue now s =
     (let tasks = boot_writebacks now s
      in (fold enqueueWriteback (map fst (filter (\<lambda>(task, delay). \<not> delay > 0) tasks)) s, filter (\<lambda>(task, delay). delay > 0) tasks))"

end
