(* ===== verification/GoMatch.thy ===== *)
theory GoMatch
  imports GoStrings
begin

text \<open>
  \<^verbatim>\<open>utf8.DecodeRuneInString\<close> and \<^verbatim>\<open>path.Match\<close> of the Go library, which the draft sweep matches basenames with.  A
  malformed pattern is \<open>None\<close> (\<^verbatim>\<open>ErrBadPattern\<close>).  A pattern without special
  characters matches exactly itself (\<open>Match_literal\<close>).
\<close>

section \<open>Runes\<close>

definition byte :: "string \<Rightarrow> nat \<Rightarrow> nat" where
  "byte s i = (if i < length s then of_char (s ! i) else 0)"

definition cont :: "string \<Rightarrow> nat \<Rightarrow> bool" where
  "cont s i \<longleftrightarrow> 128 \<le> byte s i \<and> byte s i \<le> 191"

text \<open>The range of the second byte a first byte accepts.\<close>

definition second_ok :: "string \<Rightarrow> bool" where
  "second_ok s \<longleftrightarrow> (let b = byte s 0; c = byte s 1
     in (if b = 224 then 160 else if b = 240 then 144 else 128) \<le> c \<and> c \<le> (if b = 237 then 159 else if b = 244 then 143 else 191))"

definition RuneError :: nat where "RuneError = 65533"

definition DecodeRune :: "string \<Rightarrow> nat \<times> nat" where
  "DecodeRune s =
     (let b = byte s 0
      in if s = [] then (RuneError, 0)
         else if b < 128 then (b, 1)
         else if 194 \<le> b \<and> b \<le> 223 \<and> second_ok s then ((b mod 32) * 64 + byte s 1 mod 64, 2)
         else if 224 \<le> b \<and> b \<le> 239 \<and> second_ok s \<and> cont s 2 then ((b mod 16) * 4096 + (byte s 1 mod 64) * 64 + byte s 2 mod 64, 3)
         else if 240 \<le> b \<and> b \<le> 244 \<and> second_ok s \<and> cont s 2 \<and> cont s 3
              then ((b mod 8) * 262144 + (byte s 1 mod 64) * 4096 + (byte s 2 mod 64) * 64 + byte s 3 mod 64, 4)
         else (RuneError, 1))"

lemma DecodeRune_width: "s \<noteq> [] \<Longrightarrow> 0 < snd (DecodeRune s)"
  by (simp add: DecodeRune_def Let_def)

lemma DecodeRune_shrinks: "s \<noteq> [] \<Longrightarrow> length (drop (snd (DecodeRune s)) s) < length s"
  using DecodeRune_width [of s] by simp

section \<open>Chunks\<close>

definition getEsc :: "string \<Rightarrow> (nat \<times> string) option" where
  "getEsc chunk =
     (if chunk = [] \<or> hd chunk = CHR ''-'' \<or> hd chunk = CHR '']'' then None
      else let chunk = (if hd chunk = CHR 0x5C then tl chunk else chunk)
           in if chunk = [] then None
              else let (r, n) = DecodeRune chunk; nchunk = drop n chunk
                   in if r = RuneError \<and> n = 1 then None
                      else if nchunk = [] then None
                      else Some (r, nchunk))"

lemma getEsc_shrinks: "getEsc chunk = Some (r, rest) \<Longrightarrow> length rest < length chunk"
proof -
  assume get: "getEsc chunk = Some (r, rest)"
  let ?c = "if hd chunk = CHR 0x5C then tl chunk else chunk"
  have "chunk \<noteq> []" "?c \<noteq> []" "rest = drop (snd (DecodeRune ?c)) ?c"
    using get by (auto simp: getEsc_def Let_def split: if_splits prod.splits)
  moreover have "length ?c \<le> length chunk" by simp
  ultimately show ?thesis using DecodeRune_shrinks [of ?c] by simp
qed

text \<open>The ranges of a character class, up to the closing bracket.\<close>

function class_ranges :: "string \<Rightarrow> nat \<Rightarrow> bool \<Rightarrow> bool \<Rightarrow> (string \<times> bool) option" where
  "class_ranges chunk r started match =
     (if chunk \<noteq> [] \<and> hd chunk = CHR '']'' \<and> started then Some (tl chunk, match)
      else case getEsc chunk of
             None \<Rightarrow> None
           | Some (lo, chunk1) \<Rightarrow>
               if hd chunk1 = CHR ''-'' then
                 (case getEsc (tl chunk1) of
                    None \<Rightarrow> None
                  | Some (hi, chunk2) \<Rightarrow> class_ranges chunk2 r True (match \<or> lo \<le> r \<and> r \<le> hi))
               else class_ranges chunk1 r True (match \<or> lo \<le> r \<and> r \<le> lo))"
  by pat_completeness auto
termination
proof (relation "measure (\<lambda>(chunk, _). length chunk)")
  fix chunk :: string and r :: nat and started match :: bool and x a lo chunk1 y hi chunk2
  assume "getEsc chunk = Some x" "(lo, chunk1) = x" "getEsc (tl chunk1) = Some y" "(hi, chunk2) = y"
  then have "length chunk2 < length (tl chunk1)" "length chunk1 < length chunk"
    using getEsc_shrinks by (metis (no_types))+
  then show "((chunk2, r, True, match \<or> lo \<le> r \<and> r \<le> hi), chunk, r, started, match) \<in> measure (\<lambda>(chunk, _). length chunk)"
    by simp
next
  fix chunk :: string and r :: nat and started match :: bool and x lo chunk1
  assume "getEsc chunk = Some x" "(lo, chunk1) = x"
  then show "((chunk1, r, True, match \<or> lo \<le> r \<and> r \<le> lo), chunk, r, started, match) \<in> measure (\<lambda>(chunk, _). length chunk)"
    using getEsc_shrinks by (metis case_prod_conv in_measure)
qed simp

declare class_ranges.simps [simp del]

lemma class_ranges_shrinks:
  "class_ranges chunk r started match = Some (rest, m) \<Longrightarrow> length rest < length chunk"
proof (induction chunk r started match rule: class_ranges.induct)
  case (1 chunk r started match)
  show ?case
  proof (cases "chunk \<noteq> [] \<and> hd chunk = CHR '']'' \<and> started")
    case True
    then show ?thesis using 1(3) by (subst (asm) class_ranges.simps) auto
  next
    case False
    obtain lo chunk1 where lo: "getEsc chunk = Some (lo, chunk1)"
      using 1(3) False by (subst (asm) class_ranges.simps) (auto split: option.splits)
    show ?thesis
    proof (cases "hd chunk1 = CHR ''-''")
      case True
      then obtain hi chunk2 where hi: "getEsc (tl chunk1) = Some (hi, chunk2)"
        using 1(3) False lo by (subst (asm) class_ranges.simps) (auto split: option.splits)
      then have "class_ranges chunk2 r True (match \<or> lo \<le> r \<and> r \<le> hi) = Some (rest, m)"
        using 1(3) False lo True by (subst (asm) class_ranges.simps) auto
      then have "length rest < length chunk2" by (rule 1(1) [OF False lo refl True hi refl])
      then show ?thesis using getEsc_shrinks [OF lo] getEsc_shrinks [OF hi] by simp
    next
      case no: False
      have "class_ranges chunk1 r True (match \<or> lo \<le> r \<and> r \<le> lo) = Some (rest, m)"
        using 1(3) False lo no by (subst (asm) class_ranges.simps) auto
      then have "length rest < length chunk1" by (rule 1(2) [OF False lo refl no])
      then show ?thesis using getEsc_shrinks [OF lo] by simp
    qed
  qed
qed

text \<open>\<open>failed\<close> is set when the text no longer matches; the chunk is still read to its end for its errors.\<close>

function matchChunk :: "string \<Rightarrow> string \<Rightarrow> bool \<Rightarrow> string option option" where
  "matchChunk [] s failed = Some (if failed then None else Some s)"
| "matchChunk (c # chunk) s failed =
     (let failed = (failed \<or> s = [])
      in if c = CHR ''['' then
           let (r, n) = (if failed then (0, 0) else DecodeRune s);
               s = drop n s;
               negated = (chunk \<noteq> [] \<and> hd chunk = CHR ''^'');
               chunk1 = (if negated then tl chunk else chunk)
           in case class_ranges chunk1 r False False of
                None \<Rightarrow> None
              | Some (chunk2, match) \<Rightarrow> matchChunk chunk2 s (failed \<or> match = negated)
         else if c = CHR ''?'' then
           (if failed then matchChunk chunk s True
            else matchChunk chunk (drop (snd (DecodeRune s)) s) (hd s = CHR ''/''))
         else if c = CHR 0x5C then
           (case chunk of
              [] \<Rightarrow> None
            | d # chunk \<Rightarrow> if failed then matchChunk chunk s True else matchChunk chunk (tl s) (d \<noteq> hd s))
         else if failed then matchChunk chunk s True
         else matchChunk chunk (tl s) (c \<noteq> hd s))"
  by pat_completeness auto
termination
proof (relation "measure (\<lambda>(chunk, _). length chunk)")
  fix c :: char and chunk s :: string and failed failed' :: bool and x r n sa negated chunk1 y chunk2 match
  assume "chunk1 = (if negated then tl chunk else chunk)" "class_ranges chunk1 r False False = Some y" "(chunk2, match) = y"
  then have "length chunk2 < length chunk1" "length chunk1 \<le> length chunk"
    using class_ranges_shrinks by (metis, simp)
  then show "((chunk2, sa, failed' \<or> match = negated), c # chunk, s, failed) \<in> measure (\<lambda>(chunk, _). length chunk)"
    by simp
qed auto

section \<open>Patterns\<close>

fun scan :: "bool \<Rightarrow> string \<Rightarrow> string \<times> string" where
  "scan inrange [] = ([], [])"
| "scan inrange (c # p) =
     (if c = CHR 0x5C then (case p of [] \<Rightarrow> ([c], []) | d # p \<Rightarrow> (case scan inrange p of (chunk, rest) \<Rightarrow> (c # d # chunk, rest)))
      else if c = CHR ''*'' \<and> \<not> inrange then ([], c # p)
      else let inrange = (if c = CHR ''['' then True else if c = CHR '']'' then False else inrange)
           in case scan inrange p of (chunk, rest) \<Rightarrow> (c # chunk, rest))"

definition scanChunk :: "string \<Rightarrow> bool \<times> string \<times> string" where
  "scanChunk pattern =
     (let p = dropWhile (\<lambda>c. c = CHR ''*'') pattern in (p \<noteq> pattern, scan False p))"

lemma scan_parts: "fst (scan b p) @ snd (scan b p) = p"
  by (induction b p rule: scan.induct) (auto simp: Let_def case_prod_beta split: list.splits)

lemma scan_append: "scan b p = (chunk, rest) \<Longrightarrow> chunk @ rest = p"
  using scan_parts [of b p] by simp

lemma scan_progress: "scan False p = (chunk, rest) \<Longrightarrow> p \<noteq> [] \<Longrightarrow> hd p \<noteq> CHR ''*'' \<Longrightarrow> chunk \<noteq> []"
  by (cases p) (auto simp: Let_def split: if_splits list.splits prod.splits)

lemma scanChunk_shrinks:
  assumes "scanChunk pattern = (star, chunk, rest)" and "pattern \<noteq> []"
  shows "length rest < length pattern"
proof -
  let ?p = "dropWhile (\<lambda>c. c = CHR ''*'') pattern"
  have sc: "scan False ?p = (chunk, rest)" using assms(1) by (simp add: scanChunk_def Let_def)
  have len: "length chunk + length rest = length ?p" using scan_append [OF sc] by (metis length_append)
  show ?thesis
  proof (cases "?p = []")
    case True
    then show ?thesis using len assms(2) unfolding True by simp
  next
    case False
    then have "chunk \<noteq> []" using scan_progress [OF sc] hd_dropWhile [of "\<lambda>c. c = CHR ''*''" pattern] by auto
    then show ?thesis using len length_dropWhile_le [of "\<lambda>c. c = CHR ''*''" pattern] by (cases chunk) auto
  qed
qed

text \<open>Skipping one byte after another for a star; a slash cannot be skipped.\<close>

fun star_match :: "string \<Rightarrow> bool \<Rightarrow> string \<Rightarrow> string option option" where
  "star_match chunk lastChunk [] = Some None"
| "star_match chunk lastChunk (c # name) =
     (if c = CHR ''/'' then Some None
      else case matchChunk chunk name False of
             None \<Rightarrow> None
           | Some (Some t) \<Rightarrow> if lastChunk \<and> t \<noteq> [] then star_match chunk lastChunk name else Some (Some t)
           | Some None \<Rightarrow> star_match chunk lastChunk name)"

text \<open>The check that the rest of a pattern that failed is well formed.\<close>

function well_formed :: "string \<Rightarrow> bool" where
  "well_formed pattern =
     (if pattern = [] then True
      else case scanChunk pattern of
             (star, chunk, rest) \<Rightarrow> matchChunk chunk [] False \<noteq> None \<and> well_formed rest)"
  by pat_completeness auto
termination
  by (relation "measure length") (auto dest: scanChunk_shrinks [OF sym])

declare well_formed.simps [simp del]

function Match :: "string \<Rightarrow> string \<Rightarrow> bool option" where
  "Match pattern name =
     (if pattern = [] then Some (name = [])
      else case scanChunk pattern of
             (star, chunk, rest) \<Rightarrow>
               if star \<and> chunk = [] then Some (CHR ''/'' \<notin> set name)
               else case matchChunk chunk name False of
                      None \<Rightarrow> None
                    | Some r \<Rightarrow>
                        (case (case r of
                                 Some t \<Rightarrow> if t = [] \<or> rest \<noteq> [] then Some (Some t)
                                           else if star then star_match chunk True name else Some None
                               | None \<Rightarrow> if star then star_match chunk (rest = []) name else Some None) of
                           None \<Rightarrow> None
                         | Some (Some t) \<Rightarrow> Match rest t
                         | Some None \<Rightarrow> if well_formed rest then Some False else None))"
  by pat_completeness auto
termination
  by (relation "measure (\<lambda>(p, n). length p)") (auto dest: scanChunk_shrinks [OF sym])

declare Match.simps [simp del]

section \<open>Ordinary patterns\<close>

definition plain :: "string \<Rightarrow> bool" where
  "plain p \<longleftrightarrow> (\<forall>c \<in> set p. c \<noteq> CHR ''*'' \<and> c \<noteq> CHR ''?'' \<and> c \<noteq> CHR ''['' \<and> c \<noteq> CHR 0x5C)"

lemma matchChunk_failed: "plain p \<Longrightarrow> matchChunk p s True = Some None"
  by (induction p) (auto simp: plain_def)

lemma matchChunk_plain:
  "plain p \<Longrightarrow> matchChunk p s False = Some (if HasPrefix s p then Some (drop (length p) s) else None)"
proof (induction p arbitrary: s)
  case (Cons c p)
  have p: "plain p" and step: "matchChunk (c # p) s False = (if s = [] then matchChunk p s True else matchChunk p (tl s) (c \<noteq> hd s))"
    using Cons.prems by (simp_all add: plain_def)
  show ?case
  proof (cases s)
    case Nil
    then show ?thesis unfolding step using matchChunk_failed [OF p] by (simp add: HasPrefix_def)
  next
    case (Cons d t)
    then show ?thesis
      unfolding step using matchChunk_failed [OF p] Cons.IH [OF p, of t] by (cases "c = d") (auto simp: HasPrefix_def)
  qed
qed (simp add: HasPrefix_def)

lemma scan_plain: "plain p \<Longrightarrow> scan b p = (p, [])"
  by (induction b p rule: scan.induct) (auto simp: plain_def)

lemma Match_literal: "plain p \<Longrightarrow> Match p name = Some (name = p)"
proof (cases "p = []")
  case True
  then show ?thesis by (simp add: Match.simps)
next
  case False
  assume p: "plain p"
  then have "dropWhile (\<lambda>c. c = CHR ''*'') p = p" using False by (cases p) (auto simp: plain_def)
  then have scan: "scanChunk p = (False, p, [])" using p by (simp add: scanChunk_def scan_plain)
  have drop_nil: "HasPrefix name p \<Longrightarrow> (drop (length p) name = []) = (name = p)" by (auto simp: HasPrefix_iff)
  show ?thesis
    by (subst Match.simps)
      (auto simp: scan False matchChunk_plain [OF p] drop_nil well_formed.simps Match.simps [of "[]"] HasPrefix_def)
qed

end
