(* ===== verification/Drafts.thy ===== *)
theory Drafts
  imports Writeback GoMatch
begin

text \<open>
  \<^verbatim>\<open>draft_reconcile.go\<close> and \<^verbatim>\<open>AcknowledgeWriteback\<close>: what an external consumer's acknowledgement does to the operation and
  to the draft file behind it, and the sweep of left-over drafts.
\<close>

section \<open>Names\<close>

record WritebackAck =
  ack_Success :: bool
  ack_Error :: string
  ack_ExternalID :: string
  ack_CanonicalPath :: string
  ack_ProviderResult :: "(string, json) gomap"

record DraftDisposition =
  dd_Action :: string
  dd_From :: string
  dd_To :: string

record SweepDraftsRequest =
  sw_PathPrefix :: string
  sw_Patterns :: "string list"
  sw_Apply :: bool
  sw_CorrelationID :: string

text \<open>A removed or skipped draft: its path and the reason.\<close>

record SweepDraftsResult =
  sr_DryRun :: bool
  sr_Scanned :: nat
  sr_Removed :: "(string \<times> string) list"
  sr_Skipped :: "(string \<times> string) list"

definition after_last_slash :: "string \<Rightarrow> string" where
  "after_last_slash p = rev (takeWhile (\<lambda>c. c \<noteq> slash) (rev p))"

definition basenameOf :: "string \<Rightarrow> string" where
  "basenameOf filePath = (if slash \<in> set filePath then after_last_slash filePath else filePath)"

definition parentDirOf :: "string \<Rightarrow> string" where
  "parentDirOf filePath =
     (if slash \<in> set filePath \<and> before_last_slash filePath \<noteq> '''' then before_last_slash filePath else ''/'')"

definition is_hex :: "char \<Rightarrow> bool" where
  "is_hex c \<longleftrightarrow> (let n = of_char c :: nat in 48 \<le> n \<and> n \<le> 57 \<or> 97 \<le> n \<and> n \<le> 102 \<or> 65 \<le> n \<and> n \<le> 70)"

text \<open>\<^verbatim>\<open>[0-9a-fA-F]{8}-[0-9a-fA-F]{4}-[0-9a-fA-F]{4}-[0-9a-fA-F]{4}-[0-9a-fA-F]{12}\<close>.\<close>

definition is_uuid :: "string \<Rightarrow> bool" where
  "is_uuid u \<longleftrightarrow> length u = 36 \<and> (\<forall>i \<in> set [0..<36]. if i \<in> {8, 13, 18, 23} then u ! i = CHR ''-'' else is_hex (u ! i))"

text \<open>\<^verbatim>\<open>^.+ UUID\.json$\<close>: the dot does not match a newline.\<close>

definition isDraftFileBasename :: "string \<Rightarrow> bool" where
  "isDraftFileBasename basename \<longleftrightarrow>
     (let n = length basename; head = take (n - 42) basename; tail = drop (n - 42) basename
      in n > 42 \<and> CHR 0x0A \<notin> set head \<and> hd tail = CHR '' '' \<and> is_uuid (take 36 (tl tail)) \<and> drop 37 tail = ''.json'')"

definition IsDraftFilePath :: "string \<Rightarrow> bool" where
  "IsDraftFilePath filePath = isDraftFileBasename (basenameOf filePath)"

definition externalIDFilenameReplacer :: "string \<Rightarrow> string" where
  "externalIDFilenameReplacer = map (\<lambda>c. if c = slash \<or> c = CHR 0x5C \<or> c = CHR '' '' then CHR ''_'' else c)"

definition trim_dots :: "string \<Rightarrow> string" where
  "trim_dots s = (let dot = (\<lambda>c. c = CHR ''.'') in rev (dropWhile dot (rev (dropWhile dot s))))"

text \<open>\<^verbatim>\<open>path.Ext\<close> of a name without a slash.\<close>

definition Ext :: "string \<Rightarrow> string" where
  "Ext name = (if CHR ''.'' \<in> set name then CHR ''.'' # rev (takeWhile (\<lambda>c. c \<noteq> CHR ''.'') (rev name)) else '''')"

definition canonicalDraftTargetLocked :: "string \<Rightarrow> string \<Rightarrow> string \<Rightarrow> string \<Rightarrow> string" where
  "canonicalDraftTargetLocked draftPath provider externalID canonicalOverride =
     (let override = TrimSpace canonicalOverride; normalized = normalizePath override
      in if override \<noteq> '''' \<and> normalized \<noteq> ''/'' \<and> inferProviderFromPath normalized = provider then normalized
         else let safeID = trim_dots (externalIDFilenameReplacer externalID)
              in if safeID = '''' then ''''
                 else let ext = Ext (basenameOf draftPath); extension = (if ext = '''' then ''.json'' else ext)
                      in joinPath (parentDirOf draftPath) (safeID @ extension))"

section \<open>Removing and renaming a draft\<close>

definition system_event :: "string \<Rightarrow> string \<Rightarrow> string \<Rightarrow> string \<Rightarrow> string \<Rightarrow> string \<Rightarrow> string \<Rightarrow> string \<Rightarrow> string list option \<Rightarrow> Event" where
  "system_event eventID eventType path revision hash provider correlationID nowTS acl =
     \<lparr>e_EventID = eventID, e_Type = eventType, e_Path = path, e_Revision = revision, e_ContentHash = hash,
      e_Origin = ''system'', e_Provider = provider, e_CorrelationID = correlationID, e_Timestamp = nowTS,
      e_TypeMetadata = None, e_ACLPermissions = acl\<rparr>"

definition removeDraftLocked :: "instant \<Rightarrow> string \<Rightarrow> string \<Rightarrow> string \<Rightarrow> string \<Rightarrow> Store \<Rightarrow> Store" where
  "removeDraftLocked now workspaceID draftPath provider correlationID s =
     (case map_of (ws_Files (ws_of s workspaceID)) draftPath of
        None \<Rightarrow> s
      | Some _ \<Rightarrow>
          let acl = snapshotACLPermissions (resolvePermissionsFromFiles (ws_Files (ws_of s workspaceID)) draftPath True);
              (revision, s) = nextRevisionLocked s;
              s = remove_file workspaceID draftPath revision s;
              (eventID, s) = nextEventIDLocked s
          in appendWorkspaceEventLocked workspaceID
               (system_event eventID ''file.deleted'' draftPath revision '''' provider correlationID (FormatRFC3339Nano now) acl) s)"

definition put_index :: "string \<Rightarrow> string \<Rightarrow> string \<Rightarrow> Store \<Rightarrow> Store" where
  "put_index workspaceID key path s =
     (let ws = ws_of s workspaceID in put_ws workspaceID (ws\<lparr>ws_ProviderIndex := mput key path (ws_ProviderIndex ws)\<rparr>) s)"

text \<open>The draft's provider: its own, else the operation's, else the one its path names.\<close>

definition draft_provider :: "File \<Rightarrow> string \<Rightarrow> string \<Rightarrow> string" where
  "draft_provider file opProvider draftPath =
     (if TrimSpace (f_Provider file) \<noteq> '''' then TrimSpace (f_Provider file)
      else if TrimSpace opProvider \<noteq> '''' then TrimSpace opProvider
      else inferProviderFromPath draftPath)"

definition rename_draft :: "instant \<Rightarrow> string \<Rightarrow> string \<Rightarrow> string \<Rightarrow> File \<Rightarrow> string \<Rightarrow> string \<Rightarrow> string \<Rightarrow> Store \<Rightarrow> Store" where
  "rename_draft now workspaceID draftPath targetPath file provider externalID correlationID s =
     (let nowTS = FormatRFC3339Nano now;
          (revision, s) = nextRevisionLocked s;
          acl = snapshotACLPermissions (resolvePermissionsFromFiles (ws_Files (ws_of s workspaceID)) draftPath True);
          s = remove_file workspaceID draftPath revision s;
          file = file\<lparr>f_Path := targetPath, f_Revision := revision, f_Provider := provider, f_ProviderObjectID := externalID,
                      f_LastEditedAt := nowTS\<rparr>;
          s = put_file workspaceID targetPath file revision s;
          s = put_index workspaceID (providerObjectKey provider externalID) targetPath s;
          (eventID, s) = nextEventIDLocked s;
          s = appendWorkspaceEventLocked workspaceID
                (system_event eventID ''file.deleted'' draftPath revision '''' provider correlationID nowTS acl) s;
          (eventID, s) = nextEventIDLocked s
      in appendWorkspaceEventLocked workspaceID
           (system_event eventID ''file.created'' targetPath revision (storedContentHashForFile file) provider correlationID nowTS None) s)"

definition reconcileAckedDraftLocked ::
  "instant \<Rightarrow> string \<Rightarrow> OperationStatus \<Rightarrow> WritebackAck \<Rightarrow> string \<Rightarrow> Store \<Rightarrow> Store \<times> DraftDisposition" where
  "reconcileAckedDraftLocked now workspaceID oper ack correlationID s =
     (let none = \<lparr>dd_Action = ''none'', dd_From = '''', dd_To = ''''\<rparr>;
          externalID = TrimSpace (ack_ExternalID ack);
          draftPath = normalizePath (op_Path oper);
          ws = ws_of s workspaceID;
          removed = (\<lambda>provider. (removeDraftLocked now workspaceID draftPath provider correlationID s,
                                 \<lparr>dd_Action = ''removed'', dd_From = draftPath, dd_To = ''''\<rparr>))
      in if externalID = '''' \<or> op_Action oper = ''file_delete'' \<or> draftPath = ''/'' then (s, none)
         else case map_of (ws_Files ws) draftPath of
                None \<Rightarrow> (s, none)
              | Some file \<Rightarrow>
                  let provider = draft_provider file (op_Provider oper) draftPath;
                      key = providerObjectKey provider externalID
                  in if provider = '''' then (s, none)
                     else if f_ProviderObjectID file = externalID then
                       (if map_of (ws_ProviderIndex ws) key = None then put_index workspaceID key draftPath s else s, none)
                     else if f_ProviderObjectID file \<noteq> '''' then (s, none)
                     else if (case map_of (ws_ProviderIndex ws) key of
                                Some indexedPath \<Rightarrow> indexedPath \<noteq> draftPath \<and> map_of (ws_Files ws) indexedPath \<noteq> None
                              | None \<Rightarrow> False) then removed provider
                     else
                       let targetPath = canonicalDraftTargetLocked draftPath provider externalID (ack_CanonicalPath ack)
                       in if targetPath = '''' \<or> targetPath = draftPath then (s, none)
                          else if map_of (ws_Files ws) targetPath \<noteq> None then removed provider
                          else (rename_draft now workspaceID draftPath targetPath file provider externalID correlationID s,
                                \<lparr>dd_Action = ''renamed'', dd_From = draftPath, dd_To = targetPath\<rparr>))"

section \<open>Acknowledging\<close>

record AckedWriteback =
  ar_id :: string
  ar_correlationId :: string
  ar_success :: bool
  ar_draft :: "DraftDisposition option"

definition acked_op :: "string \<Rightarrow> WritebackAck \<Rightarrow> OperationStatus \<Rightarrow> OperationStatus" where
  "acked_op nowTS ack oper =
     (let externalID = TrimSpace (ack_ExternalID ack);
          echoed = (if externalID \<noteq> '''' then mput ''externalId'' (JString externalID) (ack_ProviderResult ack) else ack_ProviderResult ack);
          oper = (if ack_Success ack
                  then oper\<lparr>op_Status := ''succeeded'', op_LastError := None, op_CompletedAt := Some nowTS,
                            op_ProviderResult := Some (mergeProviderResult (op_Revision oper) echoed)\<rparr>
                  else oper\<lparr>op_Status := ''dead_lettered'',
                            op_LastError := (if ack_Error ack \<noteq> '''' then Some (ack_Error ack) else op_LastError oper),
                            op_CompletedAt := Some nowTS\<rparr>)
      in oper\<lparr>op_NextAttemptAt := None, op_UpdatedAt := nowTS\<rparr>)"

definition AcknowledgeWriteback ::
  "instant \<Rightarrow> string \<Rightarrow> string \<Rightarrow> WritebackAck \<Rightarrow> string \<Rightarrow> Store \<Rightarrow> Store \<times> (store_error + AckedWriteback)" where
  "AcknowledgeWriteback now workspaceID itemID ack correlationID s =
     (if workspaceID = '''' \<or> itemID = '''' then (s, Inl ErrInvalidInput)
      else case map_of (s_workspaces s) workspaceID of
             None \<Rightarrow> (s, Inl ErrNotFound)
           | Some ws \<Rightarrow>
               (case map_of (ws_Ops ws) itemID of
                  None \<Rightarrow> (s, Inl ErrNotFound)
                | Some oper \<Rightarrow>
                    let oper = acked_op (FormatRFC3339Nano now) ack oper;
                        s = put_op workspaceID itemID oper s;
                        (s, draft) = (if ack_Success ack \<and> TrimSpace (ack_ExternalID ack) \<noteq> ''''
                                      then map_prod id Some (reconcileAckedDraftLocked now workspaceID oper ack correlationID s)
                                      else (s, None))
                    in (saveLocked s, Inr \<lparr>ar_id = itemID, ar_correlationId = correlationID, ar_success = ack_Success ack, ar_draft = draft\<rparr>)))"

section \<open>The sweep\<close>

definition draft_reason :: "string list \<Rightarrow> string \<Rightarrow> string" where
  "draft_reason patterns basename =
     (if isDraftFileBasename basename then ''space-uuid-draft''
      else if list_ex (\<lambda>pattern. Match pattern basename = Some True) patterns then ''pattern''
      else '''')"

definition sweep_visit ::
  "instant \<Rightarrow> string \<Rightarrow> SweepDraftsRequest \<Rightarrow> string \<Rightarrow> string list \<Rightarrow> string list \<Rightarrow> string \<Rightarrow> Store \<times> SweepDraftsResult \<Rightarrow> Store \<times> SweepDraftsResult" where
  "sweep_visit now workspaceID req pathPrefix pendingPaths indexedPaths filePath acc =
     (case acc of (s, result) \<Rightarrow>
        if pathPrefix \<noteq> '''' \<and> \<not> withinBase pathPrefix filePath then (s, result)
        else
          let result = result\<lparr>sr_Scanned := sr_Scanned result + 1\<rparr>;
              reason = draft_reason (sw_Patterns req) (basenameOf filePath);
              file = (case map_of (ws_Files (ws_of s workspaceID)) filePath of None \<Rightarrow> zero_file | Some f \<Rightarrow> f);
              skip = (\<lambda>why. (s, result\<lparr>sr_Skipped := sr_Skipped result @ [(filePath, why)]\<rparr>))
          in if reason = '''' then (s, result)
             else if f_ProviderObjectID file \<noteq> '''' then skip ''provider-linked''
             else if filePath \<in> set indexedPaths then skip ''provider-linked''
             else if normalizePath filePath \<in> set pendingPaths then skip ''pending-writeback''
             else
               let provider = (if TrimSpace (f_Provider file) = '''' then inferProviderFromPath filePath else TrimSpace (f_Provider file))
               in (if sw_Apply req then removeDraftLocked now workspaceID filePath provider (sw_CorrelationID req) s else s,
                   result\<lparr>sr_Removed := sr_Removed result @ [(filePath, reason)]\<rparr>))"

definition SweepWritebackDrafts ::
  "instant \<Rightarrow> string \<Rightarrow> SweepDraftsRequest \<Rightarrow> Store \<Rightarrow> Store \<times> (store_error + SweepDraftsResult)" where
  "SweepWritebackDrafts now workspaceID req s =
     (if TrimSpace workspaceID = '''' then (s, Inl ErrInvalidInput)
      else if list_ex (\<lambda>pattern. Match pattern ''probe.json'' = None \<or> slash \<in> set pattern \<or> CHR 0x5C \<in> set pattern) (sw_Patterns req)
      then (s, Inl ErrInvalidInput)
      else case map_of (s_workspaces s) workspaceID of
             None \<Rightarrow> (s, Inl ErrNotFound)
           | Some ws \<Rightarrow>
               let prefix1 = TrimSpace (sw_PathPrefix req);
                   pathPrefix = (if prefix1 \<noteq> '''' then normalizePath prefix1 else prefix1);
                   pendingPaths = map (\<lambda>(opID, oper). normalizePath (op_Path oper)) (filter (\<lambda>(opID, oper). armed oper) (ws_Ops ws));
                   candidates = sort (map fst (ws_Files ws));
                   indexedPaths = map snd (ws_ProviderIndex ws);
                   result = \<lparr>sr_DryRun = (\<not> sw_Apply req), sr_Scanned = 0, sr_Removed = [], sr_Skipped = []\<rparr>;
                   (s, result) = fold (sweep_visit now workspaceID req pathPrefix pendingPaths indexedPaths) candidates (s, result)
               in (if sw_Apply req \<and> sr_Removed result \<noteq> [] then saveLocked s else s, Inr result))"

end
