(* ===== verification/Steps.thy ===== *)
theory Steps
  imports Drafts ForkIndex
begin

text \<open>
  What the operations of the store are made of.

  The locale \<open>step_relation\<close> is the interface of a relation between the store before and after: it has to contain the few
  things an operation does in one go (change only fork tables, queues and bookkeeping; rewrite an operation in place; log an event
  that is not about a file; put, remove or move one file and log it) and to compose.  Every operation of the store is then in the
  relation; the writeback and draft operations are proved here, those of the other components in their theories.

  \<open>advances\<close> is the first instance: the invariants are kept, the log grows, counters do not go back, and a file that changes
  gets a new revision.
\<close>

section \<open>The interface\<close>

text \<open>A workspace whose files and log are untouched and whose operations are rewritten in place.\<close>

definition ops_rewritten :: "workspaceState \<Rightarrow> workspaceState \<Rightarrow> bool" where
  "ops_rewritten ws ws' \<longleftrightarrow> ws_Files ws' = ws_Files ws \<and> ws_Events ws' = ws_Events ws
     \<and> ws_ACLPermissionsByEvent ws' = ws_ACLPermissionsByEvent ws \<and> (\<forall>n. ops_ok n (ws_Ops ws) \<longrightarrow> ops_ok n (ws_Ops ws'))"

definition file_event :: "Event \<Rightarrow> bool" where
  "file_event ev \<longleftrightarrow> e_Type ev = ''file.created'' \<or> e_Type ev = ''file.updated'' \<or> e_Type ev = ''file.deleted''"

text \<open>The event that announces a put of \<open>f\<close>.\<close>

definition announces :: "File \<Rightarrow> Event \<Rightarrow> bool" where
  "announces f ev \<longleftrightarrow> put_type (e_Type ev) \<and> e_Path ev = f_Path f \<and> e_Revision ev = f_Revision f
     \<and> e_ContentHash ev = storedContentHashForFile f"

definition append_next :: "string \<Rightarrow> Event \<Rightarrow> Store \<Rightarrow> Store" where
  "append_next w ev s = appendWorkspaceEventLocked w (ev\<lparr>e_EventID := evt_id (Suc (s_eventCounter s))\<rparr>)
     (s\<lparr>s_eventCounter := Suc (s_eventCounter s)\<rparr>)"

text \<open>The workspace \<open>w\<close> was left alone or had a table rewritten.\<close>

definition retabled :: "string \<Rightarrow> Store \<Rightarrow> Store \<Rightarrow> bool" where
  "retabled w s s' \<longleftrightarrow> s' = s \<or> (\<exists>ws. ops_rewritten (ws_of s w) ws \<and> s' = put_ws w ws s)"

lemma same_workspaces_core: "same_core s s' \<Longrightarrow> same_workspaces s s'"
  using same_core_ws [of s s'] by (simp add: same_workspaces_def same_core_def)

lemma fork_only_admit: "fork_only s (fst (admitDeleteLocked w now s))"
proof (rule fork_onlyI)
  show "same_workspaces s (fst (admitDeleteLocked w now s))" by (simp add: same_workspaces_def store_simps)
  show "fork_inv s \<Longrightarrow> fork_inv (fst (admitDeleteLocked w now s))"
    by (subst fork_inv_cong) (simp_all add: admitDeleteLocked_def Let_def)
qed

lemma ops_rewritten_refl [simp]: "ops_rewritten ws ws"
  by (simp add: ops_rewritten_def)

lemma ops_rewritten_trans: "ops_rewritten ws ws' \<Longrightarrow> ops_rewritten ws' ws'' \<Longrightarrow> ops_rewritten ws ws''"
  by (simp add: ops_rewritten_def)

lemma ops_ok_rewrite:
  "ops_ok n ops \<Longrightarrow> map_of ops i = Some oper \<Longrightarrow> op_OpID oper' = op_OpID oper \<Longrightarrow> ops_ok n (mput i oper' ops)"
  by (auto simp: ops_ok_def AList.update_conv' split: if_splits)

lemma retabled_same [simp]: "retabled w s s"
  by (simp add: retabled_def)

lemma retabled_put: "ops_rewritten (ws_of s w) ws \<Longrightarrow> retabled w s (put_ws w ws s)"
  by (auto simp: retabled_def)

lemma ws_of_known: "map_of (s_workspaces s) w = Some ws \<Longrightarrow> ws_of s w = ws"
  by (simp add: ws_of_def mget_or_def)

lemma put_op_fields [store_simps]:
  "s_revCounter (put_op w i oper s) = s_revCounter s" "s_eventCounter (put_op w i oper s) = s_eventCounter s"
  "s_opCounter (put_op w i oper s) = s_opCounter s" "s_cfg (put_op w i oper s) = s_cfg s" "s_forks (put_op w i oper s) = s_forks s"
  "ws_of (put_op w i oper s) w' = (if w' = w then (ws_of s w)\<lparr>ws_Ops := mput i oper (ws_Ops (ws_of s w))\<rparr> else ws_of s w')"
  by (simp_all add: put_op_def Let_def store_simps)

lemma recordSuppression_core [simp]: "same_core s (recordSuppressionLocked w prov opid corr now s)"
  by (simp add: recordSuppressionLocked_def pruneSuppressionsLocked_def Let_def same_core_def)

lemma markDequeued_core [simp]: "same_core s (markWritebackDequeued t s)"
  by (simp add: markWritebackDequeued_def same_core_def)

lemma queue_core [simp]: "same_core s (s\<lparr>s_writebackQueue := q\<rparr>)"
  by (simp add: same_core_def)

lemma process_batch_snoc:
  "fst (process_batch now ws (tasks @ [t]) s) = fst (processWritebackMutation now ws t (fst (process_batch now ws tasks s)))"
  by (simp add: process_batch_def split: prod.splits)

definition worker_round :: "instant \<times> nat \<times> writers \<Rightarrow> Store \<Rightarrow> Store" where
  "worker_round r s = (case r of (now, extra, ws) \<Rightarrow> (case writebackWorker now extra ws s of None \<Rightarrow> s | Some (s', _) \<Rightarrow> s'))"

lemma ops_rewritten_quarantine_one: "ops_rewritten ws (quarantine_one ts i ws)"
  using ops_ok_rewrite by (auto simp: quarantine_one_def ops_rewritten_def split: option.splits)

lemma ops_rewritten_quarantine: "ops_rewritten ws (quarantine_workspace now cfg ws)"
proof -
  have "ops_rewritten ws (fold (quarantine_one ts) is ws)" for ts "is"
    by (induction "is" arbitrary: ws) (auto intro: ops_rewritten_trans ops_rewritten_quarantine_one)
  then show ?thesis by (simp add: quarantine_workspace_def)
qed

lemma put_index_fields [store_simps]:
  "s_revCounter (put_index w k p s) = s_revCounter s" "s_eventCounter (put_index w k p s) = s_eventCounter s"
  "s_opCounter (put_index w k p s) = s_opCounter s" "s_cfg (put_index w k p s) = s_cfg s"
  "ws_of (put_index w k p s) w' =
     (if w' = w then (ws_of s w)\<lparr>ws_ProviderIndex := mput k p (ws_ProviderIndex (ws_of s w))\<rparr> else ws_of s w')"
  by (simp_all add: put_index_def Let_def store_simps)

lemma retabled_index: "retabled w s (put_index w k p s)"
  unfolding put_index_def Let_def by (rule retabled_put) (simp add: ops_rewritten_def)

lemma append_next_event:
  "appendWorkspaceEventLocked w (writeback_event (evt_id (Suc (s_eventCounter s))) et prov task ts) (s\<lparr>s_eventCounter := Suc (s_eventCounter s)\<rparr>)
     = append_next w (writeback_event '''' et prov task ts) s"
  "appendWorkspaceEventLocked w (system_event (evt_id (Suc (s_eventCounter s))) et p r h prov corr ts acl) (s\<lparr>s_eventCounter := Suc (s_eventCounter s)\<rparr>)
     = append_next w (system_event '''' et p r h prov corr ts acl) s"
  by (simp_all add: append_next_def writeback_event_def system_event_def)

lemma append_next_fields [store_simps]:
  "s_eventCounter (append_next w ev s) = Suc (s_eventCounter s)" "s_revCounter (append_next w ev s) = s_revCounter s"
  by (simp_all add: append_next_def store_simps)

definition renamed_file :: "instant \<Rightarrow> string \<Rightarrow> string \<Rightarrow> string \<Rightarrow> string \<Rightarrow> File \<Rightarrow> File" where
  "renamed_file now q rv prov ext file =
     file\<lparr>f_Path := q, f_Revision := rv, f_Provider := prov, f_ProviderObjectID := ext, f_LastEditedAt := FormatRFC3339Nano now\<rparr>"

lemma rename_draft_eq:
  fixes s :: Store
  defines "rv \<equiv> rev_id (Suc (s_revCounter s))"
  shows "rename_draft now w p q file prov ext corr s =
    append_next w (system_event '''' ''file.created'' q rv (storedContentHashForFile (renamed_file now q rv prov ext file)) prov corr (FormatRFC3339Nano now) None)
     (append_next w (system_event '''' ''file.deleted'' p rv '''' prov corr (FormatRFC3339Nano now)
         (snapshotACLPermissions (resolvePermissionsFromFiles (ws_Files (ws_of s w)) p True)))
       (put_index w (providerObjectKey prov ext) q (put_file w q (renamed_file now q rv prov ext file) rv
          (remove_file w p rv (s\<lparr>s_revCounter := Suc (s_revCounter s)\<rparr>)))))"
  by (simp add: rename_draft_def Let_def nextRevisionLocked_def nextEventIDLocked_def renamed_file_def rv_def append_next_def
      system_event_def store_simps)

lemma acked_op_id [simp]: "op_OpID (acked_op ts ack oper) = op_OpID oper"
  by (simp add: acked_op_def Let_def)

lemma AcknowledgeWriteback_known:
  assumes "w \<noteq> ''''" "i \<noteq> ''''" "map_of (s_workspaces s) w = Some ws" "map_of (ws_Ops ws) i = Some oper"
  shows "fst (AcknowledgeWriteback now w i ack corr s) =
    (let s1 = put_op w i (acked_op (FormatRFC3339Nano now) ack oper) s
     in saveLocked (if ack_Success ack \<and> TrimSpace (ack_ExternalID ack) \<noteq> ''''
        then fst (reconcileAckedDraftLocked now w (acked_op (FormatRFC3339Nano now) ack oper) ack corr s1) else s1))"
  using assms by (simp add: AcknowledgeWriteback_def Let_def case_prod_beta)

locale step_relation =
  fixes R :: "Store \<Rightarrow> Store \<Rightarrow> bool"
  assumes R_trans [trans]: "R s s' \<Longrightarrow> R s' s'' \<Longrightarrow> R s s''"
    and R_aside: "fork_only s s' \<Longrightarrow> R s s'"
    and R_rewrite: "ops_rewritten (ws_of s w) ws \<Longrightarrow> R s (put_ws w ws s)"
    and R_rewrite_all: "(\<And>ws. ops_rewritten ws (g ws)) \<Longrightarrow> R s (s\<lparr>s_workspaces := map (\<lambda>(w, ws). (w, g ws)) (s_workspaces s)\<rparr>)"
    and R_note: "\<not> file_event ev \<Longrightarrow> R s (append_next w ev s)"
    and R_put: "f_Path f = p \<Longrightarrow> f_Revision f = rev_id (Suc (s_revCounter s)) \<Longrightarrow>
        retabled w (put_file w p f (f_Revision f) (s\<lparr>s_revCounter := Suc (s_revCounter s)\<rparr>)) s1 \<Longrightarrow>
        announces f ev \<Longrightarrow> R s (append_next w ev s1)"
    and R_remove: "e_Type ev = ''file.deleted'' \<Longrightarrow> e_Path ev = p \<Longrightarrow>
        R s (append_next w ev (remove_file w p r (s\<lparr>s_revCounter := Suc (s_revCounter s)\<rparr>)))"
    and R_move: "f_Path f = q \<Longrightarrow> f_Revision f = rev_id (Suc (s_revCounter s)) \<Longrightarrow>
        retabled w (put_file w q f (f_Revision f) (remove_file w p r (s\<lparr>s_revCounter := Suc (s_revCounter s)\<rparr>))) s1 \<Longrightarrow>
        e_Type ev = ''file.deleted'' \<Longrightarrow> e_Path ev = p \<Longrightarrow> announces f ev' \<Longrightarrow> p \<noteq> q \<Longrightarrow>
        R s (append_next w ev' (append_next w ev s1))"
    and R_commit_put: "(store_inv s \<Longrightarrow> f_Path f = p) \<Longrightarrow> f_Revision f = rev_id (Suc (s_revCounter s)) \<Longrightarrow> put_type et \<Longrightarrow>
        R s (commit_put now w p f et corr ident s)"
    and R_commit_del: "R s (commit_del now w p prov corr acl s)"
begin

lemma R_refl [simp]: "R s s"
  by (rule R_aside) simp

lemma R_core: "same_core s s' \<Longrightarrow> R s s'"
  using fork_inv_same_core [of s s'] same_workspaces_core [of s s'] by (intro R_aside) (simp add: fork_only_def)

lemma R_ensure: "R s (ensureWorkspaceLocked w s)"
  by (rule R_aside) (rule fork_only_ensure)

lemma R_save: "R s s' \<Longrightarrow> R s (saveLocked s')"
  using R_trans [OF _ R_core [OF same_core_save]] .

lemma R_then_core: "R s s' \<Longrightarrow> same_core s' s'' \<Longrightarrow> R s s''"
  using R_trans [OF _ R_core] .

lemma R_fold: "(\<And>x s. R s (f x s)) \<Longrightarrow> R s (fold f xs s)"
proof (induction xs arbitrary: s)
  case (Cons x xs)
  then show ?case using R_trans [OF Cons.prems Cons.IH [OF Cons.prems]] by simp
qed simp

section \<open>Files and forks\<close>

lemma R_WriteFile: "R s (fst (WriteFile now req s))"
proof (cases rule: WriteFile_total [of now req s])
  case (failed e s')
  then show ?thesis using R_ensure by auto
next
  case (written encoding metadata task et)
  let ?w = "wr_WorkspaceID req" and ?p = "normalizePath (wr_Path req)"
  let ?f = "write_file now req encoding metadata (rev_id (Suc (s_revCounter s))) (map_of (ws_Files (ws_of s ?w)) ?p)"
  have "R (ensureWorkspaceLocked ?w s) (commit_put now ?w ?p ?f et (wr_CorrelationID req) None (ensureWorkspaceLocked ?w s))"
  proof (rule R_commit_put)
    show "f_Path ?f = ?p" if "store_inv (ensureWorkspaceLocked ?w s)"
      using store_inv_file_path [OF that, of ?w ?p] by (intro write_file_path) (simp add: store_simps)
  qed (use written(3) in \<open>simp_all add: store_simps\<close>)
  from R_trans [OF R_ensure this] show ?thesis
    unfolding written(2) fst_conv using R_then_core [OF _ same_core_trans [OF same_core_save same_core_enqueue]] by blast
qed

lemma R_DeleteFile: "R s (fst (DeleteFile now req s))"
proof -
  have adm: "R s (fst (admitDeleteLocked w now (ensureWorkspaceLocked w s)))" for w
    using R_trans [OF R_ensure R_aside [OF fork_only_admit]] .
  show ?thesis
  proof (cases rule: DeleteFile_cases [of now req s])
    case (failed e s')
    then show ?thesis using R_ensure adm by auto
  next
    case (deleted f task)
    then show ?thesis
      using R_then_core [OF R_trans [OF adm R_commit_del] same_core_trans [OF same_core_save same_core_enqueue]] by simp
  qed
qed

lemma R_BulkWrite: "R s (fst (BulkWrite now w files s))"
proof -
  have one: "R s (fst (bulk_write_one now w input s))" for now w input s
    by (cases rule: bulk_write_one_cases [of now w input s]) (simp_all add: R_commit_put)
  have "R s (fst (bulk_write_loop now w files (ensureWorkspaceLocked w s)))"
    unfolding bulk_loop_store by (rule R_trans [OF R_ensure R_fold]) (simp add: one split: prod.split)
  then show ?thesis
    using BulkWrite_store [of now w files s] R_then_core [OF _ same_core_trans [OF same_core_save same_core_fold_enqueue]] by auto
qed

lemma R_commit_all: "R (cs_store cs) (cs_store (fold (commit_one now w c) es cs))"
proof (induction es arbitrary: cs)
  case (Cons e es)
  obtain p oe where e: "e = (p, oe)" by (cases e)
  have "R (cs_store cs) (cs_store (commit_one now w c (p, oe) cs))"
  proof (cases rule: commit_one_cases [of now w c p oe cs])
    case (put f0 f et)
    then show ?thesis by (simp add: R_commit_put)
  qed (simp_all add: R_commit_del)
  from R_trans [OF this Cons.IH] show ?case by (simp add: e)
qed simp

lemma R_CommitFork: "R s (fst (CommitForkWithValidator now w i c validate s))"
proof (cases rule: CommitFork_cases [of now w i c validate s])
  case (refused s' e)
  then show ?thesis using R_aside [OF fork_only_get_live] R_ensure by auto
next
  case (committed fork s' resp cs)
  have "R s (cs_store cs)"
    unfolding committed(6)
    by (rule R_trans [OF R_ensure]) (use R_commit_all [of "\<lparr>cs_store = ensureWorkspaceLocked (TrimSpace w) s,
      cs_revision = currentWorkspaceRevisionLocked s (TrimSpace w), cs_written = 0, cs_deleted = 0, cs_tasks = []\<rparr>"] in simp)
  then have "R s (deleteForkLocked now (TrimSpace i) False (cs_store cs))" using R_trans [OF _ R_aside [OF fork_only_delete]] by blast
  then show ?thesis
    unfolding committed(1,7) fst_conv using R_then_core [OF _ same_core_trans [OF same_core_save same_core_fold_enqueue]] by blast
qed

lemmas R_fork_operations = R_aside [OF WriteForkFile_only] R_aside [OF DeleteForkFile_only] R_aside [OF BulkWriteFork_only]
  R_aside [OF RebaseFork_only] R_aside [OF DiscardFork_only] R_aside [OF expireForkByTimer_only]

section \<open>Writebacks\<close>

lemma R_put_op:
  assumes "map_of (ws_Ops (ws_of s w)) i = Some oper" and "op_OpID oper' = op_OpID oper"
  shows "R s (put_op w i oper' s)"
  unfolding put_op_def Let_def using ops_ok_rewrite [OF _ assms] by (intro R_rewrite) (simp add: ops_rewritten_def)

lemma R_put_index: "R s (put_index w key p s)"
  unfolding put_index_def Let_def by (intro R_rewrite) (simp add: ops_rewritten_def)

lemma R_wb_finish: "R s (fst (wb_finish now task action attempt outcome s))"
proof (cases "\<exists>ws oper. map_of (s_workspaces s) (wq_WorkspaceID task) = Some ws \<and> map_of (ws_Ops ws) (wq_OpID task) = Some oper")
  case True
  then obtain ws :: workspaceState and oper :: OperationStatus where ws: "map_of (s_workspaces s) (wq_WorkspaceID task) = Some ws"
    and oper: "map_of (ws_Ops ws) (wq_OpID task) = Some oper" by blast
  let ?put = "\<lambda>oper'. put_op (wq_WorkspaceID task) (wq_OpID task) oper' s"
  have put: "R s (?put oper')" if "op_OpID oper' = op_OpID oper" for oper'
    using oper that by (intro R_put_op) (simp_all add: ws_of_known [OF ws])
  have ev: "R s (append_next (wq_WorkspaceID task) (writeback_event '''' et prov task ts) (?put oper'))"
    if "op_OpID oper' = op_OpID oper" and "et = ''writeback.succeeded'' \<or> et = ''writeback.failed''" for oper' et prov ts
    using R_trans [OF put [OF that(1)] R_note] that(2) by (auto simp: file_event_def writeback_event_def)
  have next_ev: "appendWorkspaceEventLocked (wq_WorkspaceID task) (writeback_event (evt_id (Suc (s_eventCounter s))) et prov task ts)
      ((?put oper')\<lparr>s_eventCounter := Suc (s_eventCounter s)\<rparr>)
     = append_next (wq_WorkspaceID task) (writeback_event '''' et prov task ts) (?put oper')" for et prov ts oper'
    using append_next_event(1) [where s = "?put oper'"] by (simp add: store_simps)
  show ?thesis
    using put ev R_then_core [OF ev recordSuppression_core]
    by (cases outcome) (simp_all add: wb_finish_def ws oper Let_def nextEventIDLocked_def store_simps next_ev)
qed (auto simp: wb_finish_def Let_def split: option.splits)

lemma R_processWritebackMutation: "R s (fst (processWritebackMutation now ws task s))"
  using R_wb_finish by (auto simp: processWritebackMutation_def split: option.splits)

lemma R_processWriteback: "R s (fst (processWriteback now ws task s))"
  using R_processWritebackMutation [of s now ws task] R_save by (auto simp: processWriteback_def split: prod.splits)

lemma R_drain: "R s (snd (drain n s))"
proof (induction n arbitrary: s)
  case (Suc n)
  have "R s (snd (drain n (markWritebackDequeued t (s\<lparr>s_writebackQueue := q\<rparr>))))" for t q
    using R_trans [OF R_core [OF same_core_trans [OF queue_core markDequeued_core]] Suc.IH] .
  then show ?case by (auto split: option.splits prod.splits) (metis snd_conv)+
qed simp

lemma R_process_batch: "R s (fst (process_batch now ws tasks s))"
proof (induction tasks rule: rev_induct)
  case Nil
  show ?case by (simp add: process_batch_def)
next
  case (snoc t tasks)
  show ?case unfolding process_batch_snoc by (rule R_trans [OF snoc R_processWritebackMutation])
qed

lemma R_worker: "R s (worker_round r s)"
proof -
  obtain now extra ws where r: "r = (now, extra, ws)" by (cases r)
  have deq: "R s (markWritebackDequeued t (s\<lparr>s_writebackQueue := q\<rparr>))" for t q
    using R_core [OF same_core_trans [OF queue_core markDequeued_core]] .
  have one: "R s (fst (processWriteback now ws t (markWritebackDequeued t (s\<lparr>s_writebackQueue := q\<rparr>))))" for t q
    using R_trans [OF deq R_processWriteback] .
  have many: "R s (fst (process_batch now ws tasks (snd (drain n (markWritebackDequeued t (s\<lparr>s_writebackQueue := q\<rparr>))))))" for t q n tasks
    using R_trans [OF R_trans [OF deq R_drain] R_process_batch] .
  show ?thesis
    unfolding worker_round_def r writebackWorker_def Let_def
    using one many R_save [OF many] by (auto split: option.splits prod.splits if_splits) (metis fst_conv snd_conv)+
qed

lemma R_ReplayOperation: "R s (fst (ReplayOperation now w i corr s))"
proof (cases "\<exists>ws oper. map_of (s_workspaces s) w = Some ws \<and> map_of (ws_Ops ws) i = Some oper")
  case True
  then obtain ws :: workspaceState and oper :: OperationStatus where ws: "map_of (s_workspaces s) w = Some ws"
    and oper: "map_of (ws_Ops ws) i = Some oper" by blast
  have "R s (enqueueWriteback t (saveLocked (put_op w i oper' s)))" if "op_OpID oper' = op_OpID oper" for oper' t
    using R_then_core [OF R_put_op same_core_trans [OF same_core_save same_core_enqueue]] oper that
    by (simp add: ws_of_known [OF ws])
  then show ?thesis by (simp add: ReplayOperation_def ws oper Let_def)
qed (auto simp: ReplayOperation_def split: option.splits)

lemma R_ReplayOperationAny: "R s (fst (ReplayOperationAny now i corr s))"
  using R_ReplayOperation by (simp add: ReplayOperationAny_def Let_def)

lemma R_quarantine: "R s (quarantineBootDeleteStorms now s)"
  using R_rewrite_all [OF ops_rewritten_quarantine] R_save [OF R_rewrite_all [OF ops_rewritten_quarantine]]
  by (simp add: quarantineBootDeleteStorms_def Let_def)

lemma R_boot_enqueue: "R s (fst (boot_enqueue now s))"
  by (simp add: boot_enqueue_def Let_def R_core)

section \<open>Acknowledgements and drafts\<close>

lemma R_removeDraft: "R s (removeDraftLocked now w p prov corr s)"
proof (cases "map_of (ws_Files (ws_of s w)) p")
  case (Some f)
  show ?thesis
    using Some R_remove [of "system_event '''' ''file.deleted'' p r '''' prov corr ts acl" for r ts acl] append_next_event(2)
    by (simp add: removeDraftLocked_def Let_def nextRevisionLocked_def nextEventIDLocked_def store_simps system_event_def append_next_def)
qed (simp add: removeDraftLocked_def)

lemma R_rename_draft:
  assumes "p \<noteq> q"
  shows "R s (rename_draft now w p q file prov ext corr s)"
  unfolding rename_draft_eq
  by (rule R_move [where f = "renamed_file now q (rev_id (Suc (s_revCounter s))) prov ext file" and q = q and p = p])
    (use assms retabled_index in \<open>simp_all add: renamed_file_def system_event_def announces_def\<close>)

lemma R_reconcile: "R s (fst (reconcileAckedDraftLocked now w oper ack corr s))"
  using R_rename_draft R_removeDraft R_put_index
  by (auto simp: reconcileAckedDraftLocked_def Let_def split: option.splits)

lemma R_Acknowledge: "R s (fst (AcknowledgeWriteback now w i ack corr s))"
proof (cases "w \<noteq> '''' \<and> i \<noteq> '''' \<and> (\<exists>ws oper. map_of (s_workspaces s) w = Some ws \<and> map_of (ws_Ops ws) i = Some oper)")
  case True
  then obtain ws :: workspaceState and oper :: OperationStatus where k: "w \<noteq> ''''" "i \<noteq> ''''" "map_of (s_workspaces s) w = Some ws"
    "map_of (ws_Ops ws) i = Some oper" by blast
  have put: "R s (put_op w i (acked_op ts ack oper) s)" for ts
    using k(4) by (intro R_put_op) (simp_all add: ws_of_known [OF k(3)])
  show ?thesis
    unfolding AcknowledgeWriteback_known [OF k] Let_def using R_save [OF put] R_save [OF R_trans [OF put R_reconcile]] by simp
qed (auto simp: AcknowledgeWriteback_def split: option.splits)

lemma R_Sweep: "R s (fst (SweepWritebackDrafts now w req s))"
proof -
  have visit: "R (fst acc) (fst (sweep_visit now w req pre pend idx p acc))" for pre pend idx p acc
    by (auto simp: sweep_visit_def Let_def R_removeDraft split: prod.splits)
  have "R (fst acc) (fst (fold (sweep_visit now w req pre pend idx) ps acc))" for pre pend idx ps acc
  proof (induction ps arbitrary: acc)
    case (Cons p ps)
    show ?case using R_trans [OF visit Cons.IH] by simp
  qed simp
  then have run: "R s s'" if "fold (sweep_visit now w req pre pend idx) ps (s, r) = (s', r')" for s' r' r pre pend idx ps
    using that by (metis fst_conv)
  show ?thesis by (auto simp: SweepWritebackDrafts_def Let_def dest!: run intro!: R_save split: option.splits prod.splits)
qed

end

section \<open>The relation of the invariants\<close>

definition advances :: "Store \<Rightarrow> Store \<Rightarrow> bool" where
  "advances s s' \<longleftrightarrow> (store_inv s \<longrightarrow> store_inv s' \<and> (\<forall>w. prefix (ws_Events (ws_of s w)) (ws_Events (ws_of s' w)))
     \<and> s_revCounter s \<le> s_revCounter s' \<and> s_eventCounter s \<le> s_eventCounter s' \<and> fresh_files s s')
     \<and> (fork_inv s \<longrightarrow> fork_inv s')"

lemma fork_inv_steps [store_simps]:
  "fork_inv (put_ws w ws s) = fork_inv s" "fork_inv (s\<lparr>s_revCounter := n\<rparr>) = fork_inv s" "fork_inv (s\<lparr>s_eventCounter := n\<rparr>) = fork_inv s"
  "fork_inv (appendWorkspaceEventLocked w ev s) = fork_inv s"
  "fork_inv (put_file w p f r s) = fork_inv s" "fork_inv (remove_file w p r s) = fork_inv s"
  by (rule fork_inv_tables, simp add: put_file_def remove_file_def Let_def store_simps)+

lemma fork_inv_workspaces [store_simps]: "fork_inv (s\<lparr>s_workspaces := wss\<rparr>) = fork_inv s"
  by (rule fork_inv_tables) (simp add: fork_tables_def)

lemma advances_trans [trans]: "advances s s' \<Longrightarrow> advances s' s'' \<Longrightarrow> advances s s''"
  unfolding advances_def by (meson fresh_files_trans le_trans prefix_order.trans)

lemma advances_fork_only: "fork_only s s' \<Longrightarrow> advances s s'"
  using same_workspaces_inv [of s s'] by (auto simp: fork_only_def advances_def same_workspaces_def intro: fresh_files_same)

lemma advances_put_ws:
  assumes "ops_rewritten (ws_of s w) ws"
  shows "advances s (put_ws w ws s)"
proof -
  have "store_inv s \<Longrightarrow> store_inv (put_ws w ws s)"
    using assms by (intro store_inv_put_ws) (auto simp: store_inv_def ws_inv_def ops_rewritten_def)
  then show ?thesis using assms by (auto simp: advances_def store_simps ops_rewritten_def intro: fresh_files_same)
qed

lemma map_of_mapped: "map_of (map (\<lambda>(w, ws). (w, f ws)) m) w = map_option f (map_of m w)"
  by (induction m) auto

lemma advances_rewrite_all:
  assumes "\<And>ws. ops_rewritten ws (g ws)"
  shows "advances s (s\<lparr>s_workspaces := map (\<lambda>(w, ws). (w, g ws)) (s_workspaces s)\<rparr>)"
proof -
  let ?ws = "map (\<lambda>(w, ws). (w, g ws)) (s_workspaces s)"
  have ops: "ops_rewritten (ws_of s w) (ws_of (s\<lparr>s_workspaces := ?ws\<rparr>) w)" for w
    by (simp add: ws_of_def mget_or_def map_of_mapped assms split: option.splits)
  show ?thesis
    using ops [unfolded ops_rewritten_def]
    by (auto simp: advances_def store_inv_def ws_inv_def wf_map_def o_def case_prod_beta store_simps intro: fresh_files_same)
qed

lemma append_event_wf: "wf_map (s_workspaces s) \<Longrightarrow> wf_map (s_workspaces (appendWorkspaceEventLocked w ev s))"
  using same_core_publish by (simp add: appendWorkspaceEventLocked_def Let_def same_core_def store_simps)

lemma advances_append: "advances s (append_next w ev s)"
  unfolding advances_def
proof (intro impI conjI allI)
  assume inv: "store_inv s"
  have "ws_inv (s_revCounter s) (s_opCounter s) (Suc (s_eventCounter s)) (ws_of s w')" for w'
    using inv unfolding store_inv_def by (auto intro: ws_inv_mono)
  then show "store_inv (append_next w ev s)"
    using inv append_event_wf by (auto simp: append_next_def store_inv_def store_simps ws_inv_def intro!: log_ok_snoc)
qed (simp_all add: append_next_def store_simps fresh_files_same)

lemma advances_retabled: "retabled w s s' \<Longrightarrow> advances s s'"
  using advances_put_ws by (auto simp: retabled_def advances_def)

text \<open>Removing, putting or moving one file under the next revision.\<close>

lemma advances_remove_file:
  "advances s (remove_file w p r (s\<lparr>s_revCounter := Suc (s_revCounter s)\<rparr>))"
  unfolding advances_def
  by (auto simp: store_inv_def remove_file_def Let_def store_simps ws_inv_def fresh_files_def gomap_simps
      intro: files_ok_mono [OF files_ok_mdel] files_ok_mono split: if_splits)

lemma advances_put_file:
  assumes "f_Path f = p" and "f_Revision f = rev_id (Suc (s_revCounter s))"
  shows "advances s (put_file w p f r (s\<lparr>s_revCounter := Suc (s_revCounter s)\<rparr>))"
  unfolding advances_def using files_ok_mput [OF _ assms] assms(2)
  by (auto simp: store_inv_def put_file_def Let_def store_simps ws_inv_def fresh_files_def gomap_simps
      intro: files_ok_mono split: if_splits)

lemma advances_move_file:
  assumes "f_Path f = q" and "f_Revision f = rev_id (Suc (s_revCounter s))"
  shows "advances s (put_file w q f r (remove_file w p r' (s\<lparr>s_revCounter := Suc (s_revCounter s)\<rparr>)))"
  unfolding advances_def using files_ok_mput [OF files_ok_mdel assms] assms(2)
  by (auto simp: store_inv_def remove_file_def put_file_def Let_def store_simps ws_inv_def fresh_files_def gomap_simps
      intro: files_ok_mono split: if_splits)

lemma advances_commits:
  "(store_inv s \<Longrightarrow> f_Path f = p) \<Longrightarrow> f_Revision f = rev_id (Suc (s_revCounter s)) \<Longrightarrow> advances s (commit_put now w p f et corr ident s)"
  "advances s (commit_del now w p prov corr acl s)"
  unfolding advances_def using fork_inv_tables [OF fork_tables_commit(1)] fork_inv_tables [OF fork_tables_commit(2)]
  by (auto intro: commit_put_inv commit_log commit_fresh commit_del_inv simp: commit_fields)

interpretation adv: step_relation advances
proof unfold_locales
  fix s s1 f p q r w ev ev'
  show "advances s (append_next w ev s1)"
    if "f_Path f = p" "f_Revision f = rev_id (Suc (s_revCounter s))"
      "retabled w (put_file w p f (f_Revision f) (s\<lparr>s_revCounter := Suc (s_revCounter s)\<rparr>)) s1"
    by (rule advances_trans [OF advances_trans [OF advances_put_file [OF that(1,2)] advances_retabled [OF that(3)]] advances_append])
  show "advances s (append_next w ev' (append_next w ev s1))"
    if "f_Path f = q" "f_Revision f = rev_id (Suc (s_revCounter s))"
      "retabled w (put_file w q f (f_Revision f) (remove_file w p r (s\<lparr>s_revCounter := Suc (s_revCounter s)\<rparr>))) s1"
    by (rule advances_trans [OF advances_trans [OF advances_trans [OF advances_move_file [OF that(1,2)] advances_retabled [OF that(3)]]
          advances_append] advances_append])
  show "advances s (append_next w ev (remove_file w p r (s\<lparr>s_revCounter := Suc (s_revCounter s)\<rparr>)))"
    by (rule advances_trans [OF advances_remove_file advances_append])
qed (erule (1) advances_trans | erule advances_fork_only advances_put_ws | rule advances_append advances_commits advances_rewrite_all; blast)+

lemma store_operation_advances: "(\<And>r s. advances s (exec r s)) \<Longrightarrow> store_operation exec"
  by unfold_locales (simp_all add: advances_def)

interpretation worker_op: store_operation worker_round
  by (rule store_operation_advances [OF adv.R_worker])

interpretation replay_op: store_operation "\<lambda>(now, w, i, corr) s. fst (ReplayOperation now w i corr s)"
  by (rule store_operation_advances) (simp add: adv.R_ReplayOperation split: prod.splits)

interpretation boot_op: store_operation "\<lambda>now s. quarantineBootDeleteStorms now s"
  by (rule store_operation_advances [OF adv.R_quarantine])

interpretation ack_op: store_operation "\<lambda>(now, w, i, ack, corr) s. fst (AcknowledgeWriteback now w i ack corr s)"
  by (rule store_operation_advances) (simp add: adv.R_Acknowledge split: prod.splits)

interpretation sweep_op: store_operation "\<lambda>(now, w, req) s. fst (SweepWritebackDrafts now w req s)"
  by (rule store_operation_advances) (simp add: adv.R_Sweep split: prod.splits)

end
