(* ===== verification/WritebackCorrect.thy ===== *)
theory WritebackCorrect
  imports Steps
begin

text \<open>
  Correctness of the writeback side: a task that is
  attempted settles after a bounded number of attempts; a settled or quarantined operation is never executed again; and
  what a restart re-arms is bounded.
\<close>

lemma quarantine_ws:
  assumes "\<not> (cfg_deleteStormThreshold (s_cfg s) \<le> 0 \<and> cfg_staleRunningOpThreshold (s_cfg s) \<le> 0)"
    and "map_of (s_workspaces s) w = Some ws"
  shows "map_of (s_workspaces (quarantineBootDeleteStorms now s)) w = Some (quarantine_workspace now (s_cfg s) ws)"
  using assms by (auto simp: quarantineBootDeleteStorms_def Let_def store_simps map_of_mapped)

section \<open>Attempts\<close>

definition op_at :: "Store \<Rightarrow> string \<Rightarrow> string \<Rightarrow> OperationStatus option" where
  "op_at s w i = map_of (ws_Ops (ws_of s w)) i"

abbreviation task_op :: "WritebackQueueItem \<Rightarrow> Store \<Rightarrow> OperationStatus option" where
  "task_op task s \<equiv> op_at s (wq_WorkspaceID task) (wq_OpID task)"

lemma op_at_known: "op_at s w i = Some oper \<Longrightarrow> \<exists>ws. map_of (s_workspaces s) w = Some ws \<and> map_of (ws_Ops ws) i = Some oper"
  by (auto simp: op_at_def ws_of_def mget_or_def empty_workspace_def split: option.splits)

lemma op_at_put_op [simp]: "op_at (put_op w i oper s) w i = Some oper"
  by (simp add: op_at_def store_simps AList.update_conv')

lemma op_at_core: "same_core s s' \<Longrightarrow> op_at s' w i = op_at s w i"
  by (simp add: op_at_def same_core_ws)

lemmas [simp] = op_at_core [OF recordSuppression_core] op_at_core [OF same_core_save]

lemma op_at_event [simp]: "op_at (appendWorkspaceEventLocked w' ev s) w i = op_at s w i"
  by (cases "e_ACLPermissions ev") (simp_all add: op_at_def store_simps)

lemma op_at_counter [simp]: "op_at (s\<lparr>s_eventCounter := n\<rparr>) w i = op_at s w i"
  by (simp add: op_at_def store_simps)

lemma recordSuppression_cfg [simp]: "s_cfg (recordSuppressionLocked w prov i corr now s) = s_cfg s"
  using recordSuppression_core [unfolded same_core_def] by blast

lemma wb_finish_op:
  assumes "task_op task s = Some oper"
  obtains (succeeded) s' oper' where "wb_finish now task action attempt outcome s = (s', True, None)" "is_ok outcome"
      "task_op task s' = Some oper'" "op_Status oper' = ''succeeded''" "op_AttemptCount oper' = attempt" "s_cfg s' = s_cfg s"
  | (dead) s' oper' where "wb_finish now task action attempt outcome s = (s', True, None)" "\<not> is_ok outcome"
      "task_op task s' = Some oper'" "op_Status oper' = ''dead_lettered''" "op_AttemptCount oper' = attempt" "s_cfg s' = s_cfg s"
      "cfg_maxAttempts (s_cfg s) \<le> attempt"
  | (retry) s' oper' where "wb_finish now task action attempt outcome s = (s', True, Some task)" "\<not> is_ok outcome"
      "task_op task s' = Some oper'" "op_Status oper' = ''pending''" "op_AttemptCount oper' = attempt" "s_cfg s' = s_cfg s"
      "attempt < cfg_maxAttempts (s_cfg s)"
proof -
  obtain ws where ws: "map_of (s_workspaces s) (wq_WorkspaceID task) = Some ws" and oper: "map_of (ws_Ops ws) (wq_OpID task) = Some oper"
    using op_at_known [OF assms] by blast
  show thesis
  proof (cases outcome)
    case (Inl e)
    show thesis
    proof (cases "cfg_maxAttempts (s_cfg s) \<le> attempt")
      case True
      then show thesis using Inl by (intro dead) (simp add: wb_finish_def ws oper Let_def nextEventIDLocked_def store_simps split del: if_split)+
    next
      case False
      then show thesis using Inl by (intro retry) (simp add: wb_finish_def ws oper Let_def store_simps split del: if_split)+
    qed
  next
    case (Inr r)
    then show thesis by (intro succeeded) (simp add: wb_finish_def ws oper Let_def nextEventIDLocked_def store_simps split del: if_split)+
  qed
qed

lemma wb_begin_idle:
  "task_op task s = Some oper \<Longrightarrow> \<not> armed oper \<Longrightarrow> wb_begin task s = None"
  by (drule op_at_known) (auto simp: wb_begin_def armed_def)

lemma wb_begin_armed:
  assumes "task_op task s = Some oper" and "armed oper"
  obtains task' action where "wb_begin task s = Some (task', action, op_AttemptCount oper + 1)"
    "wq_WorkspaceID task' = wq_WorkspaceID task" "wq_OpID task' = wq_OpID task"
proof -
  obtain ws where "map_of (s_workspaces s) (wq_WorkspaceID task) = Some ws" "map_of (ws_Ops ws) (wq_OpID task) = Some oper"
    using op_at_known [OF assms(1)] by blast
  then show thesis using assms(2) that by (simp add: wb_begin_def armed_def Let_def split: if_splits)
qed

lemma settled_untouched:
  "task_op task s = Some oper \<Longrightarrow> \<not> armed oper \<Longrightarrow> processWritebackMutation now ws task s = (s, False, None)"
  by (simp add: processWritebackMutation_def wb_begin_idle)

text \<open>Following one task through its retry timers, one provider per attempt; the number counts the attempts.\<close>

fun deliver :: "(instant \<times> writers) list \<Rightarrow> WritebackQueueItem \<Rightarrow> Store \<Rightarrow> Store \<times> nat \<times> WritebackQueueItem option" where
  "deliver [] task s = (s, 0, Some task)"
| "deliver ((now, ws) # rounds) task s =
     (case processWritebackMutation now ws task s of
        (s', mutated, None) \<Rightarrow> (s', if mutated then 1 else 0, None)
      | (s', mutated, Some t) \<Rightarrow> (case deliver rounds t s' of (s'', n, r) \<Rightarrow> (s'', Suc n, r)))"

definition attempts_left :: "Store \<Rightarrow> OperationStatus \<Rightarrow> nat" where
  "attempts_left s oper = nat (max 1 (cfg_maxAttempts (s_cfg s) - op_AttemptCount oper))"

lemma deliver_settles:
  assumes "task_op task s = Some oper" and "armed oper" and "attempts_left s oper \<le> length rounds"
  shows "\<exists>s' n oper'. deliver rounds task s = (s', n, None) \<and> 1 \<le> n \<and> n \<le> attempts_left s oper \<and> task_op task s' = Some oper'
    \<and> (op_Status oper' = ''succeeded'' \<or> op_Status oper' = ''dead_lettered'' \<and> n = attempts_left s oper)"
  using assms
proof (induction rounds arbitrary: task s oper)
  case Nil
  then show ?case by (simp add: attempts_left_def)
next
  case (Cons round rounds)
  obtain now ws where r: "round = (now, ws)" by (cases round)
  obtain t action where b: "wb_begin task s = Some (t, action, op_AttemptCount oper + 1)"
    and t: "wq_WorkspaceID t = wq_WorkspaceID task" "wq_OpID t = wq_OpID task"
    using wb_begin_armed [OF Cons.prems(1,2)] by blast
  have at: "task_op t s = Some oper" using Cons.prems(1) t by simp
  have p: "processWritebackMutation now ws task s = wb_finish now t action (op_AttemptCount oper + 1) (execute_write ws t action) s"
    by (simp add: processWritebackMutation_def b)
  from at show ?case
  proof (cases rule: wb_finish_op [where now = now and action = action and attempt = "op_AttemptCount oper + 1" and outcome = "execute_write ws t action"])
    case (succeeded s' oper')
    then show ?thesis using t by (auto simp: r p attempts_left_def)
  next
    case (dead s' oper')
    then show ?thesis using t by (auto simp: r p attempts_left_def)
  next
    case (retry s' oper')
    have left: "attempts_left s oper = Suc (attempts_left s' oper')"
      using retry by (simp add: attempts_left_def)
    obtain s'' n oper'' where "deliver rounds t s' = (s'', n, None)" "1 \<le> n" "n \<le> attempts_left s' oper'" "task_op t s'' = Some oper''"
      "op_Status oper'' = ''succeeded'' \<or> op_Status oper'' = ''dead_lettered'' \<and> n = attempts_left s' oper'"
      using Cons.IH [OF retry(3)] retry(4) Cons.prems(3) left by (auto simp: armed_def)
    then show ?thesis using t retry(1) left by (auto simp: r p)
  qed
qed

text \<open>C10. A task whose operation is armed settles: after at most \<open>maxAttempts - attemptCount\<close> attempts (one when the
  operation has already used them all) no retry timer is left and the operation is \<open>succeeded\<close>, or \<open>dead_lettered\<close> after
  exactly that many failures; and a further task for it that is processed then, by whatever provider, changes nothing and starts
  no timer.  The attempts follow each other with nothing else in between: a replay of the operation or an acknowledgement during an
  attempt is another matter.\<close>

theorem writeback_settles:
  assumes "task_op task s = Some oper" and "armed oper" and "attempts_left s oper \<le> length rounds"
  shows "\<exists>s' n oper'. deliver rounds task s = (s', n, None) \<and> n \<le> attempts_left s oper
    \<and> task_op task s' = Some oper' \<and> (op_Status oper' = ''succeeded'' \<or> op_Status oper' = ''dead_lettered'' \<and> n = attempts_left s oper)
    \<and> (\<forall>now ws t. wq_WorkspaceID t = wq_WorkspaceID task \<and> wq_OpID t = wq_OpID task
         \<longrightarrow> processWritebackMutation now ws t s' = (s', False, None))"
proof -
  obtain s' n oper' where d: "deliver rounds task s = (s', n, None)" "n \<le> attempts_left s oper" "task_op task s' = Some oper'"
    "op_Status oper' = ''succeeded'' \<or> op_Status oper' = ''dead_lettered'' \<and> n = attempts_left s oper"
    using deliver_settles [OF assms] by blast
  have "\<not> armed oper'" using d(4) by (auto simp: armed_def)
  then have "processWritebackMutation now ws t s' = (s', False, None)"
    if "wq_WorkspaceID t = wq_WorkspaceID task \<and> wq_OpID t = wq_OpID task" for now ws t
    using d(3) that by (intro settled_untouched) simp_all
  then show ?thesis using d by blast
qed

text \<open>A store with one queued delete, and a provider that always fails.\<close>

definition sample_op :: OperationStatus where
  "sample_op = record_operation ''op_1'' ''/n/a'' ''rev_1'' ''file.deleted'' ''n'' ''c'' ''t'' None"

definition sample_op_store :: Store where
  "sample_op_store = put_ws ''w'' (empty_workspace\<lparr>ws_Ops := [(''op_1'', sample_op)]\<rparr>) (NewStore\<lparr>s_opCounter := 1\<rparr>)"

definition sample_writeback :: WritebackQueueItem where
  "sample_writeback = \<lparr>wq_WorkspaceID = ''w'', wq_OpID = ''op_1'', wq_Path = ''/n/a'', wq_Revision = ''rev_1'',
     wq_ContentIdentity = None, wq_CorrelationID = ''c''\<rparr>"

definition failing :: writers where
  "failing = \<lparr>w_action = Some (\<lambda>a. Inl ''unreachable''), w_write = None, w_adapters = []\<rparr>"

lemma sample_op_armed [simp]: "armed sample_op" "op_AttemptCount sample_op = 0" "op_Status sample_op = ''pending''"
  by (simp_all add: sample_op_def record_operation_def armed_def)

lemma sample_op_at [simp]: "op_at sample_op_store ''w'' ''op_1'' = Some sample_op"
  by (simp add: op_at_def sample_op_store_def store_simps)

lemma sample_writeback_ids [simp]: "wq_WorkspaceID sample_writeback = ''w''" "wq_OpID sample_writeback = ''op_1''"
  by (simp_all add: sample_writeback_def)

lemma sample_cfg [simp]: "cfg_maxAttempts (s_cfg sample_op_store) = 3"
  by (simp add: sample_op_store_def store_simps NewStore_def new_store_def store_config_def default_options_def positive_or_def Let_def)

theorem writeback_settles_witness:
  "\<exists>s' n oper'. deliver [(1, failing), (2, failing), (3, failing)] sample_writeback sample_op_store = (s', n, None) \<and> n \<le> 3
    \<and> task_op sample_writeback s' = Some oper' \<and> (op_Status oper' = ''succeeded'' \<or> op_Status oper' = ''dead_lettered'' \<and> n = 3)
    \<and> processWritebackMutation 4 failing sample_writeback s' = (s', False, None)"
proof -
  have left: "attempts_left sample_op_store sample_op = 3" by (simp add: attempts_left_def)
  show ?thesis
    using writeback_settles [of sample_op_store sample_writeback sample_op "[(1, failing), (2, failing), (3, failing)]"] left by auto
qed

section \<open>The race between an attempt and an acknowledgement\<close>

lemma op_at_file_steps [simp]:
  "op_at (put_index w' k p s) w i = op_at s w i" "op_at (put_file w' p f r s) w i = op_at s w i"
  "op_at (remove_file w' p r s) w i = op_at s w i" "op_at (s\<lparr>s_revCounter := n\<rparr>) w i = op_at s w i"
  by (simp_all add: op_at_def store_simps)

lemma op_at_drafts [simp]:
  "op_at (removeDraftLocked now w' p prov corr s) w i = op_at s w i"
  "op_at (rename_draft now w' p q f prov ext corr s) w i = op_at s w i"
  by (simp_all add: removeDraftLocked_def rename_draft_def Let_def nextRevisionLocked_def nextEventIDLocked_def split: option.splits)

lemma op_at_reconcile: "op_at (fst (reconcileAckedDraftLocked now w' oper ack corr s)) w i = op_at s w i"
  by (simp add: reconcileAckedDraftLocked_def Let_def split: option.splits)

lemma op_at_Acknowledge:
  assumes "w \<noteq> ''''" "i \<noteq> ''''" "op_at s w i = Some oper"
  shows "op_at (fst (AcknowledgeWriteback now w i ack corr s)) w i = Some (acked_op (FormatRFC3339Nano now) ack oper)"
proof -
  obtain ws where "map_of (s_workspaces s) w = Some ws" "map_of (ws_Ops ws) i = Some oper" using op_at_known [OF assms(3)] by blast
  then show ?thesis by (simp add: AcknowledgeWriteback_known [OF assms(1,2)] Let_def op_at_reconcile)
qed

lemma core_cfg: "same_core s s' \<Longrightarrow> s_cfg s' = s_cfg s"
  by (simp add: same_core_def)

lemma cfg_reconcile: "s_cfg (fst (reconcileAckedDraftLocked now w oper ack corr s)) = s_cfg s"
  by (simp add: reconcileAckedDraftLocked_def removeDraftLocked_def rename_draft_def Let_def nextRevisionLocked_def
      nextEventIDLocked_def store_simps split: option.splits)

lemma cfg_Acknowledge: "s_cfg (fst (AcknowledgeWriteback now w i ack corr s)) = s_cfg s"
  by (auto simp: AcknowledgeWriteback_def Let_def case_prod_beta store_simps cfg_reconcile split: option.splits)

text \<open>C40. An acknowledgement that arrives while an attempt is in flight is lost: the provider is called outside the lock, and
  the attempt, when it fails, writes its own outcome over the operation without looking at its status again, so an operation
  that was acknowledged as succeeded is pending again and a retry is scheduled for it.\<close>

theorem ack_lost_to_attempt_in_flight:
  assumes "wq_WorkspaceID task \<noteq> ''''" and "wq_OpID task \<noteq> ''''" and "task_op task s = Some oper"
    and "wb_begin task s = Some (t, action, attempt)" and "attempt < cfg_maxAttempts (s_cfg s)" and "ack_Success ack"
    and "s1 = fst (AcknowledgeWriteback now1 (wq_WorkspaceID task) (wq_OpID task) ack corr s)"
  shows "(\<exists>oper1. task_op task s1 = Some oper1 \<and> op_Status oper1 = ''succeeded'')
    \<and> (\<exists>s2 oper2. wb_finish now2 t action attempt (Inl e) s1 = (s2, True, Some t) \<and> task_op task s2 = Some oper2
         \<and> op_Status oper2 = ''pending'')"
proof -
  have arm: "armed oper" using assms(3,4) wb_begin_idle by fastforce
  have t: "wq_WorkspaceID t = wq_WorkspaceID task" "wq_OpID t = wq_OpID task"
    using wb_begin_armed [OF assms(3) arm] assms(4) by auto
  have at: "task_op t s1 = Some (acked_op (FormatRFC3339Nano now1) ack oper)"
    using op_at_Acknowledge [OF assms(1-3)] assms(7) t by simp
  have cfg: "s_cfg s1 = s_cfg s" using assms(7) cfg_Acknowledge by simp
  have "op_Status (acked_op (FormatRFC3339Nano now1) ack oper) = ''succeeded''" using assms(6) by (simp add: acked_op_def Let_def)
  moreover have "\<exists>s2 oper2. wb_finish now2 t action attempt (Inl e) s1 = (s2, True, Some t) \<and> task_op t s2 = Some oper2 \<and> op_Status oper2 = ''pending''"
    using at by (cases rule: wb_finish_op [where now = now2 and action = action and attempt = attempt and outcome = "Inl e"])
      (use assms(5) cfg in auto)
  ultimately show ?thesis using at t by auto
qed

definition sample_ack :: WritebackAck where
  "sample_ack = \<lparr>ack_Success = True, ack_Error = '''', ack_ExternalID = '''', ack_CanonicalPath = '''', ack_ProviderResult = []\<rparr>"

theorem ack_lost_to_attempt_in_flight_witness:
  "\<exists>t action. wb_begin sample_writeback sample_op_store = Some (t, action, 1)
    \<and> (let s1 = fst (AcknowledgeWriteback 5 ''w'' ''op_1'' sample_ack ''c'' sample_op_store)
       in (\<exists>oper1. task_op sample_writeback s1 = Some oper1 \<and> op_Status oper1 = ''succeeded'')
        \<and> (\<exists>s2 oper2. wb_finish 6 t action 1 (Inl ''timeout'') s1 = (s2, True, Some t) \<and> task_op sample_writeback s2 = Some oper2
             \<and> op_Status oper2 = ''pending''))"
proof -
  obtain t action where b: "wb_begin sample_writeback sample_op_store = Some (t, action, 1)"
    by (rule wb_begin_armed [of sample_op_store sample_writeback sample_op]) auto
  show ?thesis
    using ack_lost_to_attempt_in_flight [of sample_writeback sample_op_store sample_op t action 1 sample_ack _ 5 "''c''" 6 "''timeout''"] b
    by (auto simp: Let_def sample_ack_def)
qed

end
