(* ===== verification/BootSweep.thy ===== *)
theory BootSweep
  imports WritebackCorrect
begin

text \<open>
  What a restart re-arms after the quarantine, and what the draft sweep removes.
\<close>

section \<open>Quarantine at boot\<close>

definition quarantined :: "string \<Rightarrow> OperationStatus \<Rightarrow> OperationStatus" where
  "quarantined ts oper =
     (if op_Status oper = ''quarantined'' then oper
      else oper\<lparr>op_Status := ''quarantined'', op_NextAttemptAt := None, op_UpdatedAt := ts\<rparr>)"

lemma quarantined_idem [simp]: "quarantined ts (quarantined ts oper) = quarantined ts oper"
  by (simp add: quarantined_def)

lemma quarantined_fields [simp]:
  "\<not> armed (quarantined ts oper)" "op_Action (quarantined ts oper) = op_Action oper" "op_Status (quarantined ts oper) = ''quarantined''"
  by (simp_all add: quarantined_def armed_def)

lemma mput_existing:
  "wf_map m \<Longrightarrow> map_of m k = Some v \<Longrightarrow> mput k v' m = map (\<lambda>(k', x). (k', if k' = k then v' else x)) m"
proof (induction m)
  case (Cons p m)
  obtain k' x where p: "p = (k', x)" by (cases p)
  show ?case
  proof (cases "k' = k")
    case True
    then have "k \<notin> fst ` set m" using Cons.prems(1) by (simp add: p wf_map_def)
    then have "map (\<lambda>(k', x). (k', if k' = k then v' else x)) m = m" by (intro map_idI) (auto simp: image_iff split: prod.splits)
    then show ?thesis using True by (simp add: p)
  next
    case False
    then show ?thesis using Cons by (simp add: p wf_map_def)
  qed
qed simp

lemma quarantine_one_ops:
  assumes "wf_map (ws_Ops ws)"
  shows "ws_Ops (quarantine_one ts i ws) = map (\<lambda>(k, oper). (k, if k = i then quarantined ts oper else oper)) (ws_Ops ws)"
proof (cases "map_of (ws_Ops ws) i")
  case None
  then have "i \<notin> fst ` set (ws_Ops ws)" by (simp add: map_of_eq_None_iff)
  then have "map (\<lambda>(k, oper). (k, if k = i then quarantined ts oper else oper)) (ws_Ops ws) = ws_Ops ws"
    by (intro map_idI) (auto simp: image_iff split: prod.splits)
  then show ?thesis using None by (simp add: quarantine_one_def)
next
  case (Some oper)
  have at: "oper' = oper" if "(i, oper') \<in> set (ws_Ops ws)" for oper'
    using that Some assms by (simp add: map_of_mem)
  have "map (\<lambda>(k, x). (k, if k = i then quarantined ts oper else x)) (ws_Ops ws)
      = map (\<lambda>(k, x). (k, if k = i then quarantined ts x else x)) (ws_Ops ws)"
    using at by (intro map_cong) auto
  moreover have "op_Status oper = ''quarantined'' \<Longrightarrow> map (\<lambda>(k, x). (k, if k = i then quarantined ts x else x)) (ws_Ops ws) = ws_Ops ws"
    using at by (intro map_idI) (auto simp: quarantined_def split: prod.splits)
  ultimately show ?thesis
    using mput_existing [OF assms Some, of "quarantined ts oper"] Some
    by (auto simp: quarantine_one_def) (simp add: quarantined_def)
qed

lemma quarantine_fold_ops:
  "wf_map (ws_Ops ws) \<Longrightarrow> ws_Ops (fold (quarantine_one ts) is ws)
     = map (\<lambda>(k, oper). (k, if k \<in> set is then quarantined ts oper else oper)) (ws_Ops ws)"
proof (induction "is" arbitrary: ws)
  case (Cons i "is")
  have "wf_map (ws_Ops (quarantine_one ts i ws))"
    using Cons.prems by (simp add: quarantine_one_ops wf_map_def o_def case_prod_beta)
  from Cons.IH [OF this] show ?case
    by (auto simp: quarantine_one_ops [OF Cons.prems])
qed (simp add: case_prod_beta)

lemma quarantine_ops:
  "wf_map (ws_Ops ws) \<Longrightarrow> ws_Ops (quarantine_workspace now cfg ws) =
     map (\<lambda>(k, oper). (k, if k \<in> set (quarantine_list now cfg ws) then quarantined (FormatRFC3339Nano now) oper else oper)) (ws_Ops ws)"
  by (simp add: quarantine_workspace_def quarantine_fold_ops)

lemma storm_ops_armed:
  "storm_ops ws = map fst (filter (\<lambda>(opID, oper). armed oper \<and> op_Action oper = ''file_delete'') (ws_Ops ws))"
  by (simp add: storm_ops_def armed_def)

lemma storm_ops_bound:
  assumes "wf_map (ws_Ops ws)" and "0 < cfg_deleteStormThreshold cfg"
  shows "int (length (storm_ops (quarantine_workspace now cfg ws))) \<le> cfg_deleteStormThreshold cfg"
proof (cases "int (length (storm_ops ws)) > cfg_deleteStormThreshold cfg")
  case True
  then have "set (storm_ops ws) \<subseteq> set (quarantine_list now cfg ws)" using assms(2) by (simp add: quarantine_list_def)
  then have "k \<in> set (quarantine_list now cfg ws)" if "(k, oper) \<in> set (ws_Ops ws)" "armed oper" "op_Action oper = ''file_delete''" for k oper
    using that by (force simp: storm_ops_armed image_iff)
  then have "storm_ops (quarantine_workspace now cfg ws) = []"
    by (auto simp: storm_ops_armed quarantine_ops [OF assms(1)] filter_empty_conv split: if_splits)
  then show ?thesis using assms(2) by simp
next
  case False
  have "length (storm_ops (quarantine_workspace now cfg ws)) \<le> length (storm_ops ws)"
    unfolding storm_ops_armed quarantine_ops [OF assms(1)] filter_map length_map
    by (intro length_filter_mono) (auto split: if_splits)
  then show ?thesis using False by simp
qed

lemma filter_concat_key:
  assumes "wf_map m" and "\<And>k v x. x \<in> set (f k v) \<Longrightarrow> key x = k"
  shows "filter (\<lambda>x. key x = w \<and> Q x) (concat (map (\<lambda>(k, v). f k v) m)) = (case map_of m w of None \<Rightarrow> [] | Some v \<Rightarrow> filter Q (f w v))"
  using assms(1)
proof (induction m)
  case (Cons p m)
  obtain k v where p: "p = (k, v)" by (cases p)
  have own: "filter (\<lambda>x. key x = w \<and> Q x) (f k v) = (if k = w then filter Q (f k v) else [])"
    using assms(2) by (auto intro!: filter_cong simp: filter_empty_conv)
  have "wf_map m" "k = w \<Longrightarrow> map_of m w = None" using Cons.prems by (auto simp: p wf_map_def map_of_eq_None_iff)
  then show ?case using Cons.IH own by (auto simp: p)
qed simp

definition delete_task :: "Store \<Rightarrow> WritebackQueueItem \<Rightarrow> bool" where
  "delete_task s task \<longleftrightarrow> (case task_op task s of None \<Rightarrow> False | Some oper \<Rightarrow> op_Action oper = ''file_delete'')"

lemma rearmed_deletes:
  assumes "store_inv s"
  shows "length (filter (\<lambda>(task, d). wq_WorkspaceID task = w \<and> delete_task s task) (boot_writebacks now s)) = length (storm_ops (ws_of s w))"
proof -
  let ?Q = "\<lambda>x. delete_task s (fst x)"
  have wf: "wf_map (s_workspaces s)" and ops: "wf_map (ws_Ops (ws_of s w))"
    using assms by (auto simp: store_inv_def ws_inv_def ops_ok_def)
  have "filter (\<lambda>(task, d). wq_WorkspaceID task = w \<and> delete_task s task) (boot_writebacks now s)
      = (case map_of (s_workspaces s) w of None \<Rightarrow> []
         | Some ws \<Rightarrow> filter ?Q (map (\<lambda>(opID, oper). (boot_task w opID oper, boot_delay now oper)) (filter (\<lambda>(opID, oper). armed oper) (ws_Ops ws))))"
    unfolding boot_writebacks_def case_prod_beta
    by (rule filter_concat_key [OF wf, where key = "\<lambda>x. wq_WorkspaceID (fst x)", unfolded case_prod_beta]) (auto simp: boot_task_def)
  moreover have "length (filter ?Q (map (\<lambda>(opID, oper). (boot_task w opID oper, boot_delay now oper)) (filter (\<lambda>(opID, oper). armed oper) (ws_Ops (ws_of s w)))))
      = length (storm_ops (ws_of s w))"
    unfolding storm_ops_def filter_map length_map filter_filter
    by (intro arg_cong [where f = length] filter_cong) (auto simp: o_def delete_task_def boot_task_def op_at_def map_of_mem [OF ops] armed_def)
  ultimately show ?thesis
    by (cases "map_of (s_workspaces s) w") (simp_all add: ws_of_def mget_or_def storm_ops_def empty_workspace_def)
qed

text \<open>C30. A restart arms a bounded number of deletes.  After the quarantine that runs at boot, whatever the state on disk was, the
  writebacks that are re-armed for a workspace (at once or by a timer) include at most \<open>deleteStormThreshold\<close> deletes; and an
  operation the quarantine does not select is left exactly as it was.\<close>

theorem boot_quarantine_bounds_deletes:
  assumes "store_inv s" and "0 < cfg_deleteStormThreshold (s_cfg s)" and "s' = quarantineBootDeleteStorms now s"
  shows "int (length (filter (\<lambda>(task, d). wq_WorkspaceID task = w \<and> delete_task s' task) (boot_writebacks now' s'))) \<le> cfg_deleteStormThreshold (s_cfg s)
    \<and> (\<forall>i. i \<notin> set (quarantine_list now (s_cfg s) (ws_of s w)) \<longrightarrow> op_at s' w i = op_at s w i)"
proof -
  have inv: "store_inv s'" using assms(1) adv.R_quarantine assms(3) unfolding advances_def by blast
  have ops: "wf_map (ws_Ops (ws_of s w))" using assms(1) by (auto simp: store_inv_def ws_inv_def ops_ok_def)
  show ?thesis
  proof (cases "map_of (s_workspaces s) w")
    case None
    then have "ws_of s' w = empty_workspace" "ws_of s w = empty_workspace"
      using assms(2,3) by (auto simp: quarantineBootDeleteStorms_def Let_def ws_of_def mget_or_def store_simps map_of_mapped)
    then show ?thesis using assms(2) by (simp add: rearmed_deletes [OF inv] storm_ops_def op_at_def empty_workspace_def)
  next
    case (Some ws)
    have ws: "ws_of s' w = quarantine_workspace now (s_cfg s) ws" "ws_of s w = ws"
      using quarantine_ws [of s w ws now] Some assms(2,3) by (simp_all add: ws_of_def mget_or_def)
    have map: "map_of (map (\<lambda>(k, x). (k, f k x)) m) i = map_option (f i) (map_of m i)" for f :: "string \<Rightarrow> OperationStatus \<Rightarrow> OperationStatus" and m i
      by (induction m) auto
    show ?thesis
      using storm_ops_bound [OF _ assms(2), of ws now] ops
      by (auto simp: rearmed_deletes [OF inv] ws op_at_def quarantine_ops map option.map_ident)
  qed
qed

definition guarded_sample :: Store where
  "guarded_sample = sample_op_store\<lparr>s_cfg := (s_cfg sample_op_store)\<lparr>cfg_deleteStormThreshold := 1\<rparr>\<rparr>"

lemma sample_op_store_inv [simp]: "store_inv sample_op_store" "store_inv guarded_sample"
proof -
  have "op_id 1 = ''op_1''" by code_simp
  then have "issued op_id 1 ''op_1''" unfolding issued_def by (metis le_refl zero_less_one)
  then have "ops_ok 1 [(''op_1'', sample_op)]"
    by (simp add: ops_ok_def wf_map_def sample_op_def record_operation_def)
  then have ws: "ws_inv rc (Suc 0) ec (empty_workspace\<lparr>ws_Ops := [(''op_1'', sample_op)]\<rparr>)" for rc ec
    using ws_inv_empty [of rc 1 ec] by (simp add: ws_inv_def empty_workspace_def)
  have "wf_map (s_workspaces NewStore)" using store_inv_NewStore by (simp add: store_inv_def)
  then show inv: "store_inv sample_op_store"
    by (simp add: sample_op_store_def store_inv_def store_simps ws)
      (simp add: ws_of_def mget_or_def NewStore_def new_store_def)
  then show "store_inv guarded_sample" by (simp add: store_inv_def guarded_sample_def ws_of_def)
qed

theorem boot_quarantine_bounds_deletes_witness:
  "int (length (filter (\<lambda>(task, d). wq_WorkspaceID task = ''w'' \<and> delete_task (quarantineBootDeleteStorms 9 guarded_sample) task)
      (boot_writebacks 9 (quarantineBootDeleteStorms 9 guarded_sample)))) \<le> 1
    \<and> op_at (quarantineBootDeleteStorms 9 guarded_sample) ''w'' ''op_1'' = Some sample_op"
proof -
  have cfg: "cfg_deleteStormThreshold (s_cfg guarded_sample) = 1" by (simp add: guarded_sample_def)
  have ws: "ws_of guarded_sample ''w'' = ws_of sample_op_store ''w''" by (simp add: guarded_sample_def ws_of_def)
  have "ws_Ops (ws_of guarded_sample ''w'') = [(''op_1'', sample_op)]" unfolding ws by (simp add: sample_op_store_def store_simps)
  then have "''op_1'' \<notin> set (quarantine_list 9 (s_cfg guarded_sample) (ws_of guarded_sample ''w''))"
    by (simp add: quarantine_list_def storm_ops_def stale_ops_def cfg)
  then show ?thesis
    using boot_quarantine_bounds_deletes [of guarded_sample _ 9 "''w''" 9, OF sample_op_store_inv(2) _ refl] sample_op_at
    unfolding cfg op_at_def ws by simp
qed

section \<open>The sweep\<close>

definition sweepable :: "string \<Rightarrow> SweepDraftsRequest \<Rightarrow> string list \<Rightarrow> string list \<Rightarrow> Store \<Rightarrow> string \<Rightarrow> bool" where
  "sweepable w req pend idx s p \<longleftrightarrow> draft_reason (sw_Patterns req) (basenameOf p) \<noteq> ''''
     \<and> (\<forall>f. map_of (ws_Files (ws_of s w)) p = Some f \<longrightarrow> f_ProviderObjectID f = '''') \<and> p \<notin> set idx \<and> normalizePath p \<notin> set pend"

definition delivered_draft :: "string list \<Rightarrow> workspaceState \<Rightarrow> string \<Rightarrow> File \<Rightarrow> bool" where
  "delivered_draft patterns ws p f \<longleftrightarrow> draft_reason patterns (basenameOf p) \<noteq> '''' \<and> f_ProviderObjectID f = ''''
     \<and> (\<forall>(key, q) \<in> set (ws_ProviderIndex ws). q \<noteq> p)
     \<and> (\<forall>(i, oper) \<in> set (ws_Ops ws). armed oper \<longrightarrow> normalizePath (op_Path oper) \<noteq> normalizePath p)"

lemma sweepable_linked:
  assumes "sweepable w req (map (\<lambda>(i, oper). normalizePath (op_Path oper)) (filter (\<lambda>(i, oper). armed oper) ops)) (map snd idx) s p"
  shows "(\<forall>(key, q) \<in> set idx. q \<noteq> p) \<and> (\<forall>(i, oper) \<in> set ops. armed oper \<longrightarrow> normalizePath (op_Path oper) \<noteq> normalizePath p)"
proof (intro conjI ballI)
  fix x assume "x \<in> set idx"
  then have "snd x \<in> set (map snd idx)" by simp
  then show "case x of (key, q) \<Rightarrow> q \<noteq> p" using assms by (cases x) (auto simp: sweepable_def)
next
  fix x assume x: "x \<in> set ops"
  have "normalizePath (op_Path (snd x)) \<in> set (map (\<lambda>(i, oper). normalizePath (op_Path oper)) (filter (\<lambda>(i, oper). armed oper) ops))" if "armed (snd x)"
    unfolding set_map using x that by (intro image_eqI [of _ _ x]) (auto simp: case_prod_beta)
  then show "case x of (i, oper) \<Rightarrow> armed oper \<longrightarrow> normalizePath (op_Path oper) \<noteq> normalizePath p"
    using assms by (cases x) (auto simp: sweepable_def)
qed

lemma removeDraft_effect:
  "map_of (ws_Files (ws_of (removeDraftLocked now w p prov corr s) w')) q =
     (if w' = w \<and> q = p then None else map_of (ws_Files (ws_of s w')) q)"
  "ws_Ops (ws_of (removeDraftLocked now w p prov corr s) w') = ws_Ops (ws_of s w')"
  by (auto simp: removeDraftLocked_def Let_def nextRevisionLocked_def nextEventIDLocked_def store_simps AList.delete_conv' split: option.splits)

lemma publish_queue: "s_writebackQueue (publishEvent w ev s) = s_writebackQueue s"
  by (auto simp: publishEvent_def Let_def split: option.splits)

lemma removeDraft_queue: "s_writebackQueue (removeDraftLocked now w p prov corr s) = s_writebackQueue s"
  by (auto simp: removeDraftLocked_def Let_def nextRevisionLocked_def nextEventIDLocked_def appendWorkspaceEventLocked_def publish_queue
      remove_file_def put_ws_def split: option.splits)

text \<open>What a run of visits from one store and result leaves.\<close>

definition swept :: "string \<Rightarrow> SweepDraftsRequest \<Rightarrow> string list \<Rightarrow> string list \<Rightarrow> string list \<Rightarrow> Store \<times> SweepDraftsResult \<Rightarrow> Store \<times> SweepDraftsResult \<Rightarrow> bool" where
  "swept w req pend idx ps acc acc' \<longleftrightarrow> (\<exists>rm. sr_Removed (snd acc') = sr_Removed (snd acc) @ rm
     \<and> (\<forall>(p, why) \<in> set rm. p \<in> set ps \<and> sweepable w req pend idx (fst acc) p)
     \<and> (\<forall>w' p. map_of (ws_Files (ws_of (fst acc') w')) p =
          (if sw_Apply req \<and> w' = w \<and> p \<in> fst ` set rm then None else map_of (ws_Files (ws_of (fst acc) w')) p)))
     \<and> (\<forall>w'. ws_Ops (ws_of (fst acc') w') = ws_Ops (ws_of (fst acc) w')) \<and> s_writebackQueue (fst acc') = s_writebackQueue (fst acc)"

lemma swept_same: "sr_Removed r' = sr_Removed r \<Longrightarrow> swept w req pend idx ps (s, r) (s, r')"
  by (simp add: swept_def)

lemma swept_visit: "swept w req pend idx [p] acc (sweep_visit now w req pre pend idx p acc)"
proof -
  obtain s r where acc: "acc = (s, r)" by (cases acc)
  show ?thesis
  proof (cases "sr_Removed (snd (sweep_visit now w req pre pend idx p acc)) = sr_Removed r")
    case True
    then show ?thesis
      by (auto simp: acc sweep_visit_def Let_def intro!: swept_same split: if_splits)
  next
    case False
    then have guard: "sweepable w req pend idx s p"
      by (auto simp: acc sweep_visit_def Let_def sweepable_def split: if_splits)
    obtain prov where "sweep_visit now w req pre pend idx p acc
        = (if sw_Apply req then removeDraftLocked now w p prov (sw_CorrelationID req) s else s,
           r\<lparr>sr_Scanned := sr_Scanned r + 1, sr_Removed := sr_Removed r @ [(p, draft_reason (sw_Patterns req) (basenameOf p))]\<rparr>)"
      using False by (auto simp: acc sweep_visit_def Let_def split: if_splits)
    then show ?thesis
      using guard unfolding swept_def
      by (auto simp: acc removeDraft_effect removeDraft_queue intro!: exI [of _ "[(p, draft_reason (sw_Patterns req) (basenameOf p))]"])
  qed
qed

lemma swept_trans:
  assumes "swept w req pend idx [p] acc acc'" and "swept w req pend idx ps acc' acc''" and "p \<notin> set ps"
  shows "swept w req pend idx (p # ps) acc acc''"
proof -
  obtain rm rm' where rm: "sr_Removed (snd acc') = sr_Removed (snd acc) @ rm" "\<forall>(q, why) \<in> set rm. q = p \<and> sweepable w req pend idx (fst acc) q"
    "\<forall>w' q. map_of (ws_Files (ws_of (fst acc') w')) q =
          (if sw_Apply req \<and> w' = w \<and> q \<in> fst ` set rm then None else map_of (ws_Files (ws_of (fst acc) w')) q)"
    and rm': "sr_Removed (snd acc'') = sr_Removed (snd acc') @ rm'" "\<forall>(q, why) \<in> set rm'. q \<in> set ps \<and> sweepable w req pend idx (fst acc') q"
    "\<forall>w' q. map_of (ws_Files (ws_of (fst acc'') w')) q =
          (if sw_Apply req \<and> w' = w \<and> q \<in> fst ` set rm' then None else map_of (ws_Files (ws_of (fst acc') w')) q)"
    using assms(1,2) unfolding swept_def by auto
  have "sweepable w req pend idx (fst acc) q" if "(q, why) \<in> set rm'" for q why
  proof -
    have "q \<in> set ps" "sweepable w req pend idx (fst acc') q" using rm'(2) that by auto
    moreover have "q \<notin> fst ` set rm" using rm(2) assms(3) \<open>q \<in> set ps\<close> by auto
    ultimately show ?thesis using rm(3) by (simp add: sweepable_def)
  qed
  then have "\<forall>(q, why) \<in> set (rm @ rm'). q \<in> set (p # ps) \<and> sweepable w req pend idx (fst acc) q"
    using rm(2) rm'(2) by auto
  then show ?thesis
    using assms(1,2) rm(1,3) rm'(1,3) unfolding swept_def by (intro conjI exI [of _ "rm @ rm'"]) (auto simp: image_Un)
qed

lemma swept_fold: "distinct ps \<Longrightarrow> swept w req pend idx ps acc (fold (sweep_visit now w req pre pend idx) ps acc)"
proof (induction ps arbitrary: acc)
  case Nil
  then show ?case by (simp add: swept_def)
next
  case (Cons p ps)
  then show ?case using swept_trans [OF swept_visit Cons.IH] by simp
qed

text \<open>C32. The sweep touches nothing but delivered drafts.  Whatever the patterns, a file that is gone after it has the shape of a
  draft or matches a pattern, is linked to no provider object, is not the indexed path of one and has no armed operation on
  its path; every other file of every workspace is as it was, no operation changes, nothing is queued as a writeback, and
  without \<^verbatim>\<open>Apply\<close> no file is removed.\<close>

theorem sweep_only_removes_delivered_drafts:
  assumes "store_inv s" and "SweepWritebackDrafts now w req s = (s', Inr result)"
  shows "(\<forall>w' p f. map_of (ws_Files (ws_of s w')) p = Some f \<longrightarrow>
      map_of (ws_Files (ws_of s' w')) p = Some f
      \<or> (map_of (ws_Files (ws_of s' w')) p = None \<and> sw_Apply req \<and> w' = w \<and> p \<in> fst ` set (sr_Removed result)
         \<and> delivered_draft (sw_Patterns req) (ws_of s w) p f))
    \<and> (\<forall>w'. ws_Ops (ws_of s' w') = ws_Ops (ws_of s w')) \<and> s_writebackQueue s' = s_writebackQueue s"
proof -
  obtain ws where ws: "map_of (s_workspaces s) w = Some ws"
    using assms(2) by (auto simp: SweepWritebackDrafts_def split: if_splits option.splits)
  then have ws_of: "ws_of s w = ws" by (rule ws_of_known)
  let ?pend = "map (\<lambda>(opID, oper). normalizePath (op_Path oper)) (filter (\<lambda>(opID, oper). armed oper) (ws_Ops ws))"
  let ?idx = "map snd (ws_ProviderIndex ws)"
  let ?r = "\<lparr>sr_DryRun = (\<not> sw_Apply req), sr_Scanned = 0, sr_Removed = [], sr_Skipped = []\<rparr>"
  have "distinct (sort (map fst (ws_Files ws)))"
    using assms(1) ws_of by (auto simp: store_inv_def ws_inv_def files_ok_def wf_map_def)
  note run = swept_fold [OF this, of w req ?pend ?idx "(s, ?r)" now]
  let ?pre = "if TrimSpace (sw_PathPrefix req) \<noteq> '''' then normalizePath (TrimSpace (sw_PathPrefix req)) else TrimSpace (sw_PathPrefix req)"
  obtain s1 r1 where s1: "fold (sweep_visit now w req ?pre ?pend ?idx) (sort (map fst (ws_Files ws))) (s, ?r) = (s1, r1)"
    by (metis prod.exhaust)
  have "SweepWritebackDrafts now w req s = (if sw_Apply req \<and> sr_Removed r1 \<noteq> [] then saveLocked s1 else s1, Inr r1)"
    using assms(2) ws s1 unfolding SweepWritebackDrafts_def Let_def by (auto split: if_split_asm)
  then have r: "r1 = result" and s': "same_core s1 s'" "s_writebackQueue s' = s_writebackQueue s1"
    using assms(2) by (auto simp: saveLocked_def same_core_def split: if_splits)
  have sw: "swept w req ?pend ?idx (sort (map fst (ws_Files ws))) (s, ?r) (s1, result)" using run [of ?pre] s1 r by simp
  then obtain rm where rm1: "sr_Removed result = sr_Removed ?r @ rm" and rm2: "\<forall>(p, why) \<in> set rm. p \<in> set (sort (map fst (ws_Files ws))) \<and> sweepable w req ?pend ?idx s p"
    and files: "\<forall>w' p. map_of (ws_Files (ws_of s1 w')) p =
          (if sw_Apply req \<and> w' = w \<and> p \<in> fst ` set rm then None else map_of (ws_Files (ws_of s w')) p)"
    and rest: "\<forall>w'. ws_Ops (ws_of s1 w') = ws_Ops (ws_of s w')" "s_writebackQueue s1 = s_writebackQueue s"
    unfolding swept_def fst_conv snd_conv by (elim conjE exE)
  note rm = rm1 [simplified] rm2
  have draft: "delivered_draft (sw_Patterns req) (ws_of s w) p f" if "p \<in> fst ` set rm" "map_of (ws_Files (ws_of s w)) p = Some f" for p f
  proof -
    have "sweepable w req ?pend ?idx s p" using rm(2) that(1) by auto
    from this sweepable_linked [OF this] that(2) show ?thesis unfolding delivered_draft_def ws_of by (simp add: sweepable_def ws_of)
  qed
  have "map_of (ws_Files (ws_of s' w')) p = Some f
      \<or> (map_of (ws_Files (ws_of s' w')) p = None \<and> sw_Apply req \<and> w' = w \<and> p \<in> fst ` set rm \<and> delivered_draft (sw_Patterns req) (ws_of s w) p f)"
    if f: "map_of (ws_Files (ws_of s w')) p = Some f" for w' p f
    using files [THEN spec, THEN spec, of w' p] f draft [of p f] by (auto simp: same_core_ws [OF s'(1)])
  then show ?thesis
    unfolding rm(1) using rest s'(2) same_core_ws [OF s'(1)] by simp
qed

text \<open>A workspace with one left-over draft.\<close>

definition sample_draft :: string where
  "sample_draft = ''/n/note 01234567-89ab-cdef-0123-456789abcdef.json''"

definition draft_file :: File where
  "draft_file = zero_file\<lparr>f_Path := sample_draft, f_Revision := rev_id 1\<rparr>"

definition draft_store :: Store where
  "draft_store = put_ws ''w'' (empty_workspace\<lparr>ws_Files := [(sample_draft, draft_file)]\<rparr>)
     (NewStore\<lparr>s_revCounter := 1\<rparr>)"

definition sample_sweep :: SweepDraftsRequest where
  "sample_sweep = \<lparr>sw_PathPrefix = '''', sw_Patterns = [], sw_Apply = True, sw_CorrelationID = ''c''\<rparr>"

lemma draft_store_inv: "store_inv draft_store"
proof -
  have "files_ok 1 [(sample_draft, draft_file)]"
    using issued_new [of rev_id 0] by (simp add: files_ok_def wf_map_def draft_file_def)
  then have ws: "ws_inv (Suc 0) oc ec (empty_workspace\<lparr>ws_Files := [(sample_draft, draft_file)]\<rparr>)" for oc ec
    using ws_inv_empty [of 1 oc ec] by (simp add: ws_inv_def empty_workspace_def)
  have "wf_map (s_workspaces NewStore)" using store_inv_NewStore by (simp add: store_inv_def)
  then show ?thesis
    using ws by (simp add: draft_store_def store_inv_def store_simps) (simp add: ws_of_def mget_or_def NewStore_def new_store_def)
qed

theorem sweep_only_removes_delivered_drafts_witness:
  "\<exists>s' result. SweepWritebackDrafts 9 ''w'' sample_sweep draft_store = (s', Inr result)
    \<and> (map_of (ws_Files (ws_of s' ''w'')) sample_draft = Some draft_file
      \<or> (map_of (ws_Files (ws_of s' ''w'')) sample_draft = None \<and> sw_Apply sample_sweep \<and> sample_draft \<in> fst ` set (sr_Removed result)
         \<and> delivered_draft (sw_Patterns sample_sweep) (ws_of draft_store ''w'') sample_draft draft_file))
    \<and> (\<forall>w'. ws_Ops (ws_of s' w') = ws_Ops (ws_of draft_store w')) \<and> s_writebackQueue s' = s_writebackQueue draft_store"
proof -
  have trim: "TrimSpace ''w'' = ''w''" "TrimSpace '''' = ''''" by code_simp+
  obtain s' result where run: "SweepWritebackDrafts 9 ''w'' sample_sweep draft_store = (s', Inr result)"
    by (simp add: SweepWritebackDrafts_def trim sample_sweep_def draft_store_def put_ws_fields AList.update_conv' Let_def case_prod_beta)
  have "map_of (ws_Files (ws_of draft_store ''w'')) sample_draft = Some draft_file"
    by (simp add: draft_store_def store_simps)
  then show ?thesis using run sweep_only_removes_delivered_drafts [OF draft_store_inv run] by blast
qed

end
