(* ===== verification/GoFormat.thy ===== *)
theory GoFormat
  imports StoreTypes GoMatch
begin

text \<open>
  How Go prints a decoded JSON value: \<^verbatim>\<open>fmt.Sprintf("%v", v)\<close> and \<^verbatim>\<open>json.Marshal(v)\<close>.  A \<open>JNumber\<close> is a
  \<^verbatim>\<open>float64\<close> whose shortest decimal form denotes that integer.
\<close>

section \<open>Numbers\<close>

definition fmt_d :: "int \<Rightarrow> string" where
  "fmt_d n = (if n < 0 then CHR ''-'' # itoa (nat (- n)) else itoa (nat n))"

text \<open>\<^verbatim>\<open>d.ddde+XX\<close>, with at least two digits of exponent.\<close>

definition exp_form :: "nat \<Rightarrow> string" where
  "exp_form n =
     (let ds = itoa n; sig = trim_zeros ds; e = itoa (length ds - 1)
      in hd ds # (if length sig > 1 then CHR ''.'' # tl sig else '''') @ ''e+'' @ (if length e < 2 then CHR ''0'' # e else e))"

definition float_form :: "nat \<Rightarrow> int \<Rightarrow> string" where
  "float_form threshold n =
     (let ds = itoa (nat \<bar>n\<bar>)
      in (if n < 0 then ''-'' else '''') @ (if length ds > threshold then exp_form (nat \<bar>n\<bar>) else ds))"

section \<open>fmt\<close>

function fmt_v :: "json \<Rightarrow> string" where
  "fmt_v (JString s) = s"
| "fmt_v (JNumber n) = float_form 6 n"
| "fmt_v (JBool b) = (if b then ''true'' else ''false'')"
| "fmt_v JNull = ''<nil>''"
| "fmt_v (JArray vs) = ''['' @ Join (map fmt_v vs) '' '' @ '']''"
| "fmt_v (JObject kvs) =
     ''map['' @ Join (map (\<lambda>(k, s). k @ '':'' @ s) (sort_key fst (map (\<lambda>(k, v). (k, fmt_v v)) kvs))) '' '' @ '']''"
  by pat_completeness auto
termination
  by (relation "measure size") (auto simp: less_Suc_eq_le dest: size_list_estimation' [where f = size, OF _ order_refl]
      intro!: size_list_estimation' simp: size_prod_simp)

section \<open>encoding/json\<close>

definition unicode_escape :: "nat \<Rightarrow> string" where
  "unicode_escape r = CHR 0x5C # ''u'' @ map (\<lambda>i. hex_digit (r div 16 ^ (3 - i) mod 16)) [0..<4]"

definition escape_ascii :: "char \<Rightarrow> string" where
  "escape_ascii c =
     (let n = of_char c :: nat
      in if c = CHR 0x22 \<or> c = CHR 0x5C then [CHR 0x5C, c]
         else if n = 8 then CHR 0x5C # ''b'' else if n = 12 then CHR 0x5C # ''f''
         else if n = 10 then CHR 0x5C # ''n'' else if n = 13 then CHR 0x5C # ''r'' else if n = 9 then CHR 0x5C # ''t''
         else if n < 32 \<or> c = CHR ''<'' \<or> c = CHR ''>'' \<or> c = CHR ''&'' then unicode_escape n
         else [c])"

function json_escape :: "string \<Rightarrow> string" where
  "json_escape s =
     (if s = [] then []
      else let (r, n) = DecodeRune s
           in (if r < 128 then escape_ascii (hd s)
               else if r = RuneError \<and> n = 1 then unicode_escape RuneError
               else if r = 8232 \<or> r = 8233 then unicode_escape r
               else take n s) @ json_escape (drop n s))"
  by pat_completeness auto
termination
  using DecodeRune_shrinks by (relation "measure length") (auto, metis snd_conv)

declare json_escape.simps [simp del]

definition json_string :: "string \<Rightarrow> string" where
  "json_string s = CHR 0x22 # json_escape s @ [CHR 0x22]"

function json_marshal :: "json \<Rightarrow> string" where
  "json_marshal (JString s) = json_string s"
| "json_marshal (JNumber n) = float_form 21 n"
| "json_marshal (JBool b) = (if b then ''true'' else ''false'')"
| "json_marshal JNull = ''null''"
| "json_marshal (JArray vs) = ''['' @ Join (map json_marshal vs) '','' @ '']''"
| "json_marshal (JObject kvs) =
     ''{'' @ Join (map (\<lambda>(k, s). json_string k @ '':'' @ s) (sort_key fst (map (\<lambda>(k, v). (k, json_marshal v)) kvs))) '','' @ ''}''"
  by pat_completeness auto
termination
  by (relation "measure size") (auto simp: less_Suc_eq_le dest: size_list_estimation' [where f = size, OF _ order_refl]
      intro!: size_list_estimation' simp: size_prod_simp)

end
