(* ===== verification/Adapters.thy ===== *)
theory Adapters
  imports GoFormat FileModel
begin

text \<open>
  \<^verbatim>\<open>adapters.go\<close>: the actions an envelope of a provider stands for, read from its payload by the generic parser, and the
  canonical path of an envelope.  A provider's own adapter is code outside the repository: a function from an envelope to
  its actions or an error.
\<close>

section \<open>Actions\<close>

text \<open>\<^verbatim>\<open>ActionType\<close> is an open string type; the three constants are the ones the code names.\<close>

definition ActionFileUpsert :: string where "ActionFileUpsert = ''file_upsert''"
definition ActionFileDelete :: string where "ActionFileDelete = ''file_delete''"
definition ActionIgnored :: string where "ActionIgnored = ''ignored''"

record ApplyAction =
  aa_Type :: string
  aa_Path :: string
  aa_Content :: string
  aa_ContentType :: string
  aa_ProviderObjectID :: string
  aa_Semantics :: FileSemantics

definition zero_action :: ApplyAction where
  "zero_action = \<lparr>aa_Type = '''', aa_Path = '''', aa_Content = '''', aa_ContentType = '''', aa_ProviderObjectID = '''',
     aa_Semantics = zero_semantics\<rparr>"

type_synonym parse_result = "string + ApplyAction list"

section \<open>Paths\<close>

definition providerRelativePathRoots :: "(string, string list) gomap" where
  "providerRelativePathRoots = [(''slack'', [''channels'', ''dms'', ''teams'', ''users''])]"

definition canonicalProviderEnvelopePath :: "string \<Rightarrow> string \<Rightarrow> string \<times> bool" where
  "canonicalProviderEnvelopePath provider rawPath =
     (let path = normalizePath rawPath; provider = normalizeProvider provider
      in if provider = '''' \<or> path = ''/'' then (path, True)
         else case map_of providerRelativePathRoots provider of
                None \<Rightarrow> (path, True)
              | Some relativeRoots \<Rightarrow>
                  let trimmed = TrimPrefix path ''/''
                  in if trimmed = provider \<or> HasPrefix trimmed (provider @ ''/'') then (path, True)
                     else if fst (Cut trimmed slash) \<in> set relativeRoots
                     then (normalizePath (''/'' @ provider @ ''/'' @ trimmed), True)
                     else (path, False))"

section \<open>Semantics\<close>

definition dedupeAndSort :: "string list \<Rightarrow> string list" where
  "dedupeAndSort values = sort (dedupe_trimmed [] values)"

definition asStringSlice :: "json option \<Rightarrow> string list" where
  "asStringSlice value =
     (case value of
        None \<Rightarrow> []
      | Some JNull \<Rightarrow> []
      | Some (JString s) \<Rightarrow> (let trimmed = TrimSpace s in if trimmed = '''' then [] else [trimmed])
      | Some (JArray vs) \<Rightarrow>
          dedupeAndSort (filter (\<lambda>v. v \<noteq> '''') (concat (map (\<lambda>raw.
            case raw of JString s \<Rightarrow> [TrimSpace s]
                      | _ \<Rightarrow> (let trimmed = TrimSpace (fmt_v raw) in if trimmed = ''<nil>'' then [] else [trimmed])) vs)))
      | Some v \<Rightarrow> (let trimmed = TrimSpace (fmt_v v) in if trimmed = '''' \<or> trimmed = ''<nil>'' then [] else [trimmed]))"

definition property_text :: "json \<Rightarrow> string" where
  "property_text v =
     (case v of
        JString s \<Rightarrow> TrimSpace s
      | JBool b \<Rightarrow> TrimSpace (fmt_v v)
      | JNumber n \<Rightarrow> TrimSpace (fmt_v v)
      | JNull \<Rightarrow> ''''
      | _ \<Rightarrow> TrimSpace (json_marshal v))"

definition asStringMap :: "json option \<Rightarrow> (string, string) gomap" where
  "asStringMap value =
     (case value of
        Some (JObject raw) \<Rightarrow>
          fold (\<lambda>(key, rawValue) out. if TrimSpace key = '''' then out else mput (TrimSpace key) (property_text rawValue) out) raw []
      | _ \<Rightarrow> [])"

definition extractSemantics :: "(string, json) gomap \<Rightarrow> FileSemantics" where
  "extractSemantics payload =
     (if payload = [] then zero_semantics
      else let semanticBlock = (case map_of payload ''semantics'' of Some (JObject rawBlock) \<Rightarrow> rawBlock | _ \<Rightarrow> []);
               selectField = (\<lambda>name. case map_of semanticBlock name of Some v \<Rightarrow> Some v | None \<Rightarrow> map_of payload name);
               orElse = (\<lambda>xs name. if xs = [] then asStringSlice (selectField name) else xs)
           in normalizeSemantics
                \<lparr>sem_Properties = asStringMap (selectField ''properties''),
                 sem_Relations = orElse (asStringSlice (selectField ''relations'')) ''relationIds'',
                 sem_Permissions = orElse (asStringSlice (selectField ''permissions'')) ''acl'',
                 sem_Comments = orElse (asStringSlice (selectField ''comments'')) ''commentIds''\<rparr>)"

section \<open>The generic parser\<close>

definition event_type :: "(string, json) gomap \<Rightarrow> string" where
  "event_type payload =
     (let eventType = toString (map_of payload ''event_type'')
      in if eventType = '''' then toString (map_of payload ''type'') else eventType)"

definition payload_object :: "(string, json) gomap \<Rightarrow> string" where
  "payload_object payload =
     (let objectID = toString (map_of payload ''providerObjectId'')
      in if objectID = '''' then toString (map_of payload ''objectId'') else objectID)"

definition ParseGenericEnvelope :: "WebhookEnvelopeRequest \<Rightarrow> parse_result" where
  "ParseGenericEnvelope req =
     (let payload = env_Payload req;
          eventType = event_type payload;
          providerObjectID = payload_object payload;
          path = toString (map_of payload ''path'');
          ignored = Inr [zero_action\<lparr>aa_Type := ActionIgnored\<rparr>]
      in if path = '''' \<and> \<not> (eventType \<in> {''file.created'', ''file.updated'', ''file.deleted''} \<and> providerObjectID \<noteq> '''') then ignored
         else
           let (canonicalPath, pathAllowed) = (if TrimSpace path \<noteq> '''' then canonicalProviderEnvelopePath (env_Provider req) path else ('''', True))
           in if \<not> pathAllowed then ignored
              else if eventType = ''file.created'' \<or> eventType = ''file.updated'' then
                let contentType = toString (map_of payload ''contentType'')
                in Inr [\<lparr>aa_Type = ActionFileUpsert, aa_Path = canonicalPath, aa_Content = toString (map_of payload ''content''),
                         aa_ContentType = (if contentType = '''' then ''application/octet-stream'' else contentType),
                         aa_ProviderObjectID = providerObjectID, aa_Semantics = extractSemantics payload\<rparr>]
              else if eventType = ''file.deleted'' then
                Inr [zero_action\<lparr>aa_Type := ActionFileDelete, aa_Path := canonicalPath, aa_ProviderObjectID := providerObjectID\<rparr>]
              else ignored)"

end
