(* ===== verification/Ingest.thy ===== *)
theory Ingest
  imports Writeback Adapters "HOL-Library.Product_Lexorder"
begin

text \<open>
  Webhook ingestion: accepting envelopes (deduplication by delivery, coalescing by object), the envelope worker, stale and
  suppressed envelopes, retention, and the application of provider actions to the files.

  Accepting an envelope and enqueueing it are two critical sections, as are the two halves of processing one around the
  parser; each is a step of its own.  The wall clock is an argument.
\<close>

section \<open>Counters\<close>

definition applyIngressDelta :: "nat \<Rightarrow> int \<Rightarrow> nat" where
  "applyIngressDelta current delta =
     (if delta \<ge> 0 then current + nat delta
      else let d = nat (- delta) in if current < d then 0 else current - d)"

definition zero_provider_ingress :: providerIngressCounter where
  "zero_provider_ingress = \<lparr>pic_AcceptedTotal = 0, pic_DroppedTotal = 0, pic_DedupedTotal = 0, pic_CoalescedTotal = 0,
     pic_SuppressedTotal = 0, pic_StaleTotal = 0\<rparr>"

definition zero_ingress :: ingressCounter where
  "zero_ingress = \<lparr>pic_AcceptedTotal = 0, pic_DroppedTotal = 0, pic_DedupedTotal = 0, pic_CoalescedTotal = 0,
     pic_SuppressedTotal = 0, pic_StaleTotal = 0, ic_ByProvider = []\<rparr>"

record ingress_delta =
  id_accepted :: int
  id_dropped :: int
  id_deduped :: int
  id_coalesced :: int
  id_suppressed :: int
  id_stale :: int

definition no_delta :: ingress_delta where
  "no_delta = \<lparr>id_accepted = 0, id_dropped = 0, id_deduped = 0, id_coalesced = 0, id_suppressed = 0, id_stale = 0\<rparr>"

definition adjust_counter :: "ingress_delta \<Rightarrow> 'a providerIngressCounter_scheme \<Rightarrow> 'a providerIngressCounter_scheme" where
  "adjust_counter d c = c\<lparr>
     pic_AcceptedTotal := applyIngressDelta (pic_AcceptedTotal c) (id_accepted d),
     pic_DroppedTotal := applyIngressDelta (pic_DroppedTotal c) (id_dropped d),
     pic_DedupedTotal := applyIngressDelta (pic_DedupedTotal c) (id_deduped d),
     pic_CoalescedTotal := applyIngressDelta (pic_CoalescedTotal c) (id_coalesced d),
     pic_SuppressedTotal := applyIngressDelta (pic_SuppressedTotal c) (id_suppressed d),
     pic_StaleTotal := applyIngressDelta (pic_StaleTotal c) (id_stale d)\<rparr>"

definition adjustIngressCountsLocked :: "string \<Rightarrow> string \<Rightarrow> ingress_delta \<Rightarrow> Store \<Rightarrow> Store" where
  "adjustIngressCountsLocked workspaceID provider d s =
     (let counter = adjust_counter d (mget_or zero_ingress (s_ingressByWS s) workspaceID);
          counter = (if provider \<noteq> ''''
                     then counter\<lparr>ic_ByProvider := mput provider (adjust_counter d (mget_or zero_provider_ingress (ic_ByProvider counter) provider)) (ic_ByProvider counter)\<rparr>
                     else counter)
      in s\<lparr>s_ingressByWS := mput workspaceID counter (s_ingressByWS s)\<rparr>)"

section \<open>The queue of envelopes\<close>

definition tryEnqueueEnvelope :: "string \<Rightarrow> Store \<Rightarrow> Store \<times> bool" where
  "tryEnqueueEnvelope envelopeID s =
     (if envelopeID = '''' \<or> s_closed s then (s, False)
      else if envelopeID \<in> set (s_queuedEnvelopes s) then (s, True)
      else case env_TryEnqueue envelopeID (s_envelopeQueue s) of
             (q, True) \<Rightarrow> (s\<lparr>s_envelopeQueue := q, s_queuedEnvelopes := envelopeID # s_queuedEnvelopes s\<rparr>, True)
           | (q, False) \<Rightarrow> (s, False))"

definition enqueueEnvelope :: "string \<Rightarrow> Store \<Rightarrow> Store" where
  "enqueueEnvelope envelopeID s =
     (if envelopeID = '''' \<or> s_closed s \<or> envelopeID \<in> set (s_queuedEnvelopes s) then s
      else let s = s\<lparr>s_queuedEnvelopes := envelopeID # s_queuedEnvelopes s\<rparr>
           in case env_TryEnqueue envelopeID (s_envelopeQueue s) of
                (q, True) \<Rightarrow> s\<lparr>s_envelopeQueue := q\<rparr>
              | (q, False) \<Rightarrow> s\<lparr>s_envelopeQueue := env_Enqueue envelopeID (s_envelopeQueue s)\<rparr>)"

section \<open>Coalescing\<close>

definition coalesceObjectKey :: "WebhookEnvelopeRequest \<Rightarrow> string" where
  "coalesceObjectKey req =
     (if env_WorkspaceID req = '''' \<or> env_Provider req = '''' then ''''
      else let payload = env_Payload req;
               o1 = TrimSpace (toString (map_of payload ''providerObjectId''));
               objectID = (if o1 = '''' then TrimSpace (toString (map_of payload ''objectId'')) else o1)
           in if objectID \<noteq> '''' then env_WorkspaceID req @ ''|'' @ env_Provider req @ ''|object:'' @ objectID
              else case canonicalProviderEnvelopePath (env_Provider req) (TrimSpace (toString (map_of payload ''path''))) of
                     (path, ok) \<Rightarrow>
                       if \<not> ok then ''''
                       else if path \<noteq> ''/'' then env_WorkspaceID req @ ''|'' @ env_Provider req @ ''|path:'' @ path
                       else '''')"

definition withinCoalesceWindow :: "string \<Rightarrow> string \<Rightarrow> duration \<Rightarrow> bool" where
  "withinCoalesceWindow existingReceivedAt incomingReceivedAt window \<longleftrightarrow>
     window \<le> 0 \<or>
     (case (ParseRFC3339Nano existingReceivedAt, ParseRFC3339Nano incomingReceivedAt) of
        (Some existingTS, Some incomingTS) \<Rightarrow> \<not> incomingTS < existingTS \<and> TimeSub incomingTS existingTS \<le> window
      | _ \<Rightarrow> False)"

definition clearCoalesceIndexLocked :: "WebhookEnvelopeRequest \<Rightarrow> string \<Rightarrow> Store \<Rightarrow> Store" where
  "clearCoalesceIndexLocked req envelopeID s =
     (let key = coalesceObjectKey req
      in if key \<noteq> '''' \<and> map_of (s_coalesceIndex s) key = Some envelopeID
         then s\<lparr>s_coalesceIndex := mdel key (s_coalesceIndex s)\<rparr> else s)"

definition newer_candidate :: "string \<times> instant option \<Rightarrow> string \<times> instant option \<Rightarrow> bool" where
  "newer_candidate candidate current \<longleftrightarrow>
     (case (snd candidate, snd current) of
        (Some _, None) \<Rightarrow> True
      | (Some t, Some u) \<Rightarrow> t > u \<or> t = u \<and> fst candidate > fst current
      | (None, None) \<Rightarrow> fst candidate > fst current
      | (None, Some _) \<Rightarrow> False)"

definition latest_visit :: "Store \<Rightarrow> string \<times> WebhookEnvelopeRequest \<Rightarrow> (string, string \<times> instant option) gomap \<Rightarrow> (string, string \<times> instant option) gomap" where
  "latest_visit s entry latestByKey =
     (case entry of (envelopeID, req) \<Rightarrow>
        let key = coalesceObjectKey req; candidate = (envelopeID, ParseRFC3339Nano (env_ReceivedAt req))
        in if mget_or False (s_processedEnvs s) envelopeID \<or> key = '''' then latestByKey
           else case map_of latestByKey key of
                  None \<Rightarrow> mput key candidate latestByKey
                | Some current \<Rightarrow> if newer_candidate candidate current then mput key candidate latestByKey else latestByKey)"

definition rebuildCoalesceIndexLocked :: "Store \<Rightarrow> Store" where
  "rebuildCoalesceIndexLocked s =
     s\<lparr>s_coalesceIndex := map (\<lambda>(key, candidate). (key, fst candidate)) (fold (latest_visit s) (s_envelopesByID s) [])\<rparr>"

section \<open>Accepting\<close>

text \<open>The request as it is stored: trimmed, with the ids and the time filled in.\<close>

definition normalize_envelope :: "instant \<Rightarrow> WebhookEnvelopeRequest \<Rightarrow> WebhookEnvelopeRequest" where
  "normalize_envelope now req =
     (let req = req\<lparr>env_WorkspaceID := TrimSpace (env_WorkspaceID req), env_Provider := normalizeProvider (env_Provider req),
                    env_DeliveryID := TrimSpace (env_DeliveryID req)\<rparr>;
          req = (if env_DeliveryID req = '''' then req\<lparr>env_DeliveryID := ''dlv_'' @ fmt_d now\<rparr> else req);
          req = (if env_ReceivedAt req = '''' then req\<lparr>env_ReceivedAt := FormatRFC3339Nano now\<rparr> else req)
      in if env_EnvelopeID req = '''' then req\<lparr>env_EnvelopeID := ''env_'' @ fmt_d now\<rparr> else req)"

definition envelope_key :: "WebhookEnvelopeRequest \<Rightarrow> string" where
  "envelope_key req = deliveryKey (env_WorkspaceID req) (env_Provider req) (env_DeliveryID req)"

definition queued :: "string \<Rightarrow> string \<Rightarrow> QueuedResponse" where
  "queued i corr = \<lparr>qd_Status = ''queued'', qd_ID = i, qd_CorrelationID = corr\<rparr>"

text \<open>The first critical section: the answer to a duplicate or coalesced delivery, or \<open>None\<close> when the envelope was stored and
  has to be enqueued.\<close>

definition coalesce_into :: "WebhookEnvelopeRequest \<Rightarrow> WebhookEnvelopeRequest \<Rightarrow> WebhookEnvelopeRequest" where
  "coalesce_into existingReq req =
     existingReq\<lparr>env_Headers := env_Headers req, env_Payload := env_Payload req, env_ReceivedAt := env_ReceivedAt req,
       env_CorrelationID := (if env_CorrelationID req \<noteq> '''' then env_CorrelationID req else env_CorrelationID existingReq)\<rparr>"

definition store_envelope :: "WebhookEnvelopeRequest \<Rightarrow> Store \<Rightarrow> Store" where
  "store_envelope req s =
     (let envelopeID = env_EnvelopeID req; coalesceKey = coalesceObjectKey req;
          s = s\<lparr>s_envelopesByID := mput envelopeID req (s_envelopesByID s), s_deliveryIndex := mput (envelope_key req) envelopeID (s_deliveryIndex s)\<rparr>;
          s = (if coalesceKey \<noteq> '''' then s\<lparr>s_coalesceIndex := mput coalesceKey envelopeID (s_coalesceIndex s)\<rparr> else s);
          s = s\<lparr>s_processedEnvs := mput envelopeID False (s_processedEnvs s)\<rparr>
      in saveLocked (adjustIngressCountsLocked (env_WorkspaceID req) (env_Provider req) (no_delta\<lparr>id_accepted := 1\<rparr>) s))"

definition ingest_accept :: "WebhookEnvelopeRequest \<Rightarrow> Store \<Rightarrow> Store \<times> QueuedResponse option" where
  "ingest_accept req s =
     (let key = envelope_key req; coalesceKey = coalesceObjectKey req;
          adjust = adjustIngressCountsLocked (env_WorkspaceID req) (env_Provider req)
      in case map_of (s_deliveryIndex s) key of
           Some existingID \<Rightarrow> (saveLocked (adjust (no_delta\<lparr>id_deduped := 1\<rparr>) s), Some (queued existingID (env_CorrelationID req)))
         | None \<Rightarrow>
             (case (if coalesceKey = '''' then None else map_of (s_coalesceIndex s) coalesceKey) of
                None \<Rightarrow> (store_envelope req s, None)
              | Some existingID \<Rightarrow>
                  if \<not> mget_or False (s_processedEnvs s) existingID \<and> \<not> mget_or False (s_processingEnvs s) existingID then
                    (case map_of (s_envelopesByID s) existingID of
                       None \<Rightarrow> (store_envelope req s, None)
                     | Some existingReq \<Rightarrow>
                         if withinCoalesceWindow (env_ReceivedAt existingReq) (env_ReceivedAt req) (cfg_coalesceWindow (s_cfg s)) then
                           let s = s\<lparr>s_envelopesByID := mput existingID (coalesce_into existingReq req) (s_envelopesByID s),
                                     s_deliveryIndex := mput key existingID (s_deliveryIndex s)\<rparr>
                           in (saveLocked (adjust (no_delta\<lparr>id_coalesced := 1\<rparr>) s), Some (queued existingID (env_CorrelationID req)))
                         else (store_envelope req s, None))
                  else (store_envelope req (s\<lparr>s_coalesceIndex := mdel coalesceKey (s_coalesceIndex s)\<rparr>), None)))"

text \<open>The second: enqueue, or take the envelope back when the queue is full.\<close>

definition ingest_enqueue :: "WebhookEnvelopeRequest \<Rightarrow> Store \<Rightarrow> Store \<times> (store_error + QueuedResponse)" where
  "ingest_enqueue req s =
     (let envelopeID = env_EnvelopeID req; coalesceKey = coalesceObjectKey req
      in case tryEnqueueEnvelope envelopeID s of
           (s, True) \<Rightarrow> (s, Inr (queued envelopeID (env_CorrelationID req)))
         | (s, False) \<Rightarrow>
             let s = s\<lparr>s_envelopesByID := mdel envelopeID (s_envelopesByID s), s_deliveryIndex := mdel (envelope_key req) (s_deliveryIndex s)\<rparr>;
                 s = (if coalesceKey \<noteq> '''' \<and> map_of (s_coalesceIndex s) coalesceKey = Some envelopeID
                      then s\<lparr>s_coalesceIndex := mdel coalesceKey (s_coalesceIndex s)\<rparr> else s);
                 s = s\<lparr>s_processedEnvs := mdel envelopeID (s_processedEnvs s), s_envelopeAttempts := mdel envelopeID (s_envelopeAttempts s),
                       s_envelopeNextAttempt := mdel envelopeID (s_envelopeNextAttempt s)\<rparr>
             in (saveLocked (adjustIngressCountsLocked (env_WorkspaceID req) (env_Provider req) (no_delta\<lparr>id_accepted := - 1, id_dropped := 1\<rparr>) s),
                 Inl ErrQueueFull))"

definition IngestEnvelope :: "instant \<Rightarrow> WebhookEnvelopeRequest \<Rightarrow> Store \<Rightarrow> Store \<times> (store_error + QueuedResponse)" where
  "IngestEnvelope now req s =
     (let req = normalize_envelope now req
      in if env_WorkspaceID req = '''' \<or> env_Provider req = '''' then (s, Inl ErrInvalidInput)
         else case ingest_accept req s of
                (s, Some response) \<Rightarrow> (s, Inr response)
              | (s, None) \<Rightarrow> ingest_enqueue req s)"

section \<open>Replaying\<close>

definition ReplayEnvelope :: "string \<Rightarrow> string \<Rightarrow> Store \<Rightarrow> Store \<times> (store_error + QueuedResponse)" where
  "ReplayEnvelope envelopeID correlationID s =
     (case map_of (s_envelopesByID s) envelopeID of
        None \<Rightarrow> (s, Inl ErrNotFound)
      | Some req \<Rightarrow>
          let s = s\<lparr>s_processedEnvs := mput envelopeID False (s_processedEnvs s), s_envelopeAttempts := mdel envelopeID (s_envelopeAttempts s),
                    s_envelopeNextAttempt := mdel envelopeID (s_envelopeNextAttempt s), s_deadLetters := mdel envelopeID (s_deadLetters s)\<rparr>;
              req' = (if env_CorrelationID req = '''' then req\<lparr>env_CorrelationID := correlationID\<rparr> else req);
              s = (if env_CorrelationID req = '''' then s\<lparr>s_envelopesByID := mput envelopeID req' (s_envelopesByID s)\<rparr> else s);
              key = coalesceObjectKey req';
              s = (if key \<noteq> '''' then s\<lparr>s_coalesceIndex := mput key envelopeID (s_coalesceIndex s)\<rparr> else s)
          in (enqueueEnvelope envelopeID (saveLocked s), Inr (queued envelopeID correlationID)))"

definition ReplayEnvelopeForWorkspace :: "string \<Rightarrow> string \<Rightarrow> string \<Rightarrow> Store \<Rightarrow> Store \<times> (store_error + QueuedResponse)" where
  "ReplayEnvelopeForWorkspace workspaceID envelopeID correlationID s =
     (case map_of (s_envelopesByID s) envelopeID of
        None \<Rightarrow> (s, Inl ErrNotFound)
      | Some req \<Rightarrow>
          if map_of (s_deadLetters s) envelopeID = None \<or> env_WorkspaceID req \<noteq> workspaceID then (s, Inl ErrNotFound)
          else ReplayEnvelope envelopeID correlationID s)"

end
