(* ===== verification/ProviderSync.thy ===== *)
theory ProviderSync
  imports Ingest
begin

text \<open>
  Applying what providers report: watermarks, the identity of provider objects and their paths, and the processing of
  envelopes.  \<open>provider_event\<close> is the event every branch fills in; a branch is the code's, with the workspace named by its id.
\<close>

section \<open>Stale and suppressed\<close>

text \<open>\<^verbatim>\<open>t.Format(time.RFC3339Nano)\<close> keeps the zone \<^verbatim>\<open>t\<close> was parsed with.\<close>

definition zone_of :: "string \<Rightarrow> int" where
  "zone_of raw =
     (case get_zone (if raw \<noteq> [] \<and> last raw = CHR ''Z'' then ''Z'' else drop (length raw - 6) raw) of Some (zone, _) \<Rightarrow> zone | None \<Rightarrow> 0)"

definition format_in_zone :: "int \<Rightarrow> instant \<Rightarrow> string" where
  "format_in_zone zone t =
     butlast (FormatRFC3339Nano (t + zone * Second))
     @ (if zone = 0 then ''Z''
        else (let m = nat (\<bar>zone\<bar> div 60) in (if zone < 0 then ''-'' else ''+'') @ pad_int 2 (m div 60) @ '':'' @ pad_int 2 (m mod 60)))"

definition providerWatermarkKey :: "string \<Rightarrow> ApplyAction \<Rightarrow> string" where
  "providerWatermarkKey provider action =
     (if aa_ProviderObjectID action \<noteq> '''' then ''object:'' @ providerObjectKey provider (aa_ProviderObjectID action)
      else let path = normalizePath (aa_Path action)
           in if path \<noteq> ''/'' then ''path:'' @ provider @ ''|'' @ path else '''')"

definition isStaleProviderActionLocked :: "string \<Rightarrow> string \<Rightarrow> ApplyAction \<Rightarrow> string \<Rightarrow> Store \<Rightarrow> Store \<times> bool" where
  "isStaleProviderActionLocked workspaceID provider action receivedAtRaw s =
     (let key = providerWatermarkKey provider action; ws = ws_of s workspaceID
      in if key = '''' then (s, False)
         else case ParseRFC3339Nano receivedAtRaw of
                None \<Rightarrow> (s, False)
              | Some receivedAt \<Rightarrow>
                  if (case map_of (ws_ProviderWatermarks ws) key of
                        None \<Rightarrow> False
                      | Some watermarkRaw \<Rightarrow> (case ParseRFC3339Nano watermarkRaw of None \<Rightarrow> False | Some watermark \<Rightarrow> receivedAt < watermark))
                  then (s, True)
                  else (put_ws workspaceID (ws\<lparr>ws_ProviderWatermarks := mput key (format_in_zone (zone_of receivedAtRaw) receivedAt) (ws_ProviderWatermarks ws)\<rparr>) s,
                        False))"

definition suppression_markers :: "WebhookEnvelopeRequest \<Rightarrow> string list" where
  "suppression_markers req =
     (let opID = TrimSpace (toString (map_of (env_Payload req) ''opId''));
          payloadCorr = TrimSpace (toString (map_of (env_Payload req) ''correlationId''))
      in (if opID \<noteq> '''' then [''op:'' @ opID] else []) @ (if payloadCorr \<noteq> '''' then [''corr:'' @ payloadCorr] else [])
         @ (if env_CorrelationID req \<noteq> '''' then [''corr:'' @ TrimSpace (env_CorrelationID req)] else []))"

fun check_markers :: "(string \<Rightarrow> string) \<Rightarrow> instant \<Rightarrow> string list \<Rightarrow> (string, instant) gomap \<Rightarrow> (string, instant) gomap \<times> bool" where
  "check_markers key now [] marks = (marks, False)"
| "check_markers key now (marker # markers) marks =
     (case map_of marks (key marker) of
        None \<Rightarrow> check_markers key now markers marks
      | Some expiresAt \<Rightarrow> if now < expiresAt then (marks, True) else check_markers key now markers (mdel (key marker) marks))"

definition shouldSuppressEnvelopeLocked :: "WebhookEnvelopeRequest \<Rightarrow> instant \<Rightarrow> Store \<Rightarrow> Store \<times> bool" where
  "shouldSuppressEnvelopeLocked req now s =
     (if cfg_suppressionWindow (s_cfg s) \<le> 0 then (s, False)
      else if ToLower (TrimSpace (toString (map_of (env_Payload req) ''origin''))) \<noteq> ''relayfile'' then (s, False)
      else let s = pruneSuppressionsLocked now s
           in case check_markers (suppressionKey (env_WorkspaceID req) (env_Provider req)) now (suppression_markers req) (s_suppressions s) of
                (marks, hit) \<Rightarrow> (s\<lparr>s_suppressions := marks\<rparr>, hit))"

section \<open>The path of a provider object\<close>

definition providerObjectMatchesFile :: "string \<Rightarrow> string \<Rightarrow> File \<Rightarrow> bool" where
  "providerObjectMatchesFile provider objectID f \<longleftrightarrow>
     normalizeProvider (f_Provider f) = normalizeProvider provider \<and> normalizeProvider provider \<noteq> ''''
     \<and> TrimSpace (f_ProviderObjectID f) = TrimSpace objectID"

text \<open>The workspace comes back because a unique match repairs the index.\<close>

definition resolveProviderObjectPathLocked :: "string \<Rightarrow> string \<Rightarrow> workspaceState \<Rightarrow> workspaceState \<times> string option" where
  "resolveProviderObjectPathLocked provider objectID ws =
     (if TrimSpace objectID = '''' \<or> normalizeProvider provider = '''' then (ws, None)
      else
        let objectID = TrimSpace objectID; key = providerObjectKey provider objectID
        in case (case map_of (ws_ProviderIndex ws) key of
                   None \<Rightarrow> None
                 | Some indexed \<Rightarrow> (case map_of (ws_Files ws) indexed of
                     None \<Rightarrow> None
                   | Some f \<Rightarrow> if providerObjectMatchesFile provider objectID f then Some (normalizePath indexed) else None)) of
             Some path \<Rightarrow> (ws, Some path)
           | None \<Rightarrow>
               (case filter (\<lambda>(filePath, f). providerObjectMatchesFile provider objectID f) (ws_Files ws) of
                  [(filePath, f)] \<Rightarrow> (ws\<lparr>ws_ProviderIndex := mput key (normalizePath filePath) (ws_ProviderIndex ws)\<rparr>, Some (normalizePath filePath))
                | _ \<Rightarrow> (ws, None)))"

definition path_free :: "string \<Rightarrow> string \<Rightarrow> workspaceState \<Rightarrow> string \<Rightarrow> bool" where
  "path_free provider objectID ws p \<longleftrightarrow>
     (case map_of (ws_Files ws) p of None \<Rightarrow> True | Some f \<Rightarrow> providerObjectMatchesFile provider objectID f)"

definition object_digest :: "string \<Rightarrow> string \<Rightarrow> string" where
  "object_digest provider objectID = sha256_hex (normalizeProvider provider @ [CHR 0x00] @ objectID)"

text \<open>The projections tried after the legacy one: two suffixes of the digest, then numbered ones up to 1024.\<close>

definition upsert_candidates :: "string \<Rightarrow> string \<Rightarrow> string \<Rightarrow> string list" where
  "upsert_candidates provider objectID legacyPath =
     (let digest = object_digest provider objectID; base = TrimSuffix legacyPath ''.md''
      in normalizePath (base @ ''-'' @ take 16 digest @ ''.md'') # normalizePath (base @ ''-'' @ digest @ ''.md'')
         # map (\<lambda>attempt. normalizePath (base @ ''-'' @ digest @ ''-'' @ itoa attempt @ ''.md'')) [2..<1025])"

definition resolveProviderObjectUpsertPathLocked :: "string \<Rightarrow> string \<Rightarrow> workspaceState \<Rightarrow> workspaceState \<times> string option" where
  "resolveProviderObjectUpsertPathLocked provider objectID ws =
     (if TrimSpace objectID = '''' \<or> normalizeProvider provider = '''' then (ws, None)
      else
        let objectID = TrimSpace objectID
        in case resolveProviderObjectPathLocked provider objectID ws of
             (ws, Some path) \<Rightarrow> (ws, Some path)
           | (ws, None) \<Rightarrow>
               if list_ex (\<lambda>(filePath, f). providerObjectMatchesFile provider objectID f) (ws_Files ws) then (ws, None)
               else let legacyPath = fallbackProviderPath provider objectID
                    in if legacyPath = ''/'' then (ws, None)
                       else if path_free provider objectID ws legacyPath then (ws, Some legacyPath)
                       else (ws, find (path_free provider objectID ws) (upsert_candidates provider objectID legacyPath)))"

section \<open>Channel aliases\<close>

fun cut_alias :: "string \<Rightarrow> string \<times> bool" where
  "cut_alias (a # b # s) = (if a = CHR ''_'' \<and> b = CHR ''_'' then ([], True) else (case cut_alias (b # s) of (x, f) \<Rightarrow> (a # x, f)))"
| "cut_alias s = (s, False)"

definition slack_segments :: "string \<Rightarrow> string list option" where
  "slack_segments path =
     (let parts = Split (TrimPrefix path ''/'') slash
      in if length parts < 3 \<or> parts ! 0 \<noteq> ''slack'' \<or> parts ! 1 \<noteq> ''channels'' then None else Some parts)"

definition canonicalizeSlackChannelAliasPath :: "(string, File) gomap \<Rightarrow> string \<Rightarrow> string" where
  "canonicalizeSlackChannelAliasPath files rawPath =
     (let path = normalizePath rawPath
      in case slack_segments path of
           None \<Rightarrow> path
         | Some parts \<Rightarrow>
             let channelSegment = parts ! 2
             in if channelSegment = '''' \<or> Contains channelSegment ''__'' then path
                else let candidates = concat (map (\<lambda>(filePath, f).
                           case slack_segments (normalizePath filePath) of
                             None \<Rightarrow> []
                           | Some fileParts \<Rightarrow> if cut_alias (fileParts ! 2) = (channelSegment, True) then [fileParts ! 2] else []) files)
                     in case sort candidates of
                          [] \<Rightarrow> path
                        | candidate # _ \<Rightarrow> normalizePath (''/'' @ Join (parts[2 := candidate]) ''/''))"

definition canonicalizeExistingProviderAliasPath :: "(string, File) gomap \<Rightarrow> string \<Rightarrow> string \<Rightarrow> string" where
  "canonicalizeExistingProviderAliasPath files provider rawPath =
     (let path = normalizePath rawPath
      in if normalizeProvider provider \<noteq> ''slack'' then path else canonicalizeSlackChannelAliasPath files path)"

definition canonicalizeProviderActionLocked :: "workspaceState \<Rightarrow> string \<Rightarrow> ApplyAction \<Rightarrow> ApplyAction" where
  "canonicalizeProviderActionLocked ws provider action =
     (if aa_Type action \<noteq> ActionFileUpsert \<and> aa_Type action \<noteq> ActionFileDelete then action
      else if TrimSpace (aa_Path action) = '''' then action
      else case canonicalProviderEnvelopePath provider (aa_Path action) of
             (canonicalPath, ok) \<Rightarrow>
               if \<not> ok then action\<lparr>aa_Type := ActionIgnored, aa_Path := ''/''\<rparr>
               else action\<lparr>aa_Path := canonicalizeExistingProviderAliasPath (ws_Files ws) provider canonicalPath\<rparr>)"

section \<open>Upserts and deletes\<close>

definition provider_event :: "string \<Rightarrow> string \<Rightarrow> string \<Rightarrow> string \<Rightarrow> string \<Rightarrow> string \<Rightarrow> Event" where
  "provider_event eventType path revision provider correlationID nowTS =
     \<lparr>e_EventID = '''', e_Type = eventType, e_Path = path, e_Revision = revision, e_ContentHash = '''', e_Origin = ''provider_sync'',
      e_Provider = provider, e_CorrelationID = correlationID, e_Timestamp = nowTS, e_TypeMetadata = None, e_ACLPermissions = None\<rparr>"

text \<open>Taking the next event id and appending.\<close>

definition emit :: "string \<Rightarrow> Event \<Rightarrow> Store \<Rightarrow> Store" where
  "emit workspaceID event s =
     (case nextEventIDLocked s of (eventID, s) \<Rightarrow> appendWorkspaceEventLocked workspaceID (event\<lparr>e_EventID := eventID\<rparr>) s)"

definition del_index :: "string \<Rightarrow> string \<Rightarrow> Store \<Rightarrow> Store" where
  "del_index workspaceID key s =
     (let ws = ws_of s workspaceID in put_ws workspaceID (ws\<lparr>ws_ProviderIndex := mdel key (ws_ProviderIndex ws)\<rparr>) s)"

definition set_index :: "string \<Rightarrow> string \<Rightarrow> string \<Rightarrow> Store \<Rightarrow> Store" where
  "set_index workspaceID key path s =
     (let ws = ws_of s workspaceID in put_ws workspaceID (ws\<lparr>ws_ProviderIndex := mput key path (ws_ProviderIndex ws)\<rparr>) s)"

text \<open>A file leaves its path under a revision of its own.\<close>

definition provider_remove :: "string \<Rightarrow> string \<Rightarrow> string \<Rightarrow> string \<Rightarrow> string \<Rightarrow> Store \<Rightarrow> Store" where
  "provider_remove nowTS workspaceID path provider correlationID s =
     (let acl = resolvePermissionsFromFiles (ws_Files (ws_of s workspaceID)) path True;
          (revision, s) = nextRevisionLocked s;
          s = remove_file workspaceID path revision s
      in emit workspaceID ((provider_event ''file.deleted'' path revision provider correlationID nowTS)\<lparr>e_ACLPermissions := snapshotACLPermissions acl\<rparr>) s)"

definition relocate_object :: "string \<Rightarrow> string \<Rightarrow> string \<Rightarrow> string \<Rightarrow> string \<Rightarrow> string \<Rightarrow> Store \<Rightarrow> Store" where
  "relocate_object nowTS workspaceID path provider objectID correlationID s =
     (let key = providerObjectKey provider objectID; ws = ws_of s workspaceID
      in case map_of (ws_ProviderIndex ws) key of
           None \<Rightarrow> s
         | Some previousPath \<Rightarrow>
             if previousPath = path then s
             else case map_of (ws_Files ws) previousPath of
                    Some previousFile \<Rightarrow>
                      if providerObjectMatchesFile provider objectID previousFile
                      then provider_remove nowTS workspaceID previousPath provider correlationID s
                      else del_index workspaceID key s
                  | None \<Rightarrow> del_index workspaceID key s)"

definition upsert_file :: "string \<Rightarrow> string \<Rightarrow> string \<Rightarrow> string \<Rightarrow> string \<Rightarrow> ApplyAction \<Rightarrow> File option \<Rightarrow> File" where
  "upsert_file nowTS path revision provider objectID action existing =
     (let sem = normalizeSemantics (aa_Semantics action);
          semantics = (case existing of Some f \<Rightarrow> if isZeroSemantics sem then normalizeSemantics (f_Semantics f) else sem | None \<Rightarrow> sem)
      in \<lparr>f_Path = path, f_Type = '''', f_Target = '''', f_Mode = 0, f_Revision = revision,
          f_ContentHash = contentHashForEncodedContent (aa_Content action) '''',
          f_ContentType = (if aa_ContentType action = '''' then ''text/markdown'' else aa_ContentType action),
          f_Content = aa_Content action, f_Encoding = '''', f_Provider = provider, f_ProviderObjectID = objectID,
          f_LastEditedAt = nowTS, f_Semantics = semantics\<rparr>)"

definition provider_put :: "string \<Rightarrow> string \<Rightarrow> string \<Rightarrow> string \<Rightarrow> string \<Rightarrow> ApplyAction \<Rightarrow> string \<Rightarrow> Store \<Rightarrow> Store" where
  "provider_put nowTS workspaceID path provider objectID action correlationID s =
     (let existing = map_of (ws_Files (ws_of s workspaceID)) path;
          (revision, s) = nextRevisionLocked s;
          f = upsert_file nowTS path revision provider objectID action existing;
          s = put_file workspaceID path f revision s;
          s = (if objectID \<noteq> '''' then set_index workspaceID (providerObjectKey provider objectID) path s else s);
          event = provider_event (if existing \<noteq> None then ''file.updated'' else ''file.created'') path revision provider correlationID nowTS
      in emit workspaceID (event\<lparr>e_ContentHash := storedContentHashForFile f,
              e_TypeMetadata := Some \<lparr>ftm_Type = f_Type f, ftm_Target = f_Target f, ftm_Mode = f_Mode f\<rparr>,
              e_ACLPermissions := snapshotACLPermissions (resolvePermissionsFromFiles (ws_Files (ws_of s workspaceID)) path True)\<rparr>) s)"

definition reconcile_event :: "string \<Rightarrow> string \<Rightarrow> string \<Rightarrow> string \<Rightarrow> Store \<Rightarrow> Store" where
  "reconcile_event nowTS workspaceID provider correlationID s =
     emit workspaceID (provider_event ''sync.reconcile'' '''' '''' provider correlationID nowTS) s"

definition applyProviderUpsertLocked :: "instant \<Rightarrow> string \<Rightarrow> string \<Rightarrow> ApplyAction \<Rightarrow> string \<Rightarrow> Store \<Rightarrow> Store" where
  "applyProviderUpsertLocked now workspaceID provider action correlationID s =
     (let nowTS = FormatRFC3339Nano now;
          objectID = TrimSpace (aa_ProviderObjectID action);
          path1 = normalizePath (aa_Path action);
          (s, target) = (if path1 = ''/'' \<and> objectID \<noteq> ''''
                         then (case resolveProviderObjectUpsertPathLocked provider objectID (ws_of s workspaceID) of
                                 (ws, resolved) \<Rightarrow> (put_ws workspaceID ws s, resolved))
                         else (s, Some path1))
      in case target of
           None \<Rightarrow> reconcile_event nowTS workspaceID provider correlationID s
         | Some path \<Rightarrow>
             if path = ''/'' then s
             else let s = (if objectID \<noteq> '''' then relocate_object nowTS workspaceID path provider objectID correlationID s else s)
                  in provider_put nowTS workspaceID path provider objectID action correlationID s)"

definition applyProviderDeleteLocked :: "instant \<Rightarrow> string \<Rightarrow> string \<Rightarrow> ApplyAction \<Rightarrow> string \<Rightarrow> Store \<Rightarrow> Store" where
  "applyProviderDeleteLocked now workspaceID provider action correlationID s =
     (let nowTS = FormatRFC3339Nano now;
          objectID = TrimSpace (aa_ProviderObjectID action);
          path1 = normalizePath (aa_Path action);
          ws = ws_of s workspaceID;
          matches = (case map_of (ws_Files ws) path1 of None \<Rightarrow> False | Some f \<Rightarrow> providerObjectMatchesFile provider objectID f);
          (s, path) = (if objectID \<noteq> '''' \<and> (path1 = ''/'' \<or> \<not> matches)
                       then (case resolveProviderObjectPathLocked provider objectID ws of
                               (ws, resolved) \<Rightarrow> (put_ws workspaceID ws s, case resolved of None \<Rightarrow> ''/'' | Some p \<Rightarrow> p))
                       else (s, path1));
          pathless = (TrimSpace (aa_Path action) = '''')
      in if path = ''/'' then (if pathless \<or> objectID \<noteq> '''' then reconcile_event nowTS workspaceID provider correlationID s else s)
         else if map_of (ws_Files (ws_of s workspaceID)) path = None
         then (if pathless then reconcile_event nowTS workspaceID provider correlationID s else s)
         else let s' = provider_remove nowTS workspaceID path provider correlationID s
              in if objectID \<noteq> '''' then del_index workspaceID (providerObjectKey provider objectID) s' else s')"

section \<open>Retention\<close>

text \<open>The zero time of Go, which an unparseable receive time counts as.\<close>

definition zero_time :: instant where
  "zero_time = - 62135596800 * Second"

definition prune_order :: "Store \<Rightarrow> string list" where
  "prune_order s =
     map snd (sort (map (\<lambda>(envelopeID, req).
         let ts = (case ParseRFC3339Nano (env_ReceivedAt req) of None \<Rightarrow> zero_time | Some t \<Rightarrow> t)
         in ((ts \<noteq> zero_time, ts), envelopeID))
       (filter (\<lambda>(envelopeID, req). mget_or False (s_processedEnvs s) envelopeID \<and> map_of (s_deadLetters s) envelopeID = None)
          (s_envelopesByID s))))"

definition drop_envelope :: "string \<Rightarrow> Store \<Rightarrow> Store" where
  "drop_envelope envelopeID s =
     (case map_of (s_envelopesByID s) envelopeID of
        None \<Rightarrow> s
      | Some req \<Rightarrow>
          let s = clearCoalesceIndexLocked req envelopeID s;
              s = s\<lparr>s_envelopesByID := mdel envelopeID (s_envelopesByID s), s_processedEnvs := mdel envelopeID (s_processedEnvs s),
                    s_envelopeAttempts := mdel envelopeID (s_envelopeAttempts s), s_envelopeNextAttempt := mdel envelopeID (s_envelopeNextAttempt s)\<rparr>;
              key = envelope_key req
          in if map_of (s_deliveryIndex s) key = Some envelopeID then s\<lparr>s_deliveryIndex := mdel key (s_deliveryIndex s)\<rparr> else s)"

definition pruneProcessedEnvelopesLocked :: "Store \<Rightarrow> Store" where
  "pruneProcessedEnvelopesLocked s =
     (if cfg_maxStoredEnvelopes (s_cfg s) \<le> 0 \<or> int (length (s_envelopesByID s)) \<le> cfg_maxStoredEnvelopes (s_cfg s) then s
      else fold (\<lambda>envelopeID s. if int (length (s_envelopesByID s)) \<le> cfg_maxStoredEnvelopes (s_cfg s) then s else drop_envelope envelopeID s)
             (prune_order s) s)"

section \<open>Processing an envelope\<close>

type_synonym adapters = "(string, WebhookEnvelopeRequest \<Rightarrow> parse_result) gomap"

definition settle_envelope :: "string \<Rightarrow> WebhookEnvelopeRequest \<Rightarrow> Store \<Rightarrow> Store" where
  "settle_envelope envelopeID req s =
     (let s = clearCoalesceIndexLocked req envelopeID (s\<lparr>s_processedEnvs := mput envelopeID True (s_processedEnvs s)\<rparr>);
          s = s\<lparr>s_envelopeAttempts := mdel envelopeID (s_envelopeAttempts s), s_envelopeNextAttempt := mdel envelopeID (s_envelopeNextAttempt s),
                s_deadLetters := mdel envelopeID (s_deadLetters s), s_processingEnvs := mdel envelopeID (s_processingEnvs s)\<rparr>
      in saveLocked (pruneProcessedEnvelopesLocked s))"

text \<open>The first critical section: \<open>None\<close> when nothing is left to do, or the number of the attempt.\<close>

definition env_begin :: "instant \<Rightarrow> string \<Rightarrow> Store \<Rightarrow> Store \<times> (WebhookEnvelopeRequest \<times> int) option" where
  "env_begin now envelopeID s =
     (case map_of (s_envelopesByID s) envelopeID of
        None \<Rightarrow> (s, None)
      | Some req \<Rightarrow>
          if mget_or False (s_processedEnvs s) envelopeID \<or> mget_or False (s_processingEnvs s) envelopeID then (s, None)
          else
            let s = ensureWorkspaceLocked (env_WorkspaceID req) (s\<lparr>s_processingEnvs := mput envelopeID True (s_processingEnvs s)\<rparr>)
            in case shouldSuppressEnvelopeLocked req now s of
                 (s, True) \<Rightarrow>
                   let s = emit (env_WorkspaceID req) (provider_event ''sync.suppressed'' ''/'' '''' (env_Provider req) (env_CorrelationID req) (FormatRFC3339Nano now)) s;
                       s = adjustIngressCountsLocked (env_WorkspaceID req) (env_Provider req) (no_delta\<lparr>id_suppressed := 1\<rparr>) s
                   in (settle_envelope envelopeID req s, None)
               | (s, False) \<Rightarrow>
                   let attempt = mget_or 0 (s_envelopeAttempts s) envelopeID + 1
                   in (s\<lparr>s_envelopeAttempts := mput envelopeID attempt (s_envelopeAttempts s)\<rparr>, Some (req, attempt)))"

definition parse_envelope :: "adapters \<Rightarrow> WebhookEnvelopeRequest \<Rightarrow> parse_result" where
  "parse_envelope adapters req =
     (case map_of adapters (env_Provider req) of Some adapter \<Rightarrow> adapter req | None \<Rightarrow> ParseGenericEnvelope req)"

definition apply_action :: "instant \<Rightarrow> WebhookEnvelopeRequest \<Rightarrow> ApplyAction \<Rightarrow> Store \<Rightarrow> Store" where
  "apply_action now req action s =
     (let w = env_WorkspaceID req; provider = env_Provider req; corr = env_CorrelationID req;
          action = canonicalizeProviderActionLocked (ws_of s w) provider action
      in case isStaleProviderActionLocked w provider action (env_ReceivedAt req) s of
           (s, True) \<Rightarrow>
             adjustIngressCountsLocked w provider (no_delta\<lparr>id_stale := 1\<rparr>)
               (emit w (provider_event ''sync.stale'' (normalizePath (aa_Path action)) '''' provider corr (FormatRFC3339Nano now)) s)
         | (s, False) \<Rightarrow>
             if aa_Type action = ActionFileUpsert then applyProviderUpsertLocked now w provider action corr s
             else if aa_Type action = ActionFileDelete then applyProviderDeleteLocked now w provider action corr s
             else emit w (provider_event ''sync.ignored'' ''/'' '''' provider corr (FormatRFC3339Nano now)) s)"

definition dead_letter :: "instant \<Rightarrow> string \<Rightarrow> WebhookEnvelopeRequest \<Rightarrow> int \<Rightarrow> string \<Rightarrow> EnvelopeDeadLetter" where
  "dead_letter now envelopeID req attempt errText =
     \<lparr>dl_EnvelopeID = envelopeID, dl_WorkspaceID = env_WorkspaceID req, dl_Provider = env_Provider req, dl_DeliveryID = env_DeliveryID req,
      dl_CorrelationID = env_CorrelationID req, dl_FailedAt = FormatRFC3339Nano now, dl_AttemptCount = attempt, dl_LastError = errText\<rparr>"

text \<open>The second: apply the actions, or record the failure; the delay is that of the retry timer.\<close>

definition env_finish :: "instant \<Rightarrow> string \<Rightarrow> int \<Rightarrow> parse_result \<Rightarrow> Store \<Rightarrow> Store \<times> duration option" where
  "env_finish now envelopeID attempt parsed s =
     (case map_of (s_envelopesByID s) envelopeID of
        None \<Rightarrow> (s\<lparr>s_processingEnvs := mdel envelopeID (s_processingEnvs s)\<rparr>, None)
      | Some req \<Rightarrow>
          if mget_or False (s_processedEnvs s) envelopeID then (s\<lparr>s_processingEnvs := mdel envelopeID (s_processingEnvs s)\<rparr>, None)
          else
            let s = ensureWorkspaceLocked (env_WorkspaceID req) s
            in case parsed of
                 Inr actions \<Rightarrow> (settle_envelope envelopeID req (fold (apply_action now req) actions s), None)
               | Inl errText \<Rightarrow>
                   if attempt \<ge> cfg_maxEnvelopeAttempts (s_cfg s) then
                     let s = emit (env_WorkspaceID req) (provider_event ''sync.error'' ''/'' '''' (env_Provider req) (env_CorrelationID req) (FormatRFC3339Nano now)) s;
                         s = clearCoalesceIndexLocked req envelopeID (s\<lparr>s_processedEnvs := mput envelopeID True (s_processedEnvs s)\<rparr>);
                         s = s\<lparr>s_deadLetters := mput envelopeID (dead_letter now envelopeID req attempt errText) (s_deadLetters s),
                               s_envelopeAttempts := mdel envelopeID (s_envelopeAttempts s), s_envelopeNextAttempt := mdel envelopeID (s_envelopeNextAttempt s)\<rparr>;
                         s = pruneProcessedEnvelopesLocked s
                     in (saveLocked (s\<lparr>s_processingEnvs := mdel envelopeID (s_processingEnvs s)\<rparr>), None)
                   else
                     let s = s\<lparr>s_envelopeNextAttempt := mput envelopeID (now + cfg_envelopeRetryDelay (s_cfg s)) (s_envelopeNextAttempt s),
                               s_processingEnvs := mdel envelopeID (s_processingEnvs s)\<rparr>
                     in (saveLocked s, Some (cfg_envelopeRetryDelay (s_cfg s))))"

definition processEnvelope :: "instant \<Rightarrow> adapters \<Rightarrow> string \<Rightarrow> Store \<Rightarrow> Store \<times> duration option" where
  "processEnvelope now adapters envelopeID s =
     (case env_begin now envelopeID s of
        (s, None) \<Rightarrow> (s, None)
      | (s, Some (req, attempt)) \<Rightarrow> env_finish now envelopeID attempt (parse_envelope adapters req) s)"

text \<open>One round of the envelope worker; \<open>None\<close> when the queue is empty and the worker blocks.\<close>

definition envelopeWorker :: "instant \<Rightarrow> adapters \<Rightarrow> Store \<Rightarrow> (Store \<times> duration option) option" where
  "envelopeWorker now adapters s =
     (case env_Dequeue (s_envelopeQueue s) of
        None \<Rightarrow> None
      | Some (envelopeID, q) \<Rightarrow>
          Some (processEnvelope now adapters envelopeID (s\<lparr>s_envelopeQueue := q, s_queuedEnvelopes := removeAll envelopeID (s_queuedEnvelopes s)\<rparr>)))"

text \<open>What a retry timer does when it fires.\<close>

definition scheduleEnvelopeRetry :: "string \<Rightarrow> Store \<Rightarrow> Store" where
  "scheduleEnvelopeRetry envelopeID s = (if envelopeID = '''' then s else enqueueEnvelope envelopeID s)"

text \<open>The unprocessed envelopes a restart enqueues at once, and those it leaves to a timer.\<close>

definition boot_envelopes :: "instant \<Rightarrow> Store \<Rightarrow> (string \<times> duration) list" where
  "boot_envelopes now s =
     map (\<lambda>(envelopeID, req). (envelopeID,
            case map_of (s_envelopeNextAttempt s) envelopeID of
              None \<Rightarrow> 0
            | Some nextAttempt \<Rightarrow> (let until = TimeSub nextAttempt now in if until > 0 then until else 0)))
       (filter (\<lambda>(envelopeID, req). \<not> mget_or False (s_processedEnvs s) envelopeID) (s_envelopesByID s))"

end
