(* ===== verification/IngestCorrect.thy ===== *)
theory IngestCorrect
  imports ProviderSync BootSweep
begin

text \<open>
  Ingestion and provider synchronisation as steps of the store: accepting and queueing an envelope changes no workspace, and
  what processing one does is in every \<open>step_relation\<close>.  Deliveries and retention are in \<open>Deliveries\<close>, the state of provider
  objects in \<open>Convergence\<close>.
\<close>

section \<open>What ingestion leaves alone\<close>

lemma same_core_ingest [simp]:
  "same_core s (adjustIngressCountsLocked w p d s)" "same_core s (clearCoalesceIndexLocked req i s)"
  "same_core s (enqueueEnvelope i s)" "same_core s (fst (tryEnqueueEnvelope i s))" "same_core s (rebuildCoalesceIndexLocked s)"
  "same_core s (pruneSuppressionsLocked now s)" "same_core s (scheduleEnvelopeRetry i s)"
  by (auto simp: same_core_def adjustIngressCountsLocked_def clearCoalesceIndexLocked_def enqueueEnvelope_def tryEnqueueEnvelope_def
      rebuildCoalesceIndexLocked_def pruneSuppressionsLocked_def scheduleEnvelopeRetry_def Let_def split: prod.splits bool.splits)

lemma same_core_tables [simp]:
  "same_core s (s\<lparr>s_envelopesByID := a\<rparr>)" "same_core s (s\<lparr>s_deliveryIndex := b\<rparr>)" "same_core s (s\<lparr>s_coalesceIndex := b\<rparr>)"
  "same_core s (s\<lparr>s_processedEnvs := c\<rparr>)" "same_core s (s\<lparr>s_processingEnvs := c\<rparr>)" "same_core s (s\<lparr>s_envelopeAttempts := d\<rparr>)"
  "same_core s (s\<lparr>s_envelopeNextAttempt := e\<rparr>)" "same_core s (s\<lparr>s_deadLetters := f\<rparr>)" "same_core s (s\<lparr>s_suppressions := g\<rparr>)"
  "same_core s (s\<lparr>s_envelopeQueue := q\<rparr>)" "same_core s (s\<lparr>s_queuedEnvelopes := h\<rparr>)"
  by (simp_all add: same_core_def)

lemma same_core_suppress: "same_core s (fst (shouldSuppressEnvelopeLocked req now s))"
  by (simp add: shouldSuppressEnvelopeLocked_def pruneSuppressionsLocked_def Let_def same_core_def split: prod.splits)

lemma same_core_store_envelope: "same_core s (store_envelope req s)"
  by (simp add: store_envelope_def saveLocked_def adjustIngressCountsLocked_def Let_def same_core_def)

lemma same_core_accept: "same_core s (fst (ingest_accept req s))"
  by (auto simp: ingest_accept_def Let_def store_envelope_def saveLocked_def adjustIngressCountsLocked_def same_core_def split: option.splits)

lemma same_core_enqueue_step: "same_core s (fst (ingest_enqueue req s))"
proof -
  obtain s1 ok where t: "tryEnqueueEnvelope (env_EnvelopeID req) s = (s1, ok)" by (metis prod.exhaust)
  then have s1: "same_core s s1" using same_core_ingest(4) by (metis fst_conv)
  show ?thesis
  proof (cases ok)
    case False
    have "same_core s1 (fst (ingest_enqueue req s))"
      by (simp add: ingest_enqueue_def t False Let_def saveLocked_def adjustIngressCountsLocked_def same_core_def)
    then show ?thesis by (rule same_core_trans [OF s1])
  qed (simp add: ingest_enqueue_def t s1)
qed

lemma same_core_IngestEnvelope: "same_core s (fst (IngestEnvelope now req s))"
  using same_core_accept [of s "normalize_envelope now req"] same_core_trans [OF _ same_core_enqueue_step]
  by (auto simp: IngestEnvelope_def Let_def split: prod.splits option.splits)

lemma same_core_Replay: "same_core s (fst (ReplayEnvelope i corr s))" "same_core s (fst (ReplayEnvelopeForWorkspace w i corr s))"
proof -
  have enq: "same_core s s1 \<Longrightarrow> same_core s (enqueueEnvelope i (saveLocked s1))" for s1
    using same_core_trans [OF _ same_core_trans [OF same_core_save same_core_ingest(3)]] .
  show r: "same_core s (fst (ReplayEnvelope i corr s))"
  proof (cases "map_of (s_envelopesByID s) i")
    case (Some req)
    show ?thesis unfolding ReplayEnvelope_def Some Let_def option.case fst_conv by (intro enq) (simp add: same_core_def)
  qed (simp add: ReplayEnvelope_def)
  then show "same_core s (fst (ReplayEnvelopeForWorkspace w i corr s))"
    by (auto simp: ReplayEnvelopeForWorkspace_def split: option.splits)
qed

lemma same_core_drop: "same_core s (drop_envelope i s)"
  by (auto simp: drop_envelope_def clearCoalesceIndexLocked_def Let_def same_core_def split: option.splits)

lemma same_core_fold: "(\<And>x s. same_core s (f x s)) \<Longrightarrow> same_core s (fold f xs s)"
proof (induction xs arbitrary: s)
  case (Cons x xs)
  then show ?case using same_core_trans [OF Cons.prems Cons.IH [OF Cons.prems]] by simp
qed simp

lemma same_core_prune: "same_core s (pruneProcessedEnvelopesLocked s)"
  by (auto simp: pruneProcessedEnvelopesLocked_def same_core_drop intro: same_core_fold)

lemma same_core_settle: "same_core s (settle_envelope i req s)"
proof -
  have "same_core s (clearCoalesceIndexLocked req i (s\<lparr>s_processedEnvs := mput i True (s_processedEnvs s)\<rparr>))"
    using same_core_trans [OF same_core_tables(4) same_core_ingest(2)] .
  then have "same_core s (let s = clearCoalesceIndexLocked req i (s\<lparr>s_processedEnvs := mput i True (s_processedEnvs s)\<rparr>)
      in s\<lparr>s_envelopeAttempts := mdel i (s_envelopeAttempts s), s_envelopeNextAttempt := mdel i (s_envelopeNextAttempt s),
           s_deadLetters := mdel i (s_deadLetters s), s_processingEnvs := mdel i (s_processingEnvs s)\<rparr>)"
    by (simp add: same_core_def Let_def)
  from same_core_trans [OF this same_core_trans [OF same_core_prune same_core_save]] show ?thesis
    by (simp add: settle_envelope_def Let_def)
qed

section \<open>Provider steps are steps of the store\<close>

lemma ops_rewritten_resolve:
  "ops_rewritten ws (fst (resolveProviderObjectPathLocked prov obj ws))"
  "ops_rewritten ws (fst (resolveProviderObjectUpsertPathLocked prov obj ws))"
proof -
  show r: "ops_rewritten ws (fst (resolveProviderObjectPathLocked prov obj ws))" for prov obj
    by (auto simp: resolveProviderObjectPathLocked_def Let_def ops_rewritten_def split: option.splits list.splits prod.splits)
  show "ops_rewritten ws (fst (resolveProviderObjectUpsertPathLocked prov obj ws))"
    using r [of prov "TrimSpace obj"]
    by (auto simp: resolveProviderObjectUpsertPathLocked_def Let_def split: option.splits prod.splits)
qed

lemma upsert_file_fields [simp]:
  "f_Path (upsert_file ts p r prov obj a ex) = p" "f_Revision (upsert_file ts p r prov obj a ex) = r"
  "f_Content (upsert_file ts p r prov obj a ex) = aa_Content a" "f_Provider (upsert_file ts p r prov obj a ex) = prov"
  "f_ProviderObjectID (upsert_file ts p r prov obj a ex) = obj"
  by (simp_all add: upsert_file_def Let_def)

lemma emit_next: "emit w ev s = append_next w ev s"
  by (simp add: emit_def nextEventIDLocked_def append_next_def)

lemma sync_event [simp]: "\<not> file_event (provider_event et p r prov corr ts) \<longleftrightarrow> \<not> (put_type et \<or> et = ''file.deleted'')"
  by (auto simp: file_event_def provider_event_def)

lemma retabled_set_index [simp]: "retabled w s (set_index w k p s)"
  unfolding set_index_def Let_def by (rule retabled_put) (simp add: ops_rewritten_def)

context step_relation begin

lemma R_emit: "\<not> file_event ev \<Longrightarrow> R s (emit w ev s)"
  unfolding emit_next by (rule R_note)

lemma R_index: "R s (del_index w k s)" "R s (set_index w k p s)"
  unfolding del_index_def set_index_def Let_def by (intro R_rewrite; simp add: ops_rewritten_def)+

lemma R_provider_remove: "R s (provider_remove ts w p prov corr s)"
  unfolding provider_remove_def Let_def nextRevisionLocked_def emit_next
  by (simp, rule R_remove) (simp_all add: provider_event_def)

lemma R_relocate: "R s (relocate_object ts w p prov obj corr s)"
  by (auto simp: relocate_object_def Let_def R_provider_remove R_index split: option.splits)

lemma R_provider_put: "R s (provider_put ts w p prov obj a corr s)"
proof -
  let ?r = "rev_id (Suc (s_revCounter s))"
  show ?thesis
    unfolding provider_put_def Let_def nextRevisionLocked_def emit_next
    by (simp only: prod.case, rule R_put [where p = p and f = "upsert_file ts p ?r prov obj a (map_of (ws_Files (ws_of s w)) p)"])
      (simp_all add: announces_def provider_event_def)
qed

lemma R_reconcile_event: "R s (reconcile_event ts w prov corr s)"
  by (simp add: reconcile_event_def R_emit)

lemma R_upsert: "R s (applyProviderUpsertLocked now w prov a corr s)"
proof -
  have resolved: "R s (put_ws w (fst (resolveProviderObjectUpsertPathLocked prov obj (ws_of s w))) s)" for obj
    by (rule R_rewrite [OF ops_rewritten_resolve(2)])
  have put: "R s s1 \<Longrightarrow> R s (provider_put ts w p prov obj a corr s1)" for s1 ts p obj
    using R_trans [OF _ R_provider_put] .
  have move: "R s s1 \<Longrightarrow> R s (relocate_object ts w p prov obj corr s1)" for s1 ts p obj
    using R_trans [OF _ R_relocate] .
  have rec: "R s s1 \<Longrightarrow> R s (reconcile_event ts w prov corr s1)" for s1 ts
    using R_trans [OF _ R_reconcile_event] .
  show ?thesis
    using resolved by (simp add: applyProviderUpsertLocked_def Let_def case_prod_beta put move rec split: option.splits)
qed

lemma R_delete: "R s (applyProviderDeleteLocked now w prov a corr s)"
proof -
  have resolved: "R s (put_ws w (fst (resolveProviderObjectPathLocked prov obj (ws_of s w))) s)" for obj
    by (rule R_rewrite [OF ops_rewritten_resolve(1)])
  have remove: "R s s1 \<Longrightarrow> R s (provider_remove ts w p prov corr s1)" for s1 ts p
    using R_trans [OF _ R_provider_remove] .
  have rec: "R s s1 \<Longrightarrow> R s (reconcile_event ts w prov corr s1)" for s1 ts
    using R_trans [OF _ R_reconcile_event] .
  have idx: "R s s1 \<Longrightarrow> R s (del_index w k s1)" for s1 k
    using R_trans [OF _ R_index(1)] .
  show ?thesis
    using resolved by (simp add: applyProviderDeleteLocked_def Let_def case_prod_beta remove rec idx)
qed

lemma R_stale: "R s (fst (isStaleProviderActionLocked w prov a raw s))"
  by (auto simp: isStaleProviderActionLocked_def Let_def ops_rewritten_def intro!: R_rewrite split: option.splits)

lemma R_apply_action: "R s (apply_action now req a s)"
proof -
  let ?a = "canonicalizeProviderActionLocked (ws_of s (env_WorkspaceID req)) (env_Provider req) a"
  obtain s1 stale where st: "isStaleProviderActionLocked (env_WorkspaceID req) (env_Provider req) ?a (env_ReceivedAt req) s = (s1, stale)"
    by (metis prod.exhaust)
  then have s1: "R s s1" using R_stale by (metis fst_conv)
  have adj: "R s2 (adjustIngressCountsLocked w p d s2)" for s2 w p d by (rule R_core [OF same_core_ingest(1)])
  show ?thesis
    using R_trans [OF s1 R_upsert] R_trans [OF s1 R_delete] R_trans [OF s1 R_emit]
      R_trans [OF R_trans [OF s1 R_emit] adj] st
    by (cases stale) (simp_all add: apply_action_def Let_def)
qed

lemma R_env_begin: "R s (fst (env_begin now i s))"
proof (cases "map_of (s_envelopesByID s) i")
  case (Some req)
  let ?s1 = "ensureWorkspaceLocked (env_WorkspaceID req) (s\<lparr>s_processingEnvs := mput i True (s_processingEnvs s)\<rparr>)"
  obtain s2 hit where sup: "shouldSuppressEnvelopeLocked req now ?s1 = (s2, hit)" by (metis prod.exhaust)
  have "same_core ?s1 s2" using same_core_suppress [of ?s1 req now] sup by simp
  with R_trans [OF R_core [OF same_core_tables(5)] R_ensure]
  have s2: "R s s2" using R_trans R_core by blast
  have settle: "\<not> file_event ev \<Longrightarrow> R s (settle_envelope i req (adjustIngressCountsLocked w p d (emit w ev s2)))" for w p d ev
    using R_then_core [OF R_trans [OF s2 R_emit] same_core_trans [OF same_core_ingest(1) same_core_settle]] .
  show ?thesis
    using Some sup settle R_trans [OF s2 R_core [OF same_core_tables(6)]]
    by (cases hit) (simp_all add: env_begin_def Let_def)
qed (simp add: env_begin_def)

lemma R_env_finish: "R s (fst (env_finish now i attempt parsed s))"
proof (cases "map_of (s_envelopesByID s) i")
  case None
  then show ?thesis by (simp add: env_finish_def R_core)
next
  case (Some req)
  let ?s1 = "ensureWorkspaceLocked (env_WorkspaceID req) s"
  have s1: "R s ?s1" by (rule R_ensure)
  have actions: "R s (settle_envelope i req (fold (apply_action now req) as ?s1))" for as
    using R_trans [OF R_trans [OF s1 R_fold [OF R_apply_action]] R_core [OF same_core_settle]] .
  define s2 where "s2 = emit (env_WorkspaceID req) (provider_event ''sync.error'' ''/'' '''' (env_Provider req) (env_CorrelationID req) (FormatRFC3339Nano now)) ?s1"
  have s2: "R s s2" unfolding s2_def by (rule R_trans [OF s1 R_emit]) simp
  have cl: "same_core s2 (clearCoalesceIndexLocked req i (s2\<lparr>s_processedEnvs := m\<rparr>))" for m
    using same_core_trans [OF same_core_tables(4) same_core_ingest(2)] .
  have dead: "R s (saveLocked (pruneProcessedEnvelopesLocked ((clearCoalesceIndexLocked req i (s2\<lparr>s_processedEnvs := m\<rparr>))
      \<lparr>s_deadLetters := d, s_envelopeAttempts := e, s_envelopeNextAttempt := f\<rparr>)\<lparr>s_processingEnvs := g\<rparr>))" for m d e f g
  proof -
    have "same_core s2 ((clearCoalesceIndexLocked req i (s2\<lparr>s_processedEnvs := m\<rparr>))\<lparr>s_deadLetters := d, s_envelopeAttempts := e, s_envelopeNextAttempt := f\<rparr>)"
      using cl [of m] by (simp add: same_core_def)
    from same_core_trans [OF same_core_trans [OF same_core_trans [OF this same_core_prune] same_core_tables(5)] same_core_save]
    show ?thesis using R_trans [OF s2 R_core] by blast
  qed
  have retry: "R s (saveLocked (?s1\<lparr>s_envelopeNextAttempt := m, s_processingEnvs := p\<rparr>))" for m p
    using R_trans [OF s1 R_core [OF same_core_trans [OF same_core_trans [OF same_core_tables(7) same_core_tables(5)] same_core_save]]] .
  show ?thesis
    using actions dead retry
    by (cases parsed) (simp_all add: env_finish_def Some Let_def R_core s2_def [symmetric])
qed

lemma R_processEnvelope: "R s (fst (processEnvelope now adapters i s))"
  using R_env_begin [of s now i] R_trans [OF _ R_env_finish]
  by (auto simp: processEnvelope_def split: prod.splits option.splits)

end

interpretation ingest_op: store_operation "\<lambda>(now, req) s. fst (IngestEnvelope now req s)"
  by (rule store_operation_advances) (simp add: adv.R_core same_core_IngestEnvelope split: prod.splits)

interpretation envelope_op: store_operation "\<lambda>(now, adapters, i) s. fst (processEnvelope now adapters i s)"
  by (rule store_operation_advances) (simp add: adv.R_processEnvelope split: prod.splits)

end
