(* ===== verification/Deliveries.thy ===== *)
theory Deliveries
  imports IngestCorrect
begin

text \<open>
  Deliveries: what a repeated delivery does, which envelopes retention drops, and the loss of a coalesced delivery when the
  envelope it was coalesced into is taken back.
\<close>

section \<open>Repeated deliveries\<close>

lemma save_tables [simp]:
  "s_envelopesByID (saveLocked s) = s_envelopesByID s" "s_deliveryIndex (saveLocked s) = s_deliveryIndex s"
  "s_coalesceIndex (saveLocked s) = s_coalesceIndex s" "s_processedEnvs (saveLocked s) = s_processedEnvs s"
  "s_processingEnvs (saveLocked s) = s_processingEnvs s" "s_envelopeQueue (saveLocked s) = s_envelopeQueue s"
  "s_queuedEnvelopes (saveLocked s) = s_queuedEnvelopes s" "s_closed (saveLocked s) = s_closed s"
  "s_deadLetters (saveLocked s) = s_deadLetters s" "s_cfg (saveLocked s) = s_cfg s"
  by (simp_all add: saveLocked_def)

lemma adjust_tables [simp]:
  "s_envelopesByID (adjustIngressCountsLocked w p d s) = s_envelopesByID s" "s_deliveryIndex (adjustIngressCountsLocked w p d s) = s_deliveryIndex s"
  "s_coalesceIndex (adjustIngressCountsLocked w p d s) = s_coalesceIndex s" "s_processedEnvs (adjustIngressCountsLocked w p d s) = s_processedEnvs s"
  "s_processingEnvs (adjustIngressCountsLocked w p d s) = s_processingEnvs s" "s_envelopeQueue (adjustIngressCountsLocked w p d s) = s_envelopeQueue s"
  "s_queuedEnvelopes (adjustIngressCountsLocked w p d s) = s_queuedEnvelopes s" "s_closed (adjustIngressCountsLocked w p d s) = s_closed s"
  "s_deadLetters (adjustIngressCountsLocked w p d s) = s_deadLetters s" "s_cfg (adjustIngressCountsLocked w p d s) = s_cfg s"
  by (simp_all add: adjustIngressCountsLocked_def Let_def)

lemma store_envelope_tables [simp]:
  "s_envelopesByID (store_envelope req s) = mput (env_EnvelopeID req) req (s_envelopesByID s)"
  "s_deliveryIndex (store_envelope req s) = mput (envelope_key req) (env_EnvelopeID req) (s_deliveryIndex s)"
  "s_envelopeQueue (store_envelope req s) = s_envelopeQueue s" "s_queuedEnvelopes (store_envelope req s) = s_queuedEnvelopes s"
  "s_closed (store_envelope req s) = s_closed s" "s_processingEnvs (store_envelope req s) = s_processingEnvs s"
  "s_processedEnvs (store_envelope req s) = mput (env_EnvelopeID req) False (s_processedEnvs s)" "s_cfg (store_envelope req s) = s_cfg s"
  "s_coalesceIndex (store_envelope req s) = (if coalesceObjectKey req \<noteq> '''' then mput (coalesceObjectKey req) (env_EnvelopeID req) (s_coalesceIndex s) else s_coalesceIndex s)"
  by (simp_all add: store_envelope_def Let_def)

lemma accept_indexed:
  "ingest_accept req s = (s', Some r) \<Longrightarrow> map_of (s_deliveryIndex s') (envelope_key req) = Some (qd_ID r)"
  "ingest_accept req s = (s', None) \<Longrightarrow> map_of (s_deliveryIndex s') (envelope_key req) = Some (env_EnvelopeID req)"
  by (auto simp: ingest_accept_def Let_def queued_def AList.update_conv' split: option.splits if_splits)

lemma tryEnqueue_tables:
  "s_deliveryIndex (fst (tryEnqueueEnvelope i s)) = s_deliveryIndex s" "s_envelopesByID (fst (tryEnqueueEnvelope i s)) = s_envelopesByID s"
  by (auto simp: tryEnqueueEnvelope_def split: prod.splits bool.splits)

lemma Ingest_indexed:
  assumes "IngestEnvelope now req s = (s', Inr r)"
  shows "map_of (s_deliveryIndex s') (envelope_key (normalize_envelope now req)) = Some (qd_ID r)"
proof -
  let ?req = "normalize_envelope now req"
  obtain s1 response where a: "ingest_accept ?req s = (s1, response)" by (metis prod.exhaust)
  show ?thesis
  proof (cases response)
    case None
    then have "ingest_enqueue ?req s1 = (s', Inr r)" using assms a by (simp add: IngestEnvelope_def Let_def split: if_splits)
    then have "s' = fst (tryEnqueueEnvelope (env_EnvelopeID ?req) s1)" "qd_ID r = env_EnvelopeID ?req"
      by (auto simp: ingest_enqueue_def Let_def queued_def split: prod.splits bool.splits)
    then show ?thesis using accept_indexed(2) a None tryEnqueue_tables(1) by simp
  next
    case (Some r')
    then show ?thesis using accept_indexed(1) a assms by (auto simp: IngestEnvelope_def Let_def split: if_splits)
  qed
qed

lemma Ingest_duplicate:
  assumes "env_WorkspaceID (normalize_envelope now req) \<noteq> ''''" "env_Provider (normalize_envelope now req) \<noteq> ''''"
    and "map_of (s_deliveryIndex s) (envelope_key (normalize_envelope now req)) = Some i"
  shows "IngestEnvelope now req s =
    (saveLocked (adjustIngressCountsLocked (env_WorkspaceID (normalize_envelope now req)) (env_Provider (normalize_envelope now req)) (no_delta\<lparr>id_deduped := 1\<rparr>) s),
     Inr (queued i (env_CorrelationID (normalize_envelope now req))))"
  using assms by (simp add: IngestEnvelope_def ingest_accept_def Let_def)

text \<open>A delivery is not accepted twice in a row.  When an envelope with a workspace, provider and delivery id was answered as queued,
  the request with the same three that comes next is answered with the same envelope id, stores no envelope, enqueues nothing, and leaves
  every workspace and every index as it was.\<close>

theorem delivery_idempotent:
  assumes "IngestEnvelope now req s = (s1, Inr r)"
    and "env_WorkspaceID (normalize_envelope now' req') = env_WorkspaceID (normalize_envelope now req)"
    and "env_Provider (normalize_envelope now' req') = env_Provider (normalize_envelope now req)"
    and "env_DeliveryID (normalize_envelope now' req') = env_DeliveryID (normalize_envelope now req)"
  shows "\<exists>s2 r'. IngestEnvelope now' req' s1 = (s2, Inr r') \<and> qd_ID r' = qd_ID r \<and> s_envelopesByID s2 = s_envelopesByID s1
    \<and> s_deliveryIndex s2 = s_deliveryIndex s1 \<and> s_coalesceIndex s2 = s_coalesceIndex s1 \<and> s_envelopeQueue s2 = s_envelopeQueue s1
    \<and> s_processedEnvs s2 = s_processedEnvs s1 \<and> s_workspaces s2 = s_workspaces s1"
proof -
  have ids: "env_WorkspaceID (normalize_envelope now req) \<noteq> ''''" "env_Provider (normalize_envelope now req) \<noteq> ''''"
    using assms(1) by (auto simp: IngestEnvelope_def Let_def split: if_splits)
  have "map_of (s_deliveryIndex s1) (envelope_key (normalize_envelope now' req')) = Some (qd_ID r)"
    using Ingest_indexed [OF assms(1)] assms(2-4) by (simp add: envelope_key_def)
  from Ingest_duplicate [OF _ _ this] ids assms(2,3) show ?thesis
    by (simp add: queued_def store_simps) (simp add: adjustIngressCountsLocked_def Let_def)
qed

definition sample_envelope :: WebhookEnvelopeRequest where
  "sample_envelope = \<lparr>env_EnvelopeID = ''e1'', env_WorkspaceID = ''w'', env_Provider = ''github'', env_DeliveryID = ''d1'',
     env_ReceivedAt = ''2024-01-02T03:04:05Z'', env_Headers = [], env_Payload = [(''objectId'', JString ''7'')], env_CorrelationID = ''c''\<rparr>"

lemma normalize_sample: "normalize_envelope now sample_envelope = sample_envelope"
proof -
  have "TrimSpace ''w'' = ''w''" "normalizeProvider ''github'' = ''github''" "TrimSpace ''d1'' = ''d1''" by code_simp+
  then show ?thesis by (simp add: normalize_envelope_def sample_envelope_def)
qed

lemma NewStore_tables [simp]:
  "s_deliveryIndex NewStore = []" "s_coalesceIndex NewStore = []" "s_envelopesByID NewStore = []" "s_queuedEnvelopes NewStore = []"
  "s_closed NewStore = False" "s_processedEnvs NewStore = []" "s_processingEnvs NewStore = []"
  by (simp_all add: NewStore_def new_store_def)

lemma sample_ingest: "\<exists>s1 r. IngestEnvelope 1 sample_envelope NewStore = (s1, Inr r)"
proof -
  have "\<exists>q. env_TryEnqueue ''e1'' (s_envelopeQueue NewStore) = (q, True)"
    by (simp add: NewStore_def new_store_def env_TryEnqueue_def chan_try_send_def NewInMemoryEnvelopeQueue_def queue_capacity_def
        default_options_def positive_or_def)
  then obtain q where q: "env_TryEnqueue ''e1'' (s_envelopeQueue NewStore) = (q, True)" by blast
  have acc: "ingest_accept sample_envelope NewStore = (store_envelope sample_envelope NewStore, None)"
    by (simp add: ingest_accept_def Let_def)
  have "env_EnvelopeID sample_envelope = ''e1''" "env_WorkspaceID sample_envelope \<noteq> ''''" "env_Provider sample_envelope \<noteq> ''''"
    by (simp_all add: sample_envelope_def)
  then show ?thesis
    by (simp add: IngestEnvelope_def normalize_sample acc ingest_enqueue_def tryEnqueueEnvelope_def q Let_def)
qed

theorem delivery_idempotent_witness:
  "\<exists>s1 r s2 r'. IngestEnvelope 1 sample_envelope NewStore = (s1, Inr r) \<and> IngestEnvelope 2 sample_envelope s1 = (s2, Inr r')
    \<and> qd_ID r' = qd_ID r \<and> s_envelopesByID s2 = s_envelopesByID s1
    \<and> s_deliveryIndex s2 = s_deliveryIndex s1 \<and> s_coalesceIndex s2 = s_coalesceIndex s1 \<and> s_envelopeQueue s2 = s_envelopeQueue s1
    \<and> s_processedEnvs s2 = s_processedEnvs s1 \<and> s_workspaces s2 = s_workspaces s1"
proof -
  obtain s1 r where run: "IngestEnvelope 1 sample_envelope NewStore = (s1, Inr r)" using sample_ingest by blast
  show ?thesis using run delivery_idempotent [OF run, of 2 sample_envelope] by (simp add: normalize_sample)
qed

section \<open>Retention\<close>

definition droppable :: "Store \<Rightarrow> string \<Rightarrow> bool" where
  "droppable s i \<longleftrightarrow> mget_or False (s_processedEnvs s) i \<and> map_of (s_deadLetters s) i = None"

definition received :: "WebhookEnvelopeRequest \<Rightarrow> bool \<times> instant" where
  "received req = (let ts = (case ParseRFC3339Nano (env_ReceivedAt req) of None \<Rightarrow> zero_time | Some t \<Rightarrow> t) in (ts \<noteq> zero_time, ts))"

lemma prune_order_alt:
  "prune_order s = map snd (sort (map (\<lambda>(i, req). (received req, i)) (filter (\<lambda>(i, req). droppable s i) (s_envelopesByID s))))"
  by (simp add: prune_order_def received_def droppable_def Let_def)

lemma drop_tables:
  "map_of (s_envelopesByID (drop_envelope i s)) j = (if j = i then None else map_of (s_envelopesByID s) j)"
  "s_cfg (drop_envelope i s) = s_cfg s"
  by (auto simp: drop_envelope_def clearCoalesceIndexLocked_def Let_def AList.delete_conv' split: option.splits)

lemma fold_drop_tables:
  "map_of (s_envelopesByID (fold drop_envelope is s)) j = (if j \<in> set is then None else map_of (s_envelopesByID s) j)"
  "s_cfg (fold drop_envelope is s) = s_cfg s"
  by (induction "is" arbitrary: s) (simp_all add: drop_tables)

lemma prune_loop:
  "\<exists>n \<le> length is. fold (\<lambda>i s. if int (length (s_envelopesByID s)) \<le> cfg_maxStoredEnvelopes (s_cfg s) then s else drop_envelope i s) is s
     = fold drop_envelope (take n is) s
   \<and> (n = length is \<or> int (length (s_envelopesByID (fold drop_envelope (take n is) s))) \<le> cfg_maxStoredEnvelopes (s_cfg s))"
proof (induction "is" arbitrary: s)
  case (Cons i "is")
  let ?f = "\<lambda>i s. if int (length (s_envelopesByID s)) \<le> cfg_maxStoredEnvelopes (s_cfg s) then s else drop_envelope i s"
  show ?case
  proof (cases "int (length (s_envelopesByID s)) \<le> cfg_maxStoredEnvelopes (s_cfg s)")
    case True
    then have "fold ?f (i # is) s = s" by (induction "is") auto
    then show ?thesis using True by (intro exI [of _ 0]) simp
  next
    case False
    obtain n where "n \<le> length is" "fold ?f is (drop_envelope i s) = fold drop_envelope (take n is) (drop_envelope i s)"
      "n = length is \<or> int (length (s_envelopesByID (fold drop_envelope (take n is) (drop_envelope i s)))) \<le> cfg_maxStoredEnvelopes (s_cfg s)"
      using Cons.IH [of "drop_envelope i s"] by (auto simp: drop_tables)
    then show ?thesis using False by (intro exI [of _ "Suc n"]) simp
  qed
qed simp

lemma mem_take_sorted:
  "sorted xs \<Longrightarrow> x \<in> set (take n xs) \<Longrightarrow> y \<in> set xs \<Longrightarrow> y \<notin> set (take n xs) \<Longrightarrow> x \<le> y"
  by (metis Un_iff append_take_drop_id set_append sorted_append)

text \<open>C34. Retention keeps what still matters.  After pruning, the envelopes are at most \<open>maxStoredEnvelopes\<close> or all that are left
  are unprocessed or dead-lettered; an unprocessed or dead-lettered envelope is never dropped; and what is dropped was received
  no later than every droppable envelope that is kept.\<close>

theorem retention_exact:
  assumes "0 < cfg_maxStoredEnvelopes (s_cfg s)" and "wf_map (s_envelopesByID s)" and "s' = pruneProcessedEnvelopesLocked s"
  shows "(int (length (s_envelopesByID s')) \<le> cfg_maxStoredEnvelopes (s_cfg s) \<or> (\<forall>i. droppable s i \<longrightarrow> map_of (s_envelopesByID s') i = None))
    \<and> (\<forall>i. \<not> droppable s i \<longrightarrow> map_of (s_envelopesByID s') i = map_of (s_envelopesByID s) i)
    \<and> (\<forall>i j req req'. map_of (s_envelopesByID s) i = Some req \<and> map_of (s_envelopesByID s') i = None
          \<and> map_of (s_envelopesByID s') j = Some req' \<and> droppable s j \<longrightarrow> received req \<le> received req')"
proof (cases "int (length (s_envelopesByID s)) \<le> cfg_maxStoredEnvelopes (s_cfg s)")
  case True
  then have "s' = s" using assms(3) by (simp add: pruneProcessedEnvelopesLocked_def)
  then show ?thesis using True by auto
next
  case False
  let ?es = "sort (map (\<lambda>(i, req). (received req, i)) (filter (\<lambda>(i, req). droppable s i) (s_envelopesByID s)))"
  have order: "prune_order s = map snd ?es" by (rule prune_order_alt)
  obtain n where n: "s' = fold drop_envelope (take n (prune_order s)) s"
    "n = length (prune_order s) \<or> int (length (s_envelopesByID s')) \<le> cfg_maxStoredEnvelopes (s_cfg s)"
    using prune_loop [of "prune_order s" s] assms(1,3) False by (auto simp: pruneProcessedEnvelopesLocked_def)
  have envs: "map_of (s_envelopesByID s') i = (if i \<in> set (take n (prune_order s)) then None else map_of (s_envelopesByID s) i)" for i
    using n(1) fold_drop_tables(1) by simp
  have mem: "i \<in> set (prune_order s) \<longleftrightarrow> droppable s i \<and> map_of (s_envelopesByID s) i \<noteq> None" for i
    unfolding order by (force simp: map_of_mem [OF assms(2), symmetric] image_iff)
  have entry: "(received req, i) \<in> set (take n ?es)" if "map_of (s_envelopesByID s) i = Some req" "i \<in> set (take n (prune_order s))" for i req
  proof -
    have "i \<in> snd ` set (take n ?es)" using that(2) unfolding order by (simp add: take_map)
    then obtain r where r: "(r, i) \<in> set (take n ?es)" by auto
    then have "(r, i) \<in> set ?es" by (rule in_set_takeD)
    then have "r = received req" using that(1) by (auto simp: map_of_mem [OF assms(2)])
    then show ?thesis using r by simp
  qed
  have "received req \<le> received req'"
    if "map_of (s_envelopesByID s) i = Some req" "map_of (s_envelopesByID s') i = None"
      "map_of (s_envelopesByID s') j = Some req'" "droppable s j" for i j req req'
  proof -
    have j: "j \<notin> set (take n (prune_order s))" "map_of (s_envelopesByID s) j = Some req'" using that(3) envs by (auto split: if_splits)
    have "(received req, i) \<in> set (take n ?es)" using that(1,2) envs entry by (auto split: if_splits)
    moreover have "(received req', j) \<in> set ?es" using j(2) that(4) by (force simp: map_of_mem [OF assms(2)] image_iff)
    moreover have "(received req', j) \<notin> set (take n ?es)" using j(1) unfolding order take_map by force
    ultimately have "(received req, i) \<le> (received req', j)" by (intro mem_take_sorted [of ?es]) simp_all
    then show ?thesis by (metis less_eq_prod_simp order_less_imp_le)
  qed
  moreover have "int (length (s_envelopesByID s')) \<le> cfg_maxStoredEnvelopes (s_cfg s) \<or> (\<forall>i. droppable s i \<longrightarrow> map_of (s_envelopesByID s') i = None)"
    using n(2) envs mem by auto
  moreover have "\<not> droppable s i \<Longrightarrow> map_of (s_envelopesByID s') i = map_of (s_envelopesByID s) i" for i
    using envs mem in_set_takeD by (metis (full_types))
  ultimately show ?thesis by blast
qed

definition full_store :: Store where
  "full_store = NewStore\<lparr>s_cfg := (s_cfg NewStore)\<lparr>cfg_maxStoredEnvelopes := 1\<rparr>,
     s_envelopesByID := [(''e1'', sample_envelope), (''e2'', sample_envelope)], s_processedEnvs := [(''e1'', True), (''e2'', False)]\<rparr>"

theorem retention_exact_witness:
  "(int (length (s_envelopesByID (pruneProcessedEnvelopesLocked full_store))) \<le> 1
      \<or> map_of (s_envelopesByID (pruneProcessedEnvelopesLocked full_store)) ''e1'' = None)
    \<and> map_of (s_envelopesByID (pruneProcessedEnvelopesLocked full_store)) ''e2'' = Some sample_envelope"
proof -
  have cfg: "cfg_maxStoredEnvelopes (s_cfg full_store) = 1" and wf: "wf_map (s_envelopesByID full_store)"
    by (simp_all add: full_store_def wf_map_def)
  have drop: "droppable full_store ''e1''" "\<not> droppable full_store ''e2''"
    by (simp_all add: droppable_def full_store_def mget_or_def NewStore_def new_store_def)
  have "map_of (s_envelopesByID full_store) ''e2'' = Some sample_envelope" by (simp add: full_store_def)
  then show ?thesis
    using retention_exact [of full_store "pruneProcessedEnvelopesLocked full_store", OF _ wf refl] drop unfolding cfg by auto
qed

section \<open>A coalesced delivery can be lost\<close>

lemma tryEnqueue_same:
  assumes "s_envelopeQueue s' = s_envelopeQueue s" "s_queuedEnvelopes s' = s_queuedEnvelopes s" "s_closed s' = s_closed s"
  shows "snd (tryEnqueueEnvelope i s') = snd (tryEnqueueEnvelope i s)"
  using assms by (auto simp: tryEnqueueEnvelope_def split: prod.splits bool.splits)

lemma tryEnqueue_fails: "\<not> snd (tryEnqueueEnvelope i s) \<Longrightarrow> tryEnqueueEnvelope i s = (s, False)"
  by (auto simp: tryEnqueueEnvelope_def split: prod.splits bool.splits if_splits)

lemma ingest_enqueue_full:
  assumes "\<not> snd (tryEnqueueEnvelope (env_EnvelopeID req) s)"
  shows "snd (ingest_enqueue req s) = Inl ErrQueueFull"
    "s_envelopesByID (fst (ingest_enqueue req s)) = mdel (env_EnvelopeID req) (s_envelopesByID s)"
    "s_deliveryIndex (fst (ingest_enqueue req s)) = mdel (envelope_key req) (s_deliveryIndex s)"
  by (simp_all add: ingest_enqueue_def tryEnqueue_fails [OF assms] Let_def)

text \<open>A delivery that was answered as queued can be lost for good.  Request \<open>a\<close> is stored and has not reached the queue yet; \<open>b\<close>,
  for the same object, is coalesced into its envelope and answered as queued; then the queue turns out to be full and \<open>a\<close> is
  taken back: no envelope is left for \<open>b\<close>, its delivery stays indexed, and sending it again is answered as a duplicate and
  stores nothing.\<close>

theorem coalesced_delivery_lost:
  assumes "normalize_envelope now a = a" and "normalize_envelope now b = b"
    and "env_WorkspaceID a = env_WorkspaceID b" "env_Provider a = env_Provider b" "env_WorkspaceID b \<noteq> ''''" "env_Provider b \<noteq> ''''"
    and "envelope_key a \<noteq> envelope_key b" and "coalesceObjectKey b = coalesceObjectKey a" and "coalesceObjectKey a \<noteq> ''''"
    and "withinCoalesceWindow (env_ReceivedAt a) (env_ReceivedAt b) (cfg_coalesceWindow (s_cfg s))"
    and "map_of (s_deliveryIndex s) (envelope_key a) = None" "map_of (s_deliveryIndex s) (envelope_key b) = None"
    and "map_of (s_coalesceIndex s) (coalesceObjectKey a) = None" and "\<not> mget_or False (s_processingEnvs s) (env_EnvelopeID a)"
    and "\<not> snd (tryEnqueueEnvelope (env_EnvelopeID a) s)"
    and "s1 = fst (ingest_accept a s)" and "s2 = fst (IngestEnvelope now b s1)" and "s3 = fst (ingest_enqueue a s2)"
  shows "snd (IngestEnvelope now b s1) = Inr (queued (env_EnvelopeID a) (env_CorrelationID b))
    \<and> map_of (s_envelopesByID s3) (env_EnvelopeID a) = None
    \<and> (\<exists>s4. IngestEnvelope now b s3 = (s4, Inr (queued (env_EnvelopeID a) (env_CorrelationID b))) \<and> s_envelopesByID s4 = s_envelopesByID s3)"
proof -
  have s1: "s1 = store_envelope a s" using assms(9,11,13,16) by (simp add: ingest_accept_def Let_def)
  have at1: "map_of (s_deliveryIndex s1) (envelope_key b) = None" "map_of (s_coalesceIndex s1) (coalesceObjectKey b) = Some (env_EnvelopeID a)"
    "\<not> mget_or False (s_processedEnvs s1) (env_EnvelopeID a)" "\<not> mget_or False (s_processingEnvs s1) (env_EnvelopeID a)"
    "map_of (s_envelopesByID s1) (env_EnvelopeID a) = Some a" "s_cfg s1 = s_cfg s" "coalesceObjectKey b \<noteq> ''''"
    unfolding s1 store_envelope_tables using assms(7,8,9,12,14) by (simp_all add: AList.update_conv' mget_or_mput)
  have acc: "ingest_accept b s1 = (saveLocked (adjustIngressCountsLocked (env_WorkspaceID b) (env_Provider b) (no_delta\<lparr>id_coalesced := 1\<rparr>)
      (s1\<lparr>s_envelopesByID := mput (env_EnvelopeID a) (coalesce_into a b) (s_envelopesByID s1),
           s_deliveryIndex := mput (envelope_key b) (env_EnvelopeID a) (s_deliveryIndex s1)\<rparr>)), Some (queued (env_EnvelopeID a) (env_CorrelationID b)))"
    unfolding ingest_accept_def Let_def using at1 assms(10) by simp
  then have b: "IngestEnvelope now b s1 = (s2, Inr (queued (env_EnvelopeID a) (env_CorrelationID b)))"
    unfolding assms(17) using assms(2,5,6) by (simp add: IngestEnvelope_def Let_def)
  have "s2 = fst (ingest_accept b s1)" using assms(2,5,6,17) acc by (simp add: IngestEnvelope_def Let_def)
  then have s2: "s_deliveryIndex s2 = mput (envelope_key b) (env_EnvelopeID a) (s_deliveryIndex s1)"
      "s_envelopeQueue s2 = s_envelopeQueue s" "s_queuedEnvelopes s2 = s_queuedEnvelopes s" "s_closed s2 = s_closed s"
    unfolding acc fst_conv by (simp_all add: s1)
  have fail: "\<not> snd (tryEnqueueEnvelope (env_EnvelopeID a) s2)" using tryEnqueue_same [OF s2(2-4)] assms(15) by simp
  have gone: "map_of (s_envelopesByID s3) (env_EnvelopeID a) = None"
    unfolding assms(18) ingest_enqueue_full(2) [OF fail] by (simp add: AList.delete_conv')
  have "map_of (s_deliveryIndex s3) (envelope_key b) = Some (env_EnvelopeID a)"
    unfolding assms(18) ingest_enqueue_full(3) [OF fail] using assms(7) by (simp add: AList.delete_conv' s2(1) AList.update_conv')
  then have "IngestEnvelope now b s3 = (saveLocked (adjustIngressCountsLocked (env_WorkspaceID b) (env_Provider b) (no_delta\<lparr>id_deduped := 1\<rparr>) s3),
      Inr (queued (env_EnvelopeID a) (env_CorrelationID b)))"
    using Ingest_duplicate [of now b s3] assms(2,5,6) by simp
  then show ?thesis using b gone by simp
qed

text \<open>Two deliveries for one object, and a store whose queue takes nothing.\<close>

definition second_envelope :: WebhookEnvelopeRequest where
  "second_envelope = sample_envelope\<lparr>env_EnvelopeID := ''e2'', env_DeliveryID := ''d2''\<rparr>"

definition stuck_store :: Store where
  "stuck_store = NewStore\<lparr>s_envelopeQueue := \<lparr>q_items = [''x''], q_cap = 1, q_waiting = []\<rparr>\<rparr>"

theorem coalesced_delivery_lost_witness:
  "let s1 = fst (ingest_accept sample_envelope stuck_store); s2 = fst (IngestEnvelope 1 second_envelope s1);
       s3 = fst (ingest_enqueue sample_envelope s2)
   in snd (IngestEnvelope 1 second_envelope s1) = Inr (queued ''e1'' ''c'') \<and> map_of (s_envelopesByID s3) ''e1'' = None
    \<and> (\<exists>s4. IngestEnvelope 1 second_envelope s3 = (s4, Inr (queued ''e1'' ''c'')) \<and> s_envelopesByID s4 = s_envelopesByID s3)"
proof -
  have ids: "env_EnvelopeID sample_envelope = ''e1''" "env_CorrelationID second_envelope = ''c''"
    by (simp_all add: sample_envelope_def second_envelope_def)
  have norm: "normalize_envelope 1 second_envelope = second_envelope" "envelope_key sample_envelope \<noteq> envelope_key second_envelope"
    "coalesceObjectKey second_envelope = coalesceObjectKey sample_envelope" "coalesceObjectKey sample_envelope \<noteq> ''''"
    "withinCoalesceWindow (env_ReceivedAt sample_envelope) (env_ReceivedAt second_envelope) (3 * Second)"
    by code_simp+
  have cfg: "cfg_coalesceWindow (s_cfg stuck_store) = 3 * Second"
    by (simp add: stuck_store_def NewStore_def new_store_def store_config_def default_options_def positive_or_def Second_def)
  have full: "\<not> snd (tryEnqueueEnvelope ''e1'' stuck_store)"
    by (simp add: stuck_store_def tryEnqueueEnvelope_def env_TryEnqueue_def chan_try_send_def)
  show ?thesis
    unfolding Let_def ids [symmetric]
    using norm cfg full
    by (intro coalesced_delivery_lost [where now = 1 and a = sample_envelope and b = second_envelope and s = stuck_store])
      (simp_all add: normalize_sample ids, simp_all add: stuck_store_def second_envelope_def sample_envelope_def mget_or_def)
qed

end
