(* ===== verification/Convergence.thy ===== *)
theory Convergence
  imports Deliveries
begin

text \<open>
  Provider state: an action on a provider object never touches another object's file, and the file of an object converges to
  the newest report whatever the order in which the reports are applied.
\<close>

section \<open>What the steps change\<close>

lemma emit_ws [store_simps]:
  "ws_Files (ws_of (emit w ev s) w') = ws_Files (ws_of s w')" "ws_ProviderIndex (ws_of (emit w ev s) w') = ws_ProviderIndex (ws_of s w')"
  "ws_ProviderWatermarks (ws_of (emit w ev s) w') = ws_ProviderWatermarks (ws_of s w')"
  "s_revCounter (emit w ev s) = s_revCounter s"
  by (auto simp: emit_def nextEventIDLocked_def Let_def store_simps split: option.splits)

lemma index_ws [store_simps]:
  "ws_of (del_index w k s) w' = (if w' = w then (ws_of s w)\<lparr>ws_ProviderIndex := mdel k (ws_ProviderIndex (ws_of s w))\<rparr> else ws_of s w')"
  "ws_of (set_index w k p s) w' = (if w' = w then (ws_of s w)\<lparr>ws_ProviderIndex := mput k p (ws_ProviderIndex (ws_of s w))\<rparr> else ws_of s w')"
  by (simp_all add: del_index_def set_index_def Let_def store_simps)

lemma provider_remove_ws [store_simps]:
  "map_of (ws_Files (ws_of (provider_remove ts w p prov corr s) w)) q = (if q = p then None else map_of (ws_Files (ws_of s w)) q)"
  "ws_ProviderIndex (ws_of (provider_remove ts w p prov corr s) w) = ws_ProviderIndex (ws_of s w)"
  "ws_ProviderWatermarks (ws_of (provider_remove ts w p prov corr s) w) = ws_ProviderWatermarks (ws_of s w)"
  by (simp_all add: provider_remove_def Let_def nextRevisionLocked_def store_simps AList.delete_conv')

lemma provider_put_ws [store_simps]:
  "map_of (ws_Files (ws_of (provider_put ts w p prov obj a corr s) w)) q =
     (if q = p then Some (upsert_file ts p (rev_id (Suc (s_revCounter s))) prov obj a (map_of (ws_Files (ws_of s w)) p))
      else map_of (ws_Files (ws_of s w)) q)"
  "ws_ProviderIndex (ws_of (provider_put ts w p prov obj a corr s) w) =
     (if obj \<noteq> '''' then mput (providerObjectKey prov obj) p (ws_ProviderIndex (ws_of s w)) else ws_ProviderIndex (ws_of s w))"
  "ws_ProviderWatermarks (ws_of (provider_put ts w p prov obj a corr s) w) = ws_ProviderWatermarks (ws_of s w)"
  by (auto simp: provider_put_def Let_def nextRevisionLocked_def store_simps AList.update_conv')

lemma relocate_ws:
  "ws_ProviderWatermarks (ws_of (relocate_object ts w p prov obj corr s) w) = ws_ProviderWatermarks (ws_of s w)"
  "map_of (ws_Files (ws_of (relocate_object ts w p prov obj corr s) w)) q =
     (if (\<exists>f. map_of (ws_Files (ws_of s w)) q = Some f \<and> providerObjectMatchesFile prov obj f) \<and> q \<noteq> p
         \<and> map_of (ws_ProviderIndex (ws_of s w)) (providerObjectKey prov obj) = Some q then None
      else map_of (ws_Files (ws_of s w)) q)"
  by (auto simp: relocate_object_def Let_def store_simps split: option.splits)

section \<open>Objects do not touch each other\<close>

definition clean_keys :: "(string, File) gomap \<Rightarrow> bool" where
  "clean_keys files \<longleftrightarrow> (\<forall>p \<in> set (map fst files). normalizePath p = p)"

lemma clean_key: "clean_keys files \<Longrightarrow> map_of files p = Some f \<Longrightarrow> normalizePath p = p"
  by (force simp: clean_keys_def dest: map_of_SomeD)

lemma matches_trim [simp]: "providerObjectMatchesFile prov (TrimSpace obj) f = providerObjectMatchesFile prov obj f"
  by (simp add: providerObjectMatchesFile_def)

lemma resolve_files:
  "ws_Files (fst (resolveProviderObjectPathLocked prov obj ws)) = ws_Files ws"
  "ws_Files (fst (resolveProviderObjectUpsertPathLocked prov obj ws)) = ws_Files ws"
  using ops_rewritten_resolve [of ws prov obj] by (simp_all add: ops_rewritten_def)

lemma resolve_matches:
  assumes "resolveProviderObjectPathLocked prov obj ws = (ws', Some p)" and "clean_keys (ws_Files ws)" and "wf_map (ws_Files ws)"
  shows "\<exists>f. map_of (ws_Files ws) p = Some f \<and> providerObjectMatchesFile prov obj f"
proof -
  have single: "filter (\<lambda>(q, f). providerObjectMatchesFile prov obj f) (ws_Files ws) = [(q, f)] \<Longrightarrow>
      map_of (ws_Files ws) q = Some f \<and> providerObjectMatchesFile prov obj f" for q f
  proof -
    assume single: "filter (\<lambda>(q, f). providerObjectMatchesFile prov obj f) (ws_Files ws) = [(q, f)]"
    have "(q, f) \<in> set (filter (\<lambda>(q, f). providerObjectMatchesFile prov obj f) (ws_Files ws))" unfolding single by simp
    then show "map_of (ws_Files ws) q = Some f \<and> providerObjectMatchesFile prov obj f" using map_of_mem [OF assms(3), of q f] by simp
  qed
  define hit where "hit = (case map_of (ws_ProviderIndex ws) (providerObjectKey prov (TrimSpace obj)) of
      None \<Rightarrow> None
    | Some indexed \<Rightarrow> (case map_of (ws_Files ws) indexed of
        None \<Rightarrow> None
      | Some f \<Rightarrow> if providerObjectMatchesFile prov obj f then Some (normalizePath indexed) else None))"
  have resolve: "(case hit of Some path \<Rightarrow> (ws, Some path) | None \<Rightarrow>
      (case filter (\<lambda>(q, f). providerObjectMatchesFile prov obj f) (ws_Files ws) of
         [(q, f)] \<Rightarrow> (ws\<lparr>ws_ProviderIndex := mput (providerObjectKey prov (TrimSpace obj)) (normalizePath q) (ws_ProviderIndex ws)\<rparr>, Some (normalizePath q))
       | _ \<Rightarrow> (ws, None))) = (ws', Some p)"
    using assms(1) unfolding resolveProviderObjectPathLocked_def Let_def hit_def matches_trim by (simp split: if_split_asm)
  show ?thesis
  proof (cases hit)
    case None
    then obtain q f where "filter (\<lambda>(q, f). providerObjectMatchesFile prov obj f) (ws_Files ws) = [(q, f)]" "p = normalizePath q"
      using resolve by (auto split: list.split_asm prod.split_asm)
    then show ?thesis using single clean_key [OF assms(2)] by auto
  next
    case (Some q)
    then have "hit = Some p" using resolve by simp
    then show ?thesis using clean_key [OF assms(2)] unfolding hit_def by (auto split: option.split_asm if_split_asm)
  qed
qed

lemma upsert_resolve_free:
  assumes "resolveProviderObjectUpsertPathLocked prov obj ws = (ws', Some p)" and "clean_keys (ws_Files ws)" and "wf_map (ws_Files ws)"
  shows "path_free prov obj ws p"
proof -
  obtain ws1 r where r: "resolveProviderObjectPathLocked prov (TrimSpace obj) ws = (ws1, r)" by (metis prod.exhaust)
  have files: "ws_Files ws1 = ws_Files ws" using resolve_files(1) [of prov "TrimSpace obj" ws] r by simp
  have free: "path_free prov obj ws1 = path_free prov obj ws" "path_free prov (TrimSpace obj) ws1 = path_free prov obj ws"
    by (simp_all add: path_free_def files fun_eq_iff split: option.split)
  show ?thesis
  proof (cases r)
    case (Some q)
    then have "p = q" using assms(1) r by (auto simp: resolveProviderObjectUpsertPathLocked_def Let_def split: if_splits)
    then show ?thesis using resolve_matches [of prov "TrimSpace obj" ws ws1 q] r Some assms(2,3) by (auto simp: path_free_def)
  next
    case None
    then show ?thesis
      using assms(1) r by (auto simp: resolveProviderObjectUpsertPathLocked_def Let_def free find_Some_iff split: if_splits)
  qed
qed

lemma put_ws_files: "ws_Files ws = ws_Files (ws_of s w) \<Longrightarrow> ws_Files (ws_of (put_ws w ws s) w) = ws_Files (ws_of s w)"
  by (simp add: store_simps)

lemma reconcile_files [store_simps]: "ws_Files (ws_of (reconcile_event ts w prov corr s) w') = ws_Files (ws_of s w')"
  by (simp add: reconcile_event_def store_simps)

text \<open>The file a delete removes, if any, is the one its action names.\<close>

lemma delete_removes_match:
  assumes "wf_map (ws_Files (ws_of s w))" and "clean_keys (ws_Files (ws_of s w))" and "TrimSpace (aa_ProviderObjectID a) \<noteq> ''''"
    and "map_of (ws_Files (ws_of s w)) p = Some f" and "\<not> providerObjectMatchesFile prov (aa_ProviderObjectID a) f"
  shows "map_of (ws_Files (ws_of (applyProviderDeleteLocked now w prov a corr s) w)) p = Some f"
proof -
  define obj where "obj = TrimSpace (aa_ProviderObjectID a)"
  define path1 where "path1 = normalizePath (aa_Path a)"
  define hit where "hit = (case map_of (ws_Files (ws_of s w)) path1 of None \<Rightarrow> False | Some f \<Rightarrow> providerObjectMatchesFile prov obj f)"
  obtain ws r where r: "resolveProviderObjectPathLocked prov obj (ws_of s w) = (ws, r)" by (metis prod.exhaust)
  define target where "target = (if path1 = ''/'' \<or> \<not> hit then (case r of None \<Rightarrow> ''/'' | Some q \<Rightarrow> q) else path1)"
  define s1 where "s1 = (if path1 = ''/'' \<or> \<not> hit then put_ws w ws s else s)"
  have files: "ws_Files (ws_of s1 w) = ws_Files (ws_of s w)"
    using resolve_files(1) [of prov obj "ws_of s w"] r by (simp add: s1_def store_simps)
  have "providerObjectMatchesFile prov obj f" if "p = target" "target \<noteq> ''/''"
  proof (cases "path1 = ''/'' \<or> \<not> hit")
    case True
    then have "r = Some p" using that by (auto simp: target_def split: option.split_asm)
    then show ?thesis using resolve_matches [of prov obj "ws_of s w" ws p, OF _ assms(2,1)] r assms(4) by auto
  next
    case False
    then show ?thesis using that assms(4) by (simp add: target_def hit_def)
  qed
  then have other: "p \<noteq> target \<or> target = ''/''" using assms(5) by (auto simp: obj_def)
  have "applyProviderDeleteLocked now w prov a corr s =
    (if target = ''/'' then reconcile_event (FormatRFC3339Nano now) w prov corr s1
     else if map_of (ws_Files (ws_of s1 w)) target = None then (if TrimSpace (aa_Path a) = '''' then reconcile_event (FormatRFC3339Nano now) w prov corr s1 else s1)
     else del_index w (providerObjectKey prov obj) (provider_remove (FormatRFC3339Nano now) w target prov corr s1))"
    using assms(3) r unfolding applyProviderDeleteLocked_def Let_def obj_def [symmetric] path1_def [symmetric] hit_def [symmetric]
    by (simp add: target_def s1_def)
  then show ?thesis using other assms(4) by (auto simp: files store_simps)
qed

lemma upsert_pathless_keeps:
  assumes "wf_map (ws_Files (ws_of s w))" and "clean_keys (ws_Files (ws_of s w))" and "TrimSpace (aa_ProviderObjectID a) \<noteq> ''''"
    and "normalizePath (aa_Path a) = ''/''"
    and "map_of (ws_Files (ws_of s w)) p = Some f" and "\<not> providerObjectMatchesFile prov (aa_ProviderObjectID a) f"
  shows "map_of (ws_Files (ws_of (applyProviderUpsertLocked now w prov a corr s) w)) p = Some f"
proof -
  define obj where "obj = TrimSpace (aa_ProviderObjectID a)"
  obtain ws r where r: "resolveProviderObjectUpsertPathLocked prov obj (ws_of s w) = (ws, r)" by (metis prod.exhaust)
  let ?s1 = "put_ws w ws s"
  have files: "ws_Files (ws_of ?s1 w) = ws_Files (ws_of s w)"
    using resolve_files(2) [of prov obj "ws_of s w"] r by (simp add: store_simps)
  then have files': "ws_Files ws = ws_Files (ws_of s w)" by (simp add: store_simps)
  have no: "\<not> providerObjectMatchesFile prov obj f" using assms(6) by (simp add: obj_def)
  have eq: "applyProviderUpsertLocked now w prov a corr s =
    (case r of None \<Rightarrow> reconcile_event (FormatRFC3339Nano now) w prov corr ?s1
     | Some q \<Rightarrow> if q = ''/'' then ?s1 else provider_put (FormatRFC3339Nano now) w q prov obj a corr
         (relocate_object (FormatRFC3339Nano now) w q prov obj corr ?s1))"
    using assms(3,4) r unfolding applyProviderUpsertLocked_def Let_def obj_def [symmetric] by (cases r) simp_all
  show ?thesis
  proof (cases r)
    case None
    then show ?thesis using assms(5) unfolding eq by (simp add: files' store_simps)
  next
    case (Some q)
    have "p \<noteq> q" using upsert_resolve_free [OF _ assms(2,1), of prov obj ws q] r Some assms(5) no by (auto simp: path_free_def)
    then show ?thesis using assms(5) no unfolding eq Some by (simp add: files' store_simps relocate_ws)
  qed
qed

text \<open>C22. A provider object's actions leave other files alone.  A delete that carries an object id, with or without a path, and an
  upsert that carries one and no path neither remove nor change any file that is not that object's, whatever the provider index
  says; provided the workspace's paths are normalised.\<close>

theorem provider_object_isolation:
  assumes "store_inv s" and "clean_keys (ws_Files (ws_of s w))" and "TrimSpace (aa_ProviderObjectID a) \<noteq> ''''"
    and "map_of (ws_Files (ws_of s w)) p = Some f" and "\<not> providerObjectMatchesFile prov (aa_ProviderObjectID a) f"
  shows "map_of (ws_Files (ws_of (applyProviderDeleteLocked now w prov a corr s) w)) p = Some f
    \<and> (normalizePath (aa_Path a) = ''/'' \<longrightarrow> map_of (ws_Files (ws_of (applyProviderUpsertLocked now w prov a corr s) w)) p = Some f)"
proof -
  have "wf_map (ws_Files (ws_of s w))" using assms(1) by (auto simp: store_inv_def ws_inv_def files_ok_def)
  then show ?thesis using delete_removes_match upsert_pathless_keeps assms(2-5) by blast
qed

definition object_delete :: ApplyAction where
  "object_delete = zero_action\<lparr>aa_Type := ActionFileDelete, aa_Path := sample_draft, aa_ProviderObjectID := ''7''\<rparr>"

theorem provider_object_isolation_witness:
  "map_of (ws_Files (ws_of (applyProviderDeleteLocked 9 ''w'' ''n'' object_delete ''c'' draft_store) ''w'')) sample_draft = Some draft_file"
proof -
  have files: "ws_Files (ws_of draft_store ''w'') = [(sample_draft, draft_file)]" by (simp add: draft_store_def store_simps)
  have "normalizePath sample_draft = sample_draft" "TrimSpace ''7'' = ''7''" by code_simp+
  moreover have "\<not> providerObjectMatchesFile ''n'' ''7'' draft_file"
    using calculation(2) by (simp add: providerObjectMatchesFile_def draft_file_def zero_file_def)
  ultimately show ?thesis
    using provider_object_isolation [OF draft_store_inv, of "''w''" object_delete sample_draft draft_file "''n''" 9 "''c''"]
    by (simp add: files clean_keys_def object_delete_def)
qed

section \<open>Convergence\<close>

text \<open>A receive time in UTC with a four-digit year, as the server stamps it.\<close>

definition stamped :: "WebhookEnvelopeRequest \<Rightarrow> instant \<Rightarrow> bool" where
  "stamped req t \<longleftrightarrow> ParseRFC3339Nano (env_ReceivedAt req) = Some t \<and> zone_of (env_ReceivedAt req) = 0 \<and> four_digit_year t"

lemma format_utc: "format_in_zone 0 t = FormatRFC3339Nano t"
  by (simp add: format_in_zone_def FormatRFC3339Nano_def Let_def butlast_append case_prod_beta)

text \<open>A report: an upsert of one object of one provider, at a normalised path.\<close>

definition report :: "string \<Rightarrow> string \<Rightarrow> string \<Rightarrow> instant \<times> WebhookEnvelopeRequest \<times> ApplyAction \<Rightarrow> bool" where
  "report w prov obj r \<longleftrightarrow> (case r of (now, req, a) \<Rightarrow>
     env_WorkspaceID req = w \<and> env_Provider req = prov \<and> (\<exists>t. stamped req t) \<and> aa_Type a = ActionFileUpsert
     \<and> aa_ProviderObjectID a = obj \<and> normalizePath (aa_Path a) = aa_Path a \<and> aa_Path a \<noteq> ''/'' \<and> TrimSpace (aa_Path a) \<noteq> '''')"

definition time_of :: "instant \<times> WebhookEnvelopeRequest \<times> ApplyAction \<Rightarrow> instant" where
  "time_of r = (case r of (now, req, a) \<Rightarrow> the (ParseRFC3339Nano (env_ReceivedAt req)))"

definition apply_report :: "instant \<times> WebhookEnvelopeRequest \<times> ApplyAction \<Rightarrow> Store \<Rightarrow> Store" where
  "apply_report r s = (case r of (now, req, a) \<Rightarrow> apply_action now req a s)"

definition plain_provider :: "string \<Rightarrow> bool" where
  "plain_provider prov \<longleftrightarrow> normalizeProvider prov \<noteq> '''' \<and> normalizeProvider prov \<noteq> ''slack''"

text \<open>Every file of the object is where the index says.\<close>

definition located :: "string \<Rightarrow> string \<Rightarrow> workspaceState \<Rightarrow> bool" where
  "located prov obj ws \<longleftrightarrow> (\<forall>q g. map_of (ws_Files ws) q = Some g \<and> providerObjectMatchesFile prov obj g
     \<longrightarrow> map_of (ws_ProviderIndex ws) (providerObjectKey prov obj) = Some q)"

text \<open>The object has one file, at \<open>p\<close>, which carries its id, and the index points to it.\<close>

definition object_at :: "string \<Rightarrow> string \<Rightarrow> string \<Rightarrow> string \<Rightarrow> workspaceState \<Rightarrow> bool" where
  "object_at prov obj p content ws \<longleftrightarrow> (\<exists>f. map_of (ws_Files ws) p = Some f \<and> providerObjectMatchesFile prov obj f \<and> f_Content f = content)
     \<and> (\<forall>q g. map_of (ws_Files ws) q = Some g \<and> providerObjectMatchesFile prov obj g \<longrightarrow> q = p)
     \<and> map_of (ws_ProviderIndex ws) (providerObjectKey prov obj) = Some p"

lemma object_at_located: "object_at prov obj p c ws \<Longrightarrow> located prov obj ws"
  by (auto simp: object_at_def located_def)

lemma canonical_report:
  assumes "report w prov obj (now, req, a)" and "plain_provider prov"
  shows "canonicalizeProviderActionLocked ws prov a = a"
proof -
  have "canonicalProviderEnvelopePath prov (aa_Path a) = (aa_Path a, True)"
    using assms by (simp add: canonicalProviderEnvelopePath_def Let_def providerRelativePathRoots_def report_def plain_provider_def)
  then show ?thesis
    using assms by (simp add: canonicalizeProviderActionLocked_def canonicalizeExistingProviderAliasPath_def Let_def report_def plain_provider_def)
qed

lemma upsert_places_object:
  assumes "report w prov obj (now, req, a)" and "TrimSpace obj = obj" "obj \<noteq> ''''" "plain_provider prov" and "located prov obj (ws_of s w)"
  shows "object_at prov obj (aa_Path a) (aa_Content a) (ws_of (applyProviderUpsertLocked t w prov a corr s) w)"
    and "ws_ProviderWatermarks (ws_of (applyProviderUpsertLocked t w prov a corr s) w) = ws_ProviderWatermarks (ws_of s w)"
proof -
  let ?p = "aa_Path a" and ?ts = "FormatRFC3339Nano t"
  have eq: "applyProviderUpsertLocked t w prov a corr s =
      provider_put ?ts w ?p prov obj a corr (relocate_object ?ts w ?p prov obj corr s)"
    using assms(1-3) by (simp add: applyProviderUpsertLocked_def Let_def report_def)
  have "providerObjectMatchesFile prov obj (upsert_file ?ts ?p rv prov obj a ex)" for rv ex
    using assms(4) by (simp add: providerObjectMatchesFile_def plain_provider_def)
  moreover have "q = ?p" if "map_of (ws_Files (ws_of (relocate_object ?ts w ?p prov obj corr s) w)) q = Some g"
    "providerObjectMatchesFile prov obj g" for q g
    using that assms(5) by (auto simp: relocate_ws located_def split: if_splits)
  ultimately show "object_at prov obj ?p (aa_Content a) (ws_of (applyProviderUpsertLocked t w prov a corr s) w)"
    unfolding eq object_at_def using assms(3) by (auto simp: store_simps AList.update_conv')
  show "ws_ProviderWatermarks (ws_of (applyProviderUpsertLocked t w prov a corr s) w) = ws_ProviderWatermarks (ws_of s w)"
    unfolding eq by (simp add: store_simps relocate_ws)
qed

definition object_key :: "string \<Rightarrow> string \<Rightarrow> string" where
  "object_key prov obj = ''object:'' @ providerObjectKey prov obj"

lemma report_step:
  assumes rep: "report w prov obj (now, req, a)" and st: "stamped req t" and obj: "TrimSpace obj = obj" "obj \<noteq> ''''" "plain_provider prov"
  shows "(\<exists>t0. map_of (ws_ProviderWatermarks (ws_of s w)) (object_key prov obj) = Some (FormatRFC3339Nano t0) \<and> four_digit_year t0 \<and> t < t0)
      \<Longrightarrow> ws_Files (ws_of (apply_report (now, req, a) s) w) = ws_Files (ws_of s w)
        \<and> ws_ProviderIndex (ws_of (apply_report (now, req, a) s) w) = ws_ProviderIndex (ws_of s w)
        \<and> ws_ProviderWatermarks (ws_of (apply_report (now, req, a) s) w) = ws_ProviderWatermarks (ws_of s w)"
    and "map_of (ws_ProviderWatermarks (ws_of s w)) (object_key prov obj) = None
        \<or> (\<exists>t0. map_of (ws_ProviderWatermarks (ws_of s w)) (object_key prov obj) = Some (FormatRFC3339Nano t0) \<and> four_digit_year t0 \<and> \<not> t < t0)
      \<Longrightarrow> located prov obj (ws_of s w)
      \<Longrightarrow> object_at prov obj (aa_Path a) (aa_Content a) (ws_of (apply_report (now, req, a) s) w)
        \<and> map_of (ws_ProviderWatermarks (ws_of (apply_report (now, req, a) s) w)) (object_key prov obj) = Some (FormatRFC3339Nano t)"
proof -
  have ids: "env_WorkspaceID req = w" "env_Provider req = prov" "aa_ProviderObjectID a = obj" "aa_Type a = ActionFileUpsert"
    using rep by (simp_all add: report_def)
  have key: "providerWatermarkKey prov a = object_key prov obj" "object_key prov obj \<noteq> ''''"
    using obj ids by (simp_all add: providerWatermarkKey_def object_key_def)
  have parse: "ParseRFC3339Nano (env_ReceivedAt req) = Some t" "zone_of (env_ReceivedAt req) = 0" "four_digit_year t"
    using st by (simp_all add: stamped_def)
  note canon = canonical_report [OF rep obj(3)]
  { assume "\<exists>t0. map_of (ws_ProviderWatermarks (ws_of s w)) (object_key prov obj) = Some (FormatRFC3339Nano t0) \<and> four_digit_year t0 \<and> t < t0"
    then have "isStaleProviderActionLocked w prov a (env_ReceivedAt req) s = (s, True)"
      using parse by (auto simp: isStaleProviderActionLocked_def Let_def key ParseRFC3339Nano_Format)
    then have "apply_report (now, req, a) s = adjustIngressCountsLocked w prov (no_delta\<lparr>id_stale := 1\<rparr>)
        (emit w (provider_event ''sync.stale'' (normalizePath (aa_Path a)) '''' prov (env_CorrelationID req) (FormatRFC3339Nano now)) s)"
      by (simp add: apply_report_def apply_action_def Let_def ids canon)
    then show "ws_Files (ws_of (apply_report (now, req, a) s) w) = ws_Files (ws_of s w)
        \<and> ws_ProviderIndex (ws_of (apply_report (now, req, a) s) w) = ws_ProviderIndex (ws_of s w)
        \<and> ws_ProviderWatermarks (ws_of (apply_report (now, req, a) s) w) = ws_ProviderWatermarks (ws_of s w)"
      using same_core_ws [OF same_core_ingest(1)] by (simp add: store_simps) }
  { assume fresh: "map_of (ws_ProviderWatermarks (ws_of s w)) (object_key prov obj) = None
        \<or> (\<exists>t0. map_of (ws_ProviderWatermarks (ws_of s w)) (object_key prov obj) = Some (FormatRFC3339Nano t0) \<and> four_digit_year t0 \<and> \<not> t < t0)"
    and loc: "located prov obj (ws_of s w)"
    let ?s1 = "put_ws w ((ws_of s w)\<lparr>ws_ProviderWatermarks := mput (object_key prov obj) (FormatRFC3339Nano t) (ws_ProviderWatermarks (ws_of s w))\<rparr>) s"
    have "isStaleProviderActionLocked w prov a (env_ReceivedAt req) s = (?s1, False)"
      using fresh parse by (auto simp: isStaleProviderActionLocked_def Let_def key ParseRFC3339Nano_Format format_utc)
    then have run: "apply_report (now, req, a) s = applyProviderUpsertLocked now w prov a (env_CorrelationID req) ?s1"
      using ids by (simp add: apply_report_def apply_action_def Let_def canon)
    have "located prov obj (ws_of ?s1 w)" using loc by (simp add: located_def store_simps)
    from upsert_places_object [OF rep obj this]
    show "object_at prov obj (aa_Path a) (aa_Content a) (ws_of (apply_report (now, req, a) s) w)
        \<and> map_of (ws_ProviderWatermarks (ws_of (apply_report (now, req, a) s) w)) (object_key prov obj) = Some (FormatRFC3339Nano t)"
      unfolding run by (simp add: store_simps AList.update_conv') }
qed

lemma reports_run:
  assumes "\<forall>r \<in> set run. report w prov obj r" and "TrimSpace obj = obj" "obj \<noteq> ''''" "plain_provider prov"
    and "map_of (ws_ProviderWatermarks (ws_of s w)) (object_key prov obj) = None" and "located prov obj (ws_of s w)" and "run \<noteq> []"
  shows "\<exists>now req a t. (now, req, a) \<in> set run \<and> (\<forall>r \<in> set run. time_of r \<le> t) \<and> t = time_of (now, req, a) \<and> four_digit_year t
    \<and> object_at prov obj (aa_Path a) (aa_Content a) (ws_of (fold apply_report run s) w)
    \<and> map_of (ws_ProviderWatermarks (ws_of (fold apply_report run s) w)) (object_key prov obj) = Some (FormatRFC3339Nano t)"
  using assms(1,7)
proof (induction run rule: rev_induct)
  case (snoc r run)
  obtain now req a where r: "r = (now, req, a)" by (cases r)
  have rep: "report w prov obj (now, req, a)" using snoc.prems(1) r by simp
  then obtain t where st: "stamped req t" by (auto simp: report_def)
  have t: "time_of r = t" "four_digit_year t" using st by (simp_all add: time_of_def r stamped_def)
  let ?s = "fold apply_report run s"
  note stale = report_step(1) [OF rep st assms(2-4), of ?s] and fresh = report_step(2) [OF rep st assms(2-4), of ?s]
  have last: "fold apply_report (run @ [r]) s = apply_report (now, req, a) ?s" by (simp add: r)
  show ?case
  proof (cases "run = []")
    case True
    then have "object_at prov obj (aa_Path a) (aa_Content a) (ws_of (fold apply_report (run @ [r]) s) w)
        \<and> map_of (ws_ProviderWatermarks (ws_of (fold apply_report (run @ [r]) s) w)) (object_key prov obj) = Some (FormatRFC3339Nano t)"
      unfolding last using fresh assms(5,6) by simp
    then show ?thesis using True t r by (intro exI [of _ now] exI [of _ req] exI [of _ a] exI [of _ t]) auto
  next
    case False
    then obtain now0 req0 a0 t0 where m: "(now0, req0, a0) \<in> set run" "\<forall>r \<in> set run. time_of r \<le> t0" "t0 = time_of (now0, req0, a0)"
      "four_digit_year t0" "object_at prov obj (aa_Path a0) (aa_Content a0) (ws_of ?s w)"
      "map_of (ws_ProviderWatermarks (ws_of ?s w)) (object_key prov obj) = Some (FormatRFC3339Nano t0)"
      using snoc.IH snoc.prems(1) by auto
    show ?thesis
    proof (cases "t < t0")
      case True
      have keep: "ws_Files (ws_of (apply_report (now, req, a) ?s) w) = ws_Files (ws_of ?s w)"
        "ws_ProviderIndex (ws_of (apply_report (now, req, a) ?s) w) = ws_ProviderIndex (ws_of ?s w)"
        "ws_ProviderWatermarks (ws_of (apply_report (now, req, a) ?s) w) = ws_ProviderWatermarks (ws_of ?s w)"
        using stale m(4,6) True by blast+
      show ?thesis
        using m t True unfolding last
        by (intro exI [of _ now0] exI [of _ req0] exI [of _ a0] exI [of _ t0]) (auto simp: object_at_def keep)
    next
      case False
      have "object_at prov obj (aa_Path a) (aa_Content a) (ws_of (apply_report (now, req, a) ?s) w)
          \<and> map_of (ws_ProviderWatermarks (ws_of (apply_report (now, req, a) ?s) w)) (object_key prov obj) = Some (FormatRFC3339Nano t)"
        using fresh m(4,5,6) False object_at_located by blast
      then show ?thesis
        using m(2) t False r unfolding last
        by (intro exI [of _ now] exI [of _ req] exI [of _ a] exI [of _ t]) (force simp: r)
    qed
  qed
qed simp

text \<open>C13. Provider reports converge.  However the reports about one object are ordered when they are applied, and whatever paths
  they name, in the end exactly one file of the workspace carries the object's id: at the path and with the content of the report
  that was received last, and the index points to it.  The reports are upserts with distinct receive times in UTC and normalised
  paths; before the first one the object has no watermark, and its files, if any, are where the index says.  (For Slack, whose paths
  are made canonical, this is not claimed.)\<close>

theorem provider_reports_converge:
  assumes "\<forall>r \<in> set run. report w prov obj r" and "distinct (map time_of run)" and "TrimSpace obj = obj" "obj \<noteq> ''''" "plain_provider prov"
    and "map_of (ws_ProviderWatermarks (ws_of s w)) (object_key prov obj) = None" and "located prov obj (ws_of s w)"
    and "(now, req, a) \<in> set run" and "\<forall>r \<in> set run. time_of r \<le> time_of (now, req, a)"
  shows "object_at prov obj (aa_Path a) (aa_Content a) (ws_of (fold apply_report run s) w)"
proof -
  obtain now0 req0 a0 where m: "(now0, req0, a0) \<in> set run" "\<forall>r \<in> set run. time_of r \<le> time_of (now0, req0, a0)"
    "object_at prov obj (aa_Path a0) (aa_Content a0) (ws_of (fold apply_report run s) w)"
    using reports_run [OF assms(1,3-7)] assms(8) by (metis length_pos_if_in_set less_numeral_extra(3) list.size(3))
  have "time_of (now0, req0, a0) = time_of (now, req, a)" using m(1,2) assms(8,9) by (simp add: order_antisym)
  then have "(now0, req0, a0) = (now, req, a)" using m(1) assms(2,8) by (metis distinct_map inj_onD)
  then show ?thesis using m(3) by simp
qed

definition late_report :: "instant \<times> WebhookEnvelopeRequest \<times> ApplyAction" where
  "late_report = (1, sample_envelope\<lparr>env_ReceivedAt := ''2024-01-02T03:04:06Z''\<rparr>,
     zero_action\<lparr>aa_Type := ActionFileUpsert, aa_Path := ''/github/b.md'', aa_Content := ''new'', aa_ProviderObjectID := ''7''\<rparr>)"

definition early_report :: "instant \<times> WebhookEnvelopeRequest \<times> ApplyAction" where
  "early_report = (2, sample_envelope, zero_action\<lparr>aa_Type := ActionFileUpsert, aa_Path := ''/github/a.md'', aa_Content := ''old'', aa_ProviderObjectID := ''7''\<rparr>)"

theorem provider_reports_converge_witness:
  "object_at ''github'' ''7'' ''/github/b.md'' ''new'' (ws_of (fold apply_report [late_report, early_report] NewStore) ''w'')"
proof -
  have parse: "ParseRFC3339Nano ''2024-01-02T03:04:06Z'' = Some 1704164646000000000" "ParseRFC3339Nano ''2024-01-02T03:04:05Z'' = Some 1704164645000000000"
    "zone_of ''2024-01-02T03:04:06Z'' = 0" "zone_of ''2024-01-02T03:04:05Z'' = 0" "four_digit_year 1704164646000000000" "four_digit_year 1704164645000000000"
    by code_simp+
  have paths: "normalizePath ''/github/a.md'' = ''/github/a.md''" "normalizePath ''/github/b.md'' = ''/github/b.md''"
    "TrimSpace ''/github/a.md'' = ''/github/a.md''" "TrimSpace ''/github/b.md'' = ''/github/b.md''" "TrimSpace ''7'' = ''7''" "plain_provider ''github''"
    by code_simp+
  have reports: "report ''w'' ''github'' ''7'' late_report" "report ''w'' ''github'' ''7'' early_report"
    by (auto simp: report_def late_report_def early_report_def sample_envelope_def stamped_def parse paths)
  have times: "time_of late_report = 1704164646000000000" "time_of early_report = 1704164645000000000"
    by (simp_all add: time_of_def late_report_def early_report_def sample_envelope_def parse)
  have empty: "ws_of NewStore ''w'' = empty_workspace" by (simp add: ws_of_def mget_or_def NewStore_def new_store_def)
  obtain now req a where late: "late_report = (now, req, a)" by (cases late_report)
  have a: "aa_Path a = ''/github/b.md''" "aa_Content a = ''new''" using late by (auto simp: late_report_def)
  have max: "\<forall>r \<in> set [late_report, early_report]. time_of r \<le> time_of (now, req, a)" "(now, req, a) \<in> set [late_report, early_report]"
    using late [symmetric] by (simp_all add: times)
  show ?thesis
    using provider_reports_converge [of "[late_report, early_report]" "''w''" "''github''" "''7''" NewStore now req a] max reports paths(5,6)
    by (simp add: a times empty located_def empty_workspace_def)
qed

end
