(* ===== verification/Scopes.thy ===== *)
theory Scopes
  imports StoreTypes Paths
begin

text \<open>
  The authorisation decision of \<^verbatim>\<open>src/internal/httpapi\<close>: the scope paths of \<^verbatim>\<open>path_contract.go\<close>,
  the scopes and claims of \<^verbatim>\<open>auth.go\<close>, and the access rules of \<^verbatim>\<open>acl.go\<close>.

  The set of granted scopes (\<^verbatim>\<open>map[string]struct{}\<close>) is a list in the order in which one
  \<^verbatim>\<open>range\<close> visits it.  A token payload is its decoded JSON object; Go decodes its numbers to
  \<^verbatim>\<open>float64\<close>, and the model has the integral ones.  The regular expressions are bool-valued
  functions.
\<close>

section \<open>Scope paths\<close>

fun last_segment_ok :: "string \<Rightarrow> bool" where
  "last_segment_ok segment =
     (if \<not> Contains segment ''*'' then True
      else if segment = ''*'' \<or> segment = ''**'' then True
      else if CountChar CHR ''*'' segment = 1 \<and> HasSuffix segment ''*'' then True
      else False)"

fun scope_segments_ok :: "string list \<Rightarrow> bool" where
  "scope_segments_ok [] = True"
| "scope_segments_ok (segment # segments) =
     (if segment = '''' \<or> segment = ''.'' \<or> segment = ''..'' then False
      else if segments \<noteq> [] then
        (if Contains segment ''*'' then False else scope_segments_ok segments)
      else last_segment_ok segment)"

definition scopePathValid :: "string \<Rightarrow> bool" where
  "scopePathValid scopePath =
     (if scopePath = ''*'' then True
      else if \<not> HasPrefix scopePath ''/'' then False
      else if scopePath = ''/'' then True
      else scope_segments_ok (Split (drop 1 scopePath) slash))"

definition orRoot :: "string \<Rightarrow> string" where
  "orRoot dir = (if dir = '''' then ''/'' else dir)"

definition scopePathMountRoot :: "string \<Rightarrow> string option" where
  "scopePathMountRoot scopePath =
     (if \<not> scopePathValid scopePath then None
      else if scopePath = ''*'' \<or> scopePath = ''/'' then Some ''/''
      else if HasSuffix scopePath ''/**'' then Some (orRoot (TrimSuffix scopePath ''/**''))
      else if HasSuffix scopePath ''/*'' then Some (orRoot (TrimSuffix scopePath ''/*''))
      else if HasSuffix scopePath ''*'' then
        Some (orRoot (before_last_slash (TrimSuffix scopePath ''*'')))
      else Some scopePath)"

definition scopePathMatches :: "string \<Rightarrow> string \<Rightarrow> bool" where
  "scopePathMatches scopePath filePath =
     (if scopePath = filePath then True
      else if HasSuffix scopePath ''/**'' then
        (let scopeDir = TrimSuffix scopePath ''/**''
         in filePath = scopeDir \<or> HasPrefix filePath (scopeDir @ ''/''))
      else if HasSuffix scopePath ''/*'' then
        (let scopeDir = TrimSuffix scopePath ''/*''
         in HasPrefix filePath (scopeDir @ ''/''))
      else if HasSuffix scopePath ''*'' then HasPrefix filePath (TrimSuffix scopePath ''*'')
      else False)"

section \<open>Granted scopes\<close>

definition scopeActionMatches :: "string \<Rightarrow> string \<Rightarrow> bool" where
  "scopeActionMatches granted required =
     (if granted = required \<or> granted = ''*'' then True
      else granted = ''manage'' \<and> (required = ''read'' \<or> required = ''write''))"

text \<open>The body of the loop of \<^verbatim>\<open>scopeMatches\<close>: whether one granted scope gives the action.\<close>

definition scope_gives :: "string \<Rightarrow> string \<Rightarrow> string \<Rightarrow> bool" where
  "scope_gives resource action scope =
     (case SplitN 4 scope CHR '':'' of
        plane # res # act # _ \<Rightarrow>
          (if plane \<noteq> ''relayfile'' \<and> plane \<noteq> ''*'' then False
           else if res \<noteq> resource \<and> res \<noteq> ''*'' then False
           else if act \<noteq> action \<and> act \<noteq> ''*'' \<and>
                   (act \<noteq> ''manage'' \<or> (action \<noteq> ''read'' \<and> action \<noteq> ''write'')) then False
           else True)
      | _ \<Rightarrow> False)"

definition scopeMatches :: "string list \<Rightarrow> string \<Rightarrow> bool" where
  "scopeMatches granted required =
     (if required \<in> set granted then True
      else case SplitN 2 required CHR '':'' of
             [resource, action] \<Rightarrow> list_ex (scope_gives resource action) granted
           | _ \<Rightarrow> False)"

definition pathScopeForRequired :: "string \<Rightarrow> string \<Rightarrow> string \<Rightarrow> string option" where
  "pathScopeForRequired scope resource action =
     (case SplitN 4 scope CHR '':'' of
        plane # res # act # rest \<Rightarrow>
          (if plane = ''relayfile'' \<or> plane = ''*'' then
             (if res \<noteq> resource \<and> res \<noteq> ''*'' then None
              else if \<not> scopeActionMatches act action then None
              else case rest of [path] \<Rightarrow> Some (TrimSpace path) | _ \<Rightarrow> Some ''*'')
           else if plane = ''workspace'' then
             (if resource \<noteq> ''fs'' \<or> \<not> scopeActionMatches act action then None
              else case rest of [path] \<Rightarrow> Some (TrimSpace path) | _ \<Rightarrow> Some ''*'')
           else None)
      | _ \<Rightarrow> None)"

text \<open>
  The loop of \<^verbatim>\<open>scopeMatchesPath\<close>: \<open>Inl ()\<close> when it returns true, else the final value of
  \<^verbatim>\<open>hasNarrowPathGrant\<close>.
\<close>

fun path_grants :: "string \<Rightarrow> string \<Rightarrow> string \<Rightarrow> bool \<Rightarrow> string list \<Rightarrow> unit + bool" where
  "path_grants resource action filePath hasNarrow [] = Inr hasNarrow"
| "path_grants resource action filePath hasNarrow (scope # granted) =
     (case pathScopeForRequired scope resource action of
        None \<Rightarrow> path_grants resource action filePath hasNarrow granted
      | Some scopePath \<Rightarrow>
          if scopePath = ''*'' then Inl ()
          else if filePath = '''' then path_grants resource action filePath True granted
          else if scopePathMatches scopePath filePath then Inl ()
          else path_grants resource action filePath True granted)"

definition scopeMatchesPath :: "string list \<Rightarrow> string \<Rightarrow> string \<Rightarrow> bool" where
  "scopeMatchesPath granted required filePath =
     (let filePath = TrimSpace filePath
      in case SplitN 2 required CHR '':'' of
           [resource, action] \<Rightarrow>
             (case path_grants resource action filePath False granted of
                Inl _ \<Rightarrow> True
              | Inr hasNarrow \<Rightarrow> (if required \<in> set granted then \<not> hasNarrow else False))
         | _ \<Rightarrow> False)"

section \<open>Claims\<close>

record authError =
  ae_status :: nat
  ae_code :: string
  ae_message :: string

record tokenClaims =
  tc_WorkspaceID :: string
  tc_AgentName :: string
  tc_Scopes :: "string list"
  tc_Exp :: int

definition relayauthTokenPrefixes :: "string list" where
  "relayauthTokenPrefixes = [''relay_pa_'', ''relay_ws_'', ''relay_id_'', ''relay_ag_'']"

definition stripRelayauthTokenPrefix :: "string \<Rightarrow> string" where
  "stripRelayauthTokenPrefix raw =
     (case find (\<lambda>p. HasPrefix raw p) relayauthTokenPrefixes of
        Some p \<Rightarrow> TrimPrefix raw p
      | None \<Rightarrow> raw)"

type_synonym payload = "(string, json) gomap"

fun firstStringClaim :: "payload \<Rightarrow> string list \<Rightarrow> string" where
  "firstStringClaim payload [] = ''''"
| "firstStringClaim payload (key # keys) =
     (case map_of payload key of
        Some (JString value) \<Rightarrow>
          if TrimSpace value \<noteq> '''' then value else firstStringClaim payload keys
      | _ \<Rightarrow> firstStringClaim payload keys)"

text \<open>
  \<^verbatim>\<open>int64(typed)\<close> of a \<^verbatim>\<open>float64\<close> outside the range of \<^verbatim>\<open>int64\<close> is implementation-defined in
  Go; here it is the most negative number, as on amd64.
\<close>

definition parseExp :: "json option \<Rightarrow> int option" where
  "parseExp v =
     (case v of
        Some (JNumber n) \<Rightarrow> Some (if - (2 ^ 63) \<le> n \<and> n < 2 ^ 63 then n else - (2 ^ 63))
      | _ \<Rightarrow> None)"

definition hasAudience :: "json option \<Rightarrow> string \<Rightarrow> bool" where
  "hasAudience v required =
     (let required = TrimSpace required
      in if required = '''' then False
         else case v of
                Some (JString typed) \<Rightarrow> TrimSpace typed = required
              | Some (JArray items) \<Rightarrow>
                  list_ex (\<lambda>item. case item of JString aud \<Rightarrow> TrimSpace aud = required | _ \<Rightarrow> False) items
              | _ \<Rightarrow> False)"

text \<open>\<^verbatim>\<open>strings.Fields\<close>: the maximal runs without white space.\<close>

function fields_loop :: "string \<Rightarrow> string \<Rightarrow> string list" where
  "fields_loop word s =
     (if s = [] then (if word = [] then [] else [rev word])
      else case find (\<lambda>q. q \<noteq> [] \<and> HasPrefix s q) space_seqs of
             Some q \<Rightarrow> (if word = [] then [] else [rev word]) @ fields_loop [] (drop (length q) s)
           | None \<Rightarrow> fields_loop (hd s # word) (tl s))"
  by pat_completeness auto
termination
  by (relation "measure (\<lambda>(word, s). length s)")
     (auto simp: find_Some_iff neq_Nil_conv)

declare fields_loop.simps [simp del]

definition Fields :: "string \<Rightarrow> string list" where
  "Fields s = fields_loop [] s"

definition parseScopes :: "json option \<Rightarrow> string list" where
  "parseScopes v =
     (case v of
        Some (JArray items) \<Rightarrow>
          remdups (concat (map (\<lambda>item. case item of
            JString scope \<Rightarrow> (if scope \<noteq> '''' then [scope] else []) | _ \<Rightarrow> []) items))
      | Some (JString typed) \<Rightarrow> remdups (Fields typed)
      | _ \<Rightarrow> [])"

text \<open>The second half of \<^verbatim>\<open>parseBearer\<close>: the claims of a payload whose signature was verified.\<close>

definition unauthorized :: "string \<Rightarrow> authError" where
  "unauthorized msg = \<lparr>ae_status = 401, ae_code = ''unauthorized'', ae_message = msg\<rparr>"

definition forbidden :: "string \<Rightarrow> authError" where
  "forbidden msg = \<lparr>ae_status = 403, ae_code = ''forbidden'', ae_message = msg\<rparr>"

definition bearer_claims :: "payload \<Rightarrow> int \<Rightarrow> authError + tokenClaims" where
  "bearer_claims payload now_unix =
     (let workspaceID = firstStringClaim payload [''wks'', ''workspace_id''];
          agentName = firstStringClaim payload [''sub'', ''agent_name'']
      in if workspaceID = '''' then Inl (unauthorized ''missing workspace claim'')
         else if agentName = '''' then Inl (unauthorized ''missing subject claim'')
         else case parseExp (map_of payload ''exp'') of
                None \<Rightarrow> Inl (unauthorized ''invalid exp claim'')
              | Some expiry \<Rightarrow>
                  if now_unix \<ge> expiry then Inl (unauthorized ''token expired'')
                  else if \<not> hasAudience (map_of payload ''aud'') ''relayfile'' then
                    Inl (unauthorized ''invalid aud claim'')
                  else let scopes = parseScopes (map_of payload ''scopes'')
                       in if length scopes = 0 then Inl (forbidden ''no scopes granted'')
                          else Inr \<lparr>tc_WorkspaceID = workspaceID, tc_AgentName = agentName,
                                    tc_Scopes = scopes, tc_Exp = expiry\<rparr>)"

text \<open>\<^verbatim>\<open>authorizeBearer\<close>, on the result of parsing and verifying the token.\<close>

definition authorizeBearer ::
  "authError + tokenClaims \<Rightarrow> string \<Rightarrow> string \<Rightarrow> string \<Rightarrow> authError + tokenClaims" where
  "authorizeBearer parsed workspaceID requiredScope requiredPath =
     (case parsed of
        Inl err \<Rightarrow> Inl err
      | Inr claims \<Rightarrow>
          if workspaceID \<noteq> '''' \<and> tc_WorkspaceID claims \<noteq> workspaceID then
            Inl (forbidden ''workspace mismatch'')
          else if requiredScope \<noteq> '''' then
            (if requiredPath = '''' then
               (if \<not> scopeMatches (tc_Scopes claims) requiredScope
                then Inl (forbidden (''missing required scope: '' @ requiredScope)) else Inr claims)
             else if \<not> scopeMatchesPath (tc_Scopes claims) requiredScope requiredPath
             then Inl (forbidden (''missing required scope: '' @ requiredScope)) else Inr claims)
          else Inr claims)"

section \<open>Access rules\<close>

definition is_letter :: "char \<Rightarrow> bool" where
  "is_letter c = (let n = of_char c :: nat in (65 \<le> n \<and> n \<le> 90) \<or> (97 \<le> n \<and> n \<le> 122))"

definition is_alnum :: "char \<Rightarrow> bool" where
  "is_alnum c = (let n = of_char c :: nat in is_letter c \<or> (48 \<le> n \<and> n \<le> 57))"

fun aclAgentNamePattern :: "string \<Rightarrow> bool" where
  "aclAgentNamePattern [] = False"
| "aclAgentNamePattern (c # cs) =
     (is_alnum c \<and> length cs \<le> 127 \<and>
      list_all (\<lambda>d. is_alnum d \<or> d = CHR ''.'' \<or> d = CHR ''_'' \<or> d = CHR ''-'') cs)"

fun aclWorkspacePattern :: "string \<Rightarrow> bool" where
  "aclWorkspacePattern [] = False"
| "aclWorkspacePattern (c # cs) =
     (is_alnum c \<and> length cs \<le> 255 \<and> list_all (\<lambda>d. is_alnum d \<or> d = CHR ''_'' \<or> d = CHR ''-'') cs)"

definition aclScopePattern :: "string \<Rightarrow> bool" where
  "aclScopePattern v =
     list_all (\<lambda>p. p \<noteq> [] \<and> is_letter (hd p) \<and> list_all is_alnum (tl p)) (Split v CHR '':'')"

record parsedACLFilesystemScope =
  fss_action :: string
  fss_path :: string

definition isACLFilesystemAction :: "string \<Rightarrow> bool" where
  "isACLFilesystemAction action \<longleftrightarrow>
     action = ''read'' \<or> action = ''write'' \<or> action = ''manage'' \<or> action = ''*''"

definition parseACLFilesystemScope :: "string \<Rightarrow> parsedACLFilesystemScope option" where
  "parseACLFilesystemScope scope =
     (case SplitN 4 scope CHR '':'' of
        [plane, action] \<Rightarrow>
          (if plane = ''fs'' then
             (if \<not> isACLFilesystemAction action then None
              else Some \<lparr>fss_action = action, fss_path = ''*''\<rparr>)
           else None)
      | [plane, resource, action, path] \<Rightarrow>
          (if TrimSpace path = '''' then None
           else if (if plane = ''relayfile'' \<or> plane = ''*'' then resource \<noteq> ''fs'' \<and> resource \<noteq> ''*''
                    else if plane = ''workspace'' then \<not> aclAgentNamePattern resource
                    else True) then None
           else if \<not> isACLFilesystemAction action then None
           else Some \<lparr>fss_action = action, fss_path = path\<rparr>)
      | _ \<Rightarrow> None)"

definition isValidACLFilesystemScope :: "string \<Rightarrow> bool" where
  "isValidACLFilesystemScope scope =
     (if TrimSpace scope \<noteq> scope then False
      else case parseACLFilesystemScope scope of
             None \<Rightarrow> False
           | Some parsed \<Rightarrow> scopePathValid (fss_path parsed))"

definition isValidACLRuleValue :: "string \<Rightarrow> string \<Rightarrow> bool" where
  "isValidACLRuleValue kind value =
     (if kind = ''agent'' then aclAgentNamePattern value
      else if kind = ''scope'' then aclScopePattern value \<or> isValidACLFilesystemScope value
      else if kind = ''workspace'' then aclWorkspacePattern value
      else False)"

record ParsedPermissionRule =
  ppr_Effect :: string
  ppr_Kind :: string
  ppr_Value :: string

definition split_effect :: "string \<Rightarrow> string \<times> string" where
  "split_effect rule =
     (let lower = ToLower rule
      in if HasPrefix lower ''allow:'' then (''allow'', TrimSpace (drop 6 rule))
         else if HasPrefix lower ''deny:'' then (''deny'', TrimSpace (drop 5 rule))
         else (''allow'', rule))"

definition parsePermissionRule :: "string \<Rightarrow> ParsedPermissionRule option" where
  "parsePermissionRule raw =
     (let rule = TrimSpace raw
      in if rule = '''' then None
         else let (effect, rule) = split_effect rule; normalized = ToLower rule
              in if normalized = ''public'' \<or> normalized = ''any'' \<or> normalized = ''*''
                 then Some \<lparr>ppr_Effect = effect, ppr_Kind = ''public'', ppr_Value = ''*''\<rparr>
                 else case Split rule CHR '':'' of
                        part # rest \<Rightarrow>
                          (if rest = [] then None
                           else let kind = ToLower (TrimSpace part);
                                    value = TrimSpace (Join rest '':'')
                                in if kind = '''' \<or> value = '''' then None
                                   else if kind \<noteq> ''scope'' \<and> kind \<noteq> ''agent'' \<and> kind \<noteq> ''workspace'' then None
                                   else if \<not> isValidACLRuleValue kind value then None
                                   else Some \<lparr>ppr_Effect = effect, ppr_Kind = kind, ppr_Value = value\<rparr>)
                      | [] \<Rightarrow> None)"

definition aclScopeRuleMatches :: "string \<Rightarrow> tokenClaims option \<Rightarrow> string \<Rightarrow> string \<Rightarrow> bool" where
  "aclScopeRuleMatches scope claims requiredAction requestedPath =
     (case claims of
        None \<Rightarrow> False
      | Some c \<Rightarrow>
          (case parseACLFilesystemScope scope of
             None \<Rightarrow> scope \<in> set (tc_Scopes c)
           | Some parsed \<Rightarrow>
               if \<not> scopeActionMatches (fss_action parsed) requiredAction then False
               else if fss_path parsed \<noteq> ''*'' \<and> \<not> scopePathMatches (fss_path parsed) requestedPath then False
               else scopeMatchesPath (tc_Scopes c) (''fs:'' @ requiredAction) requestedPath))"

subsection \<open>Paths\<close>

fun resolve_segments :: "string list \<Rightarrow> string list \<Rightarrow> string list" where
  "resolve_segments resolved [] = resolved"
| "resolve_segments resolved (part # parts) =
     (if part = '''' \<or> part = ''.'' then resolve_segments resolved parts
      else if part = ''..'' then resolve_segments (butlast resolved) parts
      else resolve_segments (resolved @ [part]) parts)"

definition trim_slashes :: "string \<Rightarrow> string" where
  "trim_slashes s = rev (dropWhile (\<lambda>c. c = slash) (rev s))"

definition normalizeACLPath :: "string \<Rightarrow> string" where
  "normalizeACLPath path =
     (let trimmed = TrimSpace path
      in if trimmed = '''' then ''/''
         else let prefixed = (if \<not> HasPrefix trimmed ''/'' then ''/'' @ trimmed else trimmed);
                  result = ''/'' @ Join (resolve_segments [] (Split prefixed slash)) ''/''
              in if length result > 1 then trim_slashes result else result)"

definition joinACLPath :: "string \<Rightarrow> string \<Rightarrow> string" where
  "joinACLPath base child =
     (let normalizedBase = normalizeACLPath base
      in if normalizedBase = ''/'' then normalizeACLPath (''/'' @ child)
         else normalizeACLPath (normalizedBase @ ''/'' @ child))"

fun ancestor_dirs_acl :: "string \<Rightarrow> string list \<Rightarrow> string list" where
  "ancestor_dirs_acl current [] = []"
| "ancestor_dirs_acl current (part # parts) =
     (let current = (if current = '''' then joinACLPath ''/'' part else joinACLPath current part)
      in current # ancestor_dirs_acl current parts)"

definition ancestorDirectoriesACL :: "string \<Rightarrow> string list" where
  "ancestorDirectoriesACL path =
     (let filtered = filter (\<lambda>part. part \<noteq> '''') (Split (normalizeACLPath path) slash)
      in ''/'' # ancestor_dirs_acl '''' (butlast filtered))"

subsection \<open>The decision\<close>

definition rule_matches ::
  "string \<Rightarrow> tokenClaims option \<Rightarrow> string \<Rightarrow> string \<Rightarrow> ParsedPermissionRule \<Rightarrow> bool" where
  "rule_matches workspaceID claims requiredAction requestedPath rule =
     (if ppr_Kind rule = ''public'' then True
      else if ppr_Kind rule = ''scope'' then
        aclScopeRuleMatches (ppr_Value rule) claims requiredAction requestedPath
      else if ppr_Kind rule = ''agent'' then
        (case claims of None \<Rightarrow> False | Some c \<Rightarrow> tc_AgentName c = ppr_Value rule)
      else if ppr_Kind rule = ''workspace'' then workspaceID = ppr_Value rule
      else False)"

fun permission_loop ::
  "(ParsedPermissionRule \<Rightarrow> bool) \<Rightarrow> string list \<Rightarrow> bool \<Rightarrow> bool \<Rightarrow> bool" where
  "permission_loop matches [] enforceableRuleSeen allowMatch =
     (if allowMatch then True else \<not> enforceableRuleSeen)"
| "permission_loop matches (raw # permissions) enforceableRuleSeen allowMatch =
     (case parsePermissionRule raw of
        None \<Rightarrow> permission_loop matches permissions enforceableRuleSeen allowMatch
      | Some rule \<Rightarrow>
          if \<not> matches rule then permission_loop matches permissions True allowMatch
          else if ppr_Effect rule = ''deny'' then False
          else permission_loop matches permissions True True)"

definition filePermissionAllows ::
  "string list \<Rightarrow> string \<Rightarrow> tokenClaims option \<Rightarrow> string \<Rightarrow> string \<Rightarrow> bool" where
  "filePermissionAllows permissions workspaceID claims requiredAction requestedPath =
     (if length permissions = 0 then True
      else let requestedPath =
                 (if requestedPath \<noteq> '''' then normalizeACLPath requestedPath else requestedPath)
           in permission_loop (rule_matches workspaceID claims requiredAction requestedPath)
                permissions False False)"

definition relayfileACLMarkerFile :: string where
  "relayfileACLMarkerFile = ''.relayfile.acl''"

text \<open>
  \<^verbatim>\<open>resolveFilePermissionsWithTarget\<close>: \<open>getFile\<close> gives the rules a marker or file holds,
  decoded, with \<open>None\<close> for an error, an absent file and a body that is no list of strings.
\<close>

definition resolveFilePermissionsWithTarget ::
  "(string \<Rightarrow> string list option) \<Rightarrow> string \<Rightarrow> bool \<Rightarrow> string list" where
  "resolveFilePermissionsWithTarget getFile path includeTarget =
     (let target = normalizeACLPath path;
          rules = (\<lambda>p. case getFile p of None \<Rightarrow> [] | Some rules \<Rightarrow> rules)
      in concat (map (\<lambda>dir. let markerPath = joinACLPath dir relayfileACLMarkerFile
                             in if markerPath = target then [] else rules markerPath)
                     (ancestorDirectoriesACL target))
         @ (if includeTarget then rules target else []))"

definition resolveFilePermissions :: "(string \<Rightarrow> string list option) \<Rightarrow> string \<Rightarrow> string list" where
  "resolveFilePermissions getFile path = resolveFilePermissionsWithTarget getFile path True"

end
