(* ===== verification/Authz.thy ===== *)
theory Authz
  imports Scopes FileModel
begin

text \<open>
  What the authorisation decision means: the rule evaluation is ``deny overrides'' over the set of
  rules, the scope decision depends on the set of grants only, a path grant confines its holder to
  its mount root, and the two permission resolvers of the repository agree.
\<close>

section \<open>Rules\<close>

definition rules_of :: "string list \<Rightarrow> ParsedPermissionRule set" where
  "rules_of permissions = {rule. \<exists>raw. raw \<in> set permissions \<and> parsePermissionRule raw = Some rule}"

lemma rules_of_simps [simp]:
  "rules_of [] = {}"
  "rules_of (raw # raws) =
     (case parsePermissionRule raw of None \<Rightarrow> {} | Some rule \<Rightarrow> {rule}) \<union> rules_of raws"
  by (auto simp: rules_of_def split: option.splits)

lemma permission_loop_sets:
  "permission_loop m raws seen allow \<longleftrightarrow>
     ''deny'' \<notin> ppr_Effect ` {r \<in> rules_of raws. m r} \<and>
     (allow \<or> {r \<in> rules_of raws. m r} \<noteq> {} \<or> (\<not> seen \<and> rules_of raws = {}))"
proof (induction raws arbitrary: seen allow)
  case (Cons raw raws)
  show ?case
  proof (cases "parsePermissionRule raw")
    case None
    then show ?thesis by (simp add: Cons.IH)
  next
    case (Some rule)
    have "{r \<in> insert rule (rules_of raws). m r} =
        (if m rule then insert rule {r \<in> rules_of raws. m r} else {r \<in> rules_of raws. m r})"
      by auto
    then show ?thesis by (auto simp: Some Cons.IH)
  qed
qed auto

text \<open>C18. The decision on a path is ``deny overrides, then allow, then fail closed'' over the set
  of its rules: entries that are no rules are ignored, a matching deny refuses, otherwise
  a matching allow grants, and without a match access is granted only when there is no rule at
  all.  It depends neither on the order of the rules nor on repetitions.\<close>

theorem permission_decision:
  "filePermissionAllows permissions workspaceID claims action path \<longleftrightarrow>
     (let target = (if path = '''' then path else normalizeACLPath path);
          matching = {rule \<in> rules_of permissions. rule_matches workspaceID claims action target rule}
      in ''deny'' \<notin> ppr_Effect ` matching \<and> ((\<exists>rule. rule \<in> matching) \<or> rules_of permissions = {}))"
proof (cases "permissions = []")
  case False
  then have "filePermissionAllows permissions workspaceID claims action path =
      permission_loop (rule_matches workspaceID claims action
        (if path = '''' then path else normalizeACLPath path)) permissions False False"
    by (simp add: filePermissionAllows_def)
  then show ?thesis by (simp only: permission_loop_sets Let_def simp_thms ex_in_conv)
qed (simp add: filePermissionAllows_def)

section \<open>Scopes\<close>

definition path_grant_set :: "string list \<Rightarrow> string \<Rightarrow> string \<Rightarrow> string set" where
  "path_grant_set granted resource action =
     {p. \<exists>scope. scope \<in> set granted \<and> pathScopeForRequired scope resource action = Some p}"

lemma path_grant_set_simps [simp]:
  "path_grant_set [] r a = {}"
  "path_grant_set (scope # granted) r a =
     (case pathScopeForRequired scope r a of None \<Rightarrow> {} | Some p \<Rightarrow> {p}) \<union> path_grant_set granted r a"
  by (auto simp: path_grant_set_def split: option.splits)

definition grants_path :: "string set \<Rightarrow> string \<Rightarrow> bool" where
  "grants_path grants path \<longleftrightarrow>
     ''*'' \<in> grants \<or> (path \<noteq> '''' \<and> (\<exists>p. p \<in> grants \<and> scopePathMatches p path))"

lemma path_grants_sets:
  "path_grants r a path narrow granted =
     (if grants_path (path_grant_set granted r a) path then Inl ()
      else Inr (narrow \<or> path_grant_set granted r a \<noteq> {}))"
proof (induction granted arbitrary: narrow path)
  case (Cons scope granted)
  show ?case
  proof (cases "pathScopeForRequired scope r a")
    case (Some p)
    consider "p = ''*''" | "p \<noteq> ''*''" "path = ''''" | "p \<noteq> ''*''" "path \<noteq> ''''" by blast
    then show ?thesis by cases (auto simp: Some Cons.IH grants_path_def)
  qed (simp add: Cons.IH)
qed (simp add: grants_path_def)

lemma SplitN_required: "CHR '':'' \<notin> set resource \<Longrightarrow> SplitN 2 (resource @ '':'' @ action) CHR '':'' = [resource, action]"
proof -
  assume "CHR '':'' \<notin> set resource"
  then have "Cut (resource @ '':'' @ action) CHR '':'' = (resource, action, True)"
    by (induction resource) auto
  then show ?thesis by (simp add: numeral_2_eq_2)
qed

lemma scopeMatchesPath_sets:
  assumes "CHR '':'' \<notin> set resource"
  shows "scopeMatchesPath granted (resource @ '':'' @ action) path \<longleftrightarrow>
    (let grants = path_grant_set granted resource action
     in grants_path grants (TrimSpace path) \<or> (grants = {} \<and> resource @ '':'' @ action \<in> set granted))"
  unfolding scopeMatchesPath_def SplitN_required [OF assms] path_grants_sets Let_def
  by (auto simp: grants_path_def)

subsection \<open>Confinement\<close>

definition at_or_below :: "string \<Rightarrow> string \<Rightarrow> bool" where
  "at_or_below root path \<longleftrightarrow> root = ''/'' \<or> path = root \<or> HasPrefix path (root @ ''/'')"

lemma at_or_below_orRoot:
  "path = dir \<or> HasPrefix path (dir @ ''/'') \<Longrightarrow> at_or_below (orRoot dir) path"
  by (auto simp: at_or_below_def orRoot_def)

lemma before_last_slash_split: "slash \<in> set s \<Longrightarrow> \<exists>r. s = before_last_slash s @ slash # r"
proof -
  assume "slash \<in> set s"
  then obtain p r where s: "s = p @ slash # r" "slash \<notin> set r"
    by (metis split_list_last)
  then show ?thesis by (auto simp: before_last_slash_snoc)
qed

lemma scopePathMatches_mount_root:
  assumes root: "scopePathMountRoot p = Some root" and mt: "scopePathMatches p path"
  shows "at_or_below root path"
proof -
  note defs = scopePathMountRoot_def scopePathMatches_def Let_def
  have valid: "scopePathValid p" using root by (auto simp: defs split: if_splits)
  consider (top) "p = ''*'' \<or> p = ''/''"
    | (deep) d where "p = d @ ''/**''" "p \<noteq> ''*''" "p \<noteq> ''/''"
    | (shallow) d where "p = d @ ''/*''" "\<not> HasSuffix p ''/**''" "p \<noteq> ''*''" "p \<noteq> ''/''"
    | (glob) d where "p = d @ ''*''" "\<not> HasSuffix p ''/**''" "\<not> HasSuffix p ''/*''" "p \<noteq> ''*''" "p \<noteq> ''/''"
    | (exact) "\<not> HasSuffix p ''*''" "\<not> HasSuffix p ''/**''" "\<not> HasSuffix p ''/*''" "p \<noteq> ''*''" "p \<noteq> ''/''"
    unfolding HasSuffix_iff by blast
  then show ?thesis
  proof cases
    case top
    then show ?thesis using root valid by (simp add: defs at_or_below_def)
  next
    case deep
    then have "HasSuffix p ''/**''" by (auto simp: HasSuffix_iff)
    moreover have "TrimSuffix p ''/**'' = d" using deep by simp
    ultimately have "root = orRoot d" "path = p \<or> path = d \<or> HasPrefix path (d @ ''/'')"
      using root mt valid deep(2,3) unfolding defs by (simp_all split: if_splits)
    then show ?thesis
      by (metis HasPrefix_append append.assoc append_Cons at_or_below_orRoot deep(1) eq_Nil_appendI)
  next
    case shallow
    then have "HasSuffix p ''/*''" by (auto simp: HasSuffix_iff)
    moreover have "TrimSuffix p ''/*'' = d" using shallow by simp
    ultimately have "root = orRoot d" "path = p \<or> HasPrefix path (d @ ''/'')"
      using root mt valid shallow(2-) unfolding defs by (simp_all split: if_splits)
    then show ?thesis
      by (metis HasPrefix_append append.assoc append_Cons at_or_below_orRoot shallow(1) eq_Nil_appendI)
  next
    case glob
    then have "HasSuffix p ''*''" by (auto simp: HasSuffix_iff)
    moreover have "TrimSuffix p ''*'' = d" using glob by simp
    ultimately have r: "root = orRoot (before_last_slash d)" and m: "path = p \<or> HasPrefix path d"
      using root mt valid glob(2-) unfolding defs by (simp_all split: if_splits)
    have "HasPrefix p ''/''" using valid glob(4) by (auto simp: scopePathValid_def split: if_splits)
    then have "slash \<in> set d" using glob(1) by (cases d) (auto simp: HasPrefix_Cons gostr)
    then obtain x where "d = before_last_slash d @ slash # x" using before_last_slash_split by blast
    then have "HasPrefix d (before_last_slash d @ ''/'')"
      by (metis HasPrefix_iff append.assoc append_Cons append_Nil)
    moreover have "HasPrefix path d" using m glob(1) by auto
    ultimately show ?thesis using r HasPrefix_trans at_or_below_orRoot by metis
  next
    case exact
    then have "root = p" "path = p" using root mt valid unfolding defs by (simp_all split: if_splits)
    then show ?thesis by (simp add: at_or_below_def)
  qed
qed

text \<open>C20. The scope decision depends on the set of granted scopes alone, never on the order in which
  the map is visited; and a token whose grants for an action are all path grants with a
  mount root reaches only paths at or below one of those roots, even when it also holds the
  unscoped capability.\<close>

theorem scope_confinement:
  assumes "CHR '':'' \<notin> set resource"
    and "path_grant_set granted resource action \<noteq> {}"
    and "None \<notin> scopePathMountRoot ` path_grant_set granted resource action"
    and "scopeMatchesPath granted (resource @ '':'' @ action) path"
    and "set granted' = set granted"
  shows "(\<exists>p root. p \<in> path_grant_set granted resource action \<and> scopePathMountRoot p = Some root
      \<and> at_or_below root (TrimSpace path))
    \<and> scopeMatchesPath granted' (resource @ '':'' @ action) path"
proof
  have same: "path_grant_set granted' resource action = path_grant_set granted resource action"
    using assms(5) by (simp add: path_grant_set_def)
  show "scopeMatchesPath granted' (resource @ '':'' @ action) path"
    using assms(4,5) unfolding scopeMatchesPath_sets [OF assms(1)] same by simp
  let ?G = "path_grant_set granted resource action"
  have "grants_path ?G (TrimSpace path)"
    using assms(2,4) unfolding scopeMatchesPath_sets [OF assms(1)] Let_def by simp
  then consider "''*'' \<in> ?G" | p where "p \<in> ?G" "scopePathMatches p (TrimSpace path)"
    by (auto simp: grants_path_def)
  then show "\<exists>p root. p \<in> ?G \<and> scopePathMountRoot p = Some root \<and> at_or_below root (TrimSpace path)"
  proof cases
    case 1
    have "scopePathMountRoot ''*'' = Some ''/''" by (simp add: scopePathMountRoot_def scopePathValid_def)
    with 1 show ?thesis by (auto simp: at_or_below_def)
  next
    case 2
    with assms(3) obtain root where "scopePathMountRoot p = Some root" by (metis image_eqI not_None_eq)
    with 2 scopePathMatches_mount_root show ?thesis by blast
  qed
qed

lemma path_grant_set_code [code]:
  "path_grant_set granted resource action =
     set (List.map_filter (\<lambda>scope. pathScopeForRequired scope resource action) granted)"
  by (auto simp: path_grant_set_def List.map_filter_def image_def)

theorem scope_confinement_witness:
  "(\<exists>p root. p \<in> path_grant_set [''fs:read'', ''relayfile:fs:read:/a/*''] ''fs'' ''read''
      \<and> scopePathMountRoot p = Some root \<and> at_or_below root (TrimSpace ''/a/b''))
   \<and> scopeMatchesPath [''relayfile:fs:read:/a/*'', ''fs:read''] (''fs'' @ '':'' @ ''read'') ''/a/b''"
  by (rule scope_confinement) code_simp+

section \<open>The two resolvers agree\<close>

text \<open>
  The preflight of the HTTP server resolves permissions with the functions of \<^verbatim>\<open>acl.go\<close>, the
  handlers with those of the store.  They normalise paths differently; on canonical paths, without dot
  segments and white space at the ends of segments, they collect the same rules in the same order.
\<close>

definition plain_segments :: "string list \<Rightarrow> bool" where
  "plain_segments segs \<longleftrightarrow>
     segments_ok segs \<and> list_all (\<lambda>s. s \<noteq> ''.'' \<and> s \<noteq> ''..'' \<and> TrimSpace s = s) segs"

lemma plain_segments_simps [simp]:
  "plain_segments []"
  "plain_segments (s # segs) \<longleftrightarrow> s \<noteq> [] \<and> slash \<notin> set s \<and> s \<noteq> ''.'' \<and> s \<noteq> ''..'' \<and> TrimSpace s = s \<and> plain_segments segs"
  "plain_segments (xs @ ys) \<longleftrightarrow> plain_segments xs \<and> plain_segments ys"
  by (auto simp: plain_segments_def)

lemma plain_segments_ok: "plain_segments segs \<Longrightarrow> segments_ok segs"
  by (simp add: plain_segments_def)

lemma TrimSpace_id:
  "front_clean space_seqs s \<Longrightarrow> front_clean (map rev space_seqs) (rev s) \<Longrightarrow> TrimSpace s = s"
  by (simp add: TrimSpace_def strip_front_id)

lemma TrimSpace_back_clean: "TrimSpace s = s \<Longrightarrow> front_clean (map rev space_seqs) (rev s)"
  by (metis TrimSpace_def rev_rev_ident strip_front_clean)

lemma no_slash_space: "q \<in> set space_seqs \<Longrightarrow> slash \<notin> set q \<and> slash \<notin> set (rev q)"
  by (auto simp: space_seqs_def)

lemma front_clean_slash:
  assumes "front_clean qs r" and "\<And>q. q \<in> set qs \<Longrightarrow> slash \<notin> set q"
  shows "front_clean qs (r @ slash # x)"
  unfolding front_clean_def
proof (intro ballI impI notI)
  fix q assume q: "q \<in> set qs" "q \<noteq> []" "HasPrefix (r @ slash # x) q"
  then obtain y where y: "r @ slash # x = q @ y" by (auto simp: HasPrefix_iff)
  have "\<exists>z. r = q @ z"
    using y assms(2) [OF q(1)] by (auto simp: append_eq_append_conv2 Cons_eq_append_conv)
  then show False using assms(1) q by (auto simp: front_clean_def HasPrefix_iff)
qed

lemma TrimSpace_path_of: "plain_segments segs \<Longrightarrow> TrimSpace (path_of segs) = path_of segs"
proof (rule TrimSpace_id)
  show "front_clean space_seqs (path_of segs)"
    using no_slash_space by (fastforce simp: front_clean_def HasPrefix_iff path_of_def Cons_eq_append_conv)
  assume p: "plain_segments segs"
  show "front_clean (map rev space_seqs) (rev (path_of segs))"
  proof (cases segs rule: rev_cases)
    case Nil
    have "front_clean (map rev space_seqs) []" by (auto simp: front_clean_def HasPrefix_def)
    then have "front_clean (map rev space_seqs) ([] @ slash # [])"
      by (rule front_clean_slash) (use no_slash_space in auto)
    with Nil show ?thesis by simp
  next
    case (snoc xs s)
    then have "front_clean (map rev space_seqs) (rev s)" using p TrimSpace_back_clean by simp
    then show ?thesis
      unfolding snoc path_of_snoc using no_slash_space by (auto intro!: front_clean_slash)
  qed
qed

lemma resolve_segments_plain: "plain_segments segs \<Longrightarrow> resolve_segments rs segs = rs @ segs"
  by (induction segs arbitrary: rs) simp_all

lemma trim_slashes_clean: "last p \<noteq> slash \<Longrightarrow> trim_slashes p = p"
  by (cases p rule: rev_cases) (auto simp: trim_slashes_def)

lemma normalizeACLPath_plain [simp]: "plain_segments segs \<Longrightarrow> normalizeACLPath (path_of segs) = path_of segs"
proof -
  assume p: "plain_segments segs"
  have "Split (path_of segs) slash = [] # (if segs = [] then [[]] else segs)"
    using Split_segments [of segs] p plain_segments_ok by (auto simp: path_of_def)
  then have "''/'' @ Join (resolve_segments [] (Split (path_of segs) slash)) ''/'' = path_of segs"
    using p by (auto simp: resolve_segments_plain path_of_def)
  moreover have "HasPrefix (path_of segs) ''/''" "path_of segs \<noteq> []" by (auto simp: path_of_def HasPrefix_Cons)
  moreover have "path_of segs = ''/'' \<or> last (path_of segs) \<noteq> slash"
    using clean_path_of [OF plain_segments_ok [OF p]] by (auto simp: clean_path_def)
  ultimately show ?thesis
    using TrimSpace_path_of [OF p] trim_slashes_clean [of "path_of segs"]
    by (auto simp: normalizeACLPath_def Let_def)
qed

lemma joinACLPath_plain: "plain_segments (ds @ [c]) \<Longrightarrow> joinACLPath (path_of ds) c = path_of (ds @ [c])"
proof -
  assume p: "plain_segments (ds @ [c])"
  then have d: "normalizeACLPath (path_of ds) = path_of ds" by simp
  show ?thesis
  proof (cases "ds = []")
    case True
    then show ?thesis using p normalizeACLPath_plain [of "[c]"] d by (simp add: joinACLPath_def path_of_def)
  next
    case False
    then have "path_of ds \<noteq> ''/''" using p by (cases ds) (auto simp: path_of_concat)
    moreover have "path_of ds @ ''/'' @ c = path_of (ds @ [c])" using False by (simp add: path_of_snoc)
    ultimately show ?thesis using d normalizeACLPath_plain [OF p] by (simp add: joinACLPath_def Let_def)
  qed
qed

lemma ancestor_dirs_acl_plain:
  "plain_segments (ds @ parts) \<Longrightarrow>
   ancestor_dirs_acl (if ds = [] then '''' else path_of ds) parts =
     map (\<lambda>i. path_of (ds @ take (Suc i) parts)) [0..<length parts]"
proof (induction parts arbitrary: ds)
  case (Cons part parts)
  have "path_of ds \<noteq> []" by (simp add: path_of_def)
  then have "ancestor_dirs_acl (if ds = [] then '''' else path_of ds) (part # parts) =
      path_of (ds @ [part]) # ancestor_dirs_acl (path_of (ds @ [part])) parts"
    using Cons.prems joinACLPath_plain [of ds part] by (auto simp: Let_def path_of_def)
  then show ?case
    using Cons.IH [of "ds @ [part]"] Cons.prems by (simp add: upt_Suc_shift del: upt_Suc)
qed simp

lemma ancestorDirectoriesACL_plain:
  assumes "plain_segments (segs @ [s])"
  shows "ancestorDirectoriesACL (path_of (segs @ [s])) = ancestorDirectories (path_of (segs @ [s]))"
proof -
  have "Split (path_of (segs @ [s])) slash = [] # segs @ [s]"
    using Split_segments [of "segs @ [s]"] assms plain_segments_ok [OF assms] by (simp add: path_of_def)
  then have "filter (\<lambda>p. p \<noteq> '''') (Split (path_of (segs @ [s])) slash) = segs @ [s]"
    using assms by (auto simp: plain_segments_def segments_ok_def list_all_iff intro!: filter_True)
  then have "ancestorDirectoriesACL (path_of (segs @ [s])) = ''/'' # ancestor_dirs_acl '''' segs"
    using assms by (simp add: ancestorDirectoriesACL_def del: plain_segments_simps)
  also have "\<dots> = map (\<lambda>i. path_of (take i segs)) [0..<Suc (length segs)]"
    using ancestor_dirs_acl_plain [of "[]" segs] assms by (simp add: upt_Suc_shift del: upt_Suc)
  finally show ?thesis using ancestorDirectories_segments plain_segments_ok [OF assms] by simp
qed

definition permissions_at :: "(string \<Rightarrow> File option) \<Rightarrow> string \<Rightarrow> string list option" where
  "permissions_at lookup p = map_option (\<lambda>f. sem_Permissions (f_Semantics f)) (lookup p)"

text \<open>The permission resolver of the HTTP preflight and that of the store collect the same rules
  in the same order for every canonical path, whatever the files are, with and without the target's own
  rules.\<close>

theorem permission_resolvers_agree:
  assumes "plain_segments segs" and "segs \<noteq> []"
  shows "resolveFilePermissionsWithTarget (permissions_at lookup) (path_of segs) includeTarget =
    resolve_permissions lookup (path_of segs) includeTarget"
proof -
  obtain xs s where segs: "segs = xs @ [s]" using assms(2) by (cases segs rule: rev_cases) auto
  let ?rules = "\<lambda>p. case permissions_at lookup p of None \<Rightarrow> [] | Some rules \<Rightarrow> rules"
  have rules: "?rules p = (case lookup p of None \<Rightarrow> [] | Some f \<Rightarrow> sem_Permissions (f_Semantics f))" for p
    by (simp add: permissions_at_def split: option.splits)
  have marker: "plain_segments [relayfileACLMarkerFile]" by code_simp
  have join: "joinACLPath dir relayfileACLMarkerFile = joinPath dir DirectoryPermissionMarkerFile"
    if "dir \<in> set (ancestorDirectories (path_of segs))" for dir
  proof -
    have "dir \<in> set (map (\<lambda>i. path_of (take i xs)) [0..<Suc (length xs)])"
      using that ancestorDirectories_segments [of xs s] plain_segments_ok [OF assms(1)] segs by metis
    then obtain i where dir: "dir = path_of (take i xs)" by (auto simp del: upt_Suc)
    have p: "plain_segments (take i xs)"
      using assms(1) segs by (metis append_take_drop_id plain_segments_simps(3))
    have "joinPath dir DirectoryPermissionMarkerFile = path_of (take i xs @ [DirectoryPermissionMarkerFile])"
      unfolding dir using joinPath_path_of plain_segments_ok [OF p] by blast
    moreover have "joinACLPath dir relayfileACLMarkerFile = path_of (take i xs @ [relayfileACLMarkerFile])"
      using joinACLPath_plain p marker dir by simp
    ultimately show ?thesis by (simp add: relayfileACLMarkerFile_def DirectoryPermissionMarkerFile_def)
  qed
  have "ancestorDirectoriesACL (path_of segs) = ancestorDirectories (path_of segs)"
    using ancestorDirectoriesACL_plain assms(1) segs by blast
  moreover have "map (\<lambda>dir. if joinACLPath dir relayfileACLMarkerFile = path_of segs then []
        else case lookup (joinACLPath dir relayfileACLMarkerFile) of None \<Rightarrow> []
             | Some f \<Rightarrow> sem_Permissions (f_Semantics f)) (ancestorDirectories (path_of segs)) =
      map (marker_permissions lookup (path_of segs)) (ancestorDirectories (path_of segs))"
    by (rule map_cong) (simp_all add: marker_permissions_def join Let_def)
  ultimately show ?thesis
    using assms(1) normalizePath_path_of [OF plain_segments_ok [OF assms(1)]]
    by (simp add: resolveFilePermissionsWithTarget_def resolve_permissions_def Let_def rules del: map_eq_conv)
qed

theorem permission_resolvers_agree_witness:
  "resolveFilePermissionsWithTarget (permissions_at (map_of
      [(''/x/.relayfile.acl'', zero_file\<lparr>f_Semantics := zero_semantics\<lparr>sem_Permissions := [''deny:agent:a'']\<rparr>\<rparr>)]))
     (path_of [''x'', ''y'']) True =
   resolve_permissions (map_of
      [(''/x/.relayfile.acl'', zero_file\<lparr>f_Semantics := zero_semantics\<lparr>sem_Permissions := [''deny:agent:a'']\<rparr>\<rparr>)])
     (path_of [''x'', ''y'']) True"
  by (rule permission_resolvers_agree) code_simp+

end
