(* ===== verification/Gateway.thy ===== *)
theory Gateway
  imports Scopes GoTime GoHash
begin

text \<open>
  The guards in front of the API of \<^verbatim>\<open>src/internal/httpapi\<close>: the signature, the freshness window and the
  replay table of internal requests, the rate limiter, and the cache of signing keys.

  What is outside the program is an argument: the answer of the key server (\<open>fetched\<close>), and
  the keys themselves (type \<open>'k\<close>).  Theorems: exactly which internal requests can be
  replayed; how many requests of one client pass in a window; how old the keys can be.
\<close>

unbundle bit_operations_syntax

section \<open>HMAC-SHA-256\<close>

definition word_bytes :: "w32 \<Rightarrow> nat list" where
  "word_bytes w = map (\<lambda>i. unat w div 256 ^ (3 - i) mod 256) [0..<4]"

definition sha256_sum :: "nat list \<Rightarrow> nat list" where
  "sha256_sum bs = concat (map word_bytes (sha256_blocks sha256_H0 (words_of_bytes (sha256_pad bs))))"

definition hmac_key :: "nat list \<Rightarrow> nat list" where
  "hmac_key key = (let k = (if length key > 64 then sha256_sum key else key) in k @ replicate (64 - length k) 0)"

definition hmac_sha256 :: "nat list \<Rightarrow> nat list \<Rightarrow> nat list" where
  "hmac_sha256 key msg =
     (let k = hmac_key key
      in sha256_sum (map (\<lambda>b. b XOR 0x5c) k @ sha256_sum (map (\<lambda>b. b XOR 0x36) k @ msg)))"

definition hex_bytes :: "nat list \<Rightarrow> string" where
  "hex_bytes bs = concat (map (\<lambda>b. [hex_digit (b div 16 mod 16), hex_digit (b mod 16)]) bs)"

definition internal_signature :: "string \<Rightarrow> string \<Rightarrow> string \<Rightarrow> string" where
  "internal_signature secret timestamp body =
     hex_bytes (hmac_sha256 (map of_char secret) (map of_char (timestamp @ [CHR 0x0A] @ body)))"

section \<open>Internal requests\<close>

text \<open>\<^verbatim>\<open>delta = -delta\<close> is a negation of \<^verbatim>\<open>int64\<close>, which wraps on the most negative number.\<close>

definition verifyInternalHMAC ::
  "string \<Rightarrow> string \<Rightarrow> string \<Rightarrow> string \<Rightarrow> instant \<Rightarrow> duration \<Rightarrow> authError option" where
  "verifyInternalHMAC secret timestamp signature body now maxSkew =
     (if timestamp = '''' \<or> signature = '''' then Some (unauthorized ''missing internal auth headers'')
      else case ParseRFC3339Nano timestamp of
             None \<Rightarrow> Some (unauthorized ''invalid internal timestamp'')
           | Some ts \<Rightarrow>
               let delta = TimeSub now ts;
                   delta = (if delta < 0 then wrap64 (- delta) else delta)
               in if delta > maxSkew then Some (unauthorized ''internal request outside replay window'')
                  else if ToLower signature \<noteq> internal_signature secret timestamp body
                  then Some (unauthorized ''internal signature mismatch'')
                  else None)"

definition replay_key :: "string \<Rightarrow> string \<Rightarrow> string" where
  "replay_key timestamp signature =
     TrimSpace (ToLower timestamp) @ ''|'' @ TrimSpace (ToLower signature)"

definition replay_ttl :: "duration \<Rightarrow> duration" where
  "replay_ttl internalMaxSkew = (if internalMaxSkew \<le> 0 then 5 * Minute else internalMaxSkew)"

definition markInternalReplaySeen ::
  "duration \<Rightarrow> string \<Rightarrow> string \<Rightarrow> instant \<Rightarrow> (string, instant) gomap \<Rightarrow> (string, instant) gomap \<times> bool" where
  "markInternalReplaySeen internalMaxSkew timestamp signature now seen =
     (let key = replay_key timestamp signature
      in if key = ''|'' then (seen, False)
         else let seen = filter (\<lambda>(k, expiresAt). now < expiresAt) seen
              in if (case map_of seen key of Some expiresAt \<Rightarrow> now < expiresAt | None \<Rightarrow> False)
                 then (seen, False)
                 else (mput key (now + replay_ttl internalMaxSkew) seen, True))"

record internal_request =
  ir_timestamp :: string
  ir_signature :: string
  ir_body :: string

text \<open>The guard of \<^verbatim>\<open>handleInternalWebhookEnvelope\<close>: the error, or nothing when the body goes on to
  be ingested.\<close>

definition internal_guard ::
  "string \<Rightarrow> duration \<Rightarrow> instant \<Rightarrow> internal_request \<Rightarrow> (string, instant) gomap \<Rightarrow>
   (string, instant) gomap \<times> authError option" where
  "internal_guard secret maxSkew now req seen =
     (case verifyInternalHMAC secret (ir_timestamp req) (ir_signature req) (ir_body req) now maxSkew of
        Some err \<Rightarrow> (seen, Some err)
      | None \<Rightarrow>
          (case markInternalReplaySeen maxSkew (ir_timestamp req) (ir_signature req) now seen of
             (seen, ok) \<Rightarrow>
               (seen, if ok then None else Some (unauthorized ''internal request replay detected''))))"

section \<open>The rate limiter\<close>

record rateEntry =
  re_count :: int
  re_resetAt :: instant

definition rate_allow ::
  "duration \<Rightarrow> int \<Rightarrow> string \<Rightarrow> instant \<Rightarrow> (string, rateEntry) gomap \<Rightarrow> (string, rateEntry) gomap \<times> bool" where
  "rate_allow window limit key now entries =
     (case map_of entries key of
        None \<Rightarrow> (mput key \<lparr>re_count = 1, re_resetAt = now + window\<rparr> entries, True)
      | Some entry \<Rightarrow>
          if re_resetAt entry < now then
            (mput key \<lparr>re_count = 1, re_resetAt = now + window\<rparr> entries, True)
          else if re_count entry \<ge> limit then (entries, False)
          else (mput key (entry\<lparr>re_count := re_count entry + 1\<rparr>) entries, True))"

section \<open>Signing keys\<close>

record 'k cachedJWKS =
  jw_keys :: "(string, 'k) gomap"
  jw_fetchedAt :: instant

type_synonym 'k jwksCache = "(string, 'k cachedJWKS) gomap"

definition jwksCacheTTL :: duration where
  "jwksCacheTTL = 5 * Minute"

definition jwksStaleGraceWindow :: duration where
  "jwksStaleGraceWindow = Minute"

definition keysFor ::
  "string \<Rightarrow> string \<Rightarrow> instant \<Rightarrow> (string, 'k) gomap option \<Rightarrow> 'k jwksCache \<Rightarrow>
   'k jwksCache \<times> (authError + (string, 'k) gomap)" where
  "keysFor url kid now fetched c =
     (let cached = map_of c url;
          fresh = (case cached of
                     Some entry \<Rightarrow> TimeSub now (jw_fetchedAt entry) < jwksCacheTTL
                       \<and> (kid = '''' \<or> map_of (jw_keys entry) kid \<noteq> None)
                   | None \<Rightarrow> False)
      in if fresh then (c, Inr (jw_keys (the cached)))
         else case fetched of
                Some keys \<Rightarrow> (mput url \<lparr>jw_keys = keys, jw_fetchedAt = now\<rparr> c, Inr keys)
              | None \<Rightarrow>
                  (case cached of
                     Some entry \<Rightarrow>
                       if TimeSub now (jw_fetchedAt entry) \<le> jwksCacheTTL + jwksStaleGraceWindow
                       then (c, Inr (jw_keys entry))
                       else (c, Inl \<lparr>ae_status = 503, ae_code = ''unavailable'', ae_message = ''jwks unreachable''\<rparr>)
                   | None \<Rightarrow> (c, Inl \<lparr>ae_status = 503, ae_code = ''unavailable'', ae_message = ''jwks unreachable''\<rparr>)))"

definition lookupRSAPublicKey ::
  "string \<Rightarrow> string \<Rightarrow> instant \<Rightarrow> (string, 'k) gomap option \<Rightarrow> 'k jwksCache \<Rightarrow>
   'k jwksCache \<times> (authError + 'k)" where
  "lookupRSAPublicKey url kid now fetched c =
     (if TrimSpace kid = '''' then (c, Inl (unauthorized ''missing jwt kid''))
      else case keysFor url kid now fetched c of
             (c, Inl err) \<Rightarrow> (c, Inl err)
           | (c, Inr keys) \<Rightarrow>
               (case map_of keys kid of
                  None \<Rightarrow> (c, Inl (unauthorized ''unknown jwt kid''))
                | Some publicKey \<Rightarrow> (c, Inr publicKey)))"

section \<open>Which requests can be replayed\<close>

lemma verifyInternalHMAC_None:
  "verifyInternalHMAC secret timestamp signature body now skew = None \<longleftrightarrow>
     timestamp \<noteq> '''' \<and> signature \<noteq> '''' \<and> ToLower signature = internal_signature secret timestamp body
     \<and> (\<exists>ts. ParseRFC3339Nano timestamp = Some ts \<and>
          (let delta = TimeSub now ts in (if delta < 0 then wrap64 (- delta) else delta) \<le> skew))"
  by (auto simp: verifyInternalHMAC_def Let_def split: option.splits)

lemma late_request_refused:
  assumes "ts + skew < now" and "skew < 2 ^ 63 - 1" and "0 \<le> skew"
  shows "\<not> (if TimeSub now ts < 0 then wrap64 (- TimeSub now ts) else TimeSub now ts) \<le> skew"
  using assms by (simp add: TimeSub_def min_def max_def)

lemma map_of_filter_live:
  "wf_map m \<Longrightarrow> map_of (filter (\<lambda>(k, e). now < e) m) k =
     (case map_of m k of Some e \<Rightarrow> if now < e then Some e else None | None \<Rightarrow> None)"
  for now :: instant
proof (induction m)
  case (Cons kv m)
  obtain k' e' where kv: "kv = (k', e')" by (cases kv)
  have "map_of m k' = None" using Cons.prems by (auto simp: wf_map_def kv map_of_eq_None_iff)
  with Cons kv show ?case by (auto simp: wf_map_def split: option.splits)
qed simp

lemma mark_sound:
  assumes "wf_map seen"
  shows "markInternalReplaySeen skew timestamp signature now seen =
    (let key = replay_key timestamp signature; live = filter (\<lambda>(k, e). now < e) seen
     in if key = ''|'' then (seen, False)
        else if map_of live key \<noteq> None then (live, False)
        else (mput key (now + replay_ttl skew) live, True))"
  using map_of_filter_live [OF assms]
  by (auto simp: markInternalReplaySeen_def Let_def split: option.splits if_splits)

lemma guard_wf: "wf_map seen \<Longrightarrow> wf_map (fst (internal_guard secret skew now req seen))"
  by (auto simp: internal_guard_def mark_sound Let_def split: option.splits prod.splits if_splits)

lemma guard_keeps_entry:
  assumes "wf_map seen" and "map_of seen key = Some e" and "expiry \<le> e" and "now < expiry"
  shows "\<exists>e'. map_of (fst (internal_guard secret skew now req seen)) key = Some e' \<and> expiry \<le> e'"
proof -
  have live: "map_of (filter (\<lambda>(k, e). now < e) seen) key = Some e"
    using assms by (simp add: map_of_filter_live)
  then show ?thesis
    using assms
    by (auto simp: internal_guard_def mark_sound Let_def gomap_simps split: option.splits prod.splits if_splits)
qed

definition later_requests ::
  "string \<Rightarrow> duration \<Rightarrow> (instant \<times> internal_request) list \<Rightarrow> (string, instant) gomap \<Rightarrow> (string, instant) gomap" where
  "later_requests secret skew = fold (\<lambda>(t, r) seen. fst (internal_guard secret skew t r seen))"

lemma later_requests_wf: "wf_map seen \<Longrightarrow> wf_map (later_requests secret skew others seen)"
  unfolding later_requests_def by (induction others arbitrary: seen) (auto simp: guard_wf)

lemma later_requests_keep:
  assumes "wf_map seen" and "map_of seen key = Some e" and "expiry \<le> e"
    and "list_all (\<lambda>(t, r). t \<le> horizon) others" and "horizon < expiry"
  shows "\<exists>e'. map_of (later_requests secret skew others seen) key = Some e' \<and> expiry \<le> e'"
  using assms
proof (induction others arbitrary: seen e)
  case (Cons x others)
  obtain t r where x: "x = (t, r)" by (cases x)
  then have "t < expiry" using Cons.prems by auto
  from guard_keeps_entry [OF Cons.prems(1-3) this]
  obtain e' where "map_of (fst (internal_guard secret skew t r seen)) key = Some e'" "expiry \<le> e'" by blast
  from Cons.IH [OF guard_wf [OF Cons.prems(1)] this] Cons.prems
  show ?case by (simp add: later_requests_def x)
qed (auto simp: later_requests_def)

lemma guard_accepts:
  assumes "wf_map seen"
  shows "snd (internal_guard secret skew now req seen) = None \<longleftrightarrow>
    verifyInternalHMAC secret (ir_timestamp req) (ir_signature req) (ir_body req) now skew = None
    \<and> replay_key (ir_timestamp req) (ir_signature req) \<noteq> ''|''
    \<and> (case map_of seen (replay_key (ir_timestamp req) (ir_signature req)) of Some e \<Rightarrow> e \<le> now | None \<Rightarrow> True)"
  using assms by (auto simp: internal_guard_def mark_sound map_of_filter_live Let_def split: option.splits prod.splits if_splits)

lemma guard_records:
  assumes "wf_map seen" and "internal_guard secret skew now req seen = (seen1, None)"
  shows "map_of seen1 (replay_key (ir_timestamp req) (ir_signature req)) = Some (now + replay_ttl skew)"
  using assms by (auto simp: internal_guard_def mark_sound Let_def gomap_simps split: option.splits prod.splits if_splits)

text \<open>C36. An accepted internal request can be replayed, after whatever other requests, exactly when
  its timestamp is not before the server's clock at its first acceptance.  So requests of a sender
  whose clock is behind are accepted once and never again, whatever traffic comes between; those of
  a sender whose clock is ahead outlive their entry in the replay table and are accepted a
  second time.\<close>

theorem internal_replay_exact:
  assumes wf: "wf_map seen" and skew: "0 < skew" "skew < 2 ^ 63 - 1"
    and first: "internal_guard secret skew now req seen = (seen1, None)"
    and ts: "ParseRFC3339Nano (ir_timestamp req) = Some ts"
  shows "(\<exists>others later. now \<le> later \<and> list_all (\<lambda>(t, r). t \<le> later) others
      \<and> snd (internal_guard secret skew later req (later_requests secret skew others seen1)) = None)
    \<longleftrightarrow> now \<le> ts"
proof
  let ?key = "replay_key (ir_timestamp req) (ir_signature req)"
  have wf1: "wf_map seen1" using guard_wf [OF wf] first by (metis fst_conv)
  have ttl: "replay_ttl skew = skew" using skew by (simp add: replay_ttl_def)
  have rec: "map_of seen1 ?key = Some (now + skew)" using guard_records [OF wf first] ttl by simp
  {
    assume "\<exists>others later. now \<le> later \<and> list_all (\<lambda>(t, r). t \<le> later) others
      \<and> snd (internal_guard secret skew later req (later_requests secret skew others seen1)) = None"
    then obtain others later where o: "list_all (\<lambda>(t, r). t \<le> later) others"
      and acc: "snd (internal_guard secret skew later req (later_requests secret skew others seen1)) = None" by blast
    note acc' = acc [unfolded guard_accepts [OF later_requests_wf [OF wf1]]]
    have "later \<le> ts + skew"
    proof (rule ccontr)
      assume "\<not> later \<le> ts + skew"
      then show False
        using acc' late_request_refused [of ts skew later] skew ts by (simp add: verifyInternalHMAC_None Let_def)
    qed
    moreover have "now + skew \<le> later"
    proof (rule ccontr)
      assume "\<not> now + skew \<le> later"
      then have lt: "later < now + skew" by simp
      from later_requests_keep [OF wf1 rec order_refl o lt, of secret skew] acc' lt show False by auto
    qed
    ultimately show "now \<le> ts" by simp
  }
  {
    assume le: "now \<le> ts"
    define later where "later = max (now + skew) ts"
    have "snd (internal_guard secret skew now req seen) = None" using first by simp
    note acc = this [unfolded guard_accepts [OF wf]]
    have "(let delta = TimeSub later ts in (if delta < 0 then wrap64 (- delta) else delta) \<le> skew)"
      using le skew by (auto simp: later_def TimeSub_def max_def min_def)
    then have "snd (internal_guard secret skew later req (later_requests secret skew [] seen1)) = None"
      using acc ts rec by (auto simp: guard_accepts [OF wf1] later_requests_def verifyInternalHMAC_None later_def)
    moreover have "now \<le> later" using skew by (simp add: later_def)
    ultimately show "\<exists>others later. now \<le> later \<and> list_all (\<lambda>(t, r). t \<le> later) others
        \<and> snd (internal_guard secret skew later req (later_requests secret skew others seen1)) = None"
      by (intro exI [of _ "[]"] exI [of _ later]) simp
  }
qed

lemma hex_digit_lower: "n < 16 \<Longrightarrow> lower_char (hex_digit n) = hex_digit n"
  by (auto simp: hex_digit_def lower_char_def Let_def of_char_of)

lemma internal_signature_lower: "ToLower (internal_signature secret timestamp body) = internal_signature secret timestamp body"
  by (simp add: internal_signature_def hex_bytes_def ToLower_def map_concat hex_digit_lower comp_def)

lemma sha256_round_length: "length (sha256_round kw hs) = length hs"
  by (cases "(kw, hs)" rule: sha256_round.cases) (simp_all add: Let_def)

lemma sha256_block_length: "length (sha256_block hs ws) = length hs"
proof -
  have "length (fold sha256_round kws hs) = length hs" for kws
    by (induction kws arbitrary: hs) (simp_all add: sha256_round_length)
  then show ?thesis by (simp add: sha256_block_def)
qed

lemma sha256_blocks_length: "length (sha256_blocks hs ws) = length hs"
  by (induction hs ws rule: sha256_blocks.induct) (subst sha256_blocks.simps, simp add: sha256_block_length)

lemma internal_signature_nonempty: "internal_signature secret timestamp body \<noteq> ''''"
proof -
  have "sha256_sum bs \<noteq> []" for bs
    using sha256_blocks_length [of sha256_H0 "words_of_bytes (sha256_pad bs)"]
    by (cases "sha256_blocks sha256_H0 (words_of_bytes (sha256_pad bs))")
       (auto simp: sha256_sum_def word_bytes_def sha256_H0_def)
  then show ?thesis by (simp add: internal_signature_def hex_bytes_def hmac_sha256_def Let_def)
qed

definition sample_request :: internal_request where
  "sample_request = \<lparr>ir_timestamp = ''2024-01-01T00:00:00Z'',
     ir_signature = internal_signature ''key'' ''2024-01-01T00:00:00Z'' ''{}'', ir_body = ''{}''\<rparr>"

lemma sample_request_accepted:
  assumes "now = 1704067200 * Second"
  shows "snd (internal_guard ''key'' (5 * Minute) now sample_request []) = None"
    and "ParseRFC3339Nano (ir_timestamp sample_request) = Some now"
proof -
  show ts: "ParseRFC3339Nano (ir_timestamp sample_request) = Some now"
  proof -
    have "ParseRFC3339Nano ''2024-01-01T00:00:00Z'' = Some 1704067200000000000" by code_simp
    then show ?thesis by (simp add: assms sample_request_def Second_def)
  qed
  have "TrimSpace (ToLower ''2024-01-01T00:00:00Z'') = ''2024-01-01t00:00:00z''" by code_simp
  then have "replay_key (ir_timestamp sample_request) (ir_signature sample_request) \<noteq> ''|''"
    by (simp add: replay_key_def sample_request_def)
  then show "snd (internal_guard ''key'' (5 * Minute) now sample_request []) = None"
    using ts internal_signature_lower internal_signature_nonempty
    by (simp add: guard_accepts verifyInternalHMAC_None TimeSub_def Minute_def Second_def)
       (simp add: sample_request_def)
qed

theorem internal_replay_exact_witness:
  "\<exists>others later. 1704067200 * Second \<le> later \<and> list_all (\<lambda>(t, r). t \<le> later) others
     \<and> snd (internal_guard ''key'' (5 * Minute) later sample_request (later_requests ''key'' (5 * Minute) others
          (fst (internal_guard ''key'' (5 * Minute) (1704067200 * Second) sample_request [])))) = None"
  using internal_replay_exact [of "[]" "5 * Minute" "''key''" "1704067200 * Second" sample_request
      "fst (internal_guard ''key'' (5 * Minute) (1704067200 * Second) sample_request [])" "1704067200 * Second"]
    sample_request_accepted [OF refl]
  by (simp add: prod_eq_iff Minute_def Second_def)

section \<open>Rate limiting\<close>

text \<open>How many of a list of requests of one client, at the given stamps, are let through.\<close>

fun admitted :: "duration \<Rightarrow> int \<Rightarrow> string \<Rightarrow> instant list \<Rightarrow> (string, rateEntry) gomap \<Rightarrow> int" where
  "admitted window limit key [] entries = 0"
| "admitted window limit key (now # stamps) entries =
     (case rate_allow window limit key now entries of
        (entries, ok) \<Rightarrow> (if ok then 1 else 0) + admitted window limit key stamps entries)"

lemma admitted_one_window:
  assumes "map_of entries key = Some entry" and "\<forall>t \<in> set stamps. t \<le> re_resetAt entry"
  shows "admitted window limit key stamps entries \<le> max 0 (limit - re_count entry)"
  using assms
proof (induction stamps arbitrary: entries entry)
  case (Cons now stamps)
  show ?case
  proof (cases "re_count entry \<ge> limit")
    case True
    then show ?thesis using Cons.IH [OF Cons.prems(1)] Cons.prems by (simp add: rate_allow_def)
  next
    case False
    let ?e = "entry\<lparr>re_count := re_count entry + 1\<rparr>"
    have "admitted window limit key stamps (mput key ?e entries) \<le> max 0 (limit - re_count ?e)"
      using Cons by (intro Cons.IH) (auto simp: gomap_simps)
    with False Cons.prems show ?thesis by (simp add: rate_allow_def)
  qed
qed simp

lemma admitted_two_windows:
  assumes "1 \<le> limit" and "\<forall>t \<in> set stamps. start \<le> t \<and> t \<le> start + window"
  shows "admitted window limit key stamps entries \<le>
    limit + (case map_of entries key of None \<Rightarrow> 0 | Some entry \<Rightarrow> max 0 (limit - re_count entry))"
  using assms
proof (induction stamps arbitrary: entries)
  case (Cons now stamps)
  have reset: "1 + admitted window limit key stamps (mput key \<lparr>re_count = 1, re_resetAt = now + window\<rparr> entries) \<le> limit"
    using admitted_one_window [of "mput key \<lparr>re_count = 1, re_resetAt = now + window\<rparr> entries" key
        "\<lparr>re_count = 1, re_resetAt = now + window\<rparr>" stamps window limit] Cons.prems
    by (force simp: gomap_simps)
  show ?case
  proof (cases "map_of entries key")
    case None
    then show ?thesis using reset by (simp add: rate_allow_def)
  next
    case (Some entry)
    consider "re_resetAt entry < now" | "\<not> re_resetAt entry < now" "limit \<le> re_count entry"
      | "\<not> re_resetAt entry < now" "\<not> limit \<le> re_count entry" by blast
    then show ?thesis
    proof cases
      case 1
      then show ?thesis using reset Some by (simp add: rate_allow_def)
    next
      case 2
      then show ?thesis using Cons.IH [of entries] Cons.prems Some by (simp add: rate_allow_def)
    next
      case 3
      then show ?thesis
        using Cons.IH [of "mput key (entry\<lparr>re_count := re_count entry + 1\<rparr>) entries"] Cons.prems Some
        by (simp add: rate_allow_def gomap_simps)
    qed
  qed
qed (simp split: option.splits)

text \<open>In any interval as long as the limiter's window, a client gets at most twice the limit of
  requests through, whatever the limiter has recorded; and at most the limit when it has nothing
  recorded for the client.\<close>

theorem rate_limit_bound:
  assumes "1 \<le> limit" and "list_all (\<lambda>t. start \<le> t \<and> t \<le> start + window) stamps"
    and "case map_of entries key of None \<Rightarrow> True | Some entry \<Rightarrow> 0 \<le> re_count entry"
  shows "admitted window limit key stamps entries \<le> 2 * limit
    \<and> admitted window limit key stamps (mdel key entries) \<le> limit"
  using admitted_two_windows [of limit stamps start window key entries]
    admitted_two_windows [of limit stamps start window key "mdel key entries"] assms
  by (auto simp: list_all_iff gomap_simps split: option.splits)

theorem rate_limit_bound_witness:
  "admitted 10 2 ''a'' [0, 1, 2] [] \<le> 2 * 2 \<and> admitted 10 2 ''a'' [0, 1, 2] (mdel ''a'' []) \<le> 2"
  by (rule rate_limit_bound [of 2 0 10]) simp_all

section \<open>How old signing keys can be\<close>

text \<open>A cache whose entries are answers of the key server, as recorded in \<open>hist\<close>.\<close>

definition jwks_from :: "(instant \<times> string \<times> (string, 'k) gomap) set \<Rightarrow> 'k jwksCache \<Rightarrow> bool" where
  "jwks_from hist c \<longleftrightarrow> (\<forall>url entry. map_of c url = Some entry \<longrightarrow> (jw_fetchedAt entry, url, jw_keys entry) \<in> hist)"

definition fetch_log :: "string \<Rightarrow> instant \<Rightarrow> (string, 'k) gomap option \<Rightarrow> (instant \<times> string \<times> (string, 'k) gomap) set" where
  "fetch_log url now fetched = (case fetched of None \<Rightarrow> {} | Some keys \<Rightarrow> {(now, url, keys)})"

lemma keysFor_from:
  "jwks_from hist c \<Longrightarrow> jwks_from (hist \<union> fetch_log url now fetched) (fst (keysFor url kid now fetched c))"
  by (auto simp: jwks_from_def keysFor_def fetch_log_def Let_def gomap_simps split: option.splits if_splits)

lemma keysFor_age:
  assumes "jwks_from hist c" and "keysFor url kid now fetched c = (c', Inr keys)"
  shows "\<exists>at. (at, url, keys) \<in> hist \<union> fetch_log url now fetched \<and> TimeSub now at \<le> 6 * Minute"
  using assms by (auto simp: jwks_from_def keysFor_def fetch_log_def Let_def jwksCacheTTL_def
      jwksStaleGraceWindow_def TimeSub_def Minute_def Second_def split: option.splits if_splits) (force+)?

end
