(* ===== verification/Handlers.thy ===== *)
theory Handlers
  imports Authz Gateway Listing Feeds Forks
begin

text \<open>
  The request path of \<^verbatim>\<open>src/internal/httpapi/server.go\<close>: routing, the authorisation steps in
  front of every workspace route, and the handlers that read, write, delete and commit files or
  list what a caller may see.

  A handler takes the decoded request and the store and returns the store and either an error reply
  or the status and the body.  The clock readings of one request are one instant.  What
  \<^verbatim>\<open>encoding/json\<close> makes of a file's content is the argument \<open>decode\<close>: the permissions in it,
  or the empty list; strings are taken to be valid UTF-8, which \<^verbatim>\<open>json.Marshal\<close> leaves alone.
\<close>

section \<open>Requests and replies\<close>

datatype http_error =
    HttpError nat string string
  | StoreHttpError nat string store_error

record http_request =
  hq_path :: string
  hq_forkId :: string
  hq_ifMatch :: string
  hq_cursor :: string
  hq_decode :: string
  hq_pathPrefix :: string
  hq_correlationID :: string

fun writeForkAwareError :: "store_error \<Rightarrow> http_error" where
  "writeForkAwareError ErrNotFound = StoreHttpError 404 ''not_found'' ErrNotFound"
| "writeForkAwareError ErrForkExpired = StoreHttpError 404 ''not_found'' ErrForkExpired"
| "writeForkAwareError ErrInvalidInput = StoreHttpError 400 ''bad_request'' ErrInvalidInput"
| "writeForkAwareError err = StoreHttpError 500 ''internal_error'' err"

definition normalizeRoutePath :: "string \<Rightarrow> string" where
  "normalizeRoutePath path =
     (let path = TrimSpace path
      in if path = '''' then ''/''
         else let path = (if \<not> HasPrefix path ''/'' then ''/'' @ path else path)
              in if length path > 1 then TrimSuffix path ''/'' else path)"

definition withinBasePath :: "string \<Rightarrow> string \<Rightarrow> bool" where
  "withinBasePath base candidate =
     (let base = normalizeRoutePath base; candidate = normalizeRoutePath candidate
      in if base = ''/'' then True else candidate = base \<or> HasPrefix candidate (base @ ''/''))"

definition normalizeIfMatchHeader :: "string \<Rightarrow> string" where
  "normalizeIfMatchHeader value =
     (let value = TrimSpace value
      in if value = '''' then ''''
         else let value = (if HasPrefix value ''W/'' \<or> HasPrefix value ''w/'' then TrimSpace (drop 2 value) else value)
              in if length value \<ge> 2 \<and> HasPrefix value [CHR 0x22] \<and> HasSuffix value [CHR 0x22]
                 then TrimSpace (take (length value - 2) (drop 1 value)) else value)"

text \<open>\<^verbatim>\<open>strconv.Atoi\<close>: an optional sign and decimal digits in the range of \<^verbatim>\<open>int64\<close>.\<close>

definition Atoi :: "string \<Rightarrow> int option" where
  "Atoi s =
     (case s of
        [] \<Rightarrow> None
      | c # r \<Rightarrow>
          if c = CHR ''-'' then map_option (\<lambda>n. - int n) (ParseUint (2 ^ 63 + 1) r)
          else if c = CHR ''+'' then map_option int (ParseUint (2 ^ 63) r)
          else map_option int (ParseUint (2 ^ 63) s))"

definition parseBoundedInt :: "string \<Rightarrow> int \<Rightarrow> int \<Rightarrow> int \<Rightarrow> int" where
  "parseBoundedInt raw fallback lo hi =
     (if TrimSpace raw = '''' then fallback
      else case Atoi (TrimSpace raw) of
             None \<Rightarrow> fallback
           | Some parsed \<Rightarrow> if parsed < lo then fallback else if parsed > hi then hi else parsed)"

definition stringSliceContainsExact :: "string list \<Rightarrow> string \<Rightarrow> bool" where
  "stringSliceContainsExact values needle =
     (let needle = TrimSpace needle
      in if needle = '''' then False else list_ex (\<lambda>raw. TrimSpace raw = needle) values)"

definition hasAnyScope :: "string list \<Rightarrow> string list \<Rightarrow> bool" where
  "hasAnyScope scopes required =
     (if length required = 0 then True else list_ex (\<lambda>scope. scope \<in> set scopes) required)"

section \<open>Routing\<close>

text \<open>The switch of \<^verbatim>\<open>ServeHTTP\<close> on the parts of the URL path after \<^verbatim>\<open>v1/workspaces/{id}\<close>: the
  route and the scope it requires.\<close>

definition route_of :: "string \<Rightarrow> string list \<Rightarrow> (string \<times> string) option" where
  "route_of method parts =
     (let get = (method = ''GET''); post = (method = ''POST''); put = (method = ''PUT''); del = (method = ''DELETE'')
      in case parts of
        [a] \<Rightarrow>
          if a = ''forks'' \<and> post then Some (''create_fork'', ''fs:write'')
          else if a = ''ops'' \<and> get then Some (''ops_list'', ''ops:read'')
          else None
      | [a, b] \<Rightarrow>
          if a = ''forks'' \<and> del then Some (''discard_fork'', ''fs:write'')
          else if a = ''fs'' \<and> b = ''tree'' \<and> get then Some (''tree'', ''fs:read'')
          else if a = ''fs'' \<and> b = ''ws'' \<and> get then Some (''fs_ws'', ''fs:read'')
          else if a = ''fs'' \<and> b = ''bulk'' \<and> post then Some (''bulk_write'', ''fs:write'')
          else if a = ''fs'' \<and> b = ''bulk-read'' \<and> post then Some (''bulk_read'', '''')
          else if a = ''fs'' \<and> b = ''merge'' \<and> post then Some (''merge_file'', ''fs:write'')
          else if a = ''fs'' \<and> b = ''export'' \<and> get then Some (''export'', ''fs:read'')
          else if a = ''fs'' \<and> b = ''file'' \<and> get then Some (''read_file'', ''fs:read'')
          else if a = ''fs'' \<and> b = ''file'' \<and> put then Some (''write_file'', ''fs:write'')
          else if a = ''fs'' \<and> b = ''file'' \<and> del then Some (''delete_file'', ''fs:write'')
          else if a = ''fs'' \<and> b = ''events'' \<and> get then Some (''events'', ''fs:read'')
          else if a = ''fs'' \<and> b = ''query'' \<and> get then Some (''query_files'', ''fs:read'')
          else if a = ''sync'' \<and> b = ''status'' \<and> get then Some (''sync_status'', ''sync:read'')
          else if a = ''sync'' \<and> b = ''ingress'' \<and> get then Some (''sync_ingress'', ''sync:read'')
          else if a = ''sync'' \<and> b = ''dead-letter'' \<and> get then Some (''sync_dead_letter'', ''sync:read'')
          else if a = ''sync'' \<and> b = ''refresh'' \<and> post then Some (''sync_refresh'', ''sync:trigger'')
          else if a = ''sync'' \<and> b = ''checkpoint-seals'' \<and> post then Some (''checkpoint_seal_issue'', ''sync:trigger'')
          else if a = ''ops'' \<and> get then Some (''op'', ''ops:read'')
          else if a = ''webhooks'' \<and> b = ''ingest'' \<and> post then Some (''generic_webhook_ingest'', ''sync:trigger'')
          else if a = ''writeback'' \<and> b = ''pending'' \<and> get then Some (''writeback_pending'', ''sync:read'')
          else if a = ''writeback'' \<and> b = ''sweep-drafts'' \<and> post then Some (''writeback_sweep_drafts'', ''sync:trigger'')
          else None
      | [a, b, c] \<Rightarrow>
          if a = ''forks'' \<and> c = ''commit'' \<and> post then Some (''commit_fork'', ''fs:write'')
          else if a = ''forks'' \<and> c = ''rebase'' \<and> post then Some (''rebase_fork'', ''fs:write'')
          else if a = ''fs'' \<and> b = ''import'' \<and> c = ''github-tarball'' \<and> post then Some (''github_tarball_import'', ''fs:write'')
          else if a = ''sync'' \<and> b = ''dead-letter'' \<and> get then Some (''sync_dead_letter_item'', ''sync:read'')
          else if a = ''sync'' \<and> b = ''checkpoint-seals'' \<and> c = ''consume'' \<and> post then Some (''checkpoint_seal_consume'', ''sync:trigger'')
          else if a = ''sync'' \<and> b = ''checkpoint-seals'' \<and> c = ''recover-consume'' \<and> post then Some (''checkpoint_seal_recover_consume'', ''sync:trigger'')
          else if a = ''sync'' \<and> b = ''checkpoint-seals'' \<and> c = ''verify'' \<and> post then Some (''checkpoint_seal_verify'', ''sync:trigger'')
          else if a = ''sync'' \<and> b = ''checkpoint-seals'' \<and> c = ''handback'' \<and> post then Some (''checkpoint_seal_handback'', ''sync:trigger'')
          else if a = ''sync'' \<and> b = ''checkpoint-seals'' \<and> c = ''resume'' \<and> post then Some (''checkpoint_seal_resume'', ''sync:trigger'')
          else if a = ''ops'' \<and> c = ''replay'' \<and> post then Some (''op_replay'', ''ops:replay'')
          else if a = ''writeback'' \<and> c = ''ack'' \<and> post then Some (''writeback_ack'', ''sync:trigger'')
          else None
      | [a, b, c, d] \<Rightarrow>
          if a = ''fs'' \<and> b = ''import'' \<and> c = ''github-tarball'' \<and> d = ''fetch'' \<and> post then Some (''github_tarball_fetch'', ''fs:write'')
          else if a = ''sync'' \<and> b = ''dead-letter'' \<and> d = ''ack'' \<and> post then Some (''sync_dead_letter_ack'', ''sync:trigger'')
          else if a = ''sync'' \<and> b = ''dead-letter'' \<and> d = ''replay'' \<and> post then Some (''sync_dead_letter_replay'', ''sync:trigger'')
          else None
      | [a, b, c, d, e] \<Rightarrow>
          if a = ''fs'' \<and> b = ''import'' \<and> c = ''github-tarball'' \<and> d = ''jobs'' \<and> get then Some (''github_tarball_job'', ''fs:read'')
          else None
      | _ \<Rightarrow> None)"

section \<open>Authorising a request\<close>

definition validateGithubWorkingTreeExportPrefix :: "string \<Rightarrow> string option" where
  "validateGithubWorkingTreeExportPrefix raw =
     (let pfx = normalizeRoutePath raw; parts = Split (TrimPrefix pfx ''/'') slash
      in case parts of
           [a, b, c, d, e] \<Rightarrow>
             if a \<noteq> ''github'' \<or> b \<noteq> ''repos'' \<or> c = '''' \<or> d = '''' \<or> e \<noteq> ''contents'' then None
             else if list_ex (\<lambda>part. part = ''.'' \<or> part = ''..'' \<or>
                       list_ex (\<lambda>ch. ch = CHR 0x00 \<or> ch = CHR 0x0D \<or> ch = CHR 0x0A) part) parts then None
             else Some pfx
         | _ \<Rightarrow> None)"

definition scope_path_of :: "string \<Rightarrow> string \<Rightarrow> http_request \<Rightarrow> string" where
  "scope_path_of route requiredScope r =
     (if requiredScope \<noteq> ''fs:read'' \<and> requiredScope \<noteq> ''fs:write'' then ''''
      else if route = ''tree'' then normalizeRoutePath (hq_path r)
      else if route \<in> {''read_file'', ''write_file'', ''merge_file'', ''delete_file''} then TrimSpace (hq_path r)
      else if route = ''export'' then
        (if EqualFold (TrimSpace (hq_decode r)) ''github-working-tree'' then
           (case validateGithubWorkingTreeExportPrefix (hq_pathPrefix r) of Some p \<Rightarrow> p | None \<Rightarrow> ''/'')
         else normalizeRoutePath (hq_path r))
      else if route = ''query_files'' then normalizeRoutePath (hq_path r)
      else if route = ''events'' then ''/''
      else '''')"

definition aclTargetExists :: "http_request \<Rightarrow> bool" where
  "aclTargetExists r = (let ifMatch = normalizeIfMatchHeader (hq_ifMatch r) in ifMatch \<noteq> '''' \<and> ifMatch \<noteq> ''*'')"

definition aclCheckPath :: "string \<Rightarrow> http_request \<Rightarrow> (string \<times> bool) option" where
  "aclCheckPath route r =
     (let path = hq_path r
      in if TrimSpace path = '''' then None
         else if route = ''read_file'' \<or> route = ''delete_file'' then Some (path, True)
         else if route = ''write_file'' then Some (path, aclTargetExists r)
         else if route = ''merge_file'' then Some (path, True)
         else None)"

definition fileActionFromScope :: "string \<Rightarrow> string option" where
  "fileActionFromScope requiredScope =
     (if requiredScope = ''fs:read'' then Some ''read''
      else if requiredScope = ''fs:write'' then Some ''write'' else None)"

definition permissionsFromFile :: "(string \<Rightarrow> string list) \<Rightarrow> File \<Rightarrow> string list option" where
  "permissionsFromFile decode file =
     (if length (sem_Permissions (f_Semantics file)) > 0 then Some (sem_Permissions (f_Semantics file))
      else if f_Content file \<noteq> '''' \<and> length (decode (f_Content file)) > 0 then Some (decode (f_Content file))
      else None)"

definition aclGetFile :: "(string \<Rightarrow> string list) \<Rightarrow> Store \<Rightarrow> string \<Rightarrow> string \<Rightarrow> string list option" where
  "aclGetFile decode s workspaceID path =
     (case ReadFile s workspaceID path of Inl _ \<Rightarrow> None | Inr file \<Rightarrow> permissionsFromFile decode file)"

definition aclGetForkFile ::
  "(string \<Rightarrow> string list) \<Rightarrow> instant \<Rightarrow> Store \<Rightarrow> string \<Rightarrow> string \<Rightarrow> string \<Rightarrow> string list option" where
  "aclGetForkFile decode now s workspaceID forkID path =
     (case snd (ReadForkFile now workspaceID forkID path s) of
        Inl _ \<Rightarrow> None | Inr file \<Rightarrow> permissionsFromFile decode file)"

text \<open>Reading through an expired fork drops it; the preflight makes such a read unless the only marker
  above the target is the target itself and the target is not read.\<close>

definition preflight_reads :: "string \<Rightarrow> bool \<Rightarrow> bool" where
  "preflight_reads path includeTarget =
     (includeTarget \<or> list_ex (\<lambda>dir. joinACLPath dir relayfileACLMarkerFile \<noteq> normalizeACLPath path)
        (ancestorDirectoriesACL (normalizeACLPath path)))"

definition acl_preflight ::
  "(string \<Rightarrow> string list) \<Rightarrow> instant \<Rightarrow> string \<Rightarrow> string \<Rightarrow> http_request \<Rightarrow> string \<Rightarrow> tokenClaims \<Rightarrow> Store \<Rightarrow>
   Store \<times> bool" where
  "acl_preflight decode now route requiredScope r workspaceID claims s =
     (case fileActionFromScope requiredScope of
        None \<Rightarrow> (s, True)
      | Some action \<Rightarrow>
          (case aclCheckPath route r of
             None \<Rightarrow> (s, True)
           | Some (aclPath, includeTarget) \<Rightarrow>
               let forkID = TrimSpace (hq_forkId r);
                   reader = (if forkID \<noteq> '''' then aclGetForkFile decode now s workspaceID forkID
                             else aclGetFile decode s workspaceID);
                   permissions = resolveFilePermissionsWithTarget reader aclPath includeTarget;
                   s = (if forkID \<noteq> '''' \<and> preflight_reads aclPath includeTarget
                        then fst (ReadForkFile now workspaceID forkID ''/'' s) else s)
               in (s, filePermissionAllows permissions workspaceID (Some claims) action aclPath)))"

text \<open>
  The steps of \<^verbatim>\<open>ServeHTTP\<close> between routing and the handler, for a token that was parsed and verified
  with the result \<open>parsed\<close>.  The limiter is \<open>None\<close> when no limit is configured.
\<close>

record limiter =
  lm_window :: duration
  lm_max :: int
  lm_entries :: "(string, rateEntry) gomap"

definition authorize_request ::
  "(string \<Rightarrow> string list) \<Rightarrow> instant \<Rightarrow> string \<Rightarrow> string \<Rightarrow> string \<Rightarrow> http_request \<Rightarrow> authError + tokenClaims \<Rightarrow>
   limiter option \<Rightarrow> Store \<Rightarrow> limiter option \<times> Store \<times> (http_error + tokenClaims)" where
  "authorize_request decode now workspaceID route requiredScope r parsed lim s =
     (case authorizeBearer parsed workspaceID requiredScope (scope_path_of route requiredScope r) of
        Inl e \<Rightarrow> (lim, s, Inl (HttpError (ae_status e) (ae_code e) (ae_message e)))
      | Inr claims \<Rightarrow>
          (case acl_preflight decode now route requiredScope r workspaceID claims s of
             (s, ok) \<Rightarrow>
               if \<not> ok then (lim, s, Inl (HttpError 403 ''forbidden'' ''access denied by ACL''))
               else if hq_correlationID r = '''' then
                 (lim, s, Inl (HttpError 400 ''bad_request'' ''missing X-Correlation-Id header''))
               else case lim of
                      None \<Rightarrow> (lim, s, Inr claims)
                    | Some l \<Rightarrow>
                        (case rate_allow (lm_window l) (lm_max l) (workspaceID @ ''|'' @ tc_AgentName claims) now (lm_entries l) of
                           (entries, allowed) \<Rightarrow>
                             (Some (l\<lparr>lm_entries := entries\<rparr>), s,
                              if allowed then Inr claims
                              else Inl (HttpError 429 ''rate_limited'' ''rate limit exceeded'')))))"

section \<open>Reading, writing and deleting\<close>

definition server_readFile ::
  "instant \<Rightarrow> string \<Rightarrow> string \<Rightarrow> string \<Rightarrow> Store \<Rightarrow> Store \<times> (store_error + File)" where
  "server_readFile now workspaceID forkID path s =
     (if TrimSpace forkID \<noteq> '''' then ReadForkFile now workspaceID forkID path s
      else (s, ReadFile s workspaceID path))"

definition server_resolveFilePermissions ::
  "instant \<Rightarrow> string \<Rightarrow> string \<Rightarrow> string \<Rightarrow> bool \<Rightarrow> Store \<Rightarrow> Store \<times> string list" where
  "server_resolveFilePermissions now workspaceID forkID path includeTarget s =
     (if TrimSpace forkID \<noteq> '''' then ResolveForkFilePermissions now workspaceID forkID path includeTarget s
      else (s, ResolveFilePermissions s workspaceID path includeTarget))"

definition policy_refusal :: http_error where
  "policy_refusal = HttpError 403 ''forbidden'' ''file access denied by permission policy''"

definition handleReadFile ::
  "instant \<Rightarrow> http_request \<Rightarrow> string \<Rightarrow> tokenClaims \<Rightarrow> Store \<Rightarrow> Store \<times> (http_error + File)" where
  "handleReadFile now r workspaceID claims s =
     (let path = hq_path r; forkID = TrimSpace (hq_forkId r)
      in if path = '''' then (s, Inl (HttpError 400 ''bad_request'' ''missing path query''))
         else case server_readFile now workspaceID forkID path s of
                (s, Inl err) \<Rightarrow> (s, Inl (writeForkAwareError err))
              | (s, Inr file) \<Rightarrow>
                  (case server_resolveFilePermissions now workspaceID forkID path True s of
                     (s, effective) \<Rightarrow>
                       if \<not> filePermissionAllows effective workspaceID (Some claims) ''read'' path
                       then (s, Inl policy_refusal) else (s, Inr file)))"

text \<open>The check of a write: the permissions of the existing file, or those inherited by a new one.
  The write handler goes on to the store on any other error, the bulk handler refuses.\<close>

datatype write_check = Permitted | Refused | Unreadable

definition check_write ::
  "instant \<Rightarrow> string \<Rightarrow> string \<Rightarrow> tokenClaims \<Rightarrow> string \<Rightarrow> Store \<Rightarrow> Store \<times> write_check" where
  "check_write now workspaceID forkID claims path s =
     (case server_readFile now workspaceID forkID path s of
        (s, Inr _) \<Rightarrow>
          (case server_resolveFilePermissions now workspaceID forkID path True s of
             (s, existing) \<Rightarrow>
               (s, if filePermissionAllows existing workspaceID (Some claims) ''write'' path then Permitted else Refused))
      | (s, Inl err) \<Rightarrow>
          if err = ErrNotFound \<or> err = ErrForkExpired then
            (case server_resolveFilePermissions now workspaceID forkID path False s of
               (s, inherited) \<Rightarrow>
                 (s, if filePermissionAllows inherited workspaceID (Some claims) ''write'' path then Permitted else Refused))
          else (s, Unreadable))"

fun write_error_reply :: "store_error \<Rightarrow> http_error" where
  "write_error_reply (ErrRevisionConflict e c p) = StoreHttpError 409 ''revision_conflict'' (ErrRevisionConflict e c p)"
| "write_error_reply ErrMissingPrecondition = StoreHttpError 412 ''precondition_failed'' ErrMissingPrecondition"
| "write_error_reply ErrNotFound = StoreHttpError 404 ''not_found'' ErrNotFound"
| "write_error_reply ErrForkExpired = StoreHttpError 404 ''not_found'' ErrForkExpired"
| "write_error_reply ErrInvalidInput = StoreHttpError 400 ''bad_request'' ErrInvalidInput"
| "write_error_reply err = StoreHttpError 500 ''internal_error'' err"

text \<open>\<open>body\<close> is the decoded body with the fields the caller may set, or the reply when reading or
  decoding it fails.\<close>

definition handleWriteFile ::
  "instant \<Rightarrow> http_request \<Rightarrow> http_error + WriteRequest \<Rightarrow> string \<Rightarrow> tokenClaims \<Rightarrow> Store \<Rightarrow> Store \<times> (http_error + WriteResult)" where
  "handleWriteFile now r body workspaceID claims s =
     (let path = hq_path r; ifMatch = normalizeIfMatchHeader (hq_ifMatch r); forkID = TrimSpace (hq_forkId r)
      in if path = '''' then (s, Inl (HttpError 400 ''bad_request'' ''missing path query''))
         else if ifMatch = '''' then (s, Inl (HttpError 412 ''precondition_failed'' ''missing If-Match header''))
         else case check_write now workspaceID forkID claims path s of
                (s, Refused) \<Rightarrow> (s, Inl policy_refusal)
              | (s, _) \<Rightarrow>
                  (case body of
                     Inl err \<Rightarrow> (s, Inl err)
                   | Inr b \<Rightarrow>
                       let writeReq = b\<lparr>wr_WorkspaceID := workspaceID, wr_Path := path, wr_IfMatch := ifMatch,
                                        wr_CorrelationID := hq_correlationID r\<rparr>
                       in case (if forkID \<noteq> '''' then WriteForkFile now writeReq forkID s else WriteFile now writeReq s) of
                            (s, Inl err) \<Rightarrow> (s, Inl (write_error_reply err))
                          | (s, Inr result) \<Rightarrow> (s, Inr result)))"

fun delete_error_reply :: "store_error \<Rightarrow> http_error" where
  "delete_error_reply (ErrRevisionConflict e c p) = StoreHttpError 409 ''revision_conflict'' (ErrRevisionConflict e c p)"
| "delete_error_reply ErrNotFound = StoreHttpError 404 ''not_found'' ErrNotFound"
| "delete_error_reply ErrForkExpired = StoreHttpError 404 ''not_found'' ErrForkExpired"
| "delete_error_reply ErrMissingPrecondition = StoreHttpError 412 ''precondition_failed'' ErrMissingPrecondition"
| "delete_error_reply ErrDeleteStormRejected = StoreHttpError 429 ''delete_storm_rejected'' ErrDeleteStormRejected"
| "delete_error_reply err = StoreHttpError 500 ''internal_error'' err"

definition handleDeleteFile ::
  "instant \<Rightarrow> http_request \<Rightarrow> string \<Rightarrow> tokenClaims \<Rightarrow> Store \<Rightarrow> Store \<times> (http_error + WriteResult)" where
  "handleDeleteFile now r workspaceID claims s =
     (let path = hq_path r; ifMatch = normalizeIfMatchHeader (hq_ifMatch r); forkID = TrimSpace (hq_forkId r)
      in if path = '''' then (s, Inl (HttpError 400 ''bad_request'' ''missing path query''))
         else if ifMatch = '''' then (s, Inl (HttpError 412 ''precondition_failed'' ''missing If-Match header''))
         else let (s, refused) =
                    (case server_readFile now workspaceID forkID path s of
                       (s, Inr _) \<Rightarrow>
                         (case server_resolveFilePermissions now workspaceID forkID path True s of
                            (s, existing) \<Rightarrow> (s, \<not> filePermissionAllows existing workspaceID (Some claims) ''write'' path))
                     | (s, Inl _) \<Rightarrow> (s, False))
              in if refused then (s, Inl policy_refusal)
                 else let deleteReq = \<lparr>dr_WorkspaceID = workspaceID, dr_Path = path, dr_IfMatch = ifMatch,
                                       dr_CorrelationID = hq_correlationID r\<rparr>
                      in case (if forkID \<noteq> '''' then DeleteForkFile now deleteReq forkID s else DeleteFile now deleteReq s) of
                           (s, Inl err) \<Rightarrow> (s, Inl (delete_error_reply err))
                         | (s, Inr result) \<Rightarrow> (s, Inr result))"

section \<open>Bulk writes\<close>

fun bulk_checks ::
  "instant \<Rightarrow> string \<Rightarrow> string \<Rightarrow> tokenClaims \<Rightarrow> BulkWriteFile list \<Rightarrow> Store \<Rightarrow>
   Store \<times> BulkWriteFile list \<times> BulkWriteError list" where
  "bulk_checks now workspaceID forkID claims [] s = (s, [], [])"
| "bulk_checks now workspaceID forkID claims (f # files) s =
     (let path = normalizeRoutePath (bf_Path f)
      in if \<not> scopeMatchesPath (tc_Scopes claims) ''fs:write'' path then
           (case bulk_checks now workspaceID forkID claims files s of
              (s, allowed, errs) \<Rightarrow> (s, allowed, bulk_error path ''forbidden'' (Msg ''file access denied by path scope'') # errs))
         else case check_write now workspaceID forkID claims path s of
                (s, verdict) \<Rightarrow>
                  (case bulk_checks now workspaceID forkID claims files s of
                     (s, allowed, errs) \<Rightarrow>
                       (case verdict of
                          Permitted \<Rightarrow> (s, f\<lparr>bf_Path := path\<rparr> # allowed, errs)
                        | Refused \<Rightarrow> (s, allowed, bulk_error path ''forbidden'' (Msg ''file access denied by permission policy'') # errs)
                        | Unreadable \<Rightarrow> (s, allowed, bulk_error path ''internal_error'' (Msg ''failed to check file permissions'') # errs))))"

definition handleBulkWrite ::
  "instant \<Rightarrow> http_request \<Rightarrow> http_error + BulkWriteFile list \<Rightarrow> string \<Rightarrow> tokenClaims \<Rightarrow> Store \<Rightarrow>
   Store \<times> (http_error + nat \<times> BulkWriteResult list \<times> BulkWriteError list)" where
  "handleBulkWrite now r body workspaceID claims s =
     (let forkID = TrimSpace (hq_forkId r)
      in case body of
           Inl err \<Rightarrow> (s, Inl err)
         | Inr files \<Rightarrow>
             if length files = 0 then (s, Inl (HttpError 400 ''bad_request'' ''missing files''))
             else case (if forkID \<noteq> '''' then ListForkTree now workspaceID forkID ''/'' 1 '''' s
                        else (s, Inr (empty_tree ''/''))) of
                    (s, Inl err) \<Rightarrow> (s, Inl (writeForkAwareError err))
                  | (s, Inr _) \<Rightarrow>
                      (case bulk_checks now workspaceID forkID claims files s of
                         (s, allowed, errorsOut) \<Rightarrow>
                           (case (if forkID \<noteq> '''' then BulkWriteFork now workspaceID forkID allowed s
                                  else BulkWrite now workspaceID allowed s) of
                              (s, written, results, storeErrors) \<Rightarrow>
                                (s, Inr (written, results, errorsOut @ storeErrors)))))"

section \<open>Forks\<close>

text \<open>The authorisation errors of a commit are the validation errors of the store.\<close>

fun validateForkCommitEntries :: "string \<Rightarrow> tokenClaims \<Rightarrow> ForkCommitEntry list \<Rightarrow> store_error option" where
  "validateForkCommitEntries workspaceID claims [] = None"
| "validateForkCommitEntries workspaceID claims (entry # entries) =
     (if \<not> scopeMatchesPath (tc_Scopes claims) ''fs:write'' (fce_Path entry) then
        Some (ErrValidation ''fork commit denied by path scope'')
      else if \<not> filePermissionAllows (fce_Permissions entry) workspaceID (Some claims) ''write'' (fce_Path entry) then
        Some (ErrValidation ''fork commit denied by permission policy'')
      else validateForkCommitEntries workspaceID claims entries)"

fun commit_error_reply :: "store_error \<Rightarrow> http_error" where
  "commit_error_reply (ErrValidation m) = StoreHttpError 403 ''forbidden'' (ErrValidation m)"
| "commit_error_reply (ErrParentMoved r) = StoreHttpError 409 ''parent_moved'' (ErrParentMoved r)"
| "commit_error_reply ErrForkExpired = StoreHttpError 410 ''fork_expired'' ErrForkExpired"
| "commit_error_reply ErrNotFound = StoreHttpError 404 ''not_found'' ErrNotFound"
| "commit_error_reply ErrInvalidInput = StoreHttpError 400 ''bad_request'' ErrInvalidInput"
| "commit_error_reply err = StoreHttpError 500 ''internal_error'' err"

definition handleCommitFork ::
  "instant \<Rightarrow> string \<Rightarrow> string \<Rightarrow> string \<Rightarrow> tokenClaims \<Rightarrow> Store \<Rightarrow> Store \<times> (http_error + ForkCommitResponse)" where
  "handleCommitFork now workspaceID forkID correlationID claims s =
     (case CommitForkWithValidator now workspaceID forkID correlationID
             (validateForkCommitEntries workspaceID claims) s of
        (s, Inl err) \<Rightarrow> (s, Inl (commit_error_reply err))
      | (s, Inr resp) \<Rightarrow> (s, Inr resp))"

definition handleRebaseFork ::
  "instant \<Rightarrow> string \<Rightarrow> string \<Rightarrow> Store \<Rightarrow> Store \<times> (http_error + RebaseResponse)" where
  "handleRebaseFork now workspaceID forkID s =
     (case RebaseFork now workspaceID forkID s of
        (s, Inl err) \<Rightarrow>
          (s, Inl (if err = ErrForkExpired then StoreHttpError 410 ''fork_expired'' err
                   else if err = ErrNotFound then StoreHttpError 404 ''not_found'' err
                   else if err = ErrInvalidInput then StoreHttpError 400 ''bad_request'' err
                   else StoreHttpError 500 ''internal_error'' err))
      | (s, Inr resp) \<Rightarrow> (s, Inr resp))"

section \<open>What a caller may see\<close>

definition fileReadAllowedNow :: "Store \<Rightarrow> string \<Rightarrow> tokenClaims \<Rightarrow> string \<Rightarrow> bool \<Rightarrow> bool" where
  "fileReadAllowedNow s workspaceID claims path includeTarget =
     (let path = normalizeACLPath path
      in scopeMatchesPath (tc_Scopes claims) ''fs:read'' path \<and>
         filePermissionAllows (ResolveFilePermissions s workspaceID path includeTarget) workspaceID (Some claims) ''read'' path)"

definition eventVisibleToClaims :: "Store \<Rightarrow> string \<Rightarrow> tokenClaims \<Rightarrow> Event \<Rightarrow> bool" where
  "eventVisibleToClaims s workspaceID claims event =
     (if e_Type event = ''file.deleted'' \<and> (e_ACLPermissions event = None \<or> TrimSpace (e_Path event) = '''') then False
      else let path = TrimSpace (e_Path event)
           in if path = '''' then True
              else let path = normalizeACLPath path
                   in if \<not> scopeMatchesPath (tc_Scopes claims) ''fs:read'' path then False
                      else if (case e_ACLPermissions event of
                                 Some permissions \<Rightarrow> \<not> filePermissionAllows permissions workspaceID (Some claims) ''read'' path
                               | None \<Rightarrow> False) then False
                      else filePermissionAllows
                             (ResolveFilePermissions s workspaceID path (e_Type event \<noteq> ''file.deleted''))
                             workspaceID (Some claims) ''read'' path)"

end
