(* ===== verification/HandlersCorrect.thy ===== *)
theory HandlersCorrect
  imports Handlers ForkIndex
begin

text \<open>
  What the request path guarantees across components: a file changes through the API only for a caller
  whose scopes and whose file's rules allow it, for single writes and for commits of forks; and the
  deletion of a file a caller could not read stays hidden from that caller.  The last section
  shows where the scope check and the store disagree on which file a path names.
\<close>

section \<open>Committing a fork\<close>

lemma commit_one_other:
  assumes "normalizePath p = p" and "(v, q) \<noteq> (w, p)"
  shows "map_of (ws_Files (ws_of (cs_store (commit_one now w c (p, e) cs)) v)) q = map_of (ws_Files (ws_of (cs_store cs) v)) q"
  by (cases rule: commit_one_cases [of now w c p e cs])
     (use assms in \<open>auto simp: store_simps gomap_simps\<close>)

lemma commit_one_untyped:
  assumes "oe_Type e \<noteq> ''write''" and "oe_Type e \<noteq> ''delete''"
  shows "commit_one now w c (p, e) cs = cs"
  by (cases rule: commit_one_cases [of now w c p e cs]) (use assms in auto)

lemma commit_all_other:
  assumes "list_all (\<lambda>pe. normalizePath (fst pe) = fst pe) es"
    and "map_of (ws_Files (ws_of (cs_store (fold (commit_one now w c) es cs)) v)) q \<noteq> map_of (ws_Files (ws_of (cs_store cs) v)) q"
  shows "v = w \<and> (\<exists>e. (q, e) \<in> set es \<and> (oe_Type e = ''write'' \<or> oe_Type e = ''delete''))"
  using assms
proof (induction es arbitrary: cs)
  case (Cons pe es)
  obtain p e where pe: "pe = (p, e)" by (cases pe)
  let ?cs = "commit_one now w c (p, e) cs"
  show ?case
  proof (cases "map_of (ws_Files (ws_of (cs_store ?cs) v)) q = map_of (ws_Files (ws_of (cs_store cs) v)) q")
    case True
    then have "map_of (ws_Files (ws_of (cs_store (fold (commit_one now w c) es ?cs)) v)) q \<noteq> map_of (ws_Files (ws_of (cs_store ?cs) v)) q"
      using Cons.prems(2) by (simp add: pe)
    with Cons.IH [of ?cs] Cons.prems(1) show ?thesis by auto
  next
    case False
    then have "v = w \<and> q = p" using commit_one_other [of p v q w now c e cs] Cons.prems(1) by (auto simp: pe)
    moreover have "oe_Type e = ''write'' \<or> oe_Type e = ''delete''"
      using False commit_one_untyped [of e now w c p cs] by metis
    ultimately show ?thesis by (auto simp: pe)
  qed
qed simp

lemma validate_commit_all:
  assumes "validateForkCommitEntries w claims es = None" and "entry \<in> set es"
  shows "scopeMatchesPath (tc_Scopes claims) ''fs:write'' (fce_Path entry)
    \<and> filePermissionAllows (fce_Permissions entry) w (Some claims) ''write'' (fce_Path entry)"
  using assms by (induction w claims es rule: validateForkCommitEntries.induct) (auto split: if_splits)

lemma CommitFork_validated:
  assumes "CommitForkWithValidator now w i c validate s = (s', Inr resp)"
    and "map_of (s_forks s) (TrimSpace i) = Some fork"
  shows "validate (commit_entries (ws_Files (ws_of s (TrimSpace w))) (sorted_overlay fork)) = None"
proof (cases rule: getLive_cases [of now "TrimSpace w" "TrimSpace i" s])
  case (refused e s'')
  then show ?thesis using assms by (auto simp: CommitForkWithValidator_def Let_def split: if_splits)
next
  case (live fork')
  then have "fork' = fork" using assms(2) by simp
  then show ?thesis
    using assms(1) live(1) by (auto simp: CommitForkWithValidator_def Let_def store_simps split: if_splits option.splits)
qed

text \<open>C14. A commit through the API changes no file that its caller may not write: every path whose file
  differs afterwards lies in the committed workspace, is inside the caller's write scope, and is
  allowed by the rules that governed it before the commit.  This holds whatever the commit
  answers.\<close>

theorem api_commit_authorised:
  assumes "map_of (s_forks s) (TrimSpace i) = Some fork" and "overlay_ok fork"
    and "map_of (ws_Files (ws_of (fst (handleCommitFork now w i corr claims s)) v)) p \<noteq> map_of (ws_Files (ws_of s v)) p"
  shows "v = TrimSpace w \<and> scopeMatchesPath (tc_Scopes claims) ''fs:write'' p
    \<and> (\<exists>deleted. filePermissionAllows
          (resolvePermissionsFromFiles (ws_Files (ws_of s v)) p (deleted \<or> map_of (ws_Files (ws_of s v)) p \<noteq> None))
          w (Some claims) ''write'' p)"
proof -
  let ?val = "validateForkCommitEntries w claims" and ?w = "TrimSpace w"
  have fst_eq: "fst (handleCommitFork now w i corr claims s) = fst (CommitForkWithValidator now w i corr ?val s)"
    by (simp add: handleCommitFork_def split: prod.splits sum.splits)
  show ?thesis
  proof (cases rule: CommitFork_cases [of now w i corr ?val s])
    case (refused s' e)
    then show ?thesis using assms(3) fst_eq by (simp add: same_workspaces_def)
  next
    case (committed fork' s' resp cs)
    have fork: "fork' = fork" using committed(2) assms(1) by simp
    let ?cs0 = "\<lparr>cs_store = ensureWorkspaceLocked ?w s, cs_revision = currentWorkspaceRevisionLocked s ?w,
        cs_written = 0, cs_deleted = 0, cs_tasks = []\<rparr>"
    have ws: "ws_of s' u = ws_of (cs_store cs) u" for u by (simp add: committed(7) store_simps)
    have norm: "list_all (\<lambda>pe. normalizePath (fst pe) = fst pe) (sorted_overlay fork)"
      using assms(2) by (auto simp: overlay_ok_def entry_ok_def sorted_overlay_def list_all_iff)
    have "map_of (ws_Files (ws_of (cs_store (fold (commit_one now ?w corr) (sorted_overlay fork) ?cs0)) v)) p
        \<noteq> map_of (ws_Files (ws_of (cs_store ?cs0) v)) p"
      using assms(3) fst_eq committed(1,6) ws fork by (simp add: store_simps)
    from commit_all_other [OF norm this] obtain e where v: "v = ?w" and e: "(p, e) \<in> set (sorted_overlay fork)"
      and type: "oe_Type e = ''write'' \<or> oe_Type e = ''delete''" by blast
    let ?files = "ws_Files (ws_of s ?w)"
    have "\<lparr>fce_Path = normalizePath p, fce_Type = oe_Type e,
        fce_Permissions = resolvePermissionsFromFiles ?files p (map_of ?files p \<noteq> None \<or> oe_Type e = ''delete'')\<rparr>
        \<in> set (commit_entries ?files (sorted_overlay fork))"
      using e type by (force simp: commit_entries_def image_iff)
    from validate_commit_all [OF CommitFork_validated [OF committed(1) assms(1)] this]
    have "scopeMatchesPath (tc_Scopes claims) ''fs:write'' p" and
      "filePermissionAllows (resolvePermissionsFromFiles ?files p (oe_Type e = ''delete'' \<or> map_of ?files p \<noteq> None)) w (Some claims) ''write'' p"
      using norm e by (auto simp: list_all_iff disj_commute)
    then show ?thesis using v by blast
  qed
qed

section \<open>Writing a file\<close>

definition serve_write_file ::
  "(string \<Rightarrow> string list) \<Rightarrow> instant \<Rightarrow> string \<Rightarrow> http_request \<Rightarrow> http_error + WriteRequest \<Rightarrow> authError + tokenClaims \<Rightarrow>
   limiter option \<Rightarrow> Store \<Rightarrow> limiter option \<times> Store \<times> (http_error + WriteResult)" where
  "serve_write_file decode now workspaceID r body parsed lim s =
     (case authorize_request decode now workspaceID ''write_file'' ''fs:write'' r parsed lim s of
        (lim, s, Inl err) \<Rightarrow> (lim, s, Inl err)
      | (lim, s, Inr claims) \<Rightarrow> (lim, handleWriteFile now r body workspaceID claims s))"

definition same_files :: "Store \<Rightarrow> Store \<Rightarrow> bool" where
  "same_files s s' \<longleftrightarrow> (\<forall>v. ws_Files (ws_of s' v) = ws_Files (ws_of s v))"

lemma same_files_trans: "same_files s s' \<Longrightarrow> same_files s' s'' \<Longrightarrow> same_files s s''"
  by (simp add: same_files_def)

lemma same_workspaces_files: "same_workspaces s s' \<Longrightarrow> same_files s s'"
  by (simp add: same_workspaces_def same_files_def)

lemma ReadForkFile_files: "same_files s (fst (ReadForkFile now w i p s))"
  using same_workspaces_files [OF getLive_workspaces, of s now w i]
  by (auto simp: ReadForkFile_def same_files_def split: prod.splits sum.splits option.splits)

lemma ResolveFork_files: "same_files s (fst (ResolveForkFilePermissions now w i p inc s))"
  using same_workspaces_files [OF getLive_workspaces, of s now w i]
  by (auto simp: ResolveForkFilePermissions_def same_files_def split: prod.splits sum.splits option.splits)

lemma check_write_files: "same_files s (fst (check_write now w i claims p s))"
proof -
  obtain s1 res where rd: "server_readFile now w i p s = (s1, res)" by (cases "server_readFile now w i p s")
  have s1: "same_files s s1"
    using rd ReadForkFile_files [of s now w i p] by (auto simp: server_readFile_def same_files_def split: if_splits)
  have s2: "same_files s (fst (server_resolveFilePermissions now w i p inc s1))" for inc
    using same_files_trans [OF s1 ResolveFork_files] s1 by (auto simp: server_resolveFilePermissions_def)
  show ?thesis
    using s1 s2 by (auto simp: check_write_def rd split: prod.splits sum.splits) (metis fst_conv)+
qed

lemma acl_preflight_files: "same_files s (fst (acl_preflight decode now route scope r w claims s))"
  using ReadForkFile_files [of s now w _ "''/''"]
  by (auto simp: acl_preflight_def Let_def same_files_def split: option.splits)

lemma acl_preflight_forkless:
  "TrimSpace (hq_forkId r) = '''' \<Longrightarrow> fst (acl_preflight decode now route scope r w claims s) = s"
  by (auto simp: acl_preflight_def Let_def split: option.splits)

lemma authorize_request_cases:
  assumes "authorize_request decode now w route scope r parsed lim s = (lim', s', res)"
  shows "same_files s s' \<and> (TrimSpace (hq_forkId r) = '''' \<longrightarrow> s' = s)
    \<and> (\<forall>claims. res = Inr claims \<longrightarrow> parsed = Inr claims
         \<and> authorizeBearer parsed w scope (scope_path_of route scope r) = Inr claims)"
proof (cases "authorizeBearer parsed w scope (scope_path_of route scope r)")
  case (Inl e)
  then show ?thesis using assms by (auto simp: authorize_request_def same_files_def)
next
  case (Inr claims)
  then have "parsed = Inr claims" by (auto simp: authorizeBearer_def split: sum.splits if_splits)
  moreover have "s' = fst (acl_preflight decode now route scope r w claims s)" "res = Inr c \<Longrightarrow> c = claims" for c
    using assms Inr by (auto simp: authorize_request_def split: prod.splits if_splits option.splits)
  ultimately show ?thesis
    using acl_preflight_files acl_preflight_forkless Inr by blast
qed

lemma WriteForkFile_files: "same_files s (fst (WriteForkFile now req i s))"
  using WriteForkFile_only [of s now req i] by (auto simp: fork_only_def intro: same_workspaces_files)

lemma WriteFile_other:
  assumes "map_of (ws_Files (ws_of (fst (WriteFile now req s)) v)) p \<noteq> map_of (ws_Files (ws_of s v)) p"
  shows "v = wr_WorkspaceID req \<and> p = normalizePath (wr_Path req) \<and> v \<noteq> ''''"
proof (cases rule: WriteFile_total [of now req s])
  case (failed e s')
  then show ?thesis using assms by (auto simp: store_simps)
next
  case (written encoding metadata task et)
  have "wr_WorkspaceID req \<noteq> ''''" using written(1) by (auto simp: write_checks_def split: if_splits)
  then show ?thesis using assms written(2) by (auto simp: store_simps gomap_simps split: if_splits)
qed

definition write_request :: "http_request \<Rightarrow> WriteRequest \<Rightarrow> string \<Rightarrow> WriteRequest" where
  "write_request r b w = b\<lparr>wr_WorkspaceID := w, wr_Path := hq_path r, wr_IfMatch := normalizeIfMatchHeader (hq_ifMatch r),
     wr_CorrelationID := hq_correlationID r\<rparr>"

lemma handleWriteFile_cases:
  fixes s :: Store and r :: http_request and now :: instant and w :: string and claims :: tokenClaims
  defines "ck \<equiv> check_write now w (TrimSpace (hq_forkId r)) claims (hq_path r) s"
  obtains (stopped) "fst (handleWriteFile now r body w claims s) \<in> {s, fst ck}"
  | (forked) b where "fst (handleWriteFile now r body w claims s) =
      fst (WriteForkFile now (write_request r b w) (TrimSpace (hq_forkId r)) (fst ck))"
  | (written) b where "TrimSpace (hq_forkId r) = ''''" and "snd ck \<noteq> Refused"
      and "fst (handleWriteFile now r body w claims s) = fst (WriteFile now (write_request r b w) (fst ck))"
proof (cases "hq_path r = '''' \<or> normalizeIfMatchHeader (hq_ifMatch r) = '''' \<or> snd ck = Refused \<or> (\<exists>e. body = Inl e)")
  case True
  then have "fst (handleWriteFile now r body w claims s) \<in> {s, fst ck}"
    by (cases ck; cases "snd ck") (auto simp: handleWriteFile_def Let_def ck_def)
  then show ?thesis by (rule stopped)
next
  case False
  then obtain b where b: "body = Inr b" by (cases body) auto
  let ?fork = "TrimSpace (hq_forkId r)"
  have "handleWriteFile now r body w claims s =
      (case (if ?fork \<noteq> '''' then WriteForkFile now (write_request r b w) ?fork (fst ck) else WriteFile now (write_request r b w) (fst ck)) of
         (s, Inl err) \<Rightarrow> (s, Inl (write_error_reply err)) | (s, Inr result) \<Rightarrow> (s, Inr result))"
    using False by (cases ck; cases "snd ck") (simp_all add: handleWriteFile_def Let_def ck_def [symmetric] b write_request_def)
  then have "fst (handleWriteFile now r body w claims s) =
      fst (if ?fork \<noteq> '''' then WriteForkFile now (write_request r b w) ?fork (fst ck) else WriteFile now (write_request r b w) (fst ck))"
    by (simp split: prod.splits sum.splits)
  then show ?thesis using forked written False by (cases "?fork = ''''") auto
qed

text \<open>C15. A write through the API to a path in canonical form (an absolute path without empty, dot or padded
  segments) changes at most one file: the one the request names, in the workspace
  of the request, for a verified token of that workspace whose scopes cover the path, and only when
  the rules of the existing file, or those a new file inherits, allow the caller to write.  Requests
  that name a fork change no file of any workspace.  (For a path with a trailing slash this fails,
  see below.)\<close>

theorem api_write_authorised:
  assumes "hq_path r = path_of segs" and "plain_segments segs"
    and "serve_write_file decode now w r body parsed lim s = (lim', s', answer)"
    and "map_of (ws_Files (ws_of s' v)) p \<noteq> map_of (ws_Files (ws_of s v)) p"
  shows "v = w \<and> p = path_of segs \<and> TrimSpace (hq_forkId r) = ''''
    \<and> (\<exists>claims. parsed = Inr claims \<and> tc_WorkspaceID claims = w
        \<and> scopeMatchesPath (tc_Scopes claims) ''fs:write'' p
        \<and> filePermissionAllows (ResolveFilePermissions s w p (map_of (ws_Files (ws_of s w)) p \<noteq> None)) w (Some claims) ''write'' p)"
proof -
  let ?path = "path_of segs"
  obtain lim1 s1 res where au: "authorize_request decode now w ''write_file'' ''fs:write'' r parsed lim s = (lim1, s1, res)"
    by (metis prod_cases3)
  note auth = authorize_request_cases [OF au]
  have "\<exists>claims. res = Inr claims"
    using assms(3,4) au auth by (cases res) (auto simp: serve_write_file_def same_files_def)
  then obtain claims where res: "res = Inr claims" by blast
  have s': "s' = fst (handleWriteFile now r body w claims s1)"
    using assms(3) au res by (simp add: serve_write_file_def)
  have parsed: "parsed = Inr claims" using auth res by simp
  then have bearer: "authorizeBearer (Inr claims) w ''fs:write'' ?path = Inr claims"
    using auth res parsed assms(1) TrimSpace_path_of [OF assms(2)] by (simp add: scope_path_of_def)
  let ?fork = "TrimSpace (hq_forkId r)"
  have s1: "same_files s s1" "?fork = '''' \<Longrightarrow> s1 = s" using auth by simp_all
  have ck: "same_files s (fst (check_write now w ?fork claims ?path s1))"
    using same_files_trans [OF s1(1) check_write_files] .
  have ne: "?path \<noteq> ''''" by (simp add: path_of_def)
  have changed: "\<not> same_files s s'" using assms(4) unfolding same_files_def by metis
  show ?thesis
  proof (cases rule: handleWriteFile_cases [of now r body w claims s1])
    case stopped
    then show ?thesis using changed s' s1(1) ck assms(1) by auto
  next
    case (forked b)
    then show ?thesis using changed s' same_files_trans [OF ck WriteForkFile_files] assms(1) by simp
  next
    case (written b)
    have s1_eq: "s1 = s" using s1(2) written(1) .
    have ck_eq: "fst (check_write now w ?fork claims ?path s) = s"
      using written(1) by (auto simp: check_write_def server_readFile_def server_resolveFilePermissions_def split: sum.splits)
    have "map_of (ws_Files (ws_of (fst (WriteFile now (write_request r b w) s)) v)) p \<noteq> map_of (ws_Files (ws_of s v)) p"
      using assms(1,4) s' written(3) s1_eq ck_eq by simp
    from WriteFile_other [OF this] have vp: "v = w" "p = ?path" "w \<noteq> ''''"
      using assms(1) plain_segments_ok [OF assms(2)] by (auto simp: write_request_def)
    have "filePermissionAllows (ResolveFilePermissions s w ?path (map_of (ws_Files (ws_of s w)) ?path \<noteq> None)) w (Some claims) ''write'' ?path"
      using written(1,2) assms(1) s1_eq plain_segments_ok [OF assms(2)]
      by (auto simp: check_write_def server_readFile_def server_resolveFilePermissions_def ReadFile_ws split: option.splits if_splits)
    moreover have "tc_WorkspaceID claims = w \<and> scopeMatchesPath (tc_Scopes claims) ''fs:write'' ?path"
      using bearer vp ne by (auto simp: authorizeBearer_def split: if_splits)
    ultimately show ?thesis using vp parsed written(1) by simp
  qed
qed

subsection \<open>Writes to an empty store\<close>

lemma NewStore_files: "ws_Files (ws_of NewStore w) = []" "map_of (s_workspaces NewStore) w = None"
  by (simp_all add: NewStore_def new_store_def ws_of_def mget_or_def empty_workspace_def)

lemma NewStore_unread: "ReadFile NewStore w p = Inl ErrNotFound" "ResolveFilePermissions NewStore w p inc = []"
  by (simp_all add: ReadFile_def ResolveFilePermissions_def NewStore_files)

lemma serve_write_new:
  assumes "authorizeBearer (Inr claims) ''w'' ''fs:write'' (TrimSpace (hq_path r)) = Inr claims"
    and "TrimSpace (hq_forkId r) = ''''" and "hq_correlationID r \<noteq> ''''" and "hq_path r \<noteq> ''''"
    and "normalizeIfMatchHeader (hq_ifMatch r) \<noteq> ''''"
    and "write_checks (write_request r b ''w'') None = Inr (encoding, metadata)"
  shows "\<exists>s' res. serve_write_file (\<lambda>_. []) now ''w'' r (Inr b) (Inr claims) None NewStore = (None, s', Inr res)
    \<and> map_of (ws_Files (ws_of s' ''w'')) (normalizePath (hq_path r)) \<noteq> None"
proof -
  have unread: "aclGetFile (\<lambda>_. []) NewStore ''w'' p = None" for p by (simp add: aclGetFile_def NewStore_unread)
  have "resolveFilePermissionsWithTarget (aclGetFile (\<lambda>_. []) NewStore ''w'') p inc = []" for p inc
    by (simp add: resolveFilePermissionsWithTarget_def unread Let_def)
  then have "acl_preflight (\<lambda>_. []) now ''write_file'' ''fs:write'' r ''w'' claims NewStore = (NewStore, True)"
    using assms(2) by (simp add: acl_preflight_def filePermissionAllows_def Let_def split: option.splits)
  then have auth: "authorize_request (\<lambda>_. []) now ''w'' ''write_file'' ''fs:write'' r (Inr claims) None NewStore = (None, NewStore, Inr claims)"
    using assms(1,3) by (simp add: authorize_request_def scope_path_of_def)
  have check: "check_write now ''w'' (TrimSpace (hq_forkId r)) claims (hq_path r) NewStore = (NewStore, Permitted)"
    using assms(2) by (simp add: check_write_def server_readFile_def server_resolveFilePermissions_def NewStore_unread filePermissionAllows_def)
  have "write_checks (write_request r b ''w'') (map_of (ws_Files (ws_of NewStore (wr_WorkspaceID (write_request r b ''w''))))
      (normalizePath (wr_Path (write_request r b ''w'')))) = Inr (encoding, metadata)"
    using assms(6) by (simp add: NewStore_files)
  from WriteFile_Inr [OF this, of now] obtain s' res where wr: "WriteFile now (write_request r b ''w'') NewStore = (s', Inr res)"
    by metis
  moreover have "map_of (ws_Files (ws_of s' ''w'')) (normalizePath (hq_path r)) \<noteq> None"
    using write_then_read_file [OF wr] by (auto simp: write_request_def)
  moreover have "handleWriteFile now r (Inr b) ''w'' claims NewStore = (s', Inr res)"
    using assms(2,4,5) check wr by (simp add: handleWriteFile_def Let_def write_request_def [symmetric])
  ultimately show ?thesis using auth by (simp add: serve_write_file_def)
qed

definition sample_claims :: "string list \<Rightarrow> tokenClaims" where
  "sample_claims scopes = \<lparr>tc_WorkspaceID = ''w'', tc_AgentName = ''a'', tc_Scopes = scopes, tc_Exp = 0\<rparr>"

definition sample_put :: "string \<Rightarrow> http_request" where
  "sample_put path = \<lparr>hq_path = path, hq_forkId = '''', hq_ifMatch = ''0'', hq_cursor = '''', hq_decode = '''',
     hq_pathPrefix = '''', hq_correlationID = ''c''\<rparr>"

lemma sample_put_checks:
  "\<exists>encoding metadata. write_checks (write_request (sample_put ''/a/b'') sample_write ''w'') None = Inr (encoding, metadata)"
  "\<exists>encoding metadata. write_checks (write_request (sample_put ''/a/'') sample_write ''w'') None = Inr (encoding, metadata)"
proof -
  have "write_checks (write_request (sample_put ''/a/b'') sample_write ''w'') None = Inr ('''', \<lparr>ftm_Type = ''file'', ftm_Target = '''', ftm_Mode = 0\<rparr>)"
    "write_checks (write_request (sample_put ''/a/'') sample_write ''w'') None = Inr ('''', \<lparr>ftm_Type = ''file'', ftm_Target = '''', ftm_Mode = 0\<rparr>)"
    by code_simp+
  then show "\<exists>encoding metadata. write_checks (write_request (sample_put ''/a/b'') sample_write ''w'') None = Inr (encoding, metadata)"
    "\<exists>encoding metadata. write_checks (write_request (sample_put ''/a/'') sample_write ''w'') None = Inr (encoding, metadata)"
    by blast+
qed

lemma sample_put_request:
  "TrimSpace (hq_forkId (sample_put p)) = ''''" "hq_correlationID (sample_put p) \<noteq> ''''" "hq_path (sample_put p) = p"
  "normalizeIfMatchHeader (hq_ifMatch (sample_put p)) \<noteq> ''''"
proof -
  have "normalizeIfMatchHeader ''0'' \<noteq> ''''" by code_simp
  then show "TrimSpace (hq_forkId (sample_put p)) = ''''" "hq_correlationID (sample_put p) \<noteq> ''''" "hq_path (sample_put p) = p"
    "normalizeIfMatchHeader (hq_ifMatch (sample_put p)) \<noteq> ''''" by (simp_all add: sample_put_def)
qed

lemma sample_put_written:
  assumes "p = ''/a/b'' \<or> p = ''/a/''"
  shows "\<exists>s' res. serve_write_file (\<lambda>_. []) 0 ''w'' (sample_put p) (Inr sample_write) (Inr (sample_claims [''relayfile:fs:write:/a/*''])) None NewStore = (None, s', Inr res)
    \<and> map_of (ws_Files (ws_of s' ''w'')) (normalizePath p) \<noteq> None"
proof -
  have "authorizeBearer (Inr (sample_claims [''relayfile:fs:write:/a/*''])) ''w'' ''fs:write'' (TrimSpace ''/a/b'') = Inr (sample_claims [''relayfile:fs:write:/a/*''])"
    "authorizeBearer (Inr (sample_claims [''relayfile:fs:write:/a/*''])) ''w'' ''fs:write'' (TrimSpace ''/a/'') = Inr (sample_claims [''relayfile:fs:write:/a/*''])"
    by code_simp+
  then show ?thesis
    using assms serve_write_new [of "sample_claims [''relayfile:fs:write:/a/*'']" "sample_put p" sample_write _ _ 0] sample_put_checks sample_put_request [of p]
    by (elim disjE exE) simp_all
qed

lemma sample_commit_api:
  "map_of (ws_Files (ws_of (fst (handleCommitFork 0 ''w'' ''f'' ''c'' (sample_claims [''fs:write'']) sample_fork_store)) ''w'')) ''/a'' \<noteq> None"
proof -
  let ?val = "validateForkCommitEntries ''w'' (sample_claims [''fs:write''])"
  have ws: "ws_Files (ws_of sample_fork_store ''w'') = []"
    using NewStore_files by (simp add: sample_fork_store_def ws_of_def)
  have "?val (commit_entries [] (sorted_overlay sample_fork)) = None" by code_simp
  then have "commit_ready 0 ''w'' ''f'' ?val sample_fork_store"
    using sample_commit_ready ws by (auto simp: commit_ready_def sample_fork_store_def split: option.splits)
  then have "is_ok (snd (CommitForkWithValidator 0 ''w'' ''f'' ''c'' ?val sample_fork_store))"
    by (intro CommitFork_ready) (simp add: sample_trim)
  then obtain s' resp where c: "CommitForkWithValidator 0 ''w'' ''f'' ''c'' ?val sample_fork_store = (s', Inr resp)"
    by (cases "CommitForkWithValidator 0 ''w'' ''f'' ''c'' ?val sample_fork_store"; cases "snd (CommitForkWithValidator 0 ''w'' ''f'' ''c'' ?val sample_fork_store)") auto
  have n: "normalizePath ''/a'' = ''/a''" by code_simp
  have "readForkFileLocked sample_fork_store sample_fork ''/a'' \<noteq> None"
    using n by (simp add: readForkFileLocked_def Let_def sample_fork_def sample_entry_def)
  then have "map_of (ws_Files (ws_of s' ''w'')) ''/a'' \<noteq> None"
    using commit_publishes_view [OF sample_store_inv c sample_fork_lookup sample_ok] n
    by (metis (no_types, lifting) option.map_disc_iff sample_trim(1))
  then show ?thesis using c by (simp add: handleCommitFork_def)
qed

theorem api_commit_authorised_witness:
  "''w'' = TrimSpace ''w'' \<and> scopeMatchesPath (tc_Scopes (sample_claims [''fs:write''])) ''fs:write'' ''/a''
    \<and> (\<exists>deleted. filePermissionAllows
          (resolvePermissionsFromFiles (ws_Files (ws_of sample_fork_store ''w'')) ''/a''
            (deleted \<or> map_of (ws_Files (ws_of sample_fork_store ''w'')) ''/a'' \<noteq> None))
          ''w'' (Some (sample_claims [''fs:write''])) ''write'' ''/a'')"
proof (rule api_commit_authorised [OF sample_fork_lookup sample_ok])
  show "map_of (ws_Files (ws_of (fst (handleCommitFork 0 ''w'' ''f'' ''c'' (sample_claims [''fs:write'']) sample_fork_store)) ''w'')) ''/a''
      \<noteq> map_of (ws_Files (ws_of sample_fork_store ''w'')) ''/a''"
    using sample_commit_api NewStore_files by (simp add: sample_fork_store_def ws_of_def)
qed

theorem api_write_authorised_witness:
  "\<exists>claims. (Inr (sample_claims [''relayfile:fs:write:/a/*'']) :: authError + tokenClaims) = Inr claims \<and> tc_WorkspaceID claims = ''w''
     \<and> scopeMatchesPath (tc_Scopes claims) ''fs:write'' ''/a/b''
     \<and> filePermissionAllows (ResolveFilePermissions NewStore ''w'' ''/a/b'' (map_of (ws_Files (ws_of NewStore ''w'')) ''/a/b'' \<noteq> None)) ''w'' (Some claims) ''write'' ''/a/b''"
proof -
  obtain s' res where wr: "serve_write_file (\<lambda>_. []) 0 ''w'' (sample_put ''/a/b'') (Inr sample_write) (Inr (sample_claims [''relayfile:fs:write:/a/*''])) None NewStore = (None, s', Inr res)"
    and f: "map_of (ws_Files (ws_of s' ''w'')) (normalizePath ''/a/b'') \<noteq> None"
    using sample_put_written [of "''/a/b''"] by blast
  have "path_of [''a'', ''b''] = ''/a/b''" "plain_segments [''a'', ''b'']" "normalizePath ''/a/b'' = ''/a/b''" by code_simp+
  then show ?thesis
    using api_write_authorised [of "sample_put ''/a/b''" "[''a'', ''b'']" "\<lambda>_. []" 0 "''w''" "Inr sample_write" _ None NewStore None s' "Inr res" "''w''" "''/a/b''", OF _ _ wr]
      f NewStore_files sample_put_request(3) by simp
qed

text \<open>C39. The scope check and the store disagree on which file a path with a trailing slash names: a
  token confined to the files below \<open>/a\<close> writes the file \<open>/a\<close> itself, which its scope does not
  cover, by asking for \<open>/a/\<close>.\<close>

theorem trailing_slash_escapes_scope:
  "\<exists>s' res. serve_write_file (\<lambda>_. []) 0 ''w'' (sample_put ''/a/'') (Inr sample_write) (Inr (sample_claims [''relayfile:fs:write:/a/*''])) None NewStore = (None, s', Inr res)
     \<and> map_of (ws_Files (ws_of s' ''w'')) ''/a'' \<noteq> None \<and> \<not> scopeMatchesPath [''relayfile:fs:write:/a/*''] ''fs:write'' ''/a''"
proof -
  have "normalizePath ''/a/'' = ''/a''" "\<not> scopeMatchesPath [''relayfile:fs:write:/a/*''] ''fs:write'' ''/a''" by code_simp+
  then show ?thesis using sample_put_written [of "''/a/''"] by simp
qed

section \<open>Deleted files\<close>

lemma fileReadAllowedNow_plain:
  "plain_segments segs \<Longrightarrow> fileReadAllowedNow s w claims (path_of segs) inc =
     (scopeMatchesPath (tc_Scopes claims) ''fs:read'' (path_of segs) \<and>
      filePermissionAllows (ResolveFilePermissions s w (path_of segs) inc) w (Some claims) ''read'' (path_of segs))"
  by (simp add: fileReadAllowedNow_def Let_def)

text \<open>C31. The event of a deletion is shown, in whatever state the store is later, only to callers who
  could read the file just before it was deleted: the rules it was under are taken along with
  the event.\<close>

theorem deletion_hidden_from_excluded_readers:
  assumes "DeleteFile now req s = (s', Inr result)" and "dr_Path req = path_of segs"
    and "plain_segments segs" and "segs \<noteq> []"
    and "eventVisibleToClaims later (dr_WorkspaceID req) claims (last (ws_Events (ws_of s' (dr_WorkspaceID req))))"
  shows "fileReadAllowedNow s (dr_WorkspaceID req) claims (path_of segs) True"
proof (cases rule: DeleteFile_cases [of now req s])
  case (failed e s'')
  then show ?thesis using assms(1) by simp
next
  case (deleted f task)
  let ?w = "dr_WorkspaceID req" and ?p = "path_of segs"
  have p: "normalizePath (dr_Path req) = ?p"
    using assms(2,3) normalizePath_path_of [OF plain_segments_ok [OF assms(3)]] by simp
  let ?acl = "resolvePermissionsFromFiles (ws_Files (ws_of s ?w)) ?p True"
  let ?s1 = "fst (admitDeleteLocked ?w now (ensureWorkspaceLocked ?w s))"
  obtain ev where ev: "ws_Events (ws_of (commit_del now ?w ?p (f_Provider f) (dr_CorrelationID req) ?acl ?s1) ?w) = ws_Events (ws_of ?s1 ?w) @ [ev]"
    and e: "e_Type ev = ''file.deleted''" "e_Path ev = ?p" "e_ACLPermissions ev = Some ?acl"
    using commit_del_event [of now ?w ?p "f_Provider f" "dr_CorrelationID req" ?acl ?s1] by blast
  have "last (ws_Events (ws_of s' ?w)) = ev"
    using deleted(4) assms(1) p ev by (simp add: store_simps)
  then have vis: "eventVisibleToClaims later ?w claims ev" using assms(5) by simp
  have known: "map_of (s_workspaces s) ?w \<noteq> None"
    using deleted(1) by (auto simp: ws_of_def mget_or_def empty_workspace_def split: option.splits)
  then have res: "ResolveFilePermissions s ?w ?p True = ?acl"
    by (auto simp: ResolveFilePermissions_def resolvePermissionsFromFiles_def ws_of_def mget_or_def)
  have "?p \<noteq> ''''" by (simp add: path_of_def)
  then show ?thesis
    using vis e TrimSpace_path_of [OF assms(3)] assms(3)
    by (simp add: fileReadAllowedNow_plain eventVisibleToClaims_def Let_def res split: if_splits)
qed

definition sample_removal :: DeleteRequest where
  "sample_removal = \<lparr>dr_WorkspaceID = ''w'', dr_Path = ''/a'', dr_IfMatch = ''*'', dr_CorrelationID = ''c''\<rparr>"

definition sample_removal_store :: Store where
  "sample_removal_store = put_ws ''w'' (empty_workspace\<lparr>ws_Files := [(''/a'', zero_file\<lparr>f_Path := ''/a''\<rparr>)]\<rparr>) NewStore"

lemma sample_removal_ok: "\<exists>s' res. DeleteFile 0 sample_removal sample_removal_store = (s', Inr res)"
proof -
  have "map_of (ws_Files (ws_of sample_removal_store ''w'')) (normalizePath ''/a'') = Some (zero_file\<lparr>f_Path := ''/a''\<rparr>)"
    using normalizePath_path_of [of "[''a'']"] by (simp add: sample_removal_store_def store_simps path_of_def)
  moreover have "cfg_deleteStormThreshold (s_cfg sample_removal_store) = 0"
    by (simp add: sample_removal_store_def store_simps NewStore_def new_store_def store_config_def default_options_def)
  ultimately show ?thesis
    by (simp add: DeleteFile_def sample_removal_def Let_def store_simps admitDeleteLocked_def split: prod.splits)
qed

theorem deletion_hidden_from_excluded_readers_witness:
  "fileReadAllowedNow sample_removal_store ''w'' (sample_claims [''fs:read'']) (path_of [''a'']) True"
proof -
  obtain s' res where d: "DeleteFile 0 sample_removal sample_removal_store = (s', Inr res)" using sample_removal_ok by blast
  have p: "dr_Path sample_removal = path_of [''a'']" and w: "dr_WorkspaceID sample_removal = ''w''"
    by (simp_all add: sample_removal_def path_of_def)
  have plain: "plain_segments [''a'']" by code_simp
  have vis: "eventVisibleToClaims NewStore ''w'' (sample_claims [''fs:read'']) (last (ws_Events (ws_of s' ''w'')))"
  proof (cases rule: DeleteFile_cases [of 0 sample_removal sample_removal_store])
    case (failed e s'')
    then show ?thesis using d by simp
  next
    case (deleted f task)
    let ?acl = "resolvePermissionsFromFiles (ws_Files (ws_of sample_removal_store ''w'')) (normalizePath ''/a'') True"
    have acl: "?acl = []" unfolding sample_removal_store_def store_simps by code_simp
    let ?s1 = "fst (admitDeleteLocked ''w'' 0 (ensureWorkspaceLocked ''w'' sample_removal_store))"
    obtain ev where ev: "ws_Events (ws_of (commit_del 0 ''w'' (normalizePath ''/a'') (f_Provider f) ''c'' ?acl ?s1) ''w'') = ws_Events (ws_of ?s1 ''w'') @ [ev]"
      and e: "e_Type ev = ''file.deleted''" "e_Path ev = normalizePath ''/a''" "e_ACLPermissions ev = Some ?acl"
      using commit_del_event [of 0 "''w''" "normalizePath ''/a''" "f_Provider f" "''c''" ?acl ?s1] by blast
    have "s' = enqueueWriteback task (saveLocked (commit_del 0 ''w'' (normalizePath ''/a'') (f_Provider f) ''c'' ?acl ?s1))"
      using deleted(4) d by (simp add: sample_removal_def)
    then have "last (ws_Events (ws_of s' ''w'')) = ev" using ev by (simp add: store_simps)
    moreover have "TrimSpace (normalizePath ''/a'') = ''/a''" "normalizeACLPath ''/a'' = ''/a''"
      "scopeMatchesPath (tc_Scopes (sample_claims [''fs:read''])) ''fs:read'' ''/a''" by code_simp+
    ultimately show ?thesis
      using e acl by (simp add: eventVisibleToClaims_def Let_def NewStore_unread filePermissionAllows_def)
  qed
  have "fileReadAllowedNow sample_removal_store (dr_WorkspaceID sample_removal) (sample_claims [''fs:read'']) (path_of [''a'']) True"
    by (rule deletion_hidden_from_excluded_readers [OF d p plain]) (use vis w in simp_all)
  then show ?thesis by (simp add: w)
qed

end
