(* ===== verification/GoMerge.thy ===== *)
theory GoMerge
  imports GoStrings
begin

text \<open>
  The merge of Go sources by top-level functions (\<^verbatim>\<open>src/internal/relayfile/merge_go.go\<close>), on files that
  were split into a prologue and functions.  The splitting needs Go's parser, which is not part
  of the repository: it is an argument where the merge is used.

  Theorems: a successful merge contains every function that either side changed or added;
  and a function moved off the first place loses the line break in front of it.
\<close>

record goFuncUnit =
  gu_Key :: string
  gu_Name :: string
  gu_Text :: string
  gu_IsInit :: bool

record goExtractedFile =
  ge_Prologue :: string
  ge_Funcs :: "goFuncUnit list"

record goMergeConflict =
  gmc_Unit :: string
  gmc_Reason :: string
  gmc_Base :: string
  gmc_Mine :: string
  gmc_Theirs :: string

definition funcByKey :: "goExtractedFile \<Rightarrow> string \<Rightarrow> goFuncUnit option" where
  "funcByKey f key = find (\<lambda>u. gu_Key u = key) (ge_Funcs f)"

definition textsDiffer :: "string \<Rightarrow> string \<Rightarrow> bool" where
  "textsDiffer a b \<longleftrightarrow> TrimSpace a \<noteq> TrimSpace b"

section \<open>One unit\<close>

text \<open>The body of the loop over the functions of the live file: a conflict, or the resolved text.\<close>

definition resolve_theirs :: "goExtractedFile \<Rightarrow> goExtractedFile \<Rightarrow> goFuncUnit \<Rightarrow> goMergeConflict + string" where
  "resolve_theirs base mine t =
     (case funcByKey mine (gu_Key t) of
        None \<Rightarrow>
          (case funcByKey base (gu_Key t) of
             None \<Rightarrow> Inr (gu_Text t)
           | Some b \<Rightarrow>
               if textsDiffer (gu_Text t) (gu_Text b)
               then Inl \<lparr>gmc_Unit = gu_Name t, gmc_Reason = ''deleted by one side, modified by the other'',
                         gmc_Base = gu_Text b, gmc_Mine = '''', gmc_Theirs = gu_Text t\<rparr>
               else Inr '''')
      | Some m \<Rightarrow>
          (case funcByKey base (gu_Key t) of
             None \<Rightarrow>
               if \<not> textsDiffer (gu_Text m) (gu_Text t) then Inr (gu_Text t)
               else if gu_IsInit t \<or> gu_IsInit m
               then Inl \<lparr>gmc_Unit = gu_Name t, gmc_Reason = ''init() is never auto-merged'',
                         gmc_Base = '''', gmc_Mine = gu_Text m, gmc_Theirs = gu_Text t\<rparr>
               else Inl \<lparr>gmc_Unit = gu_Name t, gmc_Reason = ''both sides independently added a function with this name'',
                         gmc_Base = '''', gmc_Mine = gu_Text m, gmc_Theirs = gu_Text t\<rparr>
           | Some b \<Rightarrow>
               let changedByMe = textsDiffer (gu_Text m) (gu_Text b);
                   changedByOthers = textsDiffer (gu_Text t) (gu_Text b)
               in if gu_IsInit t \<and> (changedByMe \<or> changedByOthers) \<and> textsDiffer (gu_Text m) (gu_Text t)
                  then Inl \<lparr>gmc_Unit = gu_Name t, gmc_Reason = ''init() is never auto-merged'',
                            gmc_Base = gu_Text b, gmc_Mine = gu_Text m, gmc_Theirs = gu_Text t\<rparr>
                  else if changedByMe \<and> changedByOthers \<and> textsDiffer (gu_Text m) (gu_Text t)
                  then Inl \<lparr>gmc_Unit = gu_Name t, gmc_Reason = ''concurrently changed'',
                            gmc_Base = gu_Text b, gmc_Mine = gu_Text m, gmc_Theirs = gu_Text t\<rparr>
                  else if changedByMe then Inr (gu_Text m)
                  else Inr (gu_Text t)))"

text \<open>The body of the loop over the proposed functions: \<open>None\<close> when nothing is to be done, else a
  conflict or the text of a new function.\<close>

definition resolve_mine :: "goExtractedFile \<Rightarrow> goExtractedFile \<Rightarrow> goFuncUnit \<Rightarrow> (goMergeConflict + string) option" where
  "resolve_mine base theirs m =
     (if funcByKey theirs (gu_Key m) \<noteq> None then None
      else case funcByKey base (gu_Key m) of
             None \<Rightarrow> Some (Inr (TrimSpace (gu_Text m)))
           | Some b \<Rightarrow>
               if \<not> textsDiffer (gu_Text m) (gu_Text b) then None
               else Some (Inl \<lparr>gmc_Unit = gu_Name m, gmc_Reason = ''modified by one side, deleted by the other'',
                               gmc_Base = gu_Text b, gmc_Mine = gu_Text m, gmc_Theirs = ''''\<rparr>))"

section \<open>The merge\<close>

record go_merge_state =
  gm_conflicts :: "goMergeConflict list"
  gm_resolved :: "(string, string) gomap"
  gm_order :: "string list"
  gm_new :: "string list"

definition merge_prologue :: "string \<Rightarrow> string \<Rightarrow> string \<Rightarrow> goMergeConflict list \<times> string" where
  "merge_prologue base mine theirs =
     (let changedByMe = (mine \<noteq> base); changedByOthers = (theirs \<noteq> base)
      in if changedByMe \<and> changedByOthers \<and> mine \<noteq> theirs
         then ([\<lparr>gmc_Unit = ''file scope (package/imports/types/vars)'', gmc_Reason = ''both sides changed file-scope content'',
                 gmc_Base = base, gmc_Mine = mine, gmc_Theirs = theirs\<rparr>], base)
         else if changedByMe then ([], mine)
         else if changedByOthers then ([], theirs)
         else ([], base))"

definition theirs_step :: "goExtractedFile \<Rightarrow> goExtractedFile \<Rightarrow> goFuncUnit \<Rightarrow> go_merge_state \<Rightarrow> go_merge_state" where
  "theirs_step base mine t st =
     (let st = st\<lparr>gm_order := gm_order st @ [gu_Key t]\<rparr>
      in case resolve_theirs base mine t of
           Inl c \<Rightarrow> st\<lparr>gm_conflicts := gm_conflicts st @ [c]\<rparr>
         | Inr text \<Rightarrow> st\<lparr>gm_resolved := mput (gu_Key t) text (gm_resolved st)\<rparr>)"

definition mine_step :: "goExtractedFile \<Rightarrow> goExtractedFile \<Rightarrow> goFuncUnit \<Rightarrow> go_merge_state \<Rightarrow> go_merge_state" where
  "mine_step base theirs m st =
     (case resolve_mine base theirs m of
        None \<Rightarrow> st
      | Some (Inl c) \<Rightarrow> st\<lparr>gm_conflicts := gm_conflicts st @ [c]\<rparr>
      | Some (Inr text) \<Rightarrow>
          st\<lparr>gm_order := gm_order st @ [gu_Key m], gm_new := gu_Key m # gm_new st,
             gm_resolved := mput (gu_Key m) text (gm_resolved st)\<rparr>)"

text \<open>The assembly loop: the text written so far, and whether any function was written.\<close>

fun assemble :: "(string, string) gomap \<Rightarrow> string list \<Rightarrow> string list \<Rightarrow> string \<Rightarrow> bool \<Rightarrow> string \<times> bool" where
  "assemble resolved new [] out wroteAny = (out, wroteAny)"
| "assemble resolved new (key # keys) out wroteAny =
     (case map_of resolved key of
        None \<Rightarrow> assemble resolved new keys out wroteAny
      | Some text \<Rightarrow>
          if text = '''' then assemble resolved new keys out wroteAny
          else if key \<in> set new then
            assemble resolved new keys (out @ (if wroteAny then [CHR 0x0A, CHR 0x0A] else '''') @ text) True
          else assemble resolved new keys (out @ text) True)"

definition goThreeWayMerge ::
  "goExtractedFile \<Rightarrow> goExtractedFile \<Rightarrow> goExtractedFile \<Rightarrow> goMergeConflict list + string" where
  "goThreeWayMerge base mine theirs =
     (let (conflicts, prologue) = merge_prologue (ge_Prologue base) (ge_Prologue mine) (ge_Prologue theirs);
          st = \<lparr>gm_conflicts = conflicts, gm_resolved = [], gm_order = [], gm_new = []\<rparr>;
          st = fold (theirs_step base mine) (ge_Funcs theirs) st;
          st = fold (mine_step base theirs) (ge_Funcs mine) st
      in if length (gm_conflicts st) > 0 then Inl (gm_conflicts st)
         else let (out, wroteAny) = assemble (gm_resolved st) (gm_new st) (gm_order st) prologue False
              in Inr (if wroteAny \<and> \<not> HasSuffix out [CHR 0x0A] then out @ [CHR 0x0A] else out))"

section \<open>Nothing is lost\<close>

lemma funcByKey_mem:
  assumes "distinct (map gu_Key (ge_Funcs f))" and "u \<in> set (ge_Funcs f)"
  shows "funcByKey f (gu_Key u) = Some u"
proof -
  obtain v where v: "funcByKey f (gu_Key u) = Some v"
    using assms(2) by (cases "funcByKey f (gu_Key u)") (auto simp: funcByKey_def find_None_iff)
  then have "v \<in> set (ge_Funcs f)" "gu_Key v = gu_Key u" by (auto simp: funcByKey_def find_Some_iff)
  then have "v = u" using assms by (auto simp: distinct_map inj_on_def)
  with v show ?thesis by simp
qed

lemma funcByKey_Some: "funcByKey f key = Some u \<Longrightarrow> u \<in> set (ge_Funcs f) \<and> gu_Key u = key"
  by (auto simp: funcByKey_def find_Some_iff)

lemma theirs_fold:
  assumes "gm_conflicts (fold (theirs_step base mine) ts st) = []" and "distinct (map gu_Key ts)"
  shows "gm_conflicts st = [] \<and> gm_order (fold (theirs_step base mine) ts st) = gm_order st @ map gu_Key ts
    \<and> gm_new (fold (theirs_step base mine) ts st) = gm_new st
    \<and> (\<forall>t \<in> set ts. \<exists>body. resolve_theirs base mine t = Inr body
         \<and> map_of (gm_resolved (fold (theirs_step base mine) ts st)) (gu_Key t) = Some body)
    \<and> (\<forall>key. key \<notin> gu_Key ` set ts \<longrightarrow>
         map_of (gm_resolved (fold (theirs_step base mine) ts st)) key = map_of (gm_resolved st) key)"
  using assms
proof (induction ts arbitrary: st)
  case (Cons t ts)
  let ?st = "theirs_step base mine t st"
  have IH: "gm_conflicts ?st = []" "gm_order (fold (theirs_step base mine) ts ?st) = gm_order ?st @ map gu_Key ts"
    "gm_new (fold (theirs_step base mine) ts ?st) = gm_new ?st"
    "\<forall>t \<in> set ts. \<exists>body. resolve_theirs base mine t = Inr body
         \<and> map_of (gm_resolved (fold (theirs_step base mine) ts ?st)) (gu_Key t) = Some body"
    "\<And>key. key \<notin> gu_Key ` set ts \<Longrightarrow> map_of (gm_resolved (fold (theirs_step base mine) ts ?st)) key = map_of (gm_resolved ?st) key"
    using Cons.IH [of ?st] Cons.prems by auto
  obtain body where body: "resolve_theirs base mine t = Inr body"
    using IH(1) by (cases "resolve_theirs base mine t") (auto simp: theirs_step_def)
  have st: "gm_conflicts ?st = gm_conflicts st" "gm_order ?st = gm_order st @ [gu_Key t]" "gm_new ?st = gm_new st"
    "map_of (gm_resolved ?st) key = (if key = gu_Key t then Some body else map_of (gm_resolved st) key)" for key
    by (simp_all add: theirs_step_def body gomap_simps)
  have "gu_Key t \<notin> gu_Key ` set ts" using Cons.prems(2) by auto
  then have "map_of (gm_resolved (fold (theirs_step base mine) ts ?st)) (gu_Key t) = Some body"
    using IH(5) st(4) by simp
  then show ?case using IH st body by auto
qed simp

lemma mine_fold:
  assumes "gm_conflicts (fold (mine_step base theirs) ms st) = []" and "distinct (map gu_Key ms)"
  shows "gm_conflicts st = []
    \<and> (\<exists>extra. gm_order (fold (mine_step base theirs) ms st) = gm_order st @ extra)
    \<and> (\<forall>m \<in> set ms. (\<forall>c. resolve_mine base theirs m \<noteq> Some (Inl c))
         \<and> (\<forall>body. resolve_mine base theirs m = Some (Inr body) \<longrightarrow>
              gu_Key m \<in> set (gm_order (fold (mine_step base theirs) ms st))
              \<and> map_of (gm_resolved (fold (mine_step base theirs) ms st)) (gu_Key m) = Some body))
    \<and> (\<forall>key. (\<forall>m \<in> set ms. gu_Key m = key \<longrightarrow> resolve_mine base theirs m = None) \<longrightarrow>
         map_of (gm_resolved (fold (mine_step base theirs) ms st)) key = map_of (gm_resolved st) key)"
  using assms
proof (induction ms arbitrary: st)
  case (Cons m ms)
  let ?st = "mine_step base theirs m st"
  let ?fin = "fold (mine_step base theirs) ms ?st"
  obtain extra where IH: "gm_conflicts ?st = []" "gm_order ?fin = gm_order ?st @ extra"
    "\<And>m body. m \<in> set ms \<Longrightarrow> resolve_mine base theirs m = Some (Inr body) \<Longrightarrow>
       gu_Key m \<in> set (gm_order ?fin) \<and> map_of (gm_resolved ?fin) (gu_Key m) = Some body"
    "\<And>m c. m \<in> set ms \<Longrightarrow> resolve_mine base theirs m \<noteq> Some (Inl c)"
    "\<And>key. (\<forall>m \<in> set ms. gu_Key m = key \<longrightarrow> resolve_mine base theirs m = None) \<Longrightarrow> map_of (gm_resolved ?fin) key = map_of (gm_resolved ?st) key"
    using Cons.IH [of ?st] Cons.prems by fastforce
  have key: "map_of (gm_resolved ?fin) (gu_Key m) = map_of (gm_resolved ?st) (gu_Key m)"
    using Cons.prems(2) by (intro IH(5)) (metis distinct.simps(2) image_eqI image_set list.simps(9))
  show ?case
  proof (cases "resolve_mine base theirs m")
    case None
    then have "?st = st" by (simp add: mine_step_def)
    with None IH show ?thesis by auto
  next
    case (Some r)
    obtain body where r: "r = Inr body" using IH(1) Some by (cases r) (auto simp: mine_step_def)
    have st: "gm_conflicts st = []" "gm_order ?st = gm_order st @ [gu_Key m]"
      "map_of (gm_resolved ?st) key = (if key = gu_Key m then Some body else map_of (gm_resolved st) key)" for key
      using IH(1) by (auto simp: mine_step_def Some r gomap_simps)
    show ?thesis
      using IH st Some r key by (simp split: if_splits)
  qed
qed simp

lemma assemble_grows: "\<exists>r. fst (assemble resolved new keys out w) = out @ r"
proof (induction resolved new keys out w rule: assemble.induct)
  case (2 resolved new key keys out w)
  then show ?case by (fastforce split: option.splits)
qed simp

lemma assemble_contains:
  assumes "key \<in> set keys" and "map_of resolved key = Some body"
  shows "sublist body (fst (assemble resolved new keys out w))"
  using assms
proof (induction resolved new keys out w rule: assemble.induct)
  case (2 resolved new k keys out w)
  show ?case
  proof (cases "k = key \<and> body \<noteq> ''''")
    case True
    obtain r where "fst (assemble resolved new (k # keys) out w) = (out @ (if k \<in> set new \<and> w then [CHR 0x0A, CHR 0x0A] else '''') @ body) @ r"
      using True 2(6) assemble_grows [of resolved new keys "out @ (if k \<in> set new \<and> w then [CHR 0x0A, CHR 0x0A] else '''') @ body" True]
      by (cases "k \<in> set new") auto
    then show ?thesis unfolding sublist_def by (metis append.assoc)
  next
    case False
    then consider "body = ''''" | "key \<in> set keys" using 2(5) by auto
    then show ?thesis using 2 by cases (auto split: option.splits)
  qed
qed simp

lemma TrimSpace_sublist: "sublist (TrimSpace s) s"
proof -
  obtain p where p: "s = p @ strip_front space_seqs s" using strip_front_suffix by blast
  obtain q where "rev (strip_front space_seqs s) = q @ strip_front (map rev space_seqs) (rev (strip_front space_seqs s))"
    using strip_front_suffix by blast
  then have "strip_front space_seqs s = TrimSpace s @ rev q" by (metis TrimSpace_def rev_append rev_rev_ident)
  with p show ?thesis unfolding sublist_def by metis
qed

definition edited :: "goExtractedFile \<Rightarrow> goFuncUnit \<Rightarrow> bool" where
  "edited base u = (case funcByKey base (gu_Key u) of None \<Rightarrow> True | Some b \<Rightarrow> textsDiffer (gu_Text u) (gu_Text b))"

lemma resolve_theirs_keeps:
  assumes "resolve_theirs base mine t = Inr body"
  shows "edited base t \<Longrightarrow> TrimSpace body = TrimSpace (gu_Text t)"
    and "funcByKey mine (gu_Key t) = Some m \<Longrightarrow> gu_Key m = gu_Key t \<Longrightarrow> edited base m \<Longrightarrow> TrimSpace body = TrimSpace (gu_Text m)"
  using assms by (auto simp: resolve_theirs_def edited_def textsDiffer_def Let_def split: option.splits if_splits)

lemma goThreeWayMerge_states:
  assumes "goThreeWayMerge base mine theirs = Inr content"
    and "distinct (map gu_Key (ge_Funcs mine))" and "distinct (map gu_Key (ge_Funcs theirs))"
  obtains resolved new order prologue where
    "\<exists>r. content = fst (assemble resolved new order prologue False) @ r"
    and "\<And>t. t \<in> set (ge_Funcs theirs) \<Longrightarrow> gu_Key t \<in> set order \<and> (\<exists>body. resolve_theirs base mine t = Inr body \<and> map_of resolved (gu_Key t) = Some body)"
    and "\<And>m. m \<in> set (ge_Funcs mine) \<Longrightarrow> funcByKey theirs (gu_Key m) = None \<Longrightarrow> edited base m \<Longrightarrow>
      gu_Key m \<in> set order \<and> map_of resolved (gu_Key m) = Some (TrimSpace (gu_Text m))"
proof -
  obtain conflicts prologue where pro: "merge_prologue (ge_Prologue base) (ge_Prologue mine) (ge_Prologue theirs) = (conflicts, prologue)"
    by (metis surj_pair)
  define st1 where "st1 = fold (theirs_step base mine) (ge_Funcs theirs) \<lparr>gm_conflicts = conflicts, gm_resolved = [], gm_order = [], gm_new = []\<rparr>"
  define st2 where "st2 = fold (mine_step base theirs) (ge_Funcs mine) st1"
  have none: "gm_conflicts st2 = []"
    using assms(1) by (auto simp: goThreeWayMerge_def pro st1_def st2_def Let_def split: if_splits)
  note m = mine_fold [OF none [unfolded st2_def] assms(2), folded st2_def]
  have none1: "gm_conflicts st1 = []" using m by blast
  note t = theirs_fold [OF none1 [unfolded st1_def] assms(3), folded st1_def]
  show ?thesis
  proof (rule that [of "gm_resolved st2" "gm_new st2" "gm_order st2" prologue])
    show "\<exists>r. content = fst (assemble (gm_resolved st2) (gm_new st2) (gm_order st2) prologue False) @ r"
      using assms(1) none by (auto simp: goThreeWayMerge_def pro st1_def [symmetric] st2_def [symmetric] Let_def split: prod.splits if_splits)
    fix u assume u: "u \<in> set (ge_Funcs theirs)"
    have "resolve_mine base theirs v = None" if "gu_Key v = gu_Key u" for v
      using funcByKey_mem [OF assms(3) u] that by (simp add: resolve_mine_def)
    then have "map_of (gm_resolved st2) (gu_Key u) = map_of (gm_resolved st1) (gu_Key u)" using m by blast
    moreover have "gu_Key u \<in> set (gm_order st2)" using m t u by auto
    ultimately show "gu_Key u \<in> set (gm_order st2) \<and> (\<exists>body. resolve_theirs base mine u = Inr body \<and> map_of (gm_resolved st2) (gu_Key u) = Some body)"
      using t u by auto
  next
    fix u assume u: "u \<in> set (ge_Funcs mine)" "funcByKey theirs (gu_Key u) = None" "edited base u"
    have "\<forall>c. resolve_mine base theirs u \<noteq> Some (Inl c)" using m u(1) by blast
    then have "resolve_mine base theirs u = Some (Inr (TrimSpace (gu_Text u)))"
      using u(2,3) by (auto simp: resolve_mine_def edited_def split: option.splits if_splits)
    then show "gu_Key u \<in> set (gm_order st2) \<and> map_of (gm_resolved st2) (gu_Key u) = Some (TrimSpace (gu_Text u))"
      using m u(1) by blast
  qed
qed

text \<open>C35. A successful merge loses no edit: the body of every function that either side changed against
  the base, or added, is in the merged file, white space around it apart.\<close>

theorem go_merge_keeps_edits:
  assumes "goThreeWayMerge base mine theirs = Inr content"
    and "distinct (map gu_Key (ge_Funcs mine))" and "distinct (map gu_Key (ge_Funcs theirs))"
    and "u \<in> set (ge_Funcs mine) \<union> set (ge_Funcs theirs)" and "edited base u"
  shows "sublist (TrimSpace (gu_Text u)) content"
proof -
  obtain resolved new order prologue where
    content: "\<exists>r. content = fst (assemble resolved new order prologue False) @ r"
    and theirs: "\<And>t. t \<in> set (ge_Funcs theirs) \<Longrightarrow> gu_Key t \<in> set order \<and> (\<exists>body. resolve_theirs base mine t = Inr body \<and> map_of resolved (gu_Key t) = Some body)"
    and mine: "\<And>m. m \<in> set (ge_Funcs mine) \<Longrightarrow> funcByKey theirs (gu_Key m) = None \<Longrightarrow> edited base m \<Longrightarrow>
      gu_Key m \<in> set order \<and> map_of resolved (gu_Key m) = Some (TrimSpace (gu_Text m))"
    using goThreeWayMerge_states [OF assms(1-3)] by metis
  have "\<exists>body. gu_Key u \<in> set order \<and> map_of resolved (gu_Key u) = Some body \<and> sublist (TrimSpace (gu_Text u)) body"
  proof (cases "u \<in> set (ge_Funcs theirs)")
    case True
    with theirs [OF True] resolve_theirs_keeps(1) assms(5) show ?thesis by (metis TrimSpace_sublist)
  next
    case False
    then have u: "u \<in> set (ge_Funcs mine)" using assms(4) by simp
    show ?thesis
    proof (cases "funcByKey theirs (gu_Key u)")
      case None
      with mine [OF u None assms(5)] show ?thesis by auto
    next
      case (Some t)
      note t = funcByKey_Some [OF Some]
      have "funcByKey mine (gu_Key t) = Some u" using funcByKey_mem [OF assms(2) u] t by simp
      with theirs [of t] t resolve_theirs_keeps(2) assms(5) show ?thesis by (metis TrimSpace_sublist)
    qed
  qed
  then obtain body where "gu_Key u \<in> set order" "map_of resolved (gu_Key u) = Some body" "sublist (TrimSpace (gu_Text u)) body" by blast
  then show ?thesis
    using assemble_contains [of "gu_Key u" order resolved body new prologue False] content
    by (metis sublist_appendI append_Nil sublist_append_rightI sublist_order.order.trans)
qed

definition sample_unit :: "string \<Rightarrow> string \<Rightarrow> goFuncUnit" where
  "sample_unit name body = \<lparr>gu_Key = ''func:'' @ name, gu_Name = name, gu_Text = body, gu_IsInit = False\<rparr>"

definition sample_source :: "goFuncUnit list \<Rightarrow> goExtractedFile" where
  "sample_source us = \<lparr>ge_Prologue = ''package p; '', ge_Funcs = us\<rparr>"

theorem go_merge_keeps_edits_witness:
  "\<exists>content. goThreeWayMerge (sample_source [sample_unit ''B'' ''func B() {}'']) (sample_source [sample_unit ''B'' ''func B() {x()}''])
       (sample_source [sample_unit ''B'' ''func B() {}'']) = Inr content \<and> sublist (TrimSpace ''func B() {x()}'') content"
proof -
  have m: "goThreeWayMerge (sample_source [sample_unit ''B'' ''func B() {}'']) (sample_source [sample_unit ''B'' ''func B() {x()}''])
       (sample_source [sample_unit ''B'' ''func B() {}'']) = Inr (''package p; func B() {x()}'' @ [CHR 0x0A])" by code_simp
  moreover have "edited (sample_source [sample_unit ''B'' ''func B() {}'']) (sample_unit ''B'' ''func B() {x()}'')" by code_simp
  ultimately show ?thesis
    using go_merge_keeps_edits [OF m, of "sample_unit ''B'' ''func B() {x()}''"] by (simp add: sample_source_def) (simp add: sample_unit_def)
qed

text \<open>When the live file gains a function in front of the one that was first, and the proposal edits that
  one, the merged body puts both on one line: the edited function carries no line break of its own.  Go does not
  parse this, so the caller gets an internal error for two edits that do not touch.\<close>

lemma go_merge_joins_lines:
  "goThreeWayMerge (sample_source [sample_unit ''B'' ''func B() {}'']) (sample_source [sample_unit ''B'' ''func B() {x()}''])
     (sample_source [sample_unit ''A'' ''func A() {}'', sample_unit ''B'' (CHR 0x0A # CHR 0x0A # ''func B() {}'')])
   = Inr (''package p; func A() {}func B() {x()}'' @ [CHR 0x0A])"
  by code_simp

end
