(* ===== verification/MergeStore.thy ===== *)
theory MergeStore
  imports MergeLinesCorrect GoMerge IngestCorrect
begin

text \<open>
  Merging a proposal into a live file (\<^verbatim>\<open>src/internal/relayfile/merge.go\<close>): the checks of the request,
  the snapshot under the read lock, the merge outside it, and the commit under the write lock, which
  succeeds only if the file still has the revision of the snapshot.

  Other goroutines run between these critical sections.  They are the argument \<open>env\<close>: \<open>env (2 * i)\<close> is what
  happens before the snapshot of attempt \<open>i\<close>, \<open>env (2 * i + 1)\<close> what happens between it and the
  commit.  Go's parser is the argument \<open>extract\<close>.

  Theorems: whatever the others do, a merge that succeeds has merged against the content the file had at the
  moment of the commit; a merge that fails has written nothing.
\<close>

section \<open>Requests and replies\<close>

definition MergeStrategyGoTopLevelFunctions :: string where
  "MergeStrategyGoTopLevelFunctions = ''go-top-level-functions-v1''"

definition MergeStrategyThreeWayLines :: string where
  "MergeStrategyThreeWayLines = ''three-way-lines-v1''"

definition maxMergeContentBytes :: nat where
  "maxMergeContentBytes = 512 * 1024"

definition maxMergeCommitAttempts :: nat where
  "maxMergeCommitAttempts = 5"

record MergeRequest =
  mr_WorkspaceID :: string
  mr_Path :: string
  mr_Strategy :: string
  mr_Content :: string
  mr_BaseRevision :: string
  mr_BaseContent :: string
  mr_ContentType :: string
  mr_CorrelationID :: string
  mr_ContentIdentity :: "ContentIdentity option"

record MergeConflictDetail =
  md_Unit :: string
  md_Reason :: string
  md_Base :: string
  md_Mine :: string
  md_Theirs :: string

record MergeResponse =
  mres_TargetRevision :: string
  mres_Strategy :: string
  mres_BaseRevision :: string
  mres_MergedAgainstRevision :: string

datatype merge_error =
    MergeInvalidInput
  | ErrMergeIneligible message
  | ErrMergeBaseUnavailable
  | MergeConflictError string "MergeConflictDetail list"
  | MergeInternal message

definition hashContent :: "string \<Rightarrow> string" where
  "hashContent content = sha256_hex content"

definition goConflictsToDetails :: "goMergeConflict list \<Rightarrow> MergeConflictDetail list" where
  "goConflictsToDetails conflicts =
     map (\<lambda>c. \<lparr>md_Unit = gmc_Unit c, md_Reason = gmc_Reason c, md_Base = gmc_Base c, md_Mine = gmc_Mine c, md_Theirs = gmc_Theirs c\<rparr>) conflicts"

definition lineConflictsToDetails :: "lineMergeConflict list \<Rightarrow> MergeConflictDetail list" where
  "lineConflictsToDetails conflicts =
     map (\<lambda>c. \<lparr>md_Unit = lmc_unit c, md_Reason = lmc_reason c, md_Base = lmc_base c, md_Mine = lmc_mine c, md_Theirs = lmc_theirs c\<rparr>) conflicts"

definition mergeProviderResultKey :: string where
  "mergeProviderResultKey = ''goal_b_merge''"

definition string_field :: "(string \<times> json) list \<Rightarrow> string \<Rightarrow> string option" where
  "string_field meta key = (case map_of meta key of Some (JString v) \<Rightarrow> Some v | _ \<Rightarrow> None)"

definition findExistingMergeOpLocked :: "instant \<Rightarrow> Store \<Rightarrow> string \<Rightarrow> ContentIdentity option \<Rightarrow> MergeResponse option" where
  "findExistingMergeOpLocked now s workspaceID identity =
     (case (identity, map_of (s_workspaces s) workspaceID) of
        (Some _, Some ws) \<Rightarrow>
          (case findOperationByContentIdentityLocked ws identity now of
             None \<Rightarrow> None
           | Some oper \<Rightarrow>
               let resp = \<lparr>mres_TargetRevision = op_Revision oper, mres_Strategy = MergeStrategyGoTopLevelFunctions,
                           mres_BaseRevision = '''', mres_MergedAgainstRevision = ''''\<rparr>
               in case (case op_ProviderResult oper of Some m \<Rightarrow> map_of m mergeProviderResultKey | None \<Rightarrow> None) of
                    Some (JObject meta) \<Rightarrow>
                      Some (resp\<lparr>mres_Strategy := (case string_field meta ''strategy'' of
                                     Some v \<Rightarrow> if v \<noteq> '''' then v else mres_Strategy resp | None \<Rightarrow> mres_Strategy resp),
                                 mres_BaseRevision := (case string_field meta ''baseRevision'' of Some v \<Rightarrow> v | None \<Rightarrow> ''''),
                                 mres_MergedAgainstRevision :=
                                   (case string_field meta ''mergedAgainstRevision'' of Some v \<Rightarrow> v | None \<Rightarrow> '''')\<rparr>)
                  | _ \<Rightarrow> Some resp)
      | _ \<Rightarrow> None)"

section \<open>Merging texts\<close>

text \<open>The switch on the strategy: \<open>theirs\<close> is the live content and \<open>revision\<close> its revision; \<open>baseX\<close> and
  \<open>mineX\<close> are the files extracted from the request.\<close>

definition merge_contents ::
  "(string \<Rightarrow> string + goExtractedFile) \<Rightarrow> MergeRequest \<Rightarrow> goExtractedFile \<Rightarrow> goExtractedFile \<Rightarrow> string \<Rightarrow> string \<Rightarrow>
   merge_error + string" where
  "merge_contents extract req baseX mineX revision theirs =
     (if mr_Strategy req = MergeStrategyGoTopLevelFunctions then
        (case extract theirs of
           Inl err \<Rightarrow> Inl (ErrMergeIneligible (Msg (''live content: '' @ err)))
         | Inr theirsX \<Rightarrow>
             (case goThreeWayMerge baseX mineX theirsX of
                Inl conflicts \<Rightarrow> Inl (MergeConflictError revision (goConflictsToDetails conflicts))
              | Inr content \<Rightarrow>
                  (case extract content of
                     Inl err \<Rightarrow> Inl (MergeInternal (Msgf ''internal error: merge produced invalid Go, refusing to write: %w'' [err]))
                   | Inr _ \<Rightarrow> Inr content)))
      else
        (case linesThreeWayMerge (mr_BaseContent req) (mr_Content req) theirs of
           None \<Rightarrow> Inl (MergeInternal (Msg ''panic''))
         | Some MergeTooLarge \<Rightarrow> Inl (ErrMergeIneligible (Msgf ''content exceeds %d lines, too large for %s'' [itoa maxMergeDiffLines, MergeStrategyThreeWayLines]))
         | Some (MergeConflicts conflicts) \<Rightarrow> Inl (MergeConflictError revision (lineConflictsToDetails conflicts))
         | Some (Merged content) \<Rightarrow> Inr content))"

section \<open>The two critical sections\<close>

datatype merge_snapshot =
    Finished "merge_error + MergeResponse"
  | Prepared string string

definition snapshot_merge ::
  "(string \<Rightarrow> string + goExtractedFile) \<Rightarrow> instant \<Rightarrow> string \<Rightarrow> string \<Rightarrow> MergeRequest \<Rightarrow> goExtractedFile \<Rightarrow> goExtractedFile \<Rightarrow>
   Store \<Rightarrow> merge_snapshot" where
  "snapshot_merge extract now workspaceID path req baseX mineX s =
     (case findExistingMergeOpLocked now s workspaceID (mr_ContentIdentity req) of
        Some existing \<Rightarrow> Finished (Inr existing)
      | None \<Rightarrow>
          let live = (case map_of (s_workspaces s) workspaceID of None \<Rightarrow> None | Some ws \<Rightarrow> map_of (ws_Files ws) path)
          in case lookupRevisionProvenanceLocked s workspaceID path (mr_BaseRevision req) of
               None \<Rightarrow> Finished (Inl ErrMergeBaseUnavailable)
             | Some baseEntry \<Rightarrow>
                 if pe_Deleted baseEntry then Finished (Inl ErrMergeBaseUnavailable)
                 else if hashContent (mr_BaseContent req) \<noteq> pe_Hash baseEntry then Finished (Inl ErrMergeBaseUnavailable)
                 else case live of
                        None \<Rightarrow> Finished (Inl (ErrMergeIneligible (Msg ''live file no longer exists'')))
                      | Some f \<Rightarrow>
                          (case merge_contents extract req baseX mineX (f_Revision f) (f_Content f) of
                             Inl err \<Rightarrow> Finished (Inl err)
                           | Inr content \<Rightarrow> Prepared content (f_Revision f)))"

definition merged_file :: "instant \<Rightarrow> MergeRequest \<Rightarrow> string \<Rightarrow> string \<Rightarrow> string \<Rightarrow> File \<Rightarrow> File" where
  "merged_file now req path content revision existing =
     (let contentType = TrimSpace (mr_ContentType req)
      in existing\<lparr>f_Path := path, f_Revision := revision, f_Content := content, f_Encoding := '''',
           f_ContentHash := contentHashForEncodedContent content '''',
           f_ContentType := (if contentType = '''' then ''text/plain'' else contentType),
           f_Provider := (if f_Provider existing = '''' then inferProviderFromPath path else f_Provider existing),
           f_LastEditedAt := FormatRFC3339Nano now\<rparr>)"

definition annotate_merge :: "MergeRequest \<Rightarrow> string \<Rightarrow> OperationStatus \<Rightarrow> OperationStatus" where
  "annotate_merge req expected oper =
     oper\<lparr>op_ProviderResult :=
       Some (mput mergeProviderResultKey
         (JObject [(''strategy'', JString (mr_Strategy req)), (''baseRevision'', JString (mr_BaseRevision req)),
                   (''mergedAgainstRevision'', JString expected)])
         (case op_ProviderResult oper of Some m \<Rightarrow> m | None \<Rightarrow> []))\<rparr>"

definition commitMergeResult ::
  "instant \<Rightarrow> string \<Rightarrow> string \<Rightarrow> MergeRequest \<Rightarrow> string \<Rightarrow> string \<Rightarrow> Store \<Rightarrow> Store \<times> MergeResponse option" where
  "commitMergeResult now workspaceID path req mergedContent expectedFileRevision s =
     (let s = ensureWorkspaceLocked workspaceID s
      in case map_of (ws_Files (ws_of s workspaceID)) path of
           None \<Rightarrow> (s, None)
         | Some current \<Rightarrow>
             if f_Revision current \<noteq> expectedFileRevision then (s, None)
             else let (revision, s) = nextRevisionLocked s;
                      file = merged_file now req path mergedContent revision current;
                      s = put_file workspaceID path file revision s;
                      (result, task, s) = recordWriteWithContentIdentityLocked now workspaceID path revision ''file.updated''
                        (f_Provider file) (mr_CorrelationID req) (mr_ContentIdentity req) s;
                      s = (case map_of (ws_Ops (ws_of s workspaceID)) (res_OpID result) of
                             None \<Rightarrow> s
                           | Some oper \<Rightarrow> put_op workspaceID (res_OpID result) (annotate_merge req expectedFileRevision oper) s)
                  in (enqueueWriteback task (saveLocked s),
                      Some \<lparr>mres_TargetRevision = res_TargetRevision result, mres_Strategy = mr_Strategy req,
                            mres_BaseRevision = mr_BaseRevision req, mres_MergedAgainstRevision = expectedFileRevision\<rparr>))"

section \<open>The retry loop\<close>

fun merge_attempts ::
  "(string \<Rightarrow> string + goExtractedFile) \<Rightarrow> (nat \<Rightarrow> instant) \<Rightarrow> (nat \<Rightarrow> Store \<Rightarrow> Store) \<Rightarrow> string \<Rightarrow> string \<Rightarrow> MergeRequest \<Rightarrow>
   goExtractedFile \<Rightarrow> goExtractedFile \<Rightarrow> nat \<Rightarrow> nat \<Rightarrow> string \<Rightarrow> Store \<Rightarrow> Store \<times> (merge_error + MergeResponse)" where
  "merge_attempts extract clock env workspaceID path req baseX mineX attempt 0 lastRevision s =
     (s, Inl (MergeInternal (Msgf ''merge did not converge after %d attempts (currentRevision kept moving, last seen %q)''
                [itoa maxMergeCommitAttempts, lastRevision])))"
| "merge_attempts extract clock env workspaceID path req baseX mineX attempt (Suc n) lastRevision s =
     (let s = env (2 * attempt) s
      in case snapshot_merge extract (clock (2 * attempt)) workspaceID path req baseX mineX s of
           Finished result \<Rightarrow> (s, result)
         | Prepared content revision \<Rightarrow>
             (case commitMergeResult (clock (2 * attempt + 1)) workspaceID path req content revision (env (2 * attempt + 1) s) of
                (s, Some resp) \<Rightarrow> (s, Inr resp)
              | (s, None) \<Rightarrow>
                  merge_attempts extract clock env workspaceID path req baseX mineX (attempt + 1) n revision s))"

definition MergeFile ::
  "(string \<Rightarrow> string + goExtractedFile) \<Rightarrow> (nat \<Rightarrow> instant) \<Rightarrow> (nat \<Rightarrow> Store \<Rightarrow> Store) \<Rightarrow> MergeRequest \<Rightarrow> Store \<Rightarrow>
   Store \<times> (merge_error + MergeResponse)" where
  "MergeFile extract clock env req s =
     (let workspaceID = TrimSpace (mr_WorkspaceID req); path = normalizePath (mr_Path req);
          loop = (\<lambda>baseX mineX. merge_attempts extract clock env workspaceID path req baseX mineX 0 maxMergeCommitAttempts '''' s)
      in if workspaceID = '''' \<or> path = '''' \<or> TrimSpace (mr_BaseRevision req) = '''' then (s, Inl MergeInvalidInput)
         else if mr_Strategy req \<noteq> MergeStrategyGoTopLevelFunctions \<and> mr_Strategy req \<noteq> MergeStrategyThreeWayLines then
           (s, Inl (ErrMergeIneligible (Msgf ''unsupported strategy %q'' [mr_Strategy req])))
         else if length (mr_Content req) > maxMergeContentBytes \<or> length (mr_BaseContent req) > maxMergeContentBytes then
           (s, Inl (ErrMergeIneligible (Msg ''content exceeds merge size limit'')))
         else if mr_Strategy req = MergeStrategyGoTopLevelFunctions \<and> \<not> HasSuffix path ''.go'' then
           (s, Inl (ErrMergeIneligible (Msg ''only .go files are eligible for go-top-level-functions-v1'')))
         else if mr_Strategy req = MergeStrategyGoTopLevelFunctions then
           (case extract (mr_BaseContent req) of
              Inl err \<Rightarrow> (s, Inl (ErrMergeIneligible (Msg (''base content: '' @ err))))
            | Inr baseX \<Rightarrow>
                (case extract (mr_Content req) of
                   Inl err \<Rightarrow> (s, Inl (ErrMergeIneligible (Msg (''proposed content: '' @ err))))
                 | Inr mineX \<Rightarrow> loop baseX mineX))
         else loop \<lparr>ge_Prologue = '''', ge_Funcs = []\<rparr> \<lparr>ge_Prologue = '''', ge_Funcs = []\<rparr>)"

section \<open>The commit\<close>

lemma merged_file_fields [simp]:
  "f_Path (merged_file now req p c r f) = p" "f_Revision (merged_file now req p c r f) = r"
  "f_Content (merged_file now req p c r f) = c"
  by (simp_all add: merged_file_def Let_def)

lemma annotate_merge_id [simp]: "op_OpID (annotate_merge req r oper) = op_OpID oper"
  by (simp add: annotate_merge_def)

lemma commitMergeResult_cases:
  fixes s :: Store and w p req c r
  defines "rv \<equiv> rev_id (Suc (s_revCounter s))"
  obtains (moved) "commitMergeResult now w p req c r s = (ensureWorkspaceLocked w s, None)"
  | (committed) current task oper s' where "map_of (ws_Files (ws_of s w)) p = Some current" and "f_Revision current = r"
      and "commitMergeResult now w p req c r s = (s', Some \<lparr>mres_TargetRevision = rv, mres_Strategy = mr_Strategy req,
             mres_BaseRevision = mr_BaseRevision req, mres_MergedAgainstRevision = r\<rparr>)"
      and "s' = enqueueWriteback task (saveLocked (put_op w (op_id (Suc (s_opCounter s))) (annotate_merge req r oper)
             (commit_put now w p (merged_file now req p c rv current) ''file.updated'' (mr_CorrelationID req) (mr_ContentIdentity req)
                (ensureWorkspaceLocked w s))))"
      and "op_OpID oper = op_id (Suc (s_opCounter s))"
proof (cases "map_of (ws_Files (ws_of s w)) p")
  case None
  then show ?thesis using moved by (simp add: commitMergeResult_def Let_def store_simps)
next
  case (Some current)
  show ?thesis
  proof (cases "f_Revision current = r")
    case False
    with Some show ?thesis using moved by (simp add: commitMergeResult_def Let_def store_simps)
  next
    case True
    note put = record_write_put [where s = "ensureWorkspaceLocked w s" and w = w and p = p and et = "''file.updated''"
        and f = "merged_file now req p c rv current" and now = now and corr = "mr_CorrelationID req" and ident = "mr_ContentIdentity req"]
    show ?thesis
      using committed [OF Some True] Some True put
      by (simp add: commitMergeResult_def Let_def nextRevisionLocked_def
          store_simps rv_def gomap_simps record_operation_def)
  qed
qed

context step_relation begin

lemma R_commitMerge: "R s (fst (commitMergeResult now w p req c r s))"
proof (cases rule: commitMergeResult_cases [of now w p req c r s])
  case moved
  then show ?thesis by (simp add: R_ensure)
next
  case (committed current task oper s')
  let ?s = "ensureWorkspaceLocked w s" and ?i = "op_id (Suc (s_opCounter s))" and ?rv = "rev_id (Suc (s_revCounter s))"
  let ?t = "commit_put now w p (merged_file now req p c ?rv current) ''file.updated'' (mr_CorrelationID req) (mr_ContentIdentity req) ?s"
  have put: "R ?s ?t" by (rule R_commit_put) (simp_all add: store_simps)
  have "R ?t (put_op w ?i (annotate_merge req r oper) ?t)"
  proof (rule R_put_op)
    show "map_of (ws_Ops (ws_of ?t w)) ?i = Some (record_operation ?i p ?rv ''file.updated''
        (f_Provider (merged_file now req p c ?rv current)) (mr_CorrelationID req) (FormatRFC3339Nano now) (mr_ContentIdentity req))"
      by (simp add: store_simps gomap_simps)
  qed (simp add: committed(5) record_operation_def)
  from R_then_core [OF R_trans [OF R_trans [OF R_ensure put] this] same_core_trans [OF same_core_save same_core_enqueue]]
  show ?thesis by (simp add: committed(3,4))
qed

end

section \<open>What the loop does\<close>

text \<open>The stores the loop can see: the others ran, or the commit created the workspace's entry.\<close>

inductive seen :: "(nat \<Rightarrow> Store \<Rightarrow> Store) \<Rightarrow> string \<Rightarrow> Store \<Rightarrow> Store \<Rightarrow> bool" for env w s where
  start: "seen env w s s"
| others: "seen env w s t \<Longrightarrow> seen env w s (env i t)"
| created: "seen env w s t \<Longrightarrow> seen env w s (ensureWorkspaceLocked w t)"

lemma seen_trans: "seen env w t u \<Longrightarrow> seen env w s t \<Longrightarrow> seen env w s u"
  by (induction rule: seen.induct) (auto intro: seen.intros)

lemma seen_advances: "seen env w s t \<Longrightarrow> (\<And>i s. advances s (env i s)) \<Longrightarrow> advances s t"
  by (induction rule: seen.induct) (auto intro: advances_trans adv.R_ensure)

lemma seen_idle: "seen (\<lambda>_ t. t) w s t \<Longrightarrow> ws_of t v = ws_of s v"
  by (induction rule: seen.induct) (simp_all add: store_simps)

text \<open>A merge of \<open>req\<close> into \<open>f\<close>, written at \<open>now\<close> in the store \<open>t\<close>.\<close>

definition merge_written ::
  "(string \<Rightarrow> string + goExtractedFile) \<Rightarrow> MergeRequest \<Rightarrow> goExtractedFile \<Rightarrow> goExtractedFile \<Rightarrow> string \<Rightarrow> string \<Rightarrow>
   Store \<Rightarrow> Store \<Rightarrow> MergeResponse \<Rightarrow> bool" where
  "merge_written extract req baseX mineX w p t s' resp \<longleftrightarrow>
     (\<exists>f content now. map_of (ws_Files (ws_of t w)) p = Some f
        \<and> merge_contents extract req baseX mineX (f_Revision f) (f_Content f) = Inr content
        \<and> resp = \<lparr>mres_TargetRevision = rev_id (Suc (s_revCounter t)), mres_Strategy = mr_Strategy req,
                   mres_BaseRevision = mr_BaseRevision req, mres_MergedAgainstRevision = f_Revision f\<rparr>
        \<and> (\<forall>v q. map_of (ws_Files (ws_of s' v)) q =
             (if v = w \<and> q = p then Some (merged_file now req p content (rev_id (Suc (s_revCounter t))) f)
              else map_of (ws_Files (ws_of t v)) q)))"

definition base_known :: "string \<Rightarrow> string \<Rightarrow> MergeRequest \<Rightarrow> Store \<Rightarrow> bool" where
  "base_known w p req t \<longleftrightarrow> (\<exists>entry. lookupRevisionProvenanceLocked t w p (mr_BaseRevision req) = Some entry
     \<and> \<not> pe_Deleted entry \<and> pe_Hash entry = hashContent (mr_BaseContent req))"

lemma snapshot_Prepared:
  assumes "snapshot_merge extract now w p req baseX mineX s = Prepared content r"
  shows "\<exists>f. map_of (ws_Files (ws_of s w)) p = Some f \<and> f_Revision f = r
    \<and> merge_contents extract req baseX mineX r (f_Content f) = Inr content" and "base_known w p req s"
  using assms
  by (auto simp: snapshot_merge_def Let_def base_known_def ws_of_known split: option.splits if_splits sum.splits)

lemma snapshot_Finished:
  assumes "snapshot_merge extract now w p req baseX mineX s = Finished (Inr resp)"
  shows "findExistingMergeOpLocked now s w (mr_ContentIdentity req) = Some resp"
  using assms by (auto simp: snapshot_merge_def Let_def split: option.splits if_splits sum.splits)

lemma commit_merges_current:
  assumes inv: "store_inv s" and adv: "advances s t"
    and snap: "snapshot_merge extract now0 w p req baseX mineX s = Prepared content r"
    and commit: "commitMergeResult now w p req content r t = (s', Some resp)"
  shows "merge_written extract req baseX mineX w p t s' resp"
proof -
  from snapshot_Prepared(1) [OF snap] obtain f where f: "map_of (ws_Files (ws_of s w)) p = Some f" "f_Revision f = r"
    "merge_contents extract req baseX mineX r (f_Content f) = Inr content" by blast
  show ?thesis
  proof (cases rule: commitMergeResult_cases [of now w p req content r t])
    case moved
    with commit show ?thesis by simp
  next
    case (committed current task oper s'')
    have "current = f"
      using inv adv f committed(1,2) fresh_files_revision [of s t w p f current] by (auto simp: advances_def)
    with committed commit f show ?thesis
      unfolding merge_written_def
      by (intro exI [of _ f] exI [of _ content] exI [of _ now]) (auto simp: store_simps gomap_simps)
  qed
qed

lemma merge_attempts_outcome:
  assumes "\<And>i s. advances s (env i s)" and "store_inv s"
    and "merge_attempts extract clock env w p req baseX mineX attempt n lastRev s = (s', result)"
  shows "case result of
      Inl e \<Rightarrow> seen env w s s'
    | Inr resp \<Rightarrow>
        (\<exists>now. seen env w s s' \<and> findExistingMergeOpLocked now s' w (mr_ContentIdentity req) = Some resp)
        \<or> (\<exists>t0 t. seen env w s t0 \<and> base_known w p req t0 \<and> seen env w t0 t
             \<and> merge_written extract req baseX mineX w p t s' resp)"
  using assms(2,3)
proof (induction n arbitrary: attempt lastRev s)
  case 0
  then show ?case by (auto intro: seen.start)
next
  case (Suc n)
  let ?u = "env (2 * attempt) s" and ?t = "env (2 * attempt + 1) (env (2 * attempt) s)"
  have t0: "seen env w s ?u" and t: "seen env w ?u ?t" by (auto intro: seen.intros)
  have inv0: "store_inv ?u" using assms(1) Suc.prems(1) by (auto simp: advances_def)
  show ?case
  proof (cases "snapshot_merge extract (clock (2 * attempt)) w p req baseX mineX ?u")
    case (Finished r)
    then have "s' = ?u" "result = r" using Suc.prems(2) by auto
    then show ?thesis using Finished t0 snapshot_Finished by (fastforce split: sum.splits)
  next
    case (Prepared content r)
    let ?c = "commitMergeResult (clock (2 * attempt + 1)) w p req content r ?t"
    show ?thesis
    proof (cases "snd ?c")
      case (Some resp)
      then have c: "?c = (s', Some resp)" and "result = Inr resp"
        using Suc.prems(2) Prepared by (auto simp: prod_eq_iff split: prod.splits option.splits)
      then show ?thesis
        using commit_merges_current [OF inv0 assms(1) Prepared c] snapshot_Prepared(2) [OF Prepared] t0 t by auto
    next
      case None
      then have c: "?c = (ensureWorkspaceLocked w ?t, None)"
        by (cases rule: commitMergeResult_cases [of "clock (2 * attempt + 1)" w p req content r ?t]) auto
      have step: "seen env w s (ensureWorkspaceLocked w ?t)" by (intro seen.intros)
      have inv: "store_inv (ensureWorkspaceLocked w ?t)" using assms(1) inv0 by (auto simp: advances_def)
      have run: "merge_attempts extract clock env w p req baseX mineX (attempt + 1) n r (ensureWorkspaceLocked w ?t) = (s', result)"
        using Suc.prems(2) Prepared c by simp
      show ?thesis
        using Suc.IH [OF inv run] seen_trans [OF _ step] by (fastforce split: sum.splits)
    qed
  qed
qed


lemma MergeFile_loop:
  obtains (refused) e where "MergeFile extract clock env req s = (s, Inl e)"
      and "\<And>m. e \<noteq> MergeInternal m"
  | (loop) baseX mineX where "MergeFile extract clock env req s =
        merge_attempts extract clock env (TrimSpace (mr_WorkspaceID req)) (normalizePath (mr_Path req)) req baseX mineX 0
          maxMergeCommitAttempts '''' s"
      and "mr_Strategy req = MergeStrategyGoTopLevelFunctions \<Longrightarrow>
        extract (mr_BaseContent req) = Inr baseX \<and> extract (mr_Content req) = Inr mineX"
proof -
  have "(\<exists>e. MergeFile extract clock env req s = (s, Inl e) \<and> (\<forall>m. e \<noteq> MergeInternal m))
    \<or> (\<exists>baseX mineX. MergeFile extract clock env req s =
        merge_attempts extract clock env (TrimSpace (mr_WorkspaceID req)) (normalizePath (mr_Path req)) req baseX mineX 0
          maxMergeCommitAttempts '''' s
      \<and> (mr_Strategy req = MergeStrategyGoTopLevelFunctions \<longrightarrow>
           extract (mr_BaseContent req) = Inr baseX \<and> extract (mr_Content req) = Inr mineX))"
    unfolding MergeFile_def Let_def by (cases "extract (mr_BaseContent req)"; cases "extract (mr_Content req)") auto
  then show ?thesis using refused loop by blast
qed

text \<open>C11. Whatever the other requests do between the critical sections of \<open>MergeFile\<close>, it writes exactly one merged file or
  nothing.  If it fails, the store is one the others made (the commit at most added an empty workspace entry).  If it succeeds,
  either the reply is that of an earlier merge with the same content identity and nothing is written, or there is a store \<open>t\<close> of
  the others from which the final one differs in that one file only, and what is written there is the three-way merge of the
  request's base and content with the content the file has in \<open>t\<close> - never with a content read earlier - under the next revision
  of \<open>t\<close>; the base was checked against the recorded hash of its revision.\<close>

theorem merge_all_or_nothing:
  fixes req :: MergeRequest
  defines "w \<equiv> TrimSpace (mr_WorkspaceID req)" and "p \<equiv> normalizePath (mr_Path req)"
  assumes "\<forall>i s. advances s (env i s)" and "store_inv s" and "MergeFile extract clock env req s = (s', result)"
  shows "case result of
      Inl e \<Rightarrow> seen env w s s'
    | Inr resp \<Rightarrow>
        (\<exists>now. seen env w s s' \<and> findExistingMergeOpLocked now s' w (mr_ContentIdentity req) = Some resp)
        \<or> (\<exists>baseX mineX u t. seen env w s u \<and> base_known w p req u \<and> seen env w u t
             \<and> (mr_Strategy req = MergeStrategyGoTopLevelFunctions \<longrightarrow>
                  extract (mr_BaseContent req) = Inr baseX \<and> extract (mr_Content req) = Inr mineX)
             \<and> merge_written extract req baseX mineX w p t s' resp)"
proof (cases rule: MergeFile_loop [of "extract" clock env req s])
  case (refused e)
  then show ?thesis using assms(5) by (auto intro: seen.start)
next
  case (loop baseX mineX)
  then show ?thesis
    using merge_attempts_outcome [of env s "extract" clock w p req baseX mineX 0 maxMergeCommitAttempts "''''" s' result] assms
    by (fastforce split: sum.splits)
qed

section \<open>Progress\<close>

definition not_converged :: "string \<Rightarrow> merge_error" where
  "not_converged r = MergeInternal (Msgf ''merge did not converge after %d attempts (currentRevision kept moving, last seen %q)''
     [itoa maxMergeCommitAttempts, r])"

lemma merge_contents_error: "merge_contents extract req baseX mineX r theirs = Inl e \<Longrightarrow> e \<noteq> not_converged r'"
  by (auto simp: merge_contents_def not_converged_def split: if_splits sum.splits option.splits line_merge_outcome.splits)

lemma snapshot_error: "snapshot_merge extract now w p req baseX mineX s = Finished (Inl e) \<Longrightarrow> e \<noteq> not_converged r"
  using merge_contents_error
  by (auto simp: snapshot_merge_def Let_def not_converged_def split: option.splits if_splits sum.splits)

lemma commit_untouched:
  assumes "map_of (ws_Files (ws_of t w)) p = Some f" and "f_Revision f = r"
  shows "snd (commitMergeResult now w p req c r t) \<noteq> None"
  using assms by (auto simp: commitMergeResult_def Let_def store_simps split: prod.splits)

lemma merge_attempts_converges:
  assumes "attempt \<le> i" and "i < attempt + n"
    and "\<And>t. map_of (ws_Files (ws_of (env (2 * i + 1) t) w)) p = map_of (ws_Files (ws_of t w)) p"
  shows "snd (merge_attempts extract clock env w p req baseX mineX attempt n lastRev s) \<noteq> Inl (not_converged r)"
  using assms(1,2)
proof (induction n arbitrary: attempt lastRev s)
  case 0
  then show ?case by simp
next
  case (Suc n)
  let ?u = "env (2 * attempt) s"
  show ?case
  proof (cases "snapshot_merge extract (clock (2 * attempt)) w p req baseX mineX ?u")
    case (Finished result)
    then show ?thesis using snapshot_error by (cases result) auto
  next
    case (Prepared content rv)
    let ?c = "commitMergeResult (clock (2 * attempt + 1)) w p req content rv (env (2 * attempt + 1) ?u)"
    from snapshot_Prepared(1) [OF Prepared] obtain f where f: "map_of (ws_Files (ws_of ?u w)) p = Some f" "f_Revision f = rv" by blast
    have "snd ?c \<noteq> None \<or> attempt + 1 \<le> i"
      using f assms(3) [of ?u] Suc.prems(1) commit_untouched [of "env (2 * attempt + 1) ?u" w p f rv] by (cases "attempt = i") auto
    then show ?thesis
      using Suc.IH [of "attempt + 1" rv "fst ?c"] Suc.prems(2) Prepared by (cases ?c) (auto split: option.splits)
  qed
qed

text \<open>C33. Progress: if in one of the five attempts the file is not touched between the snapshot and the commit, the merge
  does not give up for lack of convergence, whatever happened in the attempts before.\<close>

theorem merge_converges:
  assumes "i < maxMergeCommitAttempts"
    and "\<forall>t. map_of (ws_Files (ws_of (env (2 * i + 1) t) (TrimSpace (mr_WorkspaceID req)))) (normalizePath (mr_Path req))
            = map_of (ws_Files (ws_of t (TrimSpace (mr_WorkspaceID req)))) (normalizePath (mr_Path req))"
  shows "snd (MergeFile extract clock env req s) \<noteq> Inl (not_converged r)"
proof (cases rule: MergeFile_loop [of "extract" clock env req s])
  case (refused e)
  then show ?thesis by (simp add: not_converged_def)
next
  case (loop baseX mineX)
  then show ?thesis using assms by (simp add: merge_attempts_converges)
qed


text \<open>A file whose first line the caller edited and whose third line another writer has edited meanwhile.\<close>

abbreviation nl :: char where
  "nl \<equiv> CHR 0x0A"

definition sample_base_text :: string where
  "sample_base_text = [CHR ''a'', nl, CHR ''b'', nl, CHR ''c'', nl]"

definition sample_live_file :: File where
  "sample_live_file = zero_file\<lparr>f_Path := ''/n/a'', f_Revision := ''rev_2'', f_Content := [CHR ''a'', nl, CHR ''b'', nl, CHR ''C'', nl]\<rparr>"

definition sample_merge_store :: Store where
  "sample_merge_store = put_ws ''w'' (empty_workspace\<lparr>ws_Files := [(''/n/a'', sample_live_file)]\<rparr>)
     (NewStore\<lparr>s_revCounter := 2, s_revisionProvenance := [(revisionProvenanceKey ''w'' ''/n/a'',
        [\<lparr>pe_Revision = ''rev_1'', pe_Hash = hashContent sample_base_text, pe_Deleted = False\<rparr>])]\<rparr>)"

definition sample_merge :: MergeRequest where
  "sample_merge = \<lparr>mr_WorkspaceID = ''w'', mr_Path = ''/n/a'', mr_Strategy = MergeStrategyThreeWayLines,
     mr_Content = [CHR ''A'', nl, CHR ''b'', nl, CHR ''c'', nl], mr_BaseRevision = ''rev_1'', mr_BaseContent = sample_base_text,
     mr_ContentType = '''', mr_CorrelationID = ''c'', mr_ContentIdentity = None\<rparr>"

lemma sample_texts:
  "linesThreeWayMerge sample_base_text (mr_Content sample_merge) (f_Content sample_live_file)
     = Some (Merged [CHR ''A'', nl, CHR ''b'', nl, CHR ''C'', nl])"
  "TrimSpace ''w'' = ''w''" "normalizePath ''/n/a'' = ''/n/a''" "TrimSpace ''rev_1'' = ''rev_1''"
  by code_simp+

lemma sample_merge_ws: "ws_of sample_merge_store ''w'' = empty_workspace\<lparr>ws_Files := [(''/n/a'', sample_live_file)]\<rparr>"
  by (simp add: sample_merge_store_def store_simps)

lemma sample_merge_lookup:
  "map_of (s_workspaces sample_merge_store) ''w'' = Some (empty_workspace\<lparr>ws_Files := [(''/n/a'', sample_live_file)]\<rparr>)"
  by (simp add: sample_merge_store_def store_simps gomap_simps)

lemma sample_merge_inv: "store_inv sample_merge_store"
proof -
  have "rev_id 2 = ''rev_2''" by code_simp
  then have "issued rev_id 2 ''rev_2''" unfolding issued_def by (intro exI [of _ 2]) simp
  then have "ws_inv 2 0 0 (empty_workspace\<lparr>ws_Files := [(''/n/a'', sample_live_file)]\<rparr>)"
    using ws_inv_empty [of 2 0 0] by (auto simp: ws_inv_def files_ok_def wf_map_def sample_live_file_def split: if_splits)
  then show ?thesis
    unfolding sample_merge_store_def
    by (intro store_inv_put_ws) (auto simp: store_inv_def NewStore_def new_store_def ws_of_def mget_or_def wf_map_def)
qed


abbreviation no_extract :: "string \<Rightarrow> string + goExtractedFile" where
  "no_extract src \<equiv> Inl ''unsupported''"

lemma sample_merge_runs:
  "\<exists>s' resp. MergeFile no_extract (\<lambda>_. 0) (\<lambda>_ t. t) sample_merge sample_merge_store = (s', Inr resp)"
proof -
  let ?x = "\<lparr>ge_Prologue = '''', ge_Funcs = []\<rparr> :: goExtractedFile"
  have hash: "lookupRevisionProvenanceLocked sample_merge_store ''w'' ''/n/a'' ''rev_1'' =
      Some \<lparr>pe_Revision = ''rev_1'', pe_Hash = hashContent sample_base_text, pe_Deleted = False\<rparr>"
    by (simp add: lookupRevisionProvenanceLocked_def sample_merge_store_def put_ws_def mget_or_def)
  have "snapshot_merge no_extract 0 ''w'' ''/n/a'' sample_merge ?x ?x sample_merge_store =
      Prepared [CHR ''A'', nl, CHR ''b'', nl, CHR ''C'', nl] ''rev_2''"
    using hash sample_texts(1)
    by (simp add: snapshot_merge_def findExistingMergeOpLocked_def sample_merge_def sample_merge_lookup merge_contents_def
        MergeStrategyGoTopLevelFunctions_def MergeStrategyThreeWayLines_def sample_live_file_def)
  moreover obtain s' resp where "commitMergeResult 0 ''w'' ''/n/a'' sample_merge [CHR ''A'', nl, CHR ''b'', nl, CHR ''C'', nl] ''rev_2''
      sample_merge_store = (s', Some resp)"
  proof -
    have "snd (commitMergeResult 0 ''w'' ''/n/a'' sample_merge [CHR ''A'', nl, CHR ''b'', nl, CHR ''C'', nl] ''rev_2''
        sample_merge_store) \<noteq> None"
      by (rule commit_untouched [of _ _ _ sample_live_file]) (simp_all add: sample_merge_ws sample_live_file_def)
    then show thesis using that by (metis not_None_eq prod.collapse)
  qed
  ultimately have "merge_attempts no_extract (\<lambda>_. 0) (\<lambda>_ t. t) ''w'' ''/n/a'' sample_merge ?x ?x 0 (Suc 4) '''' sample_merge_store
      = (s', Inr resp)" unfolding merge_attempts.simps(2) by simp
  moreover have "maxMergeCommitAttempts = Suc 4" by (simp add: maxMergeCommitAttempts_def)
  ultimately have "merge_attempts no_extract (\<lambda>_. 0) (\<lambda>_ t. t) ''w'' ''/n/a'' sample_merge ?x ?x 0 maxMergeCommitAttempts ''''
      sample_merge_store = (s', Inr resp)" by metis
  moreover have "length (mr_Content sample_merge) \<le> maxMergeContentBytes" "length (mr_BaseContent sample_merge) \<le> maxMergeContentBytes"
    by (simp_all add: sample_merge_def sample_base_text_def maxMergeContentBytes_def)
  moreover have "mr_Strategy sample_merge \<noteq> MergeStrategyGoTopLevelFunctions" "mr_Strategy sample_merge = MergeStrategyThreeWayLines"
    by (simp_all add: sample_merge_def MergeStrategyGoTopLevelFunctions_def MergeStrategyThreeWayLines_def)
  moreover have "TrimSpace (mr_WorkspaceID sample_merge) = ''w''" "normalizePath (mr_Path sample_merge) = ''/n/a''"
    "TrimSpace (mr_BaseRevision sample_merge) = ''rev_1''"
    by (simp_all add: sample_merge_def sample_texts(2-4))
  ultimately show ?thesis unfolding MergeFile_def Let_def by simp
qed


theorem merge_all_or_nothing_witness:
  "\<exists>s' resp f. MergeFile no_extract (\<lambda>_. 0) (\<lambda>_ t. t) sample_merge sample_merge_store = (s', Inr resp)
     \<and> map_of (ws_Files (ws_of s' ''w'')) ''/n/a'' = Some f \<and> f_Content f = [CHR ''A'', nl, CHR ''b'', nl, CHR ''C'', nl]
     \<and> mres_MergedAgainstRevision resp = ''rev_2''"
proof -
  obtain s' resp where run: "MergeFile no_extract (\<lambda>_. 0) (\<lambda>_ t. t) sample_merge sample_merge_store = (s', Inr resp)"
    using sample_merge_runs by blast
  have none: "findExistingMergeOpLocked now t w (mr_ContentIdentity sample_merge) = None" for now t w
    by (simp add: findExistingMergeOpLocked_def sample_merge_def)
  obtain baseX mineX u t where seen: "seen (\<lambda>_ t. t) ''w'' sample_merge_store u" "seen (\<lambda>_ t. t) ''w'' u t"
    and wr: "merge_written no_extract sample_merge baseX mineX ''w'' ''/n/a'' t s' resp"
    using merge_all_or_nothing [of "\<lambda>_ t. t" sample_merge_store no_extract "\<lambda>_. 0" sample_merge s' "Inr resp"] run sample_merge_inv none
    by (auto simp: sample_merge_def sample_texts(2,3))
  have "ws_of t ''w'' = ws_of sample_merge_store ''w''"
    using seen_idle [OF seen(1)] seen_idle [OF seen(2)] by simp
  then have "map_of (ws_Files (ws_of t ''w'')) ''/n/a'' = Some sample_live_file" by (simp add: sample_merge_ws)
  moreover have "merge_contents no_extract sample_merge baseX mineX (f_Revision sample_live_file) (f_Content sample_live_file) =
      Inr [CHR ''A'', nl, CHR ''b'', nl, CHR ''C'', nl]"
    using sample_texts(1)
    by (simp add: merge_contents_def sample_merge_def MergeStrategyGoTopLevelFunctions_def MergeStrategyThreeWayLines_def)
  moreover have "f_Revision sample_live_file = ''rev_2''" by (simp add: sample_live_file_def)
  ultimately show ?thesis using run wr by (auto simp: merge_written_def)
qed

theorem merge_converges_witness:
  "snd (MergeFile no_extract (\<lambda>_. 0) (\<lambda>i t. if i = 9 then t else ensureWorkspaceLocked ''v'' t) sample_merge sample_merge_store)
     \<noteq> Inl (not_converged ''rev_2'')"
  by (rule merge_converges [of 4]) (simp_all add: maxMergeCommitAttempts_def)

end
