(* ===== verification/System.thy ===== *)
theory System
  imports MergeStore ForkRebase Convergence
begin

text \<open>
  The store under all its operations.

  \<open>journals\<close> is the second instance of \<open>step_relation\<close>: the events that a step appends to a workspace's log, applied in
  order, turn the revisions and content hashes of the files before it into those after it.  \<open>step\<close> is one critical section of the
  running system: an API request, one side of a writeback attempt, an envelope's acceptance or processing, a timer.  What holds of
  every step holds of every run: both invariants, the append-only log, the identity of a revision, and that the log alone
  determines which files there are, at which revision and with which content.
\<close>

section \<open>Replaying a log\<close>

text \<open>What a reader of the change feed knows of a file: its revision and its content hash.\<close>

type_synonym mirror = "string \<Rightarrow> (string \<times> string) option"

definition stamp :: "(string, File) gomap \<Rightarrow> mirror" where
  "stamp files p = map_option (\<lambda>f. (f_Revision f, storedContentHashForFile f)) (map_of files p)"

definition apply_event :: "Event \<Rightarrow> mirror \<Rightarrow> mirror" where
  "apply_event ev m =
     (if put_type (e_Type ev) then m(e_Path ev := Some (e_Revision ev, e_ContentHash ev))
      else if e_Type ev = ''file.deleted'' then m(e_Path ev := None) else m)"

definition replay :: "Event list \<Rightarrow> mirror" where
  "replay evs = fold apply_event evs (\<lambda>_. None)"

definition journals :: "Store \<Rightarrow> Store \<Rightarrow> bool" where
  "journals s s' \<longleftrightarrow> (\<forall>w. \<exists>evs. ws_Events (ws_of s' w) = ws_Events (ws_of s w) @ evs
     \<and> stamp (ws_Files (ws_of s' w)) = fold apply_event evs (stamp (ws_Files (ws_of s w))))"

lemma stamp_mput: "stamp (mput p f files) = (stamp files)(p := Some (f_Revision f, storedContentHashForFile f))"
  by (auto simp: stamp_def gomap_simps)

lemma stamp_mdel: "stamp (mdel p files) = (stamp files)(p := None)"
  by (auto simp: stamp_def gomap_simps)

lemma apply_event_id [simp]: "apply_event (ev\<lparr>e_EventID := i\<rparr>) = apply_event ev"
  by (simp add: apply_event_def fun_eq_iff)

lemma apply_note: "\<not> file_event ev \<Longrightarrow> apply_event ev m = m"
  by (auto simp: apply_event_def file_event_def)

lemma apply_announced: "announces f ev \<Longrightarrow> apply_event ev m = m(f_Path f := Some (f_Revision f, storedContentHashForFile f))"
  by (simp add: apply_event_def announces_def)

lemma apply_deleted: "e_Type ev = ''file.deleted'' \<Longrightarrow> apply_event ev m = m(e_Path ev := None)"
  by (simp add: apply_event_def)

lemma journals_trans: "journals s s' \<Longrightarrow> journals s' s'' \<Longrightarrow> journals s s''"
  unfolding journals_def by (metis append_assoc comp_apply fold_append)

lemma journals_one:
  assumes "\<And>v. v \<noteq> w \<Longrightarrow> ws_Files (ws_of s' v) = ws_Files (ws_of s v) \<and> ws_Events (ws_of s' v) = ws_Events (ws_of s v)"
    and "ws_Events (ws_of s' w) = ws_Events (ws_of s w) @ evs"
    and "stamp (ws_Files (ws_of s' w)) = fold apply_event evs (stamp (ws_Files (ws_of s w)))"
  shows "journals s s'"
  unfolding journals_def
proof
  fix v
  show "\<exists>evs. ws_Events (ws_of s' v) = ws_Events (ws_of s v) @ evs
      \<and> stamp (ws_Files (ws_of s' v)) = fold apply_event evs (stamp (ws_Files (ws_of s v)))"
  proof (cases "v = w")
    case True
    then show ?thesis using assms(2,3) by blast
  next
    case False
    then show ?thesis using assms(1) [OF False] by (intro exI [of _ "[]"]) simp
  qed
qed

lemma journals_quiet:
  "(\<And>v. ws_Files (ws_of s' v) = ws_Files (ws_of s v) \<and> ws_Events (ws_of s' v) = ws_Events (ws_of s v)) \<Longrightarrow> journals s s'"
  by (rule journals_one [where evs = "[]"]) simp_all

lemma append_next_ws [store_simps]:
  "ws_Files (ws_of (append_next w ev s) v) = ws_Files (ws_of s v)"
  "ws_Events (ws_of (append_next w ev s) v) =
     (if v = w then ws_Events (ws_of s w) @ [ev\<lparr>e_EventID := evt_id (Suc (s_eventCounter s))\<rparr>] else ws_Events (ws_of s v))"
  by (simp_all add: append_next_def store_simps)

lemma retabled_ws:
  assumes "retabled w s s'"
  shows "ws_Files (ws_of s' v) = ws_Files (ws_of s v)" and "ws_Events (ws_of s' v) = ws_Events (ws_of s v)"
  using assms by (auto simp: retabled_def store_simps ops_rewritten_def)

lemma commit_other_log [store_simps]:
  "v \<noteq> w \<Longrightarrow> ws_Events (ws_of (commit_put now w p f et corr ident s) v) = ws_Events (ws_of s v)"
  "v \<noteq> w \<Longrightarrow> ws_Events (ws_of (commit_del now w p prov corr acl s) v) = ws_Events (ws_of s v)"
  by (simp_all add: commit_put_def commit_del_def Let_def store_simps)

lemma journals_commit_put:
  assumes "f_Revision f = rev_id (Suc (s_revCounter s))" and "put_type et"
  shows "journals s (commit_put now w p f et corr ident s)"
proof -
  obtain ev where "ws_Events (ws_of (commit_put now w p f et corr ident s) w) = ws_Events (ws_of s w) @ [ev]"
    "e_Type ev = et" "e_Path ev = p" "e_Revision ev = rev_id (Suc (s_revCounter s))"
    "e_ContentHash ev = (if et = ''file.deleted'' then '''' else storedContentHashForFile f)"
    using commit_put_event [of now w p f et corr ident s] by blast
  then show ?thesis
    using assms by (intro journals_one [of w _ _ "[ev]"]) (auto simp: store_simps stamp_mput apply_event_def)
qed

lemma journals_commit_del: "journals s (commit_del now w p prov corr acl s)"
proof -
  obtain ev where "ws_Events (ws_of (commit_del now w p prov corr acl s) w) = ws_Events (ws_of s w) @ [ev]"
    "e_Type ev = ''file.deleted''" "e_Path ev = p"
    using commit_del_event [of now w p prov corr acl s] by blast
  then show ?thesis by (intro journals_one [of w _ _ "[ev]"]) (auto simp: store_simps stamp_mdel apply_event_def)
qed

lemma journals_put:
  assumes "f_Path f = p" and "retabled w (put_file w p f r (s\<lparr>s_revCounter := n\<rparr>)) s1" and "announces f ev"
  shows "journals s (append_next w ev s1)"
  using retabled_ws [OF assms(2)] assms(1)
  by (intro journals_one [of w _ _ "[ev\<lparr>e_EventID := evt_id (Suc (s_eventCounter s1))\<rparr>]"])
    (auto simp: store_simps stamp_mput apply_announced [OF assms(3)])

lemma journals_remove:
  assumes "e_Type ev = ''file.deleted''" and "e_Path ev = p"
  shows "journals s (append_next w ev (remove_file w p r (s\<lparr>s_revCounter := n\<rparr>)))"
  using assms
  by (intro journals_one [of w _ _ "[ev\<lparr>e_EventID := evt_id (Suc (s_eventCounter s))\<rparr>]"])
    (auto simp: store_simps stamp_mdel apply_deleted)

lemma journals_move:
  assumes "f_Path f = q" and "retabled w (put_file w q f r (remove_file w p r' (s\<lparr>s_revCounter := n\<rparr>))) s1"
    and "e_Type ev = ''file.deleted''" and "e_Path ev = p" and "announces f ev'"
  shows "journals s (append_next w ev' (append_next w ev s1))"
  using retabled_ws [OF assms(2)] assms(1,3,4)
  by (intro journals_one [of w _ _ "[ev\<lparr>e_EventID := evt_id (Suc (s_eventCounter s1))\<rparr>, ev'\<lparr>e_EventID := evt_id (Suc (Suc (s_eventCounter s1)))\<rparr>]"])
    (auto simp: store_simps stamp_mput stamp_mdel apply_deleted apply_announced [OF assms(5)])

lemma journals_rewrite_all:
  assumes "\<And>ws. ops_rewritten ws (g ws)"
  shows "journals s (s\<lparr>s_workspaces := map (\<lambda>(w, ws). (w, g ws)) (s_workspaces s)\<rparr>)"
  using assms by (intro journals_quiet) (simp add: ws_of_def mget_or_def map_of_mapped ops_rewritten_def split: option.splits)

interpretation jr: step_relation journals
proof unfold_locales
  show "journals s s'" if "fork_only s s'" for s s'
    using that by (intro journals_quiet) (simp add: fork_only_def same_workspaces_def)
  show "journals s (put_ws w ws s)" if "ops_rewritten (ws_of s w) ws" for s w ws
    using that by (intro journals_quiet) (simp add: store_simps ops_rewritten_def)
  show "journals s (append_next w ev s)" if "\<not> file_event ev" for s w ev
    using that by (intro journals_one [of w _ _ "[ev\<lparr>e_EventID := evt_id (Suc (s_eventCounter s))\<rparr>]"]) (auto simp: store_simps apply_note)
qed (erule (1) journals_trans | erule (2) journals_put | erule (1) journals_remove | erule (4) journals_move
    | erule (1) journals_commit_put | rule journals_commit_del | rule journals_rewrite_all, blast)+

section \<open>Steps and runs\<close>

text \<open>
  One step is one critical section under the store's lock.  The parts of an operation that run without it (the call of a provider,
  the parsing of an envelope, the merge of two texts) appear as the arbitrary values their results have here, so a run interleaves
  the operations in every way the lock allows.  A new fork's id is not in use.
\<close>

inductive step :: "Store \<Rightarrow> Store \<Rightarrow> bool" where
  write_file: "step s (fst (WriteFile now req s))"
| delete_file: "step s (fst (DeleteFile now dreq s))"
| bulk_write: "step s (fst (BulkWrite now w files s))"
| merge: "step s (fst (commitMergeResult now w p mreq content r s))"
| create_fork: "i \<noteq> '''' \<Longrightarrow> map_of (s_forks s) i = None \<Longrightarrow> step s (fst (CreateFork now i w p ttl s))"
| discard_fork: "step s (fst (DiscardFork now w i s))"
| fork_timer: "step s (expireForkByTimer now i s)"
| write_fork: "step s (fst (WriteForkFile now req i s))"
| delete_fork: "step s (fst (DeleteForkFile now dreq i s))"
| bulk_fork: "step s (fst (BulkWriteFork now w i files s))"
| rebase_fork: "step s (fst (RebaseFork now w i s))"
| commit_fork: "step s (fst (CommitForkWithValidator now w i corr validate s))"
| dequeue: "wb_Dequeue (s_writebackQueue s) = Some (task, q) \<Longrightarrow> step s (markWritebackDequeued task (s\<lparr>s_writebackQueue := q\<rparr>))"
| attempt: "step s (fst (wb_finish now task action n outcome s))"
| retry: "step s (enqueueWriteback task s)"
| acknowledge: "step s (fst (AcknowledgeWriteback now w i ack corr s))"
| replay_operation: "step s (fst (ReplayOperationAny now i corr s))"
| sweep: "step s (fst (SweepWritebackDrafts now w sreq s))"
| boot: "step s (quarantineBootDeleteStorms now s)"
| accept: "step s (fst (ingest_accept env s))"
| queue: "step s (fst (ingest_enqueue env s))"
| replay_envelope: "step s (fst (ReplayEnvelope i corr s))"
| begin_envelope: "step s (fst (env_begin now i s))"
| finish_envelope: "step s (fst (env_finish now i n parsed s))"
| retry_envelope: "step s (enqueueEnvelope i s)"
| subscribe: "SubscribeWithOverflow w ch ov s = Inr (s', sub) \<Longrightarrow> step s s'"
| unsubscribe: "step s (unsubscribe w sub s)"
| save: "step s (saveLocked s)"

lemma subscription_core:
  "SubscribeWithOverflow w ch ov s = Inr (s', sub) \<Longrightarrow> same_core s s'" "same_core s (unsubscribe w k s)"
  by (auto simp: SubscribeWithOverflow_def unsubscribe_def Let_def same_core_def split: if_splits option.splits)

lemma fork_only_create:
  "fork_inv s \<Longrightarrow> i \<noteq> '''' \<Longrightarrow> map_of (s_forks s) i = None \<Longrightarrow> fork_only s (fst (CreateFork now i w p ttl s))"
  by (intro fork_onlyI CreateFork_workspaces fork_inv_create)

context step_relation begin

lemma R_step:
  assumes "step s s'" and "fork_inv s"
  shows "R s s'"
  using assms
  by cases (simp_all add: R_core [OF same_core_trans [OF queue_core markDequeued_core]] R_WriteFile R_DeleteFile R_BulkWrite R_commitMerge R_aside [OF fork_only_create] R_fork_operations R_CommitFork
    R_wb_finish R_Acknowledge R_ReplayOperationAny R_Sweep R_quarantine R_env_begin R_env_finish
    R_core same_core_accept same_core_enqueue_step same_core_Replay(1) subscription_core)

end

abbreviation steps :: "Store \<Rightarrow> Store \<Rightarrow> bool" where
  "steps \<equiv> step\<^sup>*\<^sup>*"

lemma steps_fork_inv: "steps s s' \<Longrightarrow> fork_inv s \<Longrightarrow> fork_inv s'"
  by (induction rule: rtranclp_induct) (use adv.R_step in \<open>auto simp: advances_def\<close>)

context step_relation begin

lemma R_steps: "steps s s' \<Longrightarrow> fork_inv s \<Longrightarrow> R s s'"
proof (induction rule: rtranclp_induct)
  case (step t u)
  then show ?case using R_trans [OF _ R_step [OF step(2)]] steps_fork_inv by blast
qed simp

end

section \<open>Every run\<close>

lemma new_store_fork_inv [simp]: "fork_inv (new_store opts disk)"
  by (simp add: fork_inv_def index_exact_def new_store_def)

lemma new_store_ws: "ws_of (new_store opts disk) w = empty_workspace"
  by (simp add: new_store_def ws_of_def mget_or_def)

text \<open>C2. In every run of the system, however its operations interleave: the store and fork invariants hold, no event is ever
  dropped from or rewritten in a log, revision and event counters do not go back, and a revision identifies the whole state of a
  file: if a file has the same revision at two moments, it is the same file, in content and metadata.\<close>

theorem runs_consistent:
  assumes "steps (new_store opts None) s" and "steps s s'"
  shows "store_inv s' \<and> fork_inv s' \<and> (\<forall>w. prefix (ws_Events (ws_of s w)) (ws_Events (ws_of s' w)))
    \<and> s_revCounter s \<le> s_revCounter s' \<and> s_eventCounter s \<le> s_eventCounter s'
    \<and> (\<forall>w p f g. map_of (ws_Files (ws_of s w)) p = Some f \<and> map_of (ws_Files (ws_of s' w)) p = Some g
          \<and> f_Revision g = f_Revision f \<longrightarrow> g = f)"
proof -
  have s: "store_inv s" "fork_inv s" using adv.R_steps [OF assms(1)] by (simp_all add: advances_def)
  then show ?thesis using adv.R_steps [OF assms(2)] fresh_files_revision [OF s(1)] unfolding advances_def by blast
qed

text \<open>C1. The change feed is complete and exact: in every run, replaying a workspace's log from the start gives exactly the files
  of the workspace, each with its revision and content hash; and a reader who knew the files at some moment and reads the events
  after it knows the files as they are now.  No operation changes a file without announcing it, and none announces what it did
  not do.\<close>

theorem log_determines_files:
  assumes "steps (new_store opts None) s" and "steps s s'"
  shows "replay (ws_Events (ws_of s w)) = stamp (ws_Files (ws_of s w))
    \<and> fold apply_event (drop (length (ws_Events (ws_of s w))) (ws_Events (ws_of s' w))) (stamp (ws_Files (ws_of s w)))
        = stamp (ws_Files (ws_of s' w))"
proof -
  have "stamp (ws_Files empty_workspace) = (\<lambda>_. None)" by (simp add: fun_eq_iff stamp_def empty_workspace_def)
  then have "replay (ws_Events (ws_of s w)) = stamp (ws_Files (ws_of s w))"
    using jr.R_steps [OF assms(1)] by (simp add: journals_def replay_def new_store_ws empty_workspace_def)
  moreover have "fork_inv s" using adv.R_steps [OF assms(1)] by (simp add: advances_def)
  then obtain evs where "ws_Events (ws_of s' w) = ws_Events (ws_of s w) @ evs"
    "stamp (ws_Files (ws_of s' w)) = fold apply_event evs (stamp (ws_Files (ws_of s w)))"
    using jr.R_steps [OF assms(2)] unfolding journals_def by blast
  ultimately show ?thesis by simp
qed

section \<open>Preconditions\<close>

lemma write_pre:
  assumes "WriteFile now req s = (s', Inr result)"
  shows "if_match_ok (wr_IfMatch req) (map_of (ws_Files (ws_of s (wr_WorkspaceID req))) (normalizePath (wr_Path req)))"
    and "\<exists>f. map_of (ws_Files (ws_of s' (wr_WorkspaceID req))) (normalizePath (wr_Path req)) = Some f \<and> f_Revision f = rev_id (Suc (s_revCounter s))"
  using assms by (cases rule: WriteFile_total [of now req s]; auto simp: store_simps AList.update_conv' dest: write_checks_if_match)+

text \<open>A revision the file had before is not the revision of what is there after a write and any run of operations.\<close>

lemma revision_gone:
  assumes "store_inv s" and "map_of (ws_Files (ws_of s w)) p = Some f" and "map_of (ws_Files (ws_of s1 w)) p = Some g"
    and "f_Revision g = rev_id (Suc (s_revCounter s))" and "fresh_files s1 s2" and "s_revCounter s \<le> s_revCounter s1"
    and "map_of (ws_Files (ws_of s2 w)) p = Some h"
  shows "f_Revision h \<noteq> f_Revision f"
proof
  assume eq: "f_Revision h = f_Revision f"
  obtain k where k: "s_revCounter s < k" "f_Revision h = rev_id k"
  proof -
    consider "h = g" | k where "s_revCounter s1 < k" "f_Revision h = rev_id k"
      using assms(3,5,7) unfolding fresh_files_def by (metis option.inject)
    then show thesis using that assms(4,6) by cases auto
  qed
  have "issued rev_id (s_revCounter s) (f_Revision f)" using store_inv_file_path [OF assms(1,2)] by simp
  then show False using k eq by (auto simp: issued_def)
qed

text \<open>C3. No lost update, in every run.  After a write that cites a precondition other than the unconditional \<open>*\<close> has succeeded, no
  later write to the same file with the same precondition does, whatever other operations came in between; except that \<open>0\<close>, which
  asks for the file to be absent, can be met again once the file has been removed.\<close>

theorem no_lost_update:
  assumes "steps (new_store opts None) s" and "WriteFile now req s = (s1, Inr result)" and "steps s1 s2" and "wr_IfMatch req \<noteq> ''*''"
    and "wr_WorkspaceID req' = wr_WorkspaceID req" and "normalizePath (wr_Path req') = normalizePath (wr_Path req)"
    and "wr_IfMatch req' = wr_IfMatch req"
    and "wr_IfMatch req \<noteq> ''0'' \<or> map_of (ws_Files (ws_of s2 (wr_WorkspaceID req))) (normalizePath (wr_Path req)) \<noteq> None"
  shows "\<exists>s3 e. WriteFile now' req' s2 = (s3, Inl e)"
proof (rule ccontr)
  let ?w = "wr_WorkspaceID req" and ?p = "normalizePath (wr_Path req)"
  assume "\<not> ?thesis"
  then obtain s3 result' where "WriteFile now' req' s2 = (s3, Inr result')" by (metis prod.exhaust sum.exhaust)
  from write_pre(1) [OF this] have second: "if_match_ok (wr_IfMatch req) (map_of (ws_Files (ws_of s2 ?w)) ?p)" using assms(5-7) by simp
  note first = write_pre(1) [OF assms(2)]
  obtain g where g: "map_of (ws_Files (ws_of s1 ?w)) ?p = Some g" "f_Revision g = rev_id (Suc (s_revCounter s))"
    using write_pre(2) [OF assms(2)] by blast
  have inv: "store_inv s" "fork_inv s" using adv.R_steps [OF assms(1)] by (simp_all add: advances_def)
  have "steps s s1" using write_file [of s now req] assms(2) by auto
  then have s1: "store_inv s1" "fork_inv s1" "s_revCounter s \<le> s_revCounter s1" using adv.R_steps [of s s1] inv by (simp_all add: advances_def)
  then have fresh: "fresh_files s1 s2" "store_inv s2" using adv.R_steps [OF assms(3)] by (simp_all add: advances_def)
  obtain h where h: "map_of (ws_Files (ws_of s2 ?w)) ?p = Some h" "f_Revision h = wr_IfMatch req"
    using second assms(4,8) by (auto simp: if_match_ok_def split: option.splits)
  have "issued rev_id (s_revCounter s2) (f_Revision h)" using store_inv_file_path [OF fresh(2) h(1)] by simp
  then have "wr_IfMatch req \<noteq> ''0''" using h(2) by (auto simp: issued_def rev_id_def)
  then obtain f where f: "map_of (ws_Files (ws_of s ?w)) ?p = Some f" "f_Revision f = wr_IfMatch req"
    using first assms(4) by (auto simp: if_match_ok_def split: option.splits)
  show False using revision_gone [OF inv(1) f(1) g fresh(1) s1(3) h(1)] h(2) f(2) by simp
qed

section \<open>A concrete run\<close>

abbreviation after_write :: Store where
  "after_write \<equiv> fst (WriteFile 0 sample_write NewStore)"

lemma run_write: "steps NewStore after_write"
  by (rule r_into_rtranclp) (rule write_file)

lemma after_write_file:
  "\<exists>f. map_of (ws_Files (ws_of after_write ''w'')) (normalizePath ''/notes/a.md'') = Some f \<and> f_Revision f = rev_id 1"
proof (cases rule: WriteFile_total [of 0 sample_write NewStore])
  case (failed e s')
  then show ?thesis using sample_write_ok [of 0] by auto
next
  case (written encoding metadata task et)
  then show ?thesis by (simp add: store_simps gomap_simps sample_write_def NewStore_def new_store_def)
qed

theorem runs_consistent_witness:
  "steps NewStore after_write \<and> store_inv after_write \<and> fork_inv after_write"
  using runs_consistent [of default_options NewStore after_write] run_write by (simp add: NewStore_def)

text \<open>The second of two creations of the same file is refused.\<close>

theorem no_lost_update_witness:
  "\<exists>result s3 e. WriteFile 0 sample_write NewStore = (after_write, Inr result) \<and> WriteFile 0 sample_write after_write = (s3, Inl e)"
proof -
  obtain s' result where w: "WriteFile 0 sample_write NewStore = (s', Inr result)" using sample_write_ok by blast
  then have s': "s' = after_write" by simp
  have "wr_IfMatch sample_write \<noteq> ''*''" by (simp add: sample_write_def)
  moreover have "steps (new_store default_options None) NewStore" by (simp add: NewStore_def)
  moreover have "map_of (ws_Files (ws_of after_write (wr_WorkspaceID sample_write))) (normalizePath (wr_Path sample_write)) \<noteq> None"
    using after_write_file by (auto simp: sample_write_def)
  ultimately show ?thesis using no_lost_update [OF _ w rtranclp.rtrancl_refl _ refl refl refl, of default_options 0] w unfolding s' by blast
qed

theorem log_determines_files_witness:
  "\<exists>h. replay (ws_Events (ws_of after_write ''w'')) (normalizePath ''/notes/a.md'') = Some (rev_id 1, h)"
  using log_determines_files [of default_options after_write after_write "''w''"] run_write after_write_file
  by (auto simp: NewStore_def stamp_def)

end
