(* ===== verification/Restart.thy ===== *)
theory Restart
  imports System
begin

text \<open>
  Restarting from the saved state (\<^verbatim>\<open>loadFromDisk\<close> and the rest of \<^verbatim>\<open>NewStoreWithOptions\<close>).

  The backend keeps the JSON form of the saved state, which leaves out one field, the permissions an event carries
  (\<^verbatim>\<open>json:"-"\<close>), and keeps the others (strings are taken to be valid UTF-8: the encoder replaces other bytes); the permissions are kept a second time in a map by event id and put back on loading.  \<open>persisted_view\<close> is what survives.
  \<open>snapshots\<close>, the third instance of \<open>step_relation\<close>, shows that the map is always up to date; so a restart restores every
  workspace as it was saved, with the permissions of its events, and keeps the invariants.
\<close>

section \<open>Loading\<close>

definition persisted_event :: "Event \<Rightarrow> Event" where
  "persisted_event ev = ev\<lparr>e_ACLPermissions := None\<rparr>"

definition persisted_view :: "persistedState \<Rightarrow> persistedState" where
  "persisted_view st = st\<lparr>ps_Workspaces :=
     map (\<lambda>(w, ws). (w, ws\<lparr>ws_Events := map persisted_event (ws_Events ws)\<rparr>)) (ps_Workspaces st)\<rparr>"

definition load_event :: "(string, string list) gomap \<Rightarrow> Event \<Rightarrow> Event" where
  "load_event acl ev =
     (case map_of acl (e_EventID ev) of
        None \<Rightarrow> ev
      | Some permissions \<Rightarrow> ev\<lparr>e_ACLPermissions := snapshotACLPermissions permissions\<rparr>)"

definition load_workspace :: "workspaceState \<Rightarrow> workspaceState" where
  "load_workspace ws =
     ws\<lparr>ws_Files := map (\<lambda>(path, file). (path, ensureStoredContentHash file)) (ws_Files ws),
        ws_Events := map (load_event (ws_ACLPermissionsByEvent ws)) (ws_Events ws)\<rparr>"

definition load_entry :: "ForkOverlayEntry \<Rightarrow> ForkOverlayEntry" where
  "load_entry entry =
     (case oe_File entry of
        None \<Rightarrow> entry
      | Some file \<Rightarrow> entry\<lparr>oe_File := Some (ensureStoredContentHash file)\<rparr>)"

definition load_fork :: "forkState \<Rightarrow> forkState" where
  "load_fork fork = fork\<lparr>fs_Overlay := map (\<lambda>(path, entry). (path, load_entry entry)) (fs_Overlay fork)\<rparr>"

text \<open>A map that was never written is saved as null and loads as the empty map the store starts with.\<close>

definition loadFromDisk :: "persistedState option \<Rightarrow> Store \<Rightarrow> Store" where
  "loadFromDisk loaded s =
     (if \<not> cfg_stateBackend (s_cfg s) then s
      else case loaded of
        None \<Rightarrow> s
      | Some snapshot \<Rightarrow>
          s\<lparr>s_workspaces := map (\<lambda>(w, ws). (w, load_workspace ws)) (ps_Workspaces snapshot),
            s_forks := map (\<lambda>(i, fork). (i, load_fork fork)) (ps_Forks snapshot),
            s_envelopesByID := ps_EnvelopesByID snapshot, s_deliveryIndex := ps_DeliveryIndex snapshot,
            s_processedEnvs := ps_ProcessedEnvs snapshot, s_ingressByWS := ps_IngressByWorkspace snapshot,
            s_envelopeAttempts := ps_EnvelopeAttempts snapshot, s_envelopeNextAttempt := ps_EnvelopeNextAttempt snapshot,
            s_deadLetters := ps_DeadLetters snapshot, s_suppressions := ps_Suppressions snapshot,
            s_revCounter := ps_RevCounter snapshot, s_opCounter := ps_OpCounter snapshot,
            s_eventCounter := ps_EventCounter snapshot\<rparr>)"

text \<open>The queues are the ones in memory, empty at the start; delayed work is left to its timers.  Pending work is queued again only when
  the store has workers.\<close>

definition restart :: "StoreOptions \<Rightarrow> bool \<Rightarrow> instant \<Rightarrow> persistedState option \<Rightarrow> Store" where
  "restart opts disableWorkers now loaded =
     (let s = loadFromDisk loaded (new_store opts loaded);
          s = quarantineBootDeleteStorms now s;
          s = rebuildForkIndexesLocked now s;
          s = rebuildCoalesceIndexLocked s
      in if disableWorkers then s
         else let s = fold enqueueEnvelope (map fst (filter (\<lambda>(i, delay). \<not> delay > 0) (boot_envelopes now s))) s
              in fst (boot_enqueue now s))"

section \<open>The permissions of events\<close>

text \<open>Of a log, the permissions by event id and the number of the last event.\<close>

definition acl_exact :: "nat \<Rightarrow> Event list \<Rightarrow> (string, string list) gomap \<Rightarrow> bool" where
  "acl_exact n evs acl \<longleftrightarrow> (\<forall>ev \<in> set evs. e_ACLPermissions ev = map_of acl (e_EventID ev))
     \<and> (\<forall>i. map_of acl i \<noteq> None \<longrightarrow> issued evt_id n i)"

definition acl_inv :: "Store \<Rightarrow> bool" where
  "acl_inv s \<longleftrightarrow> (\<forall>w. acl_exact (s_eventCounter s) (ws_Events (ws_of s w)) (ws_ACLPermissionsByEvent (ws_of s w)))"

definition snapshots :: "Store \<Rightarrow> Store \<Rightarrow> bool" where
  "snapshots s s' \<longleftrightarrow> advances s s' \<and> (store_inv s \<and> acl_inv s \<longrightarrow> acl_inv s')"

lemma acl_exact_mono: "acl_exact n evs acl \<Longrightarrow> n \<le> m \<Longrightarrow> acl_exact m evs acl"
  unfolding acl_exact_def using issued_mono by blast

lemma log_ok_issued: "log_ok n evs \<Longrightarrow> ev \<in> set evs \<Longrightarrow> issued evt_id n (e_EventID ev)"
proof -
  assume "log_ok n evs" and ev: "ev \<in> set evs"
  then obtain ks where "map e_EventID evs = map evt_id ks" "\<forall>k \<in> set ks. 0 < k \<and> k \<le> n" by (auto simp: log_ok_def)
  moreover have "e_EventID ev \<in> set (map e_EventID evs)" using ev by simp
  ultimately show ?thesis by (auto simp: issued_def)
qed

lemma not_issued_next: "\<not> issued evt_id n (evt_id (Suc n))"
  by (simp add: issued_def)

lemma acl_exact_snoc:
  assumes "acl_exact n evs acl" and "log_ok n evs" and "e_EventID ev = evt_id (Suc n)"
  shows "acl_exact (Suc n) (evs @ [ev])
    (case e_ACLPermissions ev of None \<Rightarrow> acl | Some perms \<Rightarrow> mput (e_EventID ev) perms acl)"
proof -
  have old: "e_EventID e \<noteq> evt_id (Suc n)" if "e \<in> set evs" for e
    using log_ok_issued [OF assms(2) that] not_issued_next by metis
  have "map_of acl (evt_id (Suc n)) = None" using assms(1) not_issued_next unfolding acl_exact_def by blast
  then show ?thesis
    using assms(1,3) old issued_mono [of evt_id n _ "Suc n"]
    by (auto simp: acl_exact_def gomap_simps split: option.splits)
qed

text \<open>One event is appended to one log, the others stay.\<close>

lemma acl_grow:
  assumes "store_inv s" and "acl_inv s" and "e_EventID ev = evt_id (Suc (s_eventCounter s))"
    and "s_eventCounter t = Suc (s_eventCounter s)"
    and "ws_Events (ws_of t w) = ws_Events (ws_of s w) @ [ev]"
    and "ws_ACLPermissionsByEvent (ws_of t w) = (case e_ACLPermissions ev of None \<Rightarrow> ws_ACLPermissionsByEvent (ws_of s w)
        | Some perms \<Rightarrow> mput (e_EventID ev) perms (ws_ACLPermissionsByEvent (ws_of s w)))"
    and "\<And>v. v \<noteq> w \<Longrightarrow> ws_Events (ws_of t v) = ws_Events (ws_of s v) \<and> ws_ACLPermissionsByEvent (ws_of t v) = ws_ACLPermissionsByEvent (ws_of s v)"
  shows "acl_inv t"
  unfolding acl_inv_def
proof
  fix v
  have log: "log_ok (s_eventCounter s) (ws_Events (ws_of s v))" using assms(1) by (auto simp: store_inv_def ws_inv_def)
  have acl: "acl_exact (s_eventCounter s) (ws_Events (ws_of s v)) (ws_ACLPermissionsByEvent (ws_of s v))"
    using assms(2) by (simp add: acl_inv_def)
  show "acl_exact (s_eventCounter t) (ws_Events (ws_of t v)) (ws_ACLPermissionsByEvent (ws_of t v))"
  proof (cases "v = w")
    case True
    with acl_exact_snoc [OF acl log assms(3)] show ?thesis unfolding assms(4) by (simp only: assms(5,6))
  next
    case False
    then show ?thesis using acl_exact_mono [OF acl, of "Suc (s_eventCounter s)"] assms(4,7) by simp
  qed
qed

lemma ws_of_counters [simp]: "ws_of (s\<lparr>s_eventCounter := n\<rparr>) = ws_of s" "ws_of (s\<lparr>s_revCounter := n\<rparr>) = ws_of s"
  by (simp_all add: ws_of_def fun_eq_iff)

lemma acl_append: "store_inv s \<Longrightarrow> acl_inv s \<Longrightarrow> acl_inv (append_next w ev s)"
  by (erule (1) acl_grow [where w = w and ev = "ev\<lparr>e_EventID := evt_id (Suc (s_eventCounter s))\<rparr>"])
    (cases "e_ACLPermissions ev"; simp add: append_next_def store_simps)+

lemma acl_same:
  assumes "acl_inv s" and "s_eventCounter s \<le> s_eventCounter t"
    and "\<And>v. ws_Events (ws_of t v) = ws_Events (ws_of s v) \<and> ws_ACLPermissionsByEvent (ws_of t v) = ws_ACLPermissionsByEvent (ws_of s v)"
  shows "acl_inv t"
  using assms acl_exact_mono unfolding acl_inv_def by metis

lemma retabled_acl:
  assumes "retabled w s s'"
  shows "ws_Events (ws_of s' v) = ws_Events (ws_of s v) \<and> ws_ACLPermissionsByEvent (ws_of s' v) = ws_ACLPermissionsByEvent (ws_of s v)"
    and "s_eventCounter s' = s_eventCounter s"
  using assms by (auto simp: retabled_def store_simps ops_rewritten_def)

lemma snapshots_quiet:
  assumes "advances s t" and "s_eventCounter s \<le> s_eventCounter t"
    and "\<And>v. ws_Events (ws_of t v) = ws_Events (ws_of s v) \<and> ws_ACLPermissionsByEvent (ws_of t v) = ws_ACLPermissionsByEvent (ws_of s v)"
  shows "snapshots s t"
  unfolding snapshots_def using assms acl_same by blast

lemma snapshots_trans: "snapshots s s' \<Longrightarrow> snapshots s' s'' \<Longrightarrow> snapshots s s''"
  unfolding snapshots_def using advances_trans [of s s' s''] by (simp add: advances_def)

lemma snapshots_append: "snapshots s (append_next w ev s)"
  unfolding snapshots_def using advances_append acl_append by blast

lemma snapshots_retabled: "retabled w s s' \<Longrightarrow> snapshots s s'"
  by (rule snapshots_quiet [OF advances_retabled]) (auto simp: retabled_acl)

lemma snapshots_put_file:
  "f_Path f = p \<Longrightarrow> f_Revision f = rev_id (Suc (s_revCounter s)) \<Longrightarrow>
     snapshots s (put_file w p f r (s\<lparr>s_revCounter := Suc (s_revCounter s)\<rparr>))"
  by (rule snapshots_quiet [OF advances_put_file]) (auto simp: store_simps)

lemma snapshots_remove_file: "snapshots s (remove_file w p r (s\<lparr>s_revCounter := Suc (s_revCounter s)\<rparr>))"
  by (rule snapshots_quiet [OF advances_remove_file]) (auto simp: store_simps)

lemma snapshots_move_file:
  "f_Path f = q \<Longrightarrow> f_Revision f = rev_id (Suc (s_revCounter s)) \<Longrightarrow>
     snapshots s (put_file w q f r (remove_file w p r' (s\<lparr>s_revCounter := Suc (s_revCounter s)\<rparr>)))"
  by (rule snapshots_quiet [OF advances_move_file]) (auto simp: store_simps)

lemma snapshots_commit_put:
  assumes "store_inv s \<Longrightarrow> f_Path f = p" and "f_Revision f = rev_id (Suc (s_revCounter s))"
  shows "snapshots s (commit_put now w p f et corr ident s)"
proof -
  let ?r = "rev_id (Suc (s_revCounter s))"
  let ?ev = "write_event now p ?r et (f_Provider f) corr None (ws_of (put_file w p f ?r (s\<lparr>s_revCounter := Suc (s_revCounter s)\<rparr>)) w)
    (evt_id (Suc (s_eventCounter s)))"
  have "acl_inv (commit_put now w p f et corr ident s)" if "store_inv s" "acl_inv s"
    using that by (rule acl_grow [where w = w and ev = ?ev])
      (cases "e_ACLPermissions ?ev"; simp add: commit_put_def Let_def store_simps write_event_def)+
  then show ?thesis unfolding snapshots_def using advances_commits(1) assms by blast
qed

lemma snapshots_commit_del: "snapshots s (commit_del now w p prov corr acl s)"
proof -
  let ?r = "rev_id (Suc (s_revCounter s))"
  let ?ev = "write_event now p ?r ''file.deleted'' prov corr (Some acl) (ws_of (remove_file w p ?r (s\<lparr>s_revCounter := Suc (s_revCounter s)\<rparr>)) w)
    (evt_id (Suc (s_eventCounter s)))"
  have "acl_inv (commit_del now w p prov corr acl s)" if "store_inv s" "acl_inv s"
    using that by (rule acl_grow [where w = w and ev = ?ev])
      (cases "e_ACLPermissions ?ev"; simp add: commit_del_def Let_def store_simps write_event_def)+
  then show ?thesis unfolding snapshots_def using advances_commits(2) by blast
qed

lemma snapshots_rewrite_all:
  assumes "\<And>ws. ops_rewritten ws (g ws)"
  shows "snapshots s (s\<lparr>s_workspaces := map (\<lambda>(w, ws). (w, g ws)) (s_workspaces s)\<rparr>)"
  using assms
  by (intro snapshots_quiet [OF advances_rewrite_all]) (simp_all add: ws_of_def mget_or_def map_of_mapped ops_rewritten_def split: option.splits)

interpretation sn: step_relation snapshots
proof unfold_locales
  show "snapshots s s'" if "fork_only s s'" for s s'
    using that by (intro snapshots_quiet [OF advances_fork_only]) (simp_all add: fork_only_def same_workspaces_def)
  show "snapshots s (put_ws w ws s)" if "ops_rewritten (ws_of s w) ws" for s w ws
    using snapshots_retabled [OF retabled_put [OF that]] .
  show "snapshots s (append_next w ev s1)"
    if "f_Path f = p" "f_Revision f = rev_id (Suc (s_revCounter s))"
      "retabled w (put_file w p f (f_Revision f) (s\<lparr>s_revCounter := Suc (s_revCounter s)\<rparr>)) s1" for f p s w s1 ev
    using snapshots_trans [OF snapshots_trans [OF snapshots_put_file [OF that(1,2)] snapshots_retabled [OF that(3)]] snapshots_append] .
  show "snapshots s (append_next w ev' (append_next w ev s1))"
    if "f_Path f = q" "f_Revision f = rev_id (Suc (s_revCounter s))"
      "retabled w (put_file w q f (f_Revision f) (remove_file w p r (s\<lparr>s_revCounter := Suc (s_revCounter s)\<rparr>))) s1" for f p q r s w s1 ev ev'
    using snapshots_trans [OF snapshots_trans [OF snapshots_trans [OF snapshots_move_file [OF that(1,2)] snapshots_retabled [OF that(3)]]
          snapshots_append] snapshots_append] .
  show "snapshots s (append_next w ev (remove_file w p r (s\<lparr>s_revCounter := Suc (s_revCounter s)\<rparr>)))" for s w p r ev
    using snapshots_trans [OF snapshots_remove_file snapshots_append] .
qed (erule (1) snapshots_trans | rule snapshots_append snapshots_commit_put snapshots_commit_del snapshots_rewrite_all; blast)+

lemma new_store_acl [simp]: "acl_inv (new_store opts disk)"
  by (simp add: acl_inv_def acl_exact_def new_store_ws empty_workspace_def)

lemma steps_acl: "steps (new_store opts None) s \<Longrightarrow> acl_inv s"
  using sn.R_steps [of "new_store opts None" s] by (simp add: snapshots_def)

section \<open>The fork indexes\<close>

text \<open>A table of forks that can be indexed: ids as keys, and no two forks for one proposal.\<close>

definition indexable :: "(string, forkState) gomap \<Rightarrow> bool" where
  "indexable forks \<longleftrightarrow> wf_map forks \<and> (\<forall>i f. (i, f) \<in> set forks \<longrightarrow> fs_ForkID f = i \<and> i \<noteq> '''')
     \<and> (\<forall>i f j g. (i, f) \<in> set forks \<longrightarrow> (j, g) \<in> set forks \<longrightarrow> fork_key f = fork_key g \<or> fs_ProposalID f = fs_ProposalID g \<longrightarrow> i = j)"

text \<open>The index of the forks of a list that are alive.\<close>

definition indexes :: "instant \<Rightarrow> (forkState \<Rightarrow> string) \<Rightarrow> (string, forkState) gomap \<Rightarrow> (string, string) gomap \<Rightarrow> bool" where
  "indexes now key fs ix \<longleftrightarrow> (\<forall>k i. map_of ix k = Some i \<longleftrightarrow> (\<exists>f. (i, f) \<in> set fs \<and> \<not> isForkExpiredAt f now \<and> key f = k))"

lemma wf_map_in: "wf_map m \<Longrightarrow> (k, v) \<in> set m \<longleftrightarrow> map_of m k = Some v"
  by (simp add: wf_map_def)

lemma indexable_inv: "fork_inv s \<Longrightarrow> indexable (s_forks s)"
  unfolding indexable_def
proof (intro conjI allI impI)
  assume inv: "fork_inv s"
  then show wf: "wf_map (s_forks s)" by (simp add: fork_inv_def)
  fix i f
  assume "(i, f) \<in> set (s_forks s)"
  then have f: "map_of (s_forks s) i = Some f" using wf_map_in [OF wf] by blast
  then show "fs_ForkID f = i" "i \<noteq> ''''" using inv unfolding fork_inv_def by blast+
  fix j g
  assume "(j, g) \<in> set (s_forks s)" and same: "fork_key f = fork_key g \<or> fs_ProposalID f = fs_ProposalID g"
  then have "map_of (s_forks s) j = Some g" using wf_map_in [OF wf] by blast
  with f have "map_of (s_forkByWorkspaceProposal s) (fork_key f) = Some i" "map_of (s_forkByWorkspaceProposal s) (fork_key g) = Some j"
    "map_of (s_forkByProposal s) (fs_ProposalID f) = Some i" "map_of (s_forkByProposal s) (fs_ProposalID g) = Some j"
    using inv unfolding fork_inv_def by (auto dest: index_exact_find)
  with same show "i = j" by (elim disjE) simp_all
qed

lemma indexes_live:
  assumes "indexes now key fs ix" and "\<And>j g. (j, g) \<in> set fs \<Longrightarrow> key g = key f \<Longrightarrow> j = i" and "\<not> isForkExpiredAt f now"
  shows "indexes now key (fs @ [(i, f)]) (mput (key f) i ix)"
  unfolding indexes_def
proof (intro allI)
  fix k j
  show "map_of (mput (key f) i ix) k = Some j \<longleftrightarrow> (\<exists>g. (j, g) \<in> set (fs @ [(i, f)]) \<and> \<not> isForkExpiredAt g now \<and> key g = k)"
    using assms(1) [unfolded indexes_def] assms(2,3) by (cases "k = key f") (auto simp: gomap_simps)
qed

lemma indexes_dead:
  assumes "indexes now key fs ix" and "\<And>j g. (j, g) \<in> set fs \<Longrightarrow> key g \<noteq> key f" and "isForkExpiredAt f now"
  shows "indexes now key (fs @ [(i, f)]) (mdel (key f) ix)"
  unfolding indexes_def
proof (intro allI)
  fix k j
  show "map_of (mdel (key f) ix) k = Some j \<longleftrightarrow> (\<exists>g. (j, g) \<in> set (fs @ [(i, f)]) \<and> \<not> isForkExpiredAt g now \<and> key g = k)"
    using assms(1) [unfolded indexes_def] assms(2,3) by (cases "k = key f") (auto simp: gomap_simps)
qed

abbreviation rebuild_one :: "instant \<Rightarrow> string \<times> forkState \<Rightarrow> Store \<Rightarrow> Store" where
  "rebuild_one now \<equiv> \<lambda>(forkID, fork) s.
     if fs_ForkID fork = '''' then s\<lparr>s_forks := mdel forkID (s_forks s)\<rparr>
     else if isForkExpiredAt fork now then deleteForkLocked now forkID True s
     else s\<lparr>s_forkByWorkspaceProposal :=
              mput (forkWorkspaceProposalKey (fs_WorkspaceID fork) (fs_ProposalID fork)) (fs_ForkID fork) (s_forkByWorkspaceProposal s),
            s_forkByProposal := mput (fs_ProposalID fork) (fs_ForkID fork) (s_forkByProposal s)\<rparr>"

definition rebuilt :: "instant \<Rightarrow> Store \<Rightarrow> (string, forkState) gomap \<Rightarrow> Store \<Rightarrow> bool" where
  "rebuilt now s fs t \<longleftrightarrow> same_workspaces s t \<and> wf_map (s_forks t)
     \<and> (\<forall>i. map_of (s_forks t) i = (if \<exists>f. (i, f) \<in> set fs \<and> isForkExpiredAt f now then None else map_of (s_forks s) i))
     \<and> indexes now fork_key fs (s_forkByWorkspaceProposal t) \<and> indexes now fs_ProposalID fs (s_forkByProposal t)"

lemma rebuilt_one:
  assumes "indexable (s_forks s)" and "s_forks s = fs @ (i, f) # gs" and "rebuilt now s fs t"
  shows "rebuilt now s (fs @ [(i, f)]) (rebuild_one now (i, f) t)"
proof -
  have inf: "(i, f) \<in> set (s_forks s)" and wf: "wf_map (s_forks s)" using assms(1,2) by (auto simp: indexable_def)
  have f: "fs_ForkID f = i" "i \<noteq> ''''" using assms(1) inf by (auto simp: indexable_def)
  have found: "map_of (s_forks s) i = Some f" using inf wf_map_in [OF wf] by simp
  have fresh: "(i, g) \<notin> set fs" for g using wf by (force simp: assms(2) wf_map_def)
  have other: "fork_key g \<noteq> fork_key f" "fs_ProposalID g \<noteq> fs_ProposalID f" if "(j, g) \<in> set fs" for j g
    using assms(1) inf that fresh [of g] unfolding indexable_def assms(2) by (metis Un_iff set_append)+
  have at: "map_of (s_forks t) i = Some f" using assms(3) found fresh by (simp add: rebuilt_def)
  show ?thesis
  proof (cases "isForkExpiredAt f now")
    case True
    then have "rebuild_one now (i, f) t = deleteForkLocked now i True t" using f by simp
    then show ?thesis
      using assms(3) True at f other
      by (auto simp: rebuilt_def deleteForkLocked_def same_workspaces_def ws_of_def gomap_simps wf_map_def distinct_delete intro!: indexes_dead)
  next
    case False
    then show ?thesis
      using assms(3) at f other
      by (auto simp: rebuilt_def same_workspaces_def ws_of_def intro!: indexes_live)
  qed
qed

lemma rebuilt_all:
  assumes "indexable (s_forks s)"
  shows "rebuilt now s (s_forks s) (rebuildForkIndexesLocked now s)"
proof -
  have "rebuilt now s fs (fold (rebuild_one now) fs (s\<lparr>s_forkByWorkspaceProposal := [], s_forkByProposal := []\<rparr>))"
    if "s_forks s = fs @ gs" for fs gs
    using that
  proof (induction fs arbitrary: gs rule: rev_induct)
    case Nil
    then show ?case using assms by (simp add: rebuilt_def indexable_def indexes_def same_workspaces_def ws_of_def)
  next
    case (snoc x fs)
    obtain i f where x: "x = (i, f)" by (cases x)
    have "s_forks s = fs @ (i, f) # gs" using snoc.prems by (simp add: x)
    from rebuilt_one [OF assms this snoc.IH [OF this]] show ?case by (simp only: x fold_append fold.simps comp_apply id_apply)
  qed
  from this [of "s_forks s" "[]"] show ?thesis unfolding rebuildForkIndexesLocked_def by simp
qed

lemma rebuilt_fork_inv:
  assumes "indexable (s_forks s)" and "rebuilt now s (s_forks s) t"
  shows "fork_inv t"
proof -
  have wf: "wf_map (s_forks s)" using assms(1) by (simp add: indexable_def)
  have live: "map_of (s_forks t) i = Some f \<longleftrightarrow> (i, f) \<in> set (s_forks s) \<and> \<not> isForkExpiredAt f now" for i f
    using assms(2) wf_map_in [OF wf] by (auto simp: rebuilt_def split: if_splits)
  then have "index_exact key (s_forks t) ix" if "indexes now key (s_forks s) ix" for key ix
    using that by (auto simp: index_exact_def indexes_def)
  then show ?thesis using assms live by (auto simp: fork_inv_def rebuilt_def indexable_def)
qed

section \<open>What a restart restores\<close>

lemma load_event_persisted:
  "e_ACLPermissions ev = map_of acl (e_EventID ev) \<Longrightarrow> load_event acl (persisted_event ev) = ev"
  by (cases "map_of acl (e_EventID ev)") (simp_all add: load_event_def persisted_event_def snapshotACLPermissions_def)

lemma load_log:
  "acl_exact n evs acl \<Longrightarrow> map (load_event acl) (map persisted_event evs) = evs"
  by (simp add: acl_exact_def load_event_persisted map_idI)

lemma ensureHash_fields [simp]:
  "f_Path (ensureStoredContentHash f) = f_Path f" "f_Revision (ensureStoredContentHash f) = f_Revision f"
  "storedContentHashForFile (ensureStoredContentHash f) = storedContentHashForFile f"
  by (simp_all add: ensureStoredContentHash_def storedContentHashForFile_def contentHashForFile_def)

lemma load_fork_fields [simp]:
  "fs_ForkID (load_fork f) = fs_ForkID f" "fs_ProposalID (load_fork f) = fs_ProposalID f" "fs_WorkspaceID (load_fork f) = fs_WorkspaceID f"
  "isForkExpiredAt (load_fork f) now = isForkExpiredAt f now"
  by (simp_all add: load_fork_def isForkExpiredAt_def)

lemma indexable_load: "indexable forks \<Longrightarrow> indexable (map (\<lambda>(i, f). (i, load_fork f)) forks)"
  by (force simp: indexable_def wf_map_def o_def case_prod_beta)

lemma stamp_load: "stamp (map (\<lambda>(p, f). (p, ensureStoredContentHash f)) files) = stamp files"
  by (simp add: stamp_def map_of_mapped fun_eq_iff option.map_comp o_def)

lemma files_ok_load: "files_ok n files \<Longrightarrow> files_ok n (map (\<lambda>(p, f). (p, ensureStoredContentHash f)) files)"
  unfolding files_ok_def by (fastforce simp: wf_map_def map_of_mapped o_def case_prod_beta)

lemma load_workspace_persisted:
  assumes "acl_exact n (ws_Events ws) (ws_ACLPermissionsByEvent ws)"
  shows "load_workspace (ws\<lparr>ws_Events := map persisted_event (ws_Events ws)\<rparr>)
    = ws\<lparr>ws_Files := map (\<lambda>(p, f). (p, ensureStoredContentHash f)) (ws_Files ws)\<rparr>"
  using load_log [OF assms] by (simp add: load_workspace_def)

definition loaded_store :: "StoreOptions \<Rightarrow> Store \<Rightarrow> Store" where
  "loaded_store opts s =
     (let disk = Some (persisted_view (snapshot_of s)) in loadFromDisk disk (new_store opts disk))"

lemma loaded_fields:
  assumes "so_StateBackend opts" and "acl_inv s"
  shows "ws_of (loaded_store opts s) w = (ws_of s w)\<lparr>ws_Files := map (\<lambda>(p, f). (p, ensureStoredContentHash f)) (ws_Files (ws_of s w))\<rparr>"
    and "s_forks (loaded_store opts s) = map (\<lambda>(i, fork). (i, load_fork fork)) (s_forks s)"
    and "s_revCounter (loaded_store opts s) = s_revCounter s" and "s_opCounter (loaded_store opts s) = s_opCounter s"
    and "s_eventCounter (loaded_store opts s) = s_eventCounter s"
    and "wf_map (s_workspaces (loaded_store opts s)) \<longleftrightarrow> wf_map (s_workspaces s)"
    and "s_cfg (loaded_store opts s) = store_config opts"
proof -
  have "map_of (s_workspaces (loaded_store opts s)) w
      = map_option (\<lambda>ws. load_workspace (ws\<lparr>ws_Events := map persisted_event (ws_Events ws)\<rparr>)) (map_of (s_workspaces s) w)"
    using assms(1) by (simp add: loaded_store_def Let_def loadFromDisk_def new_store_def store_config_def persisted_view_def snapshot_of_def
        map_of_mapped option.map_comp o_def del: map_map)
  moreover have "acl_exact (s_eventCounter s) (ws_Events (ws_of s w)) (ws_ACLPermissionsByEvent (ws_of s w))"
    using assms(2) by (simp add: acl_inv_def)
  ultimately show "ws_of (loaded_store opts s) w = (ws_of s w)\<lparr>ws_Files := map (\<lambda>(p, f). (p, ensureStoredContentHash f)) (ws_Files (ws_of s w))\<rparr>"
    using load_workspace_persisted [of "s_eventCounter s" "ws_of s w"]
    by (cases "map_of (s_workspaces s) w") (simp_all add: ws_of_def mget_or_def empty_workspace_def)
qed (use assms(1) in \<open>simp_all add: loaded_store_def Let_def loadFromDisk_def new_store_def store_config_def persisted_view_def snapshot_of_def
    wf_map_def o_def case_prod_beta\<close>)

lemma loaded_inv:
  assumes "so_StateBackend opts" and "acl_inv s" and "store_inv s"
  shows "store_inv (loaded_store opts s)"
  using assms(3) files_ok_load by (auto simp: store_inv_def ws_inv_def loaded_fields [OF assms(1,2)])

lemma quarantine_forks: "s_forks (quarantineBootDeleteStorms now s) = s_forks s"
  by (simp add: quarantineBootDeleteStorms_def Let_def saveLocked_def)

lemma quarantine_counters:
  "s_revCounter (quarantineBootDeleteStorms now s) = s_revCounter s" "s_opCounter (quarantineBootDeleteStorms now s) = s_opCounter s"
  "s_eventCounter (quarantineBootDeleteStorms now s) = s_eventCounter s"
  by (simp_all add: quarantineBootDeleteStorms_def Let_def saveLocked_def)

lemma quarantine_rewrites: "ops_rewritten (ws_of s w) (ws_of (quarantineBootDeleteStorms now s) w)"
  by (simp add: quarantineBootDeleteStorms_def Let_def saveLocked_def ws_of_def mget_or_def map_of_mapped ops_rewritten_quarantine split: option.splits)

text \<open>The last steps touch only indexes and queues.\<close>

lemma restart_core:
  "\<exists>t. same_core (rebuildForkIndexesLocked now (quarantineBootDeleteStorms now (loaded_store opts s))) t
     \<and> restart opts disabled now (Some (persisted_view (snapshot_of s))) = t"
proof -
  have env: "same_core s (fold enqueueEnvelope es s)" for es s
    by (induction es arbitrary: s) (auto intro: same_core_trans [OF same_core_ingest(3)])
  show ?thesis
    by (simp add: restart_def loaded_store_def Let_def boot_enqueue_def rebuildCoalesceIndexLocked_def)
      (use same_core_trans [OF _ same_core_trans [OF env same_core_fold_enqueue]] in \<open>simp add: same_core_def\<close>)
qed

definition envelope_tables :: "Store \<Rightarrow>
    (string, WebhookEnvelopeRequest) gomap \<times> (string, string) gomap \<times> (string, bool) gomap \<times> (string, EnvelopeDeadLetter) gomap" where
  "envelope_tables s = (s_envelopesByID s, s_deliveryIndex s, s_processedEnvs s, s_deadLetters s)"

lemma fold_keeps: "(\<And>x s. g (f x s) = g s) \<Longrightarrow> g (fold f xs s) = g s"
  by (induction xs arbitrary: s) auto

lemma restart_envelopes:
  assumes "so_StateBackend opts"
  shows "envelope_tables (restart opts disabled now (Some (persisted_view (snapshot_of s)))) = envelope_tables s"
proof -
  have "envelope_tables (enqueueEnvelope i s) = envelope_tables s" "envelope_tables (enqueueWriteback t s) = envelope_tables s" for i t s
    by (auto simp: envelope_tables_def enqueueEnvelope_def enqueueWriteback_def Let_def split: prod.splits bool.splits option.splits)
  moreover have "envelope_tables (rebuild_one now x s) = envelope_tables s" for x s
    by (simp add: envelope_tables_def deleteForkLocked_def split: prod.splits option.splits)
  moreover have "envelope_tables (loaded_store opts s) = envelope_tables s"
    using assms by (simp add: loaded_store_def Let_def loadFromDisk_def new_store_def store_config_def persisted_view_def snapshot_of_def envelope_tables_def)
  moreover have "envelope_tables (quarantineBootDeleteStorms now s) = envelope_tables s" for s
    by (simp add: quarantineBootDeleteStorms_def Let_def saveLocked_def envelope_tables_def)
  moreover have "envelope_tables (s\<lparr>s_coalesceIndex := c\<rparr>) = envelope_tables s"
    "envelope_tables (s\<lparr>s_forkByWorkspaceProposal := ix, s_forkByProposal := ix'\<rparr>) = envelope_tables s" for s c ix ix'
    by (simp_all add: envelope_tables_def)
  ultimately show ?thesis
    by (simp add: restart_def loaded_store_def [unfolded Let_def, symmetric] Let_def boot_enqueue_def rebuildCoalesceIndexLocked_def
        rebuildForkIndexesLocked_def fold_keeps [of envelope_tables])
qed

text \<open>C5. A restart loses nothing that was saved.  Whatever run led to the saved state, the store that starts from it has in every
  workspace the same log, down to the permissions recorded with each event, and the same files (with their content hash filled in
  where it was missing), so the log still determines the files; the same counters, so no revision, operation or event id is issued
  twice; the same envelopes, delivery keys and dead letters, so a redelivered webhook is still recognised; and of the forks exactly
  those that have not expired, with their indexes rebuilt.  The store and fork invariants hold again.\<close>

theorem restart_restores:
  assumes "steps (new_store opts None) s" and "so_StateBackend opts'"
    and "r = restart opts' disabled now (Some (persisted_view (snapshot_of s)))"
  shows "store_inv r \<and> fork_inv r
    \<and> (\<forall>w. ws_Events (ws_of r w) = ws_Events (ws_of s w)
         \<and> ws_Files (ws_of r w) = map (\<lambda>(p, f). (p, ensureStoredContentHash f)) (ws_Files (ws_of s w))
         \<and> replay (ws_Events (ws_of r w)) = stamp (ws_Files (ws_of r w)))
    \<and> s_revCounter r = s_revCounter s \<and> s_opCounter r = s_opCounter s \<and> s_eventCounter r = s_eventCounter s
    \<and> envelope_tables r = envelope_tables s
    \<and> (\<forall>i. map_of (s_forks r) i = (case map_of (s_forks s) i of None \<Rightarrow> None
         | Some f \<Rightarrow> if isForkExpiredAt f now then None else Some (load_fork f)))"
proof -
  have inv: "store_inv s" "fork_inv s" "acl_inv s" using adv.R_steps [OF assms(1)] steps_acl [OF assms(1)] by (simp_all add: advances_def)
  let ?l = "loaded_store opts' s"
  let ?q = "quarantineBootDeleteStorms now ?l"
  let ?b = "rebuildForkIndexesLocked now ?q"
  note loaded = loaded_fields [OF assms(2) inv(3)]
  have core: "same_core ?b r" using restart_core assms(3) by metis
  have index: "indexable (s_forks ?q)" unfolding quarantine_forks loaded(2) by (rule indexable_load [OF indexable_inv [OF inv(2)]])
  have built: "rebuilt now ?q (s_forks ?q) ?b" by (rule rebuilt_all [OF index])
  have ws: "ws_of r w = ws_of ?q w" for w using same_core_ws [OF core] built by (simp add: rebuilt_def same_workspaces_def)
  have files: "ws_Files (ws_of r w) = map (\<lambda>(p, f). (p, ensureStoredContentHash f)) (ws_Files (ws_of s w))"
    and events: "ws_Events (ws_of r w) = ws_Events (ws_of s w)" for w
    using quarantine_rewrites [of ?l w now] unfolding ws by (simp_all add: ops_rewritten_def loaded(1))
  have "store_inv ?q" using adv.R_quarantine [of ?l now] loaded_inv [OF assms(2) inv(3,1)] by (simp add: advances_def)
  then have "store_inv r" using same_workspaces_inv [of ?q ?b] same_workspaces_inv [OF same_workspaces_core [OF core]] built by (simp add: rebuilt_def)
  moreover have "fork_inv r" using rebuilt_fork_inv [OF index built] fork_inv_same_core [OF core] by blast
  moreover have "s_revCounter r = s_revCounter s" "s_opCounter r = s_opCounter s" "s_eventCounter r = s_eventCounter s"
    using core built by (simp_all add: same_core_def rebuilt_def same_workspaces_def quarantine_counters loaded(3-5))
  moreover have "stamp [] = (\<lambda>_. None)" by (simp add: stamp_def fun_eq_iff)
  then have "replay (ws_Events (ws_of r w)) = stamp (ws_Files (ws_of r w))" for w
    using jr.R_steps [OF assms(1)] unfolding files events stamp_load journals_def replay_def new_store_ws
    by (simp add: empty_workspace_def)
  moreover have "map_of (s_forks r) i = (case map_of (s_forks s) i of None \<Rightarrow> None | Some f \<Rightarrow> if isForkExpiredAt f now then None else Some (load_fork f))" for i
  proof -
    have "wf_map (s_forks ?q)" using index by (simp add: indexable_def)
    then have "map_of (s_forks r) i = (if \<exists>f. map_of (s_forks ?q) i = Some f \<and> isForkExpiredAt f now then None else map_of (s_forks ?q) i)"
      using core built by (simp add: same_core_def rebuilt_def wf_map_in)
    moreover have "map_of (s_forks ?q) i = map_option load_fork (map_of (s_forks s) i)"
      unfolding quarantine_forks loaded(2) by (rule map_of_mapped)
    ultimately show ?thesis by (auto split: option.splits)
  qed
  ultimately show ?thesis using files events restart_envelopes [OF assms(2)] assms(3) by simp
qed

theorem restart_restores_witness:
  "\<exists>f h. map_of (ws_Files (ws_of (restart (default_options\<lparr>so_StateBackend := True\<rparr>) False 5 (Some (persisted_view (snapshot_of after_write)))) ''w''))
       (normalizePath ''/notes/a.md'') = Some f \<and> f_Revision f = rev_id 1
     \<and> ws_Events (ws_of (restart (default_options\<lparr>so_StateBackend := True\<rparr>) False 5 (Some (persisted_view (snapshot_of after_write)))) ''w'')
         = ws_Events (ws_of after_write ''w'')"
proof -
  let ?r = "restart (default_options\<lparr>so_StateBackend := True\<rparr>) False 5 (Some (persisted_view (snapshot_of after_write)))"
  have "ws_Events (ws_of ?r ''w'') = ws_Events (ws_of after_write ''w'')"
    and "ws_Files (ws_of ?r ''w'') = map (\<lambda>(p, f). (p, ensureStoredContentHash f)) (ws_Files (ws_of after_write ''w''))"
    using restart_restores [of default_options after_write "default_options\<lparr>so_StateBackend := True\<rparr>" ?r False 5] run_write by (simp_all add: NewStore_def)
  then show ?thesis using after_write_file by (auto simp: map_of_mapped)
qed

end
