(* ===== verification/Circuit.thy ===== *)
theory Circuit
  imports ProviderSync
begin

text \<open>
  The guards of the mount client against a failing cloud (\<^verbatim>\<open>mountsync/circuit.go\<close>).

  \<open>CloudErrorCircuit\<close> is the circuit breaker that stops write-backs and destructive passes while the cloud answers with errors.
  Every operation gets the time the clock shows; the mutex makes each of them one step.  \<open>breaker\<close> is the abstract machine: closed
  with all failures since the last reset, or open since a last failure.  The theorem of this part is that the breaker, which keeps
  only the failures of the window, behaves like the machine that keeps them all.
\<close>

section \<open>The circuit breaker\<close>

record CloudErrorCircuit =
  cb_window :: duration
  cb_threshold :: int
  cb_cooldown :: duration
  cb_failures :: "instant list"
  cb_open :: bool
  cb_openedAt :: instant
  cb_nextRetry :: instant
  cb_openEvents :: "64 word"

text \<open>A new breaker, with the values read from the environment.\<close>

definition NewCloudErrorCircuit :: "duration \<Rightarrow> int \<Rightarrow> duration \<Rightarrow> CloudErrorCircuit" where
  "NewCloudErrorCircuit window threshold cooldown =
     \<lparr>cb_window = (if window \<le> 0 then 60 * Second else window), cb_threshold = (if threshold \<le> 0 then 5 else threshold),
      cb_cooldown = (if cooldown \<le> 0 then 30 * Second else cooldown), cb_failures = [], cb_open = False,
      cb_openedAt = zero_time, cb_nextRetry = zero_time, cb_openEvents = 0\<rparr>"

definition pruneFailuresLocked :: "instant \<Rightarrow> CloudErrorCircuit \<Rightarrow> CloudErrorCircuit" where
  "pruneFailuresLocked now c = (let cutoff = now - cb_window c in c\<lparr>cb_failures := filter (\<lambda>t. t > cutoff) (cb_failures c)\<rparr>)"

definition RecordFailure :: "instant \<Rightarrow> CloudErrorCircuit \<Rightarrow> CloudErrorCircuit \<times> bool" where
  "RecordFailure now c =
     (let c = pruneFailuresLocked now c;
          c = c\<lparr>cb_failures := cb_failures c @ [now]\<rparr>;
          tripped = (int (length (cb_failures c)) \<ge> cb_threshold c \<and> \<not> cb_open c);
          c = (if tripped then c\<lparr>cb_open := True, cb_openedAt := now, cb_openEvents := cb_openEvents c + 1\<rparr> else c);
          c = (if cb_open c then c\<lparr>cb_nextRetry := now + cb_cooldown c\<rparr> else c)
      in (c, tripped))"

definition reset_circuit :: "CloudErrorCircuit \<Rightarrow> CloudErrorCircuit" where
  "reset_circuit c = c\<lparr>cb_open := False, cb_failures := [], cb_openedAt := zero_time, cb_nextRetry := zero_time\<rparr>"

definition RecordSuccess :: "instant \<Rightarrow> CloudErrorCircuit \<Rightarrow> CloudErrorCircuit" where
  "RecordSuccess now c =
     (if \<not> cb_open c then pruneFailuresLocked now c
      else if now > cb_nextRetry c then reset_circuit c else c)"

definition IsOpen :: "instant \<Rightarrow> CloudErrorCircuit \<Rightarrow> CloudErrorCircuit \<times> bool" where
  "IsOpen now c =
     (if \<not> cb_open c then (c, False)
      else if now > cb_nextRetry c then (reset_circuit c, False) else (c, True))"

record CircuitState =
  cst_Open :: bool
  cst_OpenedAt :: instant
  cst_OpenEvents :: "64 word"
  cst_Failures :: nat
  cst_WindowMs :: int
  cst_CooldownMs :: int
  cst_Threshold :: int
  cst_NextRetry :: instant

text \<open>\<^verbatim>\<open>Milliseconds\<close> of a positive duration.\<close>

definition Snapshot :: "CloudErrorCircuit \<Rightarrow> CircuitState" where
  "Snapshot c =
     \<lparr>cst_Open = cb_open c, cst_OpenedAt = cb_openedAt c, cst_OpenEvents = cb_openEvents c, cst_Failures = length (cb_failures c),
      cst_WindowMs = cb_window c div 1000000, cst_CooldownMs = cb_cooldown c div 1000000, cst_Threshold = cb_threshold c,
      cst_NextRetry = cb_nextRetry c\<rparr>"

definition IsCloudFailureStatus :: "int \<Rightarrow> bool" where
  "IsCloudFailureStatus code \<longleftrightarrow> 500 \<le> code \<and> code \<le> 599 \<or> code = 408 \<or> code = 425 \<or> code = 429"

definition IsCloudFailureError :: "string option \<Rightarrow> bool" where
  "IsCloudFailureError err =
     (case err of
        None \<Rightarrow> False
      | Some e \<Rightarrow> let msg = ToLower e in Contains msg ''connection reset'' \<or> Contains msg ''broken pipe'' \<or> Contains msg ''eof''
          \<or> Contains msg ''connection refused'' \<or> Contains msg ''no such host'' \<or> Contains msg ''i/o timeout''
          \<or> Contains msg ''tls handshake timeout'')"

text \<open>The error of a remote call: an answer of the server with a status, or a failure of the transport.\<close>

datatype cloud_error = HTTPError int string | TransportError string

definition error_text :: "cloud_error \<Rightarrow> string" where
  "error_text e = (case e of HTTPError code msg \<Rightarrow> msg | TransportError msg \<Rightarrow> msg)"

definition recordCloudFailure :: "instant \<Rightarrow> cloud_error \<Rightarrow> CloudErrorCircuit \<Rightarrow> CloudErrorCircuit" where
  "recordCloudFailure now err c =
     (case err of
        HTTPError code msg \<Rightarrow> if IsCloudFailureStatus code then fst (RecordFailure now c) else c
      | TransportError msg \<Rightarrow> if IsCloudFailureError (Some msg) then fst (RecordFailure now c) else c)"

section \<open>The abstract breaker\<close>

datatype breaker = Closed "instant list" | Open instant

datatype circuit_event = Failed instant | Succeeded instant | Asked instant

primrec event_time :: "circuit_event \<Rightarrow> instant" where
  "event_time (Failed t) = t"
| "event_time (Succeeded t) = t"
| "event_time (Asked t) = t"

text \<open>The failures of the window that ends at \<open>t\<close>.\<close>

definition recent :: "duration \<Rightarrow> instant \<Rightarrow> instant list \<Rightarrow> instant list" where
  "recent window t fs = filter (\<lambda>f. f > t - window) fs"

definition calm :: "duration \<Rightarrow> instant \<Rightarrow> breaker \<Rightarrow> breaker" where
  "calm cooldown t b = (case b of Closed fs \<Rightarrow> Closed fs | Open l \<Rightarrow> if t > l + cooldown then Closed [] else Open l)"

fun breaker_step :: "duration \<Rightarrow> int \<Rightarrow> duration \<Rightarrow> circuit_event \<Rightarrow> breaker \<Rightarrow> breaker" where
  "breaker_step window threshold cooldown (Failed t) (Open l) = Open t"
| "breaker_step window threshold cooldown (Failed t) (Closed fs) =
     (if int (length (recent window t (fs @ [t]))) \<ge> threshold then Open t else Closed (fs @ [t]))"
| "breaker_step window threshold cooldown (Succeeded t) b = calm cooldown t b"
| "breaker_step window threshold cooldown (Asked t) b = calm cooldown t b"

text \<open>The answer to \<^verbatim>\<open>IsOpen\<close> at \<open>t\<close>.\<close>

definition refuses :: "duration \<Rightarrow> instant \<Rightarrow> breaker \<Rightarrow> bool" where
  "refuses cooldown t b = (case b of Closed fs \<Rightarrow> False | Open l \<Rightarrow> t \<le> l + cooldown)"

fun circuit_step :: "circuit_event \<Rightarrow> CloudErrorCircuit \<Rightarrow> CloudErrorCircuit" where
  "circuit_step (Failed t) c = fst (RecordFailure t c)"
| "circuit_step (Succeeded t) c = RecordSuccess t c"
| "circuit_step (Asked t) c = fst (IsOpen t c)"

text \<open>At time \<open>t\<close> the breaker stands for the abstract machine: when closed, it has all failures that still count.\<close>

definition stands_for :: "instant \<Rightarrow> CloudErrorCircuit \<Rightarrow> breaker \<Rightarrow> bool" where
  "stands_for t c b \<longleftrightarrow> (case b of
      Closed fs \<Rightarrow> \<not> cb_open c \<and> (\<forall>u \<ge> t. recent (cb_window c) u (cb_failures c) = recent (cb_window c) u fs)
    | Open l \<Rightarrow> cb_open c \<and> cb_nextRetry c = l + cb_cooldown c)"

lemma recent_recent: "t \<le> u \<Longrightarrow> recent w u (filter (\<lambda>f. f > t - w) fs) = recent w u fs"
  by (simp add: recent_def) (rule filter_cong, auto)

lemma circuit_step_config [simp]:
  "cb_window (circuit_step e c) = cb_window c" "cb_threshold (circuit_step e c) = cb_threshold c" "cb_cooldown (circuit_step e c) = cb_cooldown c"
  by (cases e; simp add: RecordFailure_def RecordSuccess_def IsOpen_def pruneFailuresLocked_def reset_circuit_def Let_def)+

lemma stands_for_step:
  assumes "stands_for t c b" and "t \<le> event_time e" and "0 < cb_window c"
  shows "stands_for (event_time e) (circuit_step e c) (breaker_step (cb_window c) (cb_threshold c) (cb_cooldown c) e b)"
proof (cases b)
  case (Closed fs)
  then have closed: "\<not> cb_open c" and same: "\<And>u. t \<le> u \<Longrightarrow> recent (cb_window c) u (cb_failures c) = recent (cb_window c) u fs"
    using assms(1) by (auto simp: stands_for_def)
  show ?thesis
  proof (cases e)
    case (Failed u)
    have pruned: "filter (\<lambda>f. f > u - cb_window c) (cb_failures c) = recent (cb_window c) u fs"
      using same [of u] assms(2) Failed by (simp add: recent_def)
    have "recent (cb_window c) v (recent (cb_window c) u fs) = recent (cb_window c) v fs" if "u \<le> v" for v
      using recent_recent [OF that, of "cb_window c" fs] by (simp add: recent_def)
    then show ?thesis
      using closed assms(3) unfolding Closed Failed
      by (simp add: stands_for_def RecordFailure_def Let_def pruneFailuresLocked_def pruned) (simp add: recent_def)
  qed (use closed same assms(2) Closed in \<open>auto simp: stands_for_def RecordSuccess_def IsOpen_def pruneFailuresLocked_def calm_def Let_def recent_recent\<close>)
next
  case (Open l)
  then show ?thesis
    using assms(1)
    by (cases e) (auto simp: stands_for_def RecordFailure_def RecordSuccess_def IsOpen_def pruneFailuresLocked_def reset_circuit_def calm_def Let_def)
qed

lemma stands_for_run:
  assumes "sorted (map event_time es)" and "\<And>e. e \<in> set es \<Longrightarrow> t \<le> event_time e" and "stands_for t c b" and "0 < cb_window c"
    and "\<And>e. e \<in> set es \<Longrightarrow> event_time e \<le> u" and "t \<le> u"
  shows "stands_for u (fold circuit_step es c) (fold (breaker_step (cb_window c) (cb_threshold c) (cb_cooldown c)) es b)"
  using assms
proof (induction es arbitrary: t c b)
  case Nil
  then show ?case by (auto simp: stands_for_def split: breaker.splits)
next
  case (Cons e es)
  have "stands_for (event_time e) (circuit_step e c) (breaker_step (cb_window c) (cb_threshold c) (cb_cooldown c) e b)"
    using Cons.prems by (intro stands_for_step) auto
  from Cons.IH [OF _ _ this] Cons.prems show ?case by simp
qed

text \<open>C23. The circuit breaker behaves like the machine that never forgets a failure.  After any sequence of failures, successes and
  questions in the order of time, it answers a question at a later time exactly as the abstract breaker does: it refuses from the
  moment the failures of one window reach the threshold until the cooldown after the last failure is over, no success in between
  closes it, and its pruned list of failures loses none that could still count.\<close>

theorem circuit_refines_breaker:
  assumes "c = NewCloudErrorCircuit window threshold cooldown" and "sorted (map event_time es)" and "\<forall>e \<in> set es. event_time e \<le> t"
  shows "snd (IsOpen t (fold circuit_step es c))
    \<longleftrightarrow> refuses (cb_cooldown c) t (fold (breaker_step (cb_window c) (cb_threshold c) (cb_cooldown c)) es (Closed []))"
proof -
  have w: "0 < cb_window c" by (simp add: assms(1) NewCloudErrorCircuit_def Second_def)
  obtain t0 where t0: "\<And>e. e \<in> set es \<Longrightarrow> t0 \<le> event_time e" "t0 \<le> t"
  proof
    show "Min (insert t (event_time ` set es)) \<le> event_time e" if "e \<in> set es" for e using that by simp
  qed simp
  have "stands_for t0 c (Closed [])" by (simp add: stands_for_def assms(1) NewCloudErrorCircuit_def)
  from stands_for_run [OF assms(2) t0(1) this w _ t0(2)] assms(3)
  have "stands_for t (fold circuit_step es c) (fold (breaker_step (cb_window c) (cb_threshold c) (cb_cooldown c)) es (Closed []))" by blast
  moreover have "cb_cooldown (fold circuit_step es c) = cb_cooldown c" by (induction es arbitrary: c) simp_all
  ultimately show ?thesis by (auto simp: stands_for_def refuses_def IsOpen_def split: breaker.splits)
qed

theorem circuit_refines_breaker_witness:
  "snd (IsOpen 31 (fold circuit_step [Failed 1, Failed 2, Succeeded 3] (NewCloudErrorCircuit 10 2 30)))
   \<and> \<not> snd (IsOpen 33 (fold circuit_step [Failed 1, Failed 2, Succeeded 3] (NewCloudErrorCircuit 10 2 30)))
   \<and> \<not> snd (IsOpen 12 (fold circuit_step [Failed 1, Failed 11] (NewCloudErrorCircuit 10 2 30)))"
  using circuit_refines_breaker [of "NewCloudErrorCircuit 10 2 30" 10 2 30 "[Failed 1, Failed 2, Succeeded 3]" 31]
    circuit_refines_breaker [of "NewCloudErrorCircuit 10 2 30" 10 2 30 "[Failed 1, Failed 2, Succeeded 3]" 33]
    circuit_refines_breaker [of "NewCloudErrorCircuit 10 2 30" 10 2 30 "[Failed 1, Failed 11]" 12]
  by (simp add: refuses_def NewCloudErrorCircuit_def recent_def calm_def)

text \<open>After the cooldown one question closes the breaker for good: the next failure alone does not open it again (unless the
  threshold is one), although it is the outcome of the probe.\<close>

lemma probe_failure_stays_closed:
  assumes "cb_open c" and "now > cb_nextRetry c" and "1 < cb_threshold c" and "0 < cb_window c"
  shows "\<not> snd (RecordFailure later (fst (IsOpen now c)))"
  using assms by (simp add: IsOpen_def RecordFailure_def reset_circuit_def pruneFailuresLocked_def Let_def)

end
