(* ===== verification/MountPaths.thy ===== *)
theory MountPaths
  imports Paths
begin

text \<open>
  Paths and scopes of the mount client (\<^verbatim>\<open>mountscope/scope.go\<close>, \<^verbatim>\<open>mountsync/paths.go\<close>), on a Unix host, where
  \<^verbatim>\<open>filepath.ToSlash\<close> and \<^verbatim>\<open>FromSlash\<close> do nothing.

  \<open>Clean\<close> is \<^verbatim>\<open>filepath.Clean\<close>: it works on the segments between slashes.  A remote path is normalised to its list of segments
  (\<open>segments\<close>), and containment is the prefix order on these lists; on that rest the theorems: the allowlist of a mount is reduced to
  roots that do not overlap and cover exactly what was asked for, the local directories of scopes are apart, and a relative path that
  was accepted stays strictly below the mount root.

  The folding of case and Unicode forms comes from \<^verbatim>\<open>golang.org/x/text\<close> and is the parameter \<open>fold_id\<close>; nothing is assumed about it.
\<close>

section \<open>\<^verbatim>\<open>filepath.Clean\<close>\<close>

fun clean_segs :: "bool \<Rightarrow> string list \<Rightarrow> string list \<Rightarrow> string list" where
  "clean_segs rooted out [] = rev out"
| "clean_segs rooted out (s # ss) =
     (if s = '''' \<or> s = ''.'' then clean_segs rooted out ss
      else if s = ''..'' then
        (case out of
           [] \<Rightarrow> clean_segs rooted (if rooted then [] else [''..'']) ss
         | x # xs \<Rightarrow> if x = ''..'' then clean_segs rooted (''..'' # out) ss else clean_segs rooted xs ss)
      else clean_segs rooted (s # out) ss)"

definition Clean :: "string \<Rightarrow> string" where
  "Clean p =
     (if p = '''' then ''.''
      else if HasPrefix p ''/'' then ''/'' @ Join (clean_segs True [] (Split p slash)) ''/''
      else let r = Join (clean_segs False [] (Split p slash)) ''/'' in if r = '''' then ''.'' else r)"

text \<open>\<^verbatim>\<open>filepath.Join\<close> of two elements.\<close>

definition filepath_Join :: "string \<Rightarrow> string \<Rightarrow> string" where
  "filepath_Join a b = (if a = '''' \<and> b = '''' then '''' else if a = '''' then Clean b else if b = '''' then Clean a else Clean (a @ ''/'' @ b))"

section \<open>Remote paths\<close>

definition NormalizePath :: "string \<Rightarrow> string" where
  "NormalizePath remotePath =
     (let trimmed = TrimSpace remotePath
      in if trimmed = '''' \<or> trimmed = ''/'' then ''/''
         else let trimmed = map (\<lambda>c. if c = CHR 0x5C then slash else c) trimmed;
                  trimmed = (if \<not> HasPrefix trimmed ''/'' then ''/'' @ trimmed else trimmed);
                  cleaned = Clean trimmed
              in if cleaned = ''.'' \<or> cleaned = ''/'' then ''/'' else cleaned)"

definition IsWithin :: "string \<Rightarrow> string \<Rightarrow> bool" where
  "IsWithin root candidate =
     (let root = NormalizePath root; candidate = NormalizePath candidate
      in if root = ''/'' then True else candidate = root \<or> HasPrefix candidate (root @ ''/''))"

text \<open>The set \<^verbatim>\<open>seen\<close> always holds the members of the list being built.\<close>

fun normalize_loop :: "string list \<Rightarrow> string list \<Rightarrow> string list" where
  "normalize_loop normalized [] = normalized"
| "normalize_loop normalized (remotePath # paths) =
     (if TrimSpace remotePath = '''' then normalize_loop normalized paths
      else let cleaned = NormalizePath remotePath
           in if cleaned \<in> set normalized then normalize_loop normalized paths
              else if list_ex (\<lambda>existing. IsWithin existing cleaned) normalized then normalize_loop normalized paths
              else normalize_loop (filter (\<lambda>existing. \<not> IsWithin cleaned existing) normalized @ [cleaned]) paths)"

definition NormalizePaths :: "string list \<Rightarrow> string \<Rightarrow> string list" where
  "NormalizePaths paths fallback =
     (let normalized = normalize_loop [] paths in if normalized = [] then [NormalizePath fallback] else normalized)"

definition FirstPath :: "string list \<Rightarrow> string \<Rightarrow> string" where
  "FirstPath paths fallback = hd (NormalizePaths paths fallback)"

section \<open>Providers\<close>

definition NormalizeProviderID :: "string \<Rightarrow> string" where
  "NormalizeProviderID provider =
     (let provider = ToLower (TrimSpace provider)
      in if provider = ''slack'' \<or> provider = ''slack-sage'' then ''slack''
         else if provider = ''gitlab'' \<or> provider = ''gitlab-relay'' \<or> provider = ''gitlab-pat'' \<or> provider = ''gitlab-group-token'' then ''gitlab''
         else provider)"

definition ProviderRoot :: "string \<Rightarrow> string" where
  "ProviderRoot provider =
     (let provider = NormalizeProviderID provider
      in if provider = ''slack'' then ''slack''
         else if provider = ''slack-my-senior-dev'' then ''slack-msd''
         else if provider = ''slack-nightcto'' then ''slack-nightcto'' else provider)"

text \<open>The root that the filter cannot observe, if there is one.\<close>

definition ValidateEventProvider :: "string list \<Rightarrow> string \<Rightarrow> string option" where
  "ValidateEventProvider paths provider =
     (let normalized = NormalizePaths paths ''/''; provider = ToLower (TrimSpace provider)
      in if provider = '''' \<or> length normalized \<le> 1 then None
         else find (\<lambda>remotePath. ToLower (TrimSpace (fst (Cut (TrimPrefix remotePath ''/'') slash))) \<noteq> ProviderRoot provider) normalized)"

definition ValidateExplicitPathsFile :: "string \<Rightarrow> string list \<Rightarrow> string list \<Rightarrow> bool" where
  "ValidateExplicitPathsFile pathsFile filePaths directPaths \<longleftrightarrow>
     TrimSpace pathsFile = '''' \<or> directPaths \<noteq> [] \<or> list_ex (\<lambda>remotePath. TrimSpace remotePath \<noteq> '''') filePaths"

definition ValidateSingleRemotePath :: "string list \<Rightarrow> bool" where
  "ValidateSingleRemotePath normalized \<longleftrightarrow> length normalized \<le> 1"

section \<open>Reserved names\<close>

record localTopLevelPolicy =
  tp_name :: string
  tp_catalogOwned :: bool
  tp_infrastructure :: bool

definition localTopLevelPolicies :: "localTopLevelPolicy list" where
  "localTopLevelPolicies =
     map (\<lambda>n. \<lparr>tp_name = n, tp_catalogOwned = True, tp_infrastructure = False\<rparr>) [''.relay'', ''.skills'', ''digests'', ''node_modules'', ''_PERMISSIONS.md'']
     @ map (\<lambda>n. \<lparr>tp_name = n, tp_catalogOwned = False, tp_infrastructure = True\<rparr>) [''.git'', ''.hg'', ''.svn'', ''.bzr'', ''_darcs'', ''.jj'']"

definition localPathIdentity :: "(string \<Rightarrow> string) \<Rightarrow> string \<Rightarrow> string" where
  "localPathIdentity fold_id value = fold_id (TrimSpace value)"

definition IsReservedLocalTopLevel :: "string \<Rightarrow> bool" where
  "IsReservedLocalTopLevel name \<longleftrightarrow> TrimSpace name \<in> set (map tp_name localTopLevelPolicies)"

definition IsCatalogOwnedTopLevel :: "string \<Rightarrow> bool" where
  "IsCatalogOwnedTopLevel name \<longleftrightarrow> TrimSpace name \<in> set (map tp_name (filter tp_catalogOwned localTopLevelPolicies))"

definition IsReservedLocalTopLevelIdentity :: "(string \<Rightarrow> string) \<Rightarrow> string \<Rightarrow> bool" where
  "IsReservedLocalTopLevelIdentity fold_id name \<longleftrightarrow>
     localPathIdentity fold_id name \<in> set (map (\<lambda>policy. localPathIdentity fold_id (tp_name policy)) localTopLevelPolicies)"

definition IsInfrastructureTopLevelIdentity :: "(string \<Rightarrow> string) \<Rightarrow> string \<Rightarrow> bool" where
  "IsInfrastructureTopLevelIdentity fold_id name \<longleftrightarrow>
     localPathIdentity fold_id name \<in> set (map (\<lambda>policy. localPathIdentity fold_id (tp_name policy)) (filter tp_infrastructure localTopLevelPolicies))"

definition InfrastructureTopLevelNames :: "string list" where
  "InfrastructureTopLevelNames = sort (map tp_name (filter tp_infrastructure localTopLevelPolicies))"

definition IsReservedRuntimeSegment :: "string \<Rightarrow> bool" where
  "IsReservedRuntimeSegment name =
     (let name = TrimSpace name
      in name = ''.relay'' \<or> name = ''.relayfile-mount-state.json'' \<or> HasPrefix name ''.relayfile-mount-state.json.tmp-'')"

definition isConventionSensitiveUserContent :: "string \<Rightarrow> bool" where
  "isConventionSensitiveUserContent name =
     (let name = TrimSpace name
      in name = ''.env'' \<or> HasPrefix name ''.env.'' \<or> name = ''.npmrc'' \<or> name = ''.pypirc'' \<or> name = ''.netrc'' \<or> name = ''.git-credentials'')"

fun runtime_root_loop :: "string list \<Rightarrow> string list \<Rightarrow> string" where
  "runtime_root_loop done [] = ''''"
| "runtime_root_loop done (segment # rest) =
     (if segment = '''' \<or> segment = ''.'' then runtime_root_loop (done @ [segment]) rest
      else if IsReservedRuntimeSegment segment then NormalizePath (''/'' @ Join (done @ [segment]) ''/'')
      else runtime_root_loop (done @ [segment]) rest)"

definition mountRuntimeRemoteRoot :: "string \<Rightarrow> string" where
  "mountRuntimeRemoteRoot path =
     (let normalized = TrimPrefix (NormalizePath path) ''/''
      in if normalized = '''' \<or> normalized = ''.'' then '''' else runtime_root_loop [] (Split normalized slash))"

definition isMountRuntimeRemotePath :: "string \<Rightarrow> bool" where
  "isMountRuntimeRemotePath path \<longleftrightarrow> mountRuntimeRemoteRoot path \<noteq> ''''"

section \<open>Planning\<close>

datatype plan_error =
    UnsupportedLayout string
  | MultipleNeedScoped
  | BlankRoot
  | EmptyRoots
  | OverlappingRoots string string
  | SharedStateFile
  | RootNeedsExact
  | ReservedRoot string
  | InfrastructureSegment string string
  | RuntimeSegment string string

definition ResolveLayout :: "string \<Rightarrow> plan_error + string" where
  "ResolveLayout layout =
     (let normalized = ToLower (TrimSpace layout)
      in if normalized = '''' then Inr ''exact''
         else if normalized = ''exact'' \<or> normalized = ''scoped'' then Inr normalized else Inl (UnsupportedLayout layout))"

definition LocalDir :: "string \<Rightarrow> string \<Rightarrow> string" where
  "LocalDir localRoot remotePath =
     (let remotePath = NormalizePath remotePath
      in if remotePath = ''/'' then localRoot else filepath_Join localRoot (TrimPrefix remotePath ''/''))"

definition overlaps :: "(string \<Rightarrow> string) \<Rightarrow> string \<Rightarrow> string \<Rightarrow> bool" where
  "overlaps fold_id left right =
     (let foldedLeft = localPathIdentity fold_id left; foldedRight = localPathIdentity fold_id right
      in IsWithin foldedLeft foldedRight \<or> IsWithin foldedRight foldedLeft)"

fun overlap_loop :: "(string \<Rightarrow> string) \<Rightarrow> string list \<Rightarrow> plan_error option" where
  "overlap_loop fold_id [] = None"
| "overlap_loop fold_id (left # rest) =
     (case find (overlaps fold_id left) rest of
        Some right \<Rightarrow> Some (OverlappingRoots left right)
      | None \<Rightarrow> overlap_loop fold_id rest)"

definition ValidateScopedPathSet :: "(string \<Rightarrow> string) \<Rightarrow> string list \<Rightarrow> plan_error option" where
  "ValidateScopedPathSet fold_id paths =
     (if list_ex (\<lambda>remotePath. TrimSpace remotePath = '''') paths then Some BlankRoot
      else if paths = [] then Some EmptyRoots
      else overlap_loop fold_id (map NormalizePath paths))"

record Scope =
  sc_RemotePath :: string
  sc_LocalDir :: string

fun segment_error :: "(string \<Rightarrow> string) \<Rightarrow> string \<Rightarrow> string list \<Rightarrow> plan_error option" where
  "segment_error fold_id remotePath [] = None"
| "segment_error fold_id remotePath (segment # rest) =
     (if IsInfrastructureTopLevelIdentity fold_id segment then Some (InfrastructureSegment remotePath segment)
      else if IsReservedRuntimeSegment segment then Some (RuntimeSegment remotePath segment)
      else segment_error fold_id remotePath rest)"

definition plan_one :: "(string \<Rightarrow> string) \<Rightarrow> string \<Rightarrow> string \<Rightarrow> string \<Rightarrow> plan_error + Scope" where
  "plan_one fold_id localRoot resolvedLayout remotePath =
     (if resolvedLayout \<noteq> ''scoped'' then Inr \<lparr>sc_RemotePath = remotePath, sc_LocalDir = localRoot\<rparr>
      else if remotePath = ''/'' then Inl RootNeedsExact
      else let segments = Split (TrimPrefix remotePath ''/'') slash
           in if IsReservedLocalTopLevelIdentity fold_id (hd segments) then Inl (ReservedRoot remotePath)
              else case segment_error fold_id remotePath segments of
                     Some err \<Rightarrow> Inl err
                   | None \<Rightarrow> Inr \<lparr>sc_RemotePath = remotePath, sc_LocalDir = LocalDir localRoot remotePath\<rparr>)"

fun plan_all :: "(string \<Rightarrow> string) \<Rightarrow> string \<Rightarrow> string \<Rightarrow> string list \<Rightarrow> plan_error + Scope list" where
  "plan_all fold_id localRoot layout [] = Inr []"
| "plan_all fold_id localRoot layout (remotePath # rest) =
     (case plan_one fold_id localRoot layout remotePath of
        Inl err \<Rightarrow> Inl err
      | Inr scope \<Rightarrow> (case plan_all fold_id localRoot layout rest of Inl err \<Rightarrow> Inl err | Inr scopes \<Rightarrow> Inr (scope # scopes)))"

definition Plan :: "(string \<Rightarrow> string) \<Rightarrow> string \<Rightarrow> string \<Rightarrow> string list \<Rightarrow> string \<Rightarrow> string \<Rightarrow> plan_error + Scope list" where
  "Plan fold_id localRoot layout paths fallback stateFile =
     (case ResolveLayout layout of
        Inl err \<Rightarrow> Inl err
      | Inr resolvedLayout \<Rightarrow>
          let normalized = NormalizePaths paths fallback
          in if length normalized > 1 \<and> resolvedLayout \<noteq> ''scoped'' then Inl MultipleNeedScoped
             else case (if resolvedLayout = ''scoped'' then ValidateScopedPathSet fold_id normalized else None) of
                    Some err \<Rightarrow> Inl err
                  | None \<Rightarrow> if length normalized > 1 \<and> TrimSpace stateFile \<noteq> '''' then Inl SharedStateFile
                            else plan_all fold_id localRoot resolvedLayout normalized)"

section \<open>Relative paths\<close>

datatype path_error = PathEmpty | PathNUL | PathTooLong nat | OntoRoot string | LeadingSlash string | Escapes string | Backslash string | BasenameCollision string

definition MaxRemotePathLen :: nat where
  "MaxRemotePathLen = 4096"

definition NewRelativeRemotePath :: "string \<Rightarrow> string \<Rightarrow> path_error + string" where
  "NewRelativeRemotePath rel mountBasename =
     (if rel = '''' then Inl PathEmpty
      else if CHR 0x00 \<in> set rel then Inl PathNUL
      else if length rel > MaxRemotePathLen then Inl (PathTooLong (length rel))
      else if rel = ''/'' \<or> rel = ''.'' then Inl (OntoRoot rel)
      else let rel = (if HasPrefix rel ''./'' then TrimPrefix rel ''./'' else rel)
           in if HasPrefix rel ''/'' then Inl (LeadingSlash rel)
              else if rel = ''..'' \<or> HasPrefix rel ''../'' \<or> Contains rel ''/../'' \<or> HasSuffix rel ''/..'' then Inl (Escapes rel)
              else let cleaned = Clean rel
                   in if CHR 0x5C \<in> set cleaned then Inl (Backslash rel)
                      else if cleaned = '''' \<or> cleaned = ''.'' \<or> cleaned = ''/'' then Inl (OntoRoot rel)
                      else if HasPrefix cleaned ''../'' \<or> cleaned = ''..'' then Inl (Escapes rel)
                      else if mountBasename \<noteq> '''' \<and> cleaned = mountBasename then Inl (BasenameCollision rel)
                      else Inr cleaned)"

section \<open>Segments\<close>

text \<open>A segment that names a directory entry.\<close>

definition entry :: "string \<Rightarrow> bool" where
  "entry s \<longleftrightarrow> s \<noteq> '''' \<and> s \<noteq> ''.'' \<and> s \<noteq> ''..'' \<and> slash \<notin> set s"

definition segments :: "string \<Rightarrow> string list" where
  "segments p = clean_segs True [] (Split (map (\<lambda>c. if c = CHR 0x5C then slash else c) (TrimSpace p)) slash)"

lemma entries_ok: "list_all entry segs \<Longrightarrow> segments_ok segs"
  by (auto simp: segments_ok_def entry_def list_all_iff)

lemma clean_segs_rooted:
  "list_all entry out \<Longrightarrow> list_all (\<lambda>s. slash \<notin> set s) ss \<Longrightarrow> list_all entry (clean_segs True out ss)"
proof (induction ss arbitrary: out)
  case (Cons s ss)
  then show ?case by (cases out) (auto simp: entry_def)
qed (simp add: list_all_iff)

lemma clean_segs_entries: "list_all entry ss \<Longrightarrow> clean_segs rooted out (ss @ ts) = clean_segs rooted (rev ss @ out) ts"
  by (induction ss arbitrary: out) (auto simp: entry_def)

lemma clean_segs_append: "clean_segs True out (ss @ ts) = clean_segs True (rev (clean_segs True out ss)) ts"
proof (induction ss arbitrary: out)
  case (Cons s ss)
  then show ?case by (cases out) auto
qed simp

lemma segments_entries: "list_all entry (segments p)"
  unfolding segments_def by (rule clean_segs_rooted) (auto simp: list_all_iff dest: Split_pieces)

lemma Split_slash: "Split (slash # t) slash = '''' # Split t slash"
  by simp

lemma NormalizePath_segments: "NormalizePath p = path_of (segments p)"
proof -
  let ?t = "map (\<lambda>c. if c = CHR 0x5C then slash else c) (TrimSpace p)"
  have lead: "clean_segs True [] (Split (if \<not> HasPrefix ?t ''/'' then ''/'' @ ?t else ?t) slash) = segments p"
    unfolding segments_def by simp
  have "TrimSpace p = '''' \<or> TrimSpace p = ''/'' \<Longrightarrow> segments p = []" by (auto simp: segments_def)
  moreover have "Clean (if \<not> HasPrefix ?t ''/'' then ''/'' @ ?t else ?t) = path_of (segments p)" if "TrimSpace p \<noteq> ''''"
    using that lead by (auto simp: Clean_def path_of_def gostr)
  ultimately show ?thesis unfolding NormalizePath_def Let_def by (auto simp: path_of_def)
qed

lemma path_of_root: "list_all entry xs \<Longrightarrow> path_of xs = ''/'' \<longleftrightarrow> xs = []"
  by (cases xs) (auto simp: entry_def path_of_concat)

lemma IsWithin_prefix: "IsWithin root p \<longleftrightarrow> prefix (segments root) (segments p)"
  using withinBase_segments [OF entries_ok [OF segments_entries] entries_ok [OF segments_entries], of root p]
    entries_ok [OF segments_entries]
  by (simp add: IsWithin_def withinBase_def NormalizePath_segments Let_def)

text \<open>Normalising again changes nothing unless the result ends in white space, as for \<open>/b /x/..\<close>.\<close>

definition tidy :: "string \<Rightarrow> bool" where
  "tidy p \<longleftrightarrow> TrimSpace (NormalizePath p) = NormalizePath p"

lemma clean_segs_mem: "x \<in> set (clean_segs rooted out ss) \<Longrightarrow> x \<in> set out \<or> x \<in> set ss"
  by (induction rooted out ss rule: clean_segs.induct) (auto split: if_splits list.splits)

lemma Split_mem: "x \<in> set q \<Longrightarrow> q \<in> set (Split t c) \<Longrightarrow> x \<in> set t"
proof (induction t arbitrary: q)
  case (Cons a t)
  then show ?case by (cases "Split t c") (fastforce split: if_splits)+
qed simp

lemma segments_no_backslash: "s \<in> set (segments p) \<Longrightarrow> CHR 0x5C \<notin> set s"
proof
  assume "s \<in> set (segments p)" "CHR 0x5C \<in> set s"
  then have "CHR 0x5C \<in> set (map (\<lambda>c. if c = CHR 0x5C then slash else c) (TrimSpace p))"
    unfolding segments_def using clean_segs_mem Split_mem by fastforce
  then show False by auto
qed

lemma segments_path_of:
  assumes "list_all entry segs" and "\<forall>s \<in> set segs. CHR 0x5C \<notin> set s" and "TrimSpace (path_of segs) = path_of segs"
  shows "segments (path_of segs) = segs"
proof -
  have "map (\<lambda>c. if c = CHR 0x5C then slash else c) (path_of segs) = path_of segs"
    using assms(2) by (intro map_idI) (cases "segs = []"; auto simp: path_of_concat)
  moreover have "Split (path_of segs) slash = [] # (if segs = [] then [[]] else segs)"
    using Split_segments [OF _ entries_ok [OF assms(1)]] by (simp add: path_of_def)
  ultimately show ?thesis
    using assms(3) clean_segs_entries [OF assms(1), of True "[]" "[]"] by (simp add: segments_def)
qed

lemma segments_tidy: "tidy p \<Longrightarrow> segments (NormalizePath p) = segments p"
  using segments_path_of [OF segments_entries] segments_no_backslash by (simp add: tidy_def NormalizePath_segments)

section \<open>The allowlist\<close>

lemma within_tidy: "tidy p \<Longrightarrow> IsWithin (NormalizePath p) q \<longleftrightarrow> IsWithin p q" "tidy q \<Longrightarrow> IsWithin p (NormalizePath q) \<longleftrightarrow> IsWithin p q"
  by (simp_all add: IsWithin_prefix segments_tidy)

lemma IsWithin_trans: "IsWithin p q \<Longrightarrow> IsWithin q r \<Longrightarrow> IsWithin p r"
  by (simp add: IsWithin_prefix)

lemma normalize_loop_covers:
  assumes "\<forall>p \<in> set paths. tidy p"
  shows "(\<exists>r \<in> set (normalize_loop acc paths). IsWithin r q)
    \<longleftrightarrow> (\<exists>r \<in> set acc. IsWithin r q) \<or> (\<exists>p \<in> set paths. TrimSpace p \<noteq> '''' \<and> IsWithin p q)"
  using assms
proof (induction paths arbitrary: acc)
  case (Cons p paths)
  let ?c = "NormalizePath p"
  have c: "IsWithin ?c q \<longleftrightarrow> IsWithin p q" using Cons.prems by (simp add: within_tidy)
  consider "TrimSpace p = ''''" | "TrimSpace p \<noteq> ''''" "?c \<in> set acc \<or> list_ex (\<lambda>e. IsWithin e ?c) acc"
    | "TrimSpace p \<noteq> ''''" "?c \<notin> set acc" "\<not> list_ex (\<lambda>e. IsWithin e ?c) acc" by blast
  then show ?case
  proof cases
    case 1
    then show ?thesis using Cons by simp
  next
    case 2
    then have "\<exists>e \<in> set acc. IsWithin e ?c" by (auto simp: list_ex_iff IsWithin_prefix)
    then have "IsWithin p q \<Longrightarrow> \<exists>r \<in> set acc. IsWithin r q" using c IsWithin_trans by blast
    moreover have "normalize_loop acc (p # paths) = normalize_loop acc paths" using 2 by (auto simp: Let_def)
    ultimately show ?thesis using Cons by auto
  next
    case 3
    then have "normalize_loop acc (p # paths) = normalize_loop (filter (\<lambda>e. \<not> IsWithin ?c e) acc @ [?c]) paths" by (simp add: Let_def)
    moreover have "(\<exists>r \<in> set (filter (\<lambda>e. \<not> IsWithin ?c e) acc @ [?c]). IsWithin r q) \<longleftrightarrow> (\<exists>r \<in> set acc. IsWithin r q) \<or> IsWithin p q"
      using c IsWithin_trans [of ?c _ q] by auto
    ultimately show ?thesis using Cons 3(1) by auto
  qed
qed simp

definition apart :: "string list \<Rightarrow> bool" where
  "apart rs \<longleftrightarrow> distinct rs \<and> (\<forall>r \<in> set rs. \<forall>r' \<in> set rs. IsWithin r r' \<longrightarrow> r = r')"

lemma normalize_loop_apart: "apart acc \<Longrightarrow> apart (normalize_loop acc paths)"
proof (induction paths arbitrary: acc)
  case (Cons p paths)
  have "apart (filter (\<lambda>e. \<not> IsWithin (NormalizePath p) e) acc @ [NormalizePath p])"
    if "NormalizePath p \<notin> set acc" "\<not> list_ex (\<lambda>e. IsWithin e (NormalizePath p)) acc"
    using Cons.prems that by (auto simp: apart_def list_ex_iff)
  then show ?case using Cons by (simp add: Let_def)
qed simp

lemma normalize_loop_from: "r \<in> set (normalize_loop acc paths) \<Longrightarrow> r \<in> set acc \<or> (\<exists>p \<in> set paths. r = NormalizePath p)"
proof (induction paths arbitrary: acc)
  case (Cons p paths)
  from Cons.prems consider "r \<in> set (normalize_loop acc paths)"
    | "r \<in> set (normalize_loop (filter (\<lambda>e. \<not> IsWithin (NormalizePath p) e) acc @ [NormalizePath p]) paths)"
    by (auto simp: Let_def split: if_splits)
  then show ?case using Cons.IH by cases fastforce+
qed simp

text \<open>C27. The allowlist of a mount is exact.  However the requested remote paths overlap or repeat, and in whatever order they come,
  the roots the client mounts cover a path exactly if one of the requested paths covers it, and no root lies inside another; a
  request that overlaps an earlier one neither widens the mount nor drops a part of it.\<close>

theorem allowlist_exact:
  assumes "\<forall>p \<in> set paths. tidy p" and "\<exists>p \<in> set paths. TrimSpace p \<noteq> ''''"
  shows "((\<exists>r \<in> set (NormalizePaths paths fallback). IsWithin r q) \<longleftrightarrow> (\<exists>p \<in> set paths. TrimSpace p \<noteq> '''' \<and> IsWithin p q))
    \<and> apart (NormalizePaths paths fallback)"
proof -
  obtain p where "p \<in> set paths" "TrimSpace p \<noteq> ''''" using assms(2) by blast
  then have "\<exists>r \<in> set (normalize_loop [] paths). IsWithin r p"
    using normalize_loop_covers [OF assms(1), of "[]" p] by (auto simp: IsWithin_prefix)
  then have "NormalizePaths paths fallback = normalize_loop [] paths" by (auto simp: NormalizePaths_def Let_def)
  then show ?thesis using normalize_loop_covers [OF assms(1), of "[]" q] normalize_loop_apart [of "[]" paths] by (simp add: apart_def)
qed

theorem allowlist_exact_witness:
  "\<exists>r \<in> set (NormalizePaths [''/a/b'', ''a/'', ''/c''] ''/''). IsWithin r ''/a/x''"
proof -
  have "tidy ''/a/b''" "tidy ''a/''" "tidy ''/c''" unfolding tidy_def by code_simp+
  then have "\<forall>p \<in> set [''/a/b'', ''a/'', ''/c'']. tidy p" by simp
  moreover have "\<exists>p \<in> set [''/a/b'', ''a/'', ''/c'']. TrimSpace p \<noteq> ''''" by code_simp
  moreover have "\<exists>p \<in> set [''/a/b'', ''a/'', ''/c'']. TrimSpace p \<noteq> '''' \<and> IsWithin p ''/a/x''" by code_simp
  ultimately show ?thesis using allowlist_exact [of "[''/a/b'', ''a/'', ''/c'']" "''/''" "''/a/x''"] by blast
qed

section \<open>The plan\<close>

text \<open>The directory \<open>b\<close> is \<open>a\<close> or lies below it.\<close>

definition inside :: "string \<Rightarrow> string \<Rightarrow> bool" where
  "inside a b \<longleftrightarrow> b = a \<or> HasPrefix b (a @ ''/'')"

definition root_segs :: "string \<Rightarrow> string list" where
  "root_segs localRoot = clean_segs True [] (Split localRoot slash)"

lemma Split_join: "Split (p @ slash # s) slash = Split p slash @ Split s slash"
proof (induction p)
  case (Cons c p)
  then show ?case by (cases "Split p slash") auto
qed simp

lemma root_segs_entries: "list_all entry (root_segs p)"
  unfolding root_segs_def by (rule clean_segs_rooted) (auto simp: list_all_iff dest: Split_pieces)

lemma Join_below:
  assumes "HasPrefix localRoot ''/''" and "segs \<noteq> []" and "list_all entry segs"
  shows "filepath_Join localRoot (Join segs ''/'') = path_of (root_segs localRoot @ segs)"
proof -
  obtain r where r: "localRoot = slash # r" using assms(1) by (auto simp: HasPrefix_iff)
  have ne: "Join segs ''/'' \<noteq> []" using assms(2,3) by (cases segs; cases "tl segs") (auto simp: entry_def)
  have "clean_segs True [] (Split (localRoot @ slash # Join segs ''/'') slash) = root_segs localRoot @ segs"
    using clean_segs_entries [OF assms(3), of True "rev (root_segs localRoot)" "[]"] Split_segments [OF assms(2) entries_ok [OF assms(3)]]
    by (simp add: Split_join clean_segs_append root_segs_def)
  then show ?thesis using ne by (simp add: filepath_Join_def Clean_def path_of_def r gostr)
qed

lemma inside_segments:
  assumes "list_all entry xs" and "list_all entry ys" and "xs \<noteq> []"
  shows "inside (path_of xs) (path_of ys) \<longleftrightarrow> prefix xs ys"
  using withinBase_segments [OF entries_ok entries_ok, OF assms(1,2)] assms entries_ok path_of_root [OF assms(1)]
  by (simp add: inside_def withinBase_def Let_def)

lemma LocalDir_segments:
  assumes "HasPrefix localRoot ''/''" and "segments r \<noteq> []"
  shows "LocalDir localRoot r = path_of (root_segs localRoot @ segments r)"
proof -
  have "NormalizePath r \<noteq> ''/''" "TrimPrefix (NormalizePath r) ''/'' = Join (segments r) ''/''"
    using assms(2) path_of_root [OF segments_entries] TrimPrefix_append [of "''/''" "Join (segments r) ''/''"]
    by (simp_all add: NormalizePath_segments path_of_def)
  then show ?thesis using Join_below [OF assms segments_entries] by (simp add: LocalDir_def Let_def)
qed

lemma segment_error_None:
  "segment_error fold_id p segs = None \<longleftrightarrow> (\<forall>s \<in> set segs. \<not> IsInfrastructureTopLevelIdentity fold_id s \<and> \<not> IsReservedRuntimeSegment s)"
  by (induction segs) auto

lemma plan_all_each:
  "plan_all fold_id localRoot layout rs = Inr scopes \<Longrightarrow> list_all2 (\<lambda>r sc. plan_one fold_id localRoot layout r = Inr sc) rs scopes"
  by (induction rs arbitrary: scopes) (auto split: sum.splits)

lemma plan_one_scoped:
  assumes "plan_one fold_id localRoot ''scoped'' r = Inr sc" and "HasPrefix localRoot ''/''" and "r = NormalizePath p" and "tidy p"
  shows "sc_RemotePath sc = r" and "segments r \<noteq> []" and "sc_LocalDir sc = path_of (root_segs localRoot @ segments r)"
    and "\<forall>s \<in> set (segments r). \<not> IsReservedRuntimeSegment s"
proof -
  have ok: "r \<noteq> ''/''" "segment_error fold_id r (Split (TrimPrefix r ''/'') slash) = None"
    and sc: "sc = \<lparr>sc_RemotePath = r, sc_LocalDir = LocalDir localRoot r\<rparr>"
    using assms(1) by (auto simp: plan_one_def Let_def split: if_splits option.splits)
  have r: "r = path_of (segments r)" using assms(3) segments_tidy [OF assms(4)] by (simp add: NormalizePath_segments)
  show ne: "segments r \<noteq> []" using ok(1) r by auto
  show "sc_RemotePath sc = r" "sc_LocalDir sc = path_of (root_segs localRoot @ segments r)"
    using LocalDir_segments [OF assms(2) ne] by (simp_all add: sc)
  have "Split (TrimPrefix r ''/'') slash = segments r"
    using Split_segments [OF ne entries_ok [OF segments_entries]] TrimPrefix_append [of "''/''" "Join (segments r) ''/''"] r
    by (metis path_of_def)
  then show "\<forall>s \<in> set (segments r). \<not> IsReservedRuntimeSegment s" using ok(2) by (simp add: segment_error_None)
qed

text \<open>C24. A mount of several remote roots keeps them apart on disk.  Whatever the folding of names, an accepted plan mounts exactly the
  normalised roots, in order; the local directories of two of them never coincide or lie inside each other, so their files and their
  private state cannot collide; and every directory lies below the mount root, on a path without a segment reserved for mount state.\<close>

theorem plan_isolates:
  assumes "Plan fold_id localRoot layout paths fallback stateFile = Inr scopes" and "length scopes > 1"
    and "HasPrefix localRoot ''/''" and "\<forall>p \<in> set paths. tidy p" and "tidy fallback"
  shows "map sc_RemotePath scopes = NormalizePaths paths fallback
    \<and> (\<forall>a \<in> set scopes. \<forall>b \<in> set scopes. inside (sc_LocalDir a) (sc_LocalDir b) \<longleftrightarrow> a = b)
    \<and> (\<forall>a \<in> set scopes. \<exists>segs. segs \<noteq> [] \<and> sc_LocalDir a = path_of (root_segs localRoot @ segs) \<and> list_all entry segs
         \<and> (\<forall>s \<in> set segs. \<not> IsReservedRuntimeSegment s))"
proof -
  let ?rs = "NormalizePaths paths fallback"
  obtain resolved where all: "plan_all fold_id localRoot resolved ?rs = Inr scopes" and multi: "length ?rs > 1 \<longrightarrow> resolved = ''scoped''"
    using assms(1) by (auto simp: Plan_def Let_def split: sum.splits if_splits option.splits)
  have each: "list_all2 (\<lambda>r sc. plan_one fold_id localRoot resolved r = Inr sc) ?rs scopes" by (rule plan_all_each [OF all])
  have resolved: "resolved = ''scoped''" using multi assms(2) list_all2_lengthD [OF each] by simp
  have origin: "\<exists>p. r = NormalizePath p \<and> tidy p" if "r \<in> set ?rs" for r
    using that normalize_loop_from [of r "[]" paths] assms(4,5) by (auto simp: NormalizePaths_def Let_def split: if_splits)
  have one: "sc_RemotePath sc = r \<and> segments r \<noteq> [] \<and> sc_LocalDir sc = path_of (root_segs localRoot @ segments r)
      \<and> (\<forall>s \<in> set (segments r). \<not> IsReservedRuntimeSegment s)"
    if "plan_one fold_id localRoot resolved r = Inr sc" "r \<in> set ?rs" for r sc
    using plan_one_scoped [of fold_id localRoot r sc] origin [OF that(2)] that assms(3) resolved by metis
  have remote: "map sc_RemotePath scopes = ?rs"
    using each one by (intro nth_equalityI) (auto simp: list_all2_conv_all_nth)
  have scope: "\<exists>r \<in> set ?rs. plan_one fold_id localRoot resolved r = Inr sc" if sc: "sc \<in> set scopes" for sc
  proof -
    obtain i where "i < length scopes" "sc = scopes ! i" using sc by (auto simp: in_set_conv_nth)
    then have "?rs ! i \<in> set ?rs" "plan_one fold_id localRoot resolved (?rs ! i) = Inr sc"
      using each by (auto simp: list_all2_conv_all_nth)
    then show ?thesis by blast
  qed
  have apart: "apart ?rs"
    using normalize_loop_apart [of "[]" paths] by (simp add: NormalizePaths_def Let_def apart_def)
  have "inside (sc_LocalDir a) (sc_LocalDir b) \<longleftrightarrow> a = b" if a: "a \<in> set scopes" and b: "b \<in> set scopes" for a b
  proof -
    obtain r where r: "r \<in> set ?rs" "plan_one fold_id localRoot resolved r = Inr a" using scope [OF a] by blast
    obtain r' where r': "r' \<in> set ?rs" "plan_one fold_id localRoot resolved r' = Inr b" using scope [OF b] by blast
    have "inside (sc_LocalDir a) (sc_LocalDir b) \<longleftrightarrow> IsWithin r r'"
      using one [OF r(2,1)] one [OF r'(2,1)] inside_segments [of "root_segs localRoot @ segments r" "root_segs localRoot @ segments r'"]
        root_segs_entries segments_entries by (simp add: IsWithin_prefix)
    moreover have "IsWithin r r' \<longleftrightarrow> r = r'" using apart r(1) r'(1) by (auto simp: apart_def IsWithin_prefix)
    moreover have "r = r' \<longleftrightarrow> a = b" using r r' one [OF r(2,1)] one [OF r'(2,1)] by auto
    ultimately show ?thesis by simp
  qed
  moreover have "\<exists>segs. segs \<noteq> [] \<and> sc_LocalDir a = path_of (root_segs localRoot @ segs) \<and> list_all entry segs
         \<and> (\<forall>s \<in> set segs. \<not> IsReservedRuntimeSegment s)" if "a \<in> set scopes" for a
    using scope [OF that] one segments_entries by blast
  ultimately show ?thesis using remote by blast
qed

theorem plan_isolates_witness:
  "\<exists>scopes. Plan id ''/m'' ''scoped'' [''/a'', ''c''] ''/'' '''' = Inr scopes \<and> length scopes = 2
     \<and> \<not> inside (sc_LocalDir (scopes ! 0)) (sc_LocalDir (scopes ! 1))"
proof -
  let ?scopes = "[\<lparr>sc_RemotePath = ''/a'', sc_LocalDir = ''/m/a''\<rparr>, \<lparr>sc_RemotePath = ''/c'', sc_LocalDir = ''/m/c''\<rparr>]"
  have plan: "Plan id ''/m'' ''scoped'' [''/a'', ''c''] ''/'' '''' = Inr ?scopes" by code_simp
  have "tidy ''/a''" "tidy ''c''" "tidy ''/''" unfolding tidy_def by code_simp+
  then have "\<forall>a \<in> set ?scopes. \<forall>b \<in> set ?scopes. inside (sc_LocalDir a) (sc_LocalDir b) \<longleftrightarrow> a = b"
    using plan_isolates [OF plan] by (simp add: HasPrefix_def)
  then have "\<not> inside (sc_LocalDir (?scopes ! 0)) (sc_LocalDir (?scopes ! 1))" by simp
  then show ?thesis using plan by (intro exI [of _ ?scopes]) simp
qed

section \<open>Relative paths stay below the root\<close>

text \<open>What remains of a relative path: some steps up, then entries.\<close>

lemma clean_segs_relative:
  assumes "list_all entry es" and "list_all (\<lambda>s. slash \<notin> set s) ss"
  shows "\<exists>m ds. clean_segs False (rev es @ replicate n ''..'') ss = replicate m ''..'' @ ds \<and> list_all entry ds"
  using assms
proof (induction ss arbitrary: es n)
  case Nil
  then show ?case by (auto simp: rev_replicate)
next
  case (Cons s ss)
  show ?case
  proof (cases "s = '''' \<or> s = ''.'' \<or> s = ''..''")
    case False
    then have "clean_segs False (rev es @ replicate n ''..'') (s # ss) = clean_segs False (rev (es @ [s]) @ replicate n ''..'') ss" by simp
    moreover have "entry s" using Cons.prems(2) False by (simp add: entry_def)
    then have "list_all entry (es @ [s])" using Cons.prems(1) by simp
    ultimately show ?thesis using Cons.IH [of "es @ [s]" n] Cons.prems(2) by (simp only: list.pred_inject)
  next
    case True
    show ?thesis
    proof (cases es rule: rev_cases)
      case Nil
      have "clean_segs False (replicate n ''..'') (s # ss) = clean_segs False (replicate (if s = ''..'' then Suc n else n) ''..'') ss"
        using True by (cases n) auto
      then show ?thesis using Nil Cons.IH [of "[]" "if s = ''..'' then Suc n else n"] Cons.prems by simp
    next
      case (snoc ys y)
      have "y \<noteq> ''..''" using snoc Cons.prems(1) by (simp add: entry_def)
      then have "clean_segs False (rev es @ replicate n ''..'') (s # ss) = clean_segs False (rev (if s = ''..'' then ys else es) @ replicate n ''..'') ss"
        using True snoc by auto
      then show ?thesis using Cons.IH [of "if s = ''..'' then ys else es" n] Cons.prems snoc by simp
    qed
  qed
qed

lemma Join_mem: "x \<in> set (Join ss sep) \<Longrightarrow> x \<in> set sep \<or> (\<exists>s \<in> set ss. x \<in> set s)"
  by (induction ss sep rule: Join.induct) auto

lemma Clean_chars:
  assumes "\<not> HasPrefix rel ''/''" and "rel \<noteq> ''''" and "x \<in> set (Clean rel)" and "x \<noteq> slash" and "Clean rel \<noteq> ''.''"
  shows "x \<in> set rel"
proof -
  have "Clean rel = Join (clean_segs False [] (Split rel slash)) ''/''" using assms(1,2,5) by (auto simp: Clean_def Let_def split: if_splits)
  then obtain s where "s \<in> set (clean_segs False [] (Split rel slash))" "x \<in> set s" using assms(3,4) Join_mem [of x] by fastforce
  then show ?thesis using clean_segs_mem [of s False "[]"] Split_mem by fastforce
qed

lemma clean_relative:
  assumes "\<not> HasPrefix rel ''/''" and "Clean rel \<noteq> ''.''" and "Clean rel \<noteq> ''..''" and "\<not> HasPrefix (Clean rel) ''../''" and "rel \<noteq> ''''"
  shows "\<exists>segs. segs \<noteq> [] \<and> list_all entry segs \<and> Clean rel = Join segs ''/''"
proof -
  have "list_all (\<lambda>s. slash \<notin> set s) (Split rel slash)" by (auto simp: list_all_iff dest: Split_pieces)
  then obtain m ds where ds: "clean_segs False [] (Split rel slash) = replicate m ''..'' @ ds" "list_all entry ds"
    using clean_segs_relative [of "[]" _ 0] by fastforce
  have clean: "Clean rel = Join (replicate m ''..'' @ ds) ''/''" "replicate m ''..'' @ ds \<noteq> []"
    using assms(1,2,5) ds(1) by (auto simp: Clean_def Let_def split: if_splits)
  have "m = 0"
  proof (rule ccontr)
    assume "m \<noteq> 0"
    then obtain rest where rest: "replicate m ''..'' @ ds = ''..'' # rest" by (cases m) auto
    then have "Clean rel = ''..'' \<or> HasPrefix (Clean rel) ''../''" unfolding clean(1) rest by (cases rest) (simp_all add: HasPrefix_def)
    then show False using assms(3,4) by blast
  qed
  then show ?thesis using clean ds(2) by auto
qed

text \<open>C25. A relative path the client accepts names something strictly below the mount root.  It is a list of at least one proper
  entry name: nothing empty, no dot and no step up, no backslash and no NUL byte; joined to the mount root it gives a path that
  extends the root's by exactly these entries, so neither the root itself nor anything outside of it can be the target.\<close>

theorem relative_path_below_root:
  assumes "NewRelativeRemotePath rel mountBasename = Inr p" and "HasPrefix localRoot ''/''"
  shows "(\<exists>segs. segs \<noteq> [] \<and> list_all entry segs \<and> p = Join segs ''/'' \<and> filepath_Join localRoot p = path_of (root_segs localRoot @ segs))
    \<and> CHR 0x5C \<notin> set p \<and> CHR 0x00 \<notin> set p \<and> (mountBasename \<noteq> '''' \<longrightarrow> p \<noteq> mountBasename)"
proof -
  define rel' where "rel' = (if HasPrefix rel ''./'' then TrimPrefix rel ''./'' else rel)"
  have ok: "CHR 0x00 \<notin> set rel" "\<not> HasPrefix rel' ''/''" "p = Clean rel'" "CHR 0x5C \<notin> set p" "p \<noteq> ''.''" "p \<noteq> ''..''"
    "\<not> HasPrefix p ''../''" "mountBasename \<noteq> '''' \<longrightarrow> p \<noteq> mountBasename"
    using assms(1) unfolding NewRelativeRemotePath_def rel'_def by (auto simp: Let_def split: if_splits)
  have "rel' \<noteq> ''''" using ok(3,5) by (auto simp: Clean_def)
  moreover have "set rel' \<subseteq> set rel" by (auto simp: rel'_def TrimPrefix_def dest: in_set_dropD)
  ultimately have "CHR 0x00 \<notin> set p" using Clean_chars [OF ok(2), of "CHR 0x00"] ok(1,3,5) by auto
  moreover obtain segs where "segs \<noteq> []" "list_all entry segs" "p = Join segs ''/''"
    using clean_relative [OF ok(2)] ok \<open>rel' \<noteq> ''''\<close> by auto
  ultimately show ?thesis using Join_below [OF assms(2)] ok(4,8) by blast
qed

theorem relative_path_below_root_witness:
  "NewRelativeRemotePath ''./a//b/./c'' ''m'' = Inr ''a/b/c'' \<and> CHR 0x00 \<notin> set ''a/b/c''
    \<and> (\<exists>segs. filepath_Join ''/home/m'' ''a/b/c'' = path_of (root_segs ''/home/m'' @ segs) \<and> segs \<noteq> [])"
proof -
  have "NewRelativeRemotePath ''./a//b/./c'' ''m'' = Inr ''a/b/c''" by code_simp
  from relative_path_below_root [OF this, of "''/home/m''"] this show ?thesis by (auto simp: HasPrefix_def)
qed

text \<open>Normalising a remote path is not idempotent: a step up can leave a name that ends in white space, which the next
  normalisation trims to another path.\<close>

theorem NormalizePath_not_idempotent:
  "NormalizePath ''/b /x/..'' = ''/b '' \<and> NormalizePath (NormalizePath ''/b /x/..'') = ''/b''"
  by code_simp

end
