(* ===== verification/SnapshotDeletes.thy ===== *)
theory SnapshotDeletes
  imports Circuit MountPaths Handlers FeedsCorrect
begin

text \<open>
  Deleting what has disappeared from the remote listing (\<^verbatim>\<open>mountsync/tombstones.go\<close>, \<^verbatim>\<open>applyRemoteSnapshotDeletesRev\<close> of
  \<^verbatim>\<open>syncer.go\<close>).

  A pass compares the tracked paths with a fresh listing.  A path that is missing gets a marker file, a tombstone; only when it is
  missing again may the local copy be deleted.  The code gives up the state lock between two paths of a pass.  The list of paths, the
  listing and the revision are fixed before, and markers and the last revision are touched by passes only, of which one runs
  at a time (\<^verbatim>\<open>syncActive\<close>); so a pass is one step on \<open>mirror_state\<close>; what the environment does during it is in the
  record \<open>pass\<close>: the listing and its revision, the clock at each path, the paths written locally meanwhile, the file operations that
  fail and the outcome of each local deletion.  \<open>run\<close> is the history of passes with their results.
\<close>

section \<open>Revisions\<close>

definition parseRevSeq :: "string \<Rightarrow> int option" where
  "parseRevSeq r = (let r = TrimSpace r in if \<not> HasPrefix r ''rev_'' then None else Atoi (TrimPrefix r ''rev_''))"

definition revisionAdvances :: "string \<Rightarrow> string \<Rightarrow> bool" where
  "revisionAdvances lastRev observed =
     (let observed = TrimSpace observed; lastRev = TrimSpace lastRev
      in if observed = '''' then False
         else if lastRev = '''' then True
         else case (parseRevSeq lastRev, parseRevSeq observed) of
                (Some a, Some b) \<Rightarrow> b > a
              | _ \<Rightarrow> observed > lastRev)"

section \<open>Tombstones\<close>

record pendingDeleteTombstone =
  pt_Path :: string
  pt_FirstObservedAt :: instant
  pt_LastObservedAt :: instant
  pt_Attempts :: int
  pt_ObservedRevision :: string

text \<open>The name of the marker file in \<^verbatim>\<open>.relay/pending-deletes\<close>.\<close>

definition tombstoneFile :: "string \<Rightarrow> string" where
  "tombstoneFile remotePath = sha256_hex remotePath @ ''.json''"

definition tombstoneMaxAge :: duration where
  "tombstoneMaxAge = 24 * 60 * Minute"

datatype delete_outcome = Deleted | Kept | DeleteFailed

record pass =
  pa_listing :: "string list"
  pa_revision :: string
  pa_clock :: "string \<Rightarrow> instant"
  pa_asked :: instant
  pa_pruned :: instant
  pa_touched :: "string \<Rightarrow> bool"
  pa_layoutFails :: bool
  pa_readFails :: "string \<Rightarrow> bool"
  pa_writeFails :: "string \<Rightarrow> bool"
  pa_removeFails :: "string \<Rightarrow> bool"
  pa_delete :: "string \<Rightarrow> delete_outcome"

text \<open>The files of the marker directory: \<open>None\<close> is a file that is no tombstone.\<close>

record mirror_state =
  ms_files :: "string list"
  ms_tombstones :: "(string, pendingDeleteTombstone option) gomap"
  ms_circuit :: "CloudErrorCircuit option"
  ms_lastApplied :: string
  ms_bootstrapComplete :: bool
  ms_blocked :: nat
  ms_pending :: nat
  ms_confirmed :: nat
  ms_agedOut :: nat

definition loadTombstone :: "pass \<Rightarrow> string \<Rightarrow> mirror_state \<Rightarrow> pendingDeleteTombstone option option" where
  "loadTombstone pa remotePath s =
     (if pa_readFails pa (tombstoneFile remotePath) then None
      else case map_of (ms_tombstones s) (tombstoneFile remotePath) of None \<Rightarrow> Some None | Some content \<Rightarrow> Some content)"

definition writeTombstone :: "pass \<Rightarrow> pendingDeleteTombstone \<Rightarrow> mirror_state \<Rightarrow> mirror_state \<times> bool" where
  "writeTombstone pa t s =
     (if pa_writeFails pa (tombstoneFile (pt_Path t)) then (s, False)
      else (s\<lparr>ms_tombstones := mput (tombstoneFile (pt_Path t)) (Some t) (ms_tombstones s)\<rparr>, True))"

definition removeTombstone :: "pass \<Rightarrow> string \<Rightarrow> mirror_state \<Rightarrow> mirror_state" where
  "removeTombstone pa remotePath s =
     (if pa_removeFails pa (tombstoneFile remotePath) then s
      else s\<lparr>ms_tombstones := mdel (tombstoneFile remotePath) (ms_tombstones s)\<rparr>)"

definition recordPendingDeleteObservation :: "pass \<Rightarrow> string \<Rightarrow> string \<Rightarrow> instant \<Rightarrow> mirror_state \<Rightarrow> mirror_state \<times> bool" where
  "recordPendingDeleteObservation pa remotePath observedRevision now s =
     writeTombstone pa \<lparr>pt_Path = remotePath, pt_FirstObservedAt = now, pt_LastObservedAt = now, pt_Attempts = 1,
                        pt_ObservedRevision = observedRevision\<rparr> (s\<lparr>ms_pending := ms_pending s + 1\<rparr>)"

text \<open>The result: may the deletion proceed, or \<open>None\<close> when the marker could not be read or written.\<close>

definition observePendingDelete :: "pass \<Rightarrow> string \<Rightarrow> string \<Rightarrow> mirror_state \<Rightarrow> mirror_state \<times> bool option" where
  "observePendingDelete pa remotePath observedRevision s =
     (let now = pa_clock pa remotePath
      in case loadTombstone pa remotePath s of
           None \<Rightarrow> (s, None)
         | Some None \<Rightarrow>
             (case recordPendingDeleteObservation pa remotePath observedRevision now s of (s, ok) \<Rightarrow> (s, if ok then Some False else None))
         | Some (Some existing) \<Rightarrow>
             if TimeSub now (pt_FirstObservedAt existing) > tombstoneMaxAge then
               (case recordPendingDeleteObservation pa remotePath observedRevision now
                       (removeTombstone pa remotePath (s\<lparr>ms_agedOut := ms_agedOut s + 1\<rparr>)) of
                  (s, ok) \<Rightarrow> (s, if ok then Some False else None))
             else
               let existing = existing\<lparr>pt_LastObservedAt := now, pt_Attempts := pt_Attempts existing + 1\<rparr>;
                   existing = (if observedRevision \<noteq> '''' then existing\<lparr>pt_ObservedRevision := observedRevision\<rparr> else existing)
               in if pt_Attempts existing \<ge> 2 then
                    (case writeTombstone pa existing (s\<lparr>ms_confirmed := ms_confirmed s + 1\<rparr>) of (s, ok) \<Rightarrow> (s, if ok then Some True else None))
                  else (case writeTombstone pa existing s of (s, ok) \<Rightarrow> (s, if ok then Some False else None)))"

definition prune_one :: "pass \<Rightarrow> string list \<Rightarrow> string \<times> pendingDeleteTombstone option \<Rightarrow> mirror_state \<Rightarrow> mirror_state" where
  "prune_one pa stillMissing e s =
     (case e of
        (name, None) \<Rightarrow> s
      | (name, Some t) \<Rightarrow>
          if \<not> HasSuffix name ''.json'' \<or> pa_readFails pa name then s
          else let gone = (\<lambda>s. if pa_removeFails pa name then s else s\<lparr>ms_tombstones := mdel name (ms_tombstones s)\<rparr>)
               in if pt_Path t \<in> set stillMissing then
                    (if TimeSub (pa_pruned pa) (pt_FirstObservedAt t) > tombstoneMaxAge then gone (s\<lparr>ms_agedOut := ms_agedOut s + 1\<rparr>) else s)
                  else gone s)"

definition pruneStaleTombstones :: "pass \<Rightarrow> string list \<Rightarrow> mirror_state \<Rightarrow> mirror_state" where
  "pruneStaleTombstones pa stillMissing s = fold (prune_one pa stillMissing) (ms_tombstones s) s"

section \<open>A pass\<close>

text \<open>The loop over the tracked paths, with the paths still missing and the paths whose deletion was started; the last result is
  \<open>False\<close> when a deletion failed, which ends the pass.\<close>

fun delete_loop :: "pass \<Rightarrow> string list \<Rightarrow> string list \<Rightarrow> string list \<Rightarrow> mirror_state \<Rightarrow> mirror_state \<times> string list \<times> string list \<times> bool" where
  "delete_loop pa [] stillMissing started s = (s, stillMissing, started, True)"
| "delete_loop pa (remotePath # rest) stillMissing started s =
     (if remotePath \<in> set (pa_listing pa) then delete_loop pa rest stillMissing started s
      else if pa_touched pa remotePath then delete_loop pa rest stillMissing started s
      else let stillMissing = remotePath # stillMissing
           in case observePendingDelete pa remotePath (pa_revision pa) s of
                (s, None) \<Rightarrow> delete_loop pa rest stillMissing started s
              | (s, Some False) \<Rightarrow> delete_loop pa rest stillMissing started s
              | (s, Some True) \<Rightarrow>
                  (case pa_delete pa remotePath of
                     DeleteFailed \<Rightarrow> (s, stillMissing, started @ [remotePath], False)
                   | outcome \<Rightarrow>
                       let s = (if outcome = Deleted then s\<lparr>ms_files := removeAll remotePath (ms_files s)\<rparr> else s);
                           s = removeTombstone pa remotePath s
                       in delete_loop pa rest (removeAll remotePath stillMissing) (started @ [remotePath]) s))"

datatype pass_result = LayoutFailed | Refused | Skipped | Aborted | Completed

definition applyRemoteSnapshotDeletesRev :: "pass \<Rightarrow> mirror_state \<Rightarrow> mirror_state \<times> string list \<times> pass_result" where
  "applyRemoteSnapshotDeletesRev pa s =
     (if pa_layoutFails pa then (s, [], LayoutFailed)
      else let (s, isOpen) = (case ms_circuit s of None \<Rightarrow> (s, False)
                              | Some c \<Rightarrow> (case IsOpen (pa_asked pa) c of (c, b) \<Rightarrow> (s\<lparr>ms_circuit := Some c\<rparr>, b)))
           in if isOpen then (s\<lparr>ms_blocked := ms_blocked s + 1\<rparr>, [], Refused)
              else if TrimSpace (pa_revision pa) = '''' \<and> TrimSpace (ms_lastApplied s) = '''' \<and> \<not> ms_bootstrapComplete s then (s, [], Skipped)
              else if \<not> revisionAdvances (ms_lastApplied s) (pa_revision pa) then (s\<lparr>ms_blocked := ms_blocked s + 1\<rparr>, [], Refused)
              else case delete_loop pa (sort (ms_files s)) [] [] s of
                     (s, stillMissing, started, False) \<Rightarrow> (s, started, Aborted)
                   | (s, stillMissing, started, True) \<Rightarrow>
                       let s = pruneStaleTombstones pa stillMissing s
                       in (if pa_revision pa \<noteq> '''' then s\<lparr>ms_lastApplied := pa_revision pa\<rparr> else s, started, Completed))"

section \<open>Runs\<close>


text \<open>A pass that saw the path missing, and one whose file operations on markers all succeeded.\<close>

definition missed :: "string \<Rightarrow> pass \<Rightarrow> bool" where
  "missed p pa \<longleftrightarrow> p \<notin> set (pa_listing pa) \<and> \<not> pa_touched pa p"




section \<open>Where markers come from\<close>

abbreviation marker :: "mirror_state \<Rightarrow> string \<Rightarrow> pendingDeleteTombstone option" where
  "marker s n \<equiv> Option.bind (map_of (ms_tombstones s) n) (\<lambda>x. x)"


text \<open>A marker is an old one, perhaps observed again, or was made by this pass.\<close>

definition derived :: "pass \<Rightarrow> string set \<Rightarrow> mirror_state \<Rightarrow> mirror_state \<Rightarrow> bool" where
  "derived pa P s s' \<longleftrightarrow> (\<forall>n t'. marker s' n = Some t' \<longrightarrow>
     (\<exists>t. marker s n = Some t \<and> pt_Path t' = pt_Path t \<and> pt_FirstObservedAt t' = pt_FirstObservedAt t)
     \<or> (pt_Path t' \<in> P \<and> missed (pt_Path t') pa \<and> pt_FirstObservedAt t' = pa_clock pa (pt_Path t') \<and> n = tombstoneFile (pt_Path t')))"

lemma derived_refl [simp]: "derived pa P s s"
  by (auto simp: derived_def)




















section \<open>Two listings\<close>










text \<open>The revisions the server issues are ordered by their numbers.\<close>

lemma rev_id_trim [simp]: "TrimSpace (rev_id n) = rev_id n"
proof (rule TrimSpace_printable)
  show "rev_id n \<noteq> []" by (simp add: rev_id_def)
  have "last (rev_id n) = last (itoa n)" by (simp add: rev_id_def)
  also have "\<dots> = digit_char (n mod 10)" by (subst itoa.simps) auto
  finally have "last (rev_id n) = digit_char (n mod 10)" .
  moreover have "32 < (of_char (digit_char k) :: nat) \<and> (of_char (digit_char k) :: nat) < 128" if "k < 10" for k
    using that by (simp add: digit_char_def of_char_of)
  ultimately show "32 < (of_char (last (rev_id n)) :: nat)" "(of_char (last (rev_id n)) :: nat) < 128" by simp_all
qed (simp_all add: rev_id_def)

lemma parseRevSeq_rev_id:
  assumes "n < 2 ^ 63"
  shows "parseRevSeq (rev_id n) = Some (int n)"
proof -
  obtain c r where cr: "itoa n = c # r" by (cases "itoa n") auto
  then have "c \<noteq> CHR ''-''" "c \<noteq> CHR ''+''" using itoa_digits [of c n] by auto
  then have "Atoi (itoa n) = map_option int (ParseUint (2 ^ 63) (itoa n))" by (simp add: Atoi_def cr)
  moreover have "parseRevSeq (rev_id n) = Atoi (itoa n)"
    using TrimPrefix_append [of "''rev_''" "itoa n"] by (simp add: parseRevSeq_def Let_def) (simp add: rev_id_def HasPrefix_def)
  ultimately show ?thesis using assms by simp
qed

lemma revisionAdvances_rev_id: "m < 2 ^ 63 \<Longrightarrow> n < 2 ^ 63 \<Longrightarrow> revisionAdvances (rev_id m) (rev_id n) \<longleftrightarrow> m < n"
  by (simp add: revisionAdvances_def Let_def parseRevSeq_rev_id) (simp add: rev_id_def)




section \<open>Two concrete passes\<close>

definition listing_pass :: "nat \<Rightarrow> instant \<Rightarrow> (string \<Rightarrow> delete_outcome) \<Rightarrow> pass" where
  "listing_pass n now del =
     \<lparr>pa_listing = [], pa_revision = rev_id n, pa_clock = (\<lambda>_. now), pa_asked = now, pa_pruned = now, pa_touched = (\<lambda>_. False),
      pa_layoutFails = False, pa_readFails = (\<lambda>_. False), pa_writeFails = (\<lambda>_. False), pa_removeFails = (\<lambda>_. False), pa_delete = del\<rparr>"

definition fresh_mirror :: "string list \<Rightarrow> mirror_state" where
  "fresh_mirror files =
     \<lparr>ms_files = files, ms_tombstones = [], ms_circuit = None, ms_lastApplied = '''', ms_bootstrapComplete = True,
      ms_blocked = 0, ms_pending = 0, ms_confirmed = 0, ms_agedOut = 0\<rparr>"

lemma advances_first: "revisionAdvances '''' (rev_id n)"
  by (simp add: revisionAdvances_def Let_def) (simp add: rev_id_def)

lemmas pass_simps = applyRemoteSnapshotDeletesRev_def listing_pass_def fresh_mirror_def observePendingDelete_def loadTombstone_def
  recordPendingDeleteObservation_def writeTombstone_def removeTombstone_def pruneStaleTombstones_def prune_one_def Let_def advances_first





text \<open>A pass that fails half-way has recorded what it missed but not its revision: tried again on the very same listing it
  confirms its own observation, and deletes what only one listing missed.\<close>

lemma aborted_pass_confirms_itself:
  assumes "p < q" and "tombstoneFile p \<noteq> tombstoneFile q"
  defines "present \<equiv> (listing_pass 1 0 (\<lambda>_. Deleted))\<lparr>pa_listing := [p]\<rparr>" and "failing \<equiv> listing_pass 2 1 (\<lambda>_. DeleteFailed)"
  shows "\<exists>s1 s2 s3 r. applyRemoteSnapshotDeletesRev present (fresh_mirror [p, q]) = (s1, [], Completed)
    \<and> applyRemoteSnapshotDeletesRev failing s1 = (s2, [q], Aborted)
    \<and> applyRemoteSnapshotDeletesRev failing s2 = (s3, [p], r)"
proof -
  have r: "rev_id 1 \<noteq> []" "rev_id 2 \<noteq> []" by (simp_all add: rev_id_def)
  have adv: "revisionAdvances (rev_id 1) (rev_id 2)" by (simp add: revisionAdvances_rev_id)
  have pq: "p \<le> q" "p \<noteq> q" "tombstoneFile q \<noteq> tombstoneFile p" using assms(1,2) by auto
  note eval = pass_simps TimeSub_def tombstoneMaxAge_def Minute_def Second_def
  define t where "t = \<lparr>pt_Path = q, pt_FirstObservedAt = 0, pt_LastObservedAt = 0, pt_Attempts = 1, pt_ObservedRevision = rev_id 1\<rparr>"
  define u where "u = \<lparr>pt_Path = p, pt_FirstObservedAt = 1, pt_LastObservedAt = 1, pt_Attempts = 1, pt_ObservedRevision = rev_id 2\<rparr>"
  define s1 where "s1 = (fresh_mirror [p, q])\<lparr>ms_pending := 1, ms_lastApplied := rev_id 1, ms_tombstones := [(tombstoneFile q, Some t)]\<rparr>"
  define s2 where "s2 = s1\<lparr>ms_pending := 2, ms_confirmed := 1, ms_tombstones :=
    [(tombstoneFile q, Some (t\<lparr>pt_LastObservedAt := 1, pt_Attempts := 2, pt_ObservedRevision := rev_id 2\<rparr>)), (tombstoneFile p, Some u)]\<rparr>"
  have "applyRemoteSnapshotDeletesRev present (fresh_mirror [p, q]) = (s1, [], Completed)"
    using r pq unfolding present_def s1_def t_def by (simp add: eval)
  moreover have "applyRemoteSnapshotDeletesRev failing s1 = (s2, [q], Aborted)"
    using r adv pq assms(2) unfolding failing_def s1_def s2_def t_def u_def by (simp add: eval)
  moreover have "\<exists>s3. applyRemoteSnapshotDeletesRev failing s2 = (s3, [p], Aborted)"
    using r adv pq assms(2) unfolding failing_def s1_def s2_def t_def u_def by (simp add: eval)
  ultimately show ?thesis by blast
qed

text \<open>On revisions of mixed shapes the comparison is no order.\<close>

lemma revisionAdvances_cyclic:
  "revisionAdvances ''rev_2'' ''rev_10'' \<and> revisionAdvances ''rev_10'' ''rev_1z'' \<and> revisionAdvances ''rev_1z'' ''rev_2''"
proof -
  have trim: "TrimSpace ''rev_1z'' = ''rev_1z''" by code_simp
  have none: "parseRevSeq ''rev_1z'' = None"
    by (simp add: parseRevSeq_def trim HasPrefix_def TrimPrefix_def Atoi_def ParseUint_def digit_val_def)
  have ids: "''rev_2'' = rev_id 2" "''rev_10'' = rev_id 10" by code_simp+
  have "revisionAdvances ''rev_2'' ''rev_10''" unfolding ids by (simp add: revisionAdvances_rev_id)
  moreover have "TrimSpace ''rev_2'' = ''rev_2''" "TrimSpace ''rev_10'' = ''rev_10''" unfolding ids by simp_all
  then have "revisionAdvances ''rev_10'' ''rev_1z''" "revisionAdvances ''rev_1z'' ''rev_2''"
    by (simp_all add: revisionAdvances_def trim none less_char_def split: option.splits)
  ultimately show ?thesis by blast
qed

end
