(* ===== verification/Outbox.thy ===== *)
theory Outbox
  imports Circuit MountPaths Drafts "HOL-Library.Product_Lexorder"
begin

text \<open>
  The outbox of the mount client (\<^verbatim>\<open>mountsync/outbox.go\<close> and the flushing functions of \<^verbatim>\<open>syncer.go\<close>).

  A local change becomes a command: a record in a file of the directory \<^verbatim>\<open>pending\<close>, which moves to \<^verbatim>\<open>acked\<close> or \<^verbatim>\<open>failed\<close> when
  the server has answered.  \<open>outbox\<close> is the state: the files of the directories, the index of pending records by path, the circuit
  breaker.  Which file operations fail during a step is in \<open>disk\<close>; what the cloud and the local tree answer is in \<open>cloud\<close>.  JSON
  encoding is taken to be faithful, so a file holds a record; reading it trims and normalises the fields.
\<close>

section \<open>Records\<close>

record outboxRecord =
  or_CommandID :: string
  or_WorkspaceID :: string
  or_RemotePath :: string
  or_ContentType :: string
  or_Content :: string
  or_Encoding :: string
  or_Type :: string
  or_Target :: string
  or_Mode :: "32 word"
  or_Hash :: string
  or_Exists :: bool
  or_Status :: string
  or_FirstSeenAt :: string
  or_LastAttemptAt :: string
  or_NextAttemptAt :: string
  or_AttemptCount :: int
  or_ReceiptPollCount :: int
  or_LastError :: string
  or_NeedsAttention :: bool
  or_OpID :: string
  or_DispatchStatus :: string
  or_AckedAt :: string
  or_Revision :: string
  or_CorrelationID :: string
  or_LocalRelativePath :: string
  or_ExpectedRevision :: string

record localSnapshot =
  ls_WireContent :: string
  ls_ContentType :: string
  ls_Encoding :: string
  ls_Type :: string
  ls_Target :: string
  ls_Mode :: "32 word"
  ls_Hash :: string

text \<open>A pending write: of the tracked file only the revision and the local name matter here.\<close>

record pendingBulkWrite =
  pw_remotePath :: string
  pw_snapshot :: localSnapshot
  pw_trackedRevision :: string
  pw_trackedLocalPath :: string
  pw_exists :: bool

record outbox =
  ob_pending :: "(string, outboxRecord) gomap"
  ob_acked :: "(string, outboxRecord) gomap"
  ob_failed :: "(string, outboxRecord) gomap"
  ob_attention :: "string list"
  ob_byPath :: "(string, (string, outboxRecord) gomap) gomap"
  ob_loaded :: bool
  ob_workspace :: string
  ob_maxAttempts :: int
  ob_circuit :: "CloudErrorCircuit option"
  ob_pullOnly :: bool

datatype outbox_file = PendingFile string | AckedFile string | FailedFile string | AttentionFile string

record disk =
  dk_dirsFail :: bool
  dk_listFails :: bool
  dk_readFails :: "string \<Rightarrow> bool"
  dk_writeFails :: "outbox_file \<Rightarrow> bool"
  dk_removeFails :: "outbox_file \<Rightarrow> bool"

datatype outbox_error = DiskError | NoCommandID | SymlinkUnsupported | CloudError cloud_error | Reason string

definition first_error :: "outbox_error option \<Rightarrow> outbox_error option \<Rightarrow> outbox_error option" where
  "first_error e1 e2 = (case e1 of None \<Rightarrow> e2 | Some e \<Rightarrow> Some e)"

definition mountEncoding :: "string \<Rightarrow> string" where
  "mountEncoding value =
     (let value = ToLower (TrimSpace value) in if value = '''' \<or> value = ''utf-8'' \<or> value = ''utf8'' then '''' else value)"

definition normalizeRemoteType :: "string \<Rightarrow> string" where
  "normalizeRemoteType value = (if EqualFold (TrimSpace value) ''symlink'' then ''symlink'' else ''file'')"

definition maxOutboxAttemptsValue :: "outbox \<Rightarrow> int" where
  "maxOutboxAttemptsValue ob = (if ob_maxAttempts ob > 0 then ob_maxAttempts ob else 5)"

text \<open>What reading a file makes of the record in it.\<close>

definition readOutboxRecord :: "outboxRecord \<Rightarrow> outboxRecord" where
  "readOutboxRecord r =
     (let r = r\<lparr>or_RemotePath := NormalizePath (or_RemotePath r), or_CommandID := TrimSpace (or_CommandID r),
                or_WorkspaceID := TrimSpace (or_WorkspaceID r), or_ContentType := TrimSpace (or_ContentType r),
                or_Encoding := mountEncoding (or_Encoding r), or_Type := normalizeRemoteType (or_Type r),
                or_Hash := TrimSpace (or_Hash r), or_OpID := TrimSpace (or_OpID r), or_DispatchStatus := TrimSpace (or_DispatchStatus r),
                or_CorrelationID := TrimSpace (or_CorrelationID r)\<rparr>;
          r = (if or_CorrelationID r = '''' then r\<lparr>or_CorrelationID := or_CommandID r\<rparr> else r)
      in if or_Status r = '''' then r\<lparr>or_Status := ''pending''\<rparr> else r)"

definition sortOutboxRecords :: "outboxRecord list \<Rightarrow> outboxRecord list" where
  "sortOutboxRecords rs = sort_key (\<lambda>r. (or_FirstSeenAt r, or_CommandID r)) rs"

section \<open>The index of pending records\<close>

definition cachePendingOutboxRecordLocked :: "outboxRecord \<Rightarrow> outbox \<Rightarrow> outbox" where
  "cachePendingOutboxRecordLocked r ob =
     (let remotePath = NormalizePath (or_RemotePath r); commandID = TrimSpace (or_CommandID r)
      in if remotePath = ''/'' \<or> commandID = '''' then ob
         else ob\<lparr>ob_byPath := mput remotePath
                   (mput commandID (r\<lparr>or_RemotePath := remotePath, or_CommandID := commandID\<rparr>) (mget_or [] (ob_byPath ob) remotePath))
                   (ob_byPath ob)\<rparr>)"

definition removePendingOutboxRecordFromCache :: "outboxRecord \<Rightarrow> outbox \<Rightarrow> outbox" where
  "removePendingOutboxRecordFromCache r ob =
     (let remotePath = NormalizePath (or_RemotePath r);
          byCommand = mdel (TrimSpace (or_CommandID r)) (mget_or [] (ob_byPath ob) remotePath)
      in ob\<lparr>ob_byPath := (if byCommand = [] then mdel remotePath (ob_byPath ob) else mput remotePath byCommand (ob_byPath ob))\<rparr>)"

definition listPendingOutboxRecords :: "disk \<Rightarrow> outbox \<Rightarrow> outbox_error + outboxRecord list" where
  "listPendingOutboxRecords dk ob =
     (if dk_dirsFail dk \<or> dk_listFails dk \<or> list_ex (\<lambda>(i, r). dk_readFails dk i) (ob_pending ob) then Inl DiskError
      else Inr (sortOutboxRecords (filter (\<lambda>r. or_Status r = ''pending'') (map (\<lambda>(i, r). readOutboxRecord r) (ob_pending ob)))))"

definition ensurePendingOutboxIndex :: "disk \<Rightarrow> outbox \<Rightarrow> outbox \<times> outbox_error option" where
  "ensurePendingOutboxIndex dk ob =
     (if ob_loaded ob then (ob, None)
      else case listPendingOutboxRecords dk ob of
             Inl e \<Rightarrow> (ob, Some e)
           | Inr records \<Rightarrow> ((fold cachePendingOutboxRecordLocked records ob)\<lparr>ob_loaded := True\<rparr>, None))"

definition findPendingOutboxByPath :: "disk \<Rightarrow> string \<Rightarrow> outbox \<Rightarrow> outbox \<times> (outbox_error + outboxRecord list)" where
  "findPendingOutboxByPath dk remotePath ob =
     (case ensurePendingOutboxIndex dk ob of
        (ob, Some e) \<Rightarrow> (ob, Inl e)
      | (ob, None) \<Rightarrow> (ob, Inr (sortOutboxRecords (map snd (mget_or [] (ob_byPath ob) (NormalizePath remotePath))))))"

section \<open>Moving records\<close>

definition saveOutboxRecord :: "disk \<Rightarrow> outboxRecord \<Rightarrow> outbox \<Rightarrow> outbox \<times> outbox_error option" where
  "saveOutboxRecord dk r ob =
     (if dk_dirsFail dk then (ob, Some DiskError)
      else if TrimSpace (or_CommandID r) = '''' then (ob, Some NoCommandID)
      else let r = r\<lparr>or_Status := ''pending''\<rparr>
           in if dk_writeFails dk (PendingFile (or_CommandID r)) then (ob, Some DiskError)
              else (cachePendingOutboxRecordLocked r (ob\<lparr>ob_pending := mput (or_CommandID r) r (ob_pending ob)\<rparr>), None))"

text \<open>The last steps of settling: the pending file goes, then the index entry, then the attention marker.\<close>

definition drop_pending :: "disk \<Rightarrow> outboxRecord \<Rightarrow> outbox \<Rightarrow> outbox \<times> outbox_error option" where
  "drop_pending dk r ob =
     (if dk_removeFails dk (PendingFile (or_CommandID r)) then (ob, Some DiskError)
      else (removePendingOutboxRecordFromCache r (ob\<lparr>ob_pending := mdel (or_CommandID r) (ob_pending ob)\<rparr>), None))"

definition drop_attention :: "disk \<Rightarrow> outboxRecord \<Rightarrow> outbox \<Rightarrow> outbox \<times> outbox_error option" where
  "drop_attention dk r ob =
     (if dk_removeFails dk (AttentionFile (or_CommandID r)) then (ob, Some DiskError)
      else (ob\<lparr>ob_attention := removeAll (or_CommandID r) (ob_attention ob)\<rparr>, None))"

definition write_acked :: "disk \<Rightarrow> outboxRecord \<Rightarrow> outbox \<Rightarrow> outbox \<times> outbox_error option" where
  "write_acked dk r ob =
     (if dk_writeFails dk (AckedFile (or_CommandID r)) then (ob, Some DiskError)
      else case drop_pending dk r (ob\<lparr>ob_acked := mput (or_CommandID r) r (ob_acked ob)\<rparr>) of
             (ob, Some e) \<Rightarrow> (ob, Some e)
           | (ob, None) \<Rightarrow> drop_attention dk r ob)"

definition ackOutboxRecord :: "disk \<Rightarrow> instant \<Rightarrow> outboxRecord \<Rightarrow> string \<Rightarrow> string \<Rightarrow> outbox \<Rightarrow> outbox \<times> outbox_error option" where
  "ackOutboxRecord dk now r revision correlationID ob =
     (if dk_dirsFail dk then (ob, Some DiskError)
      else let r = r\<lparr>or_Status := ''acked'', or_AckedAt := FormatRFC3339Nano now, or_DispatchStatus := ''succeeded'',
                     or_Revision := TrimSpace revision\<rparr>;
               r = (if TrimSpace correlationID \<noteq> '''' then r\<lparr>or_CorrelationID := TrimSpace correlationID\<rparr> else r);
               r = r\<lparr>or_NeedsAttention := False, or_ReceiptPollCount := 0, or_LastError := '''', or_NextAttemptAt := ''''\<rparr>
           in write_acked dk r ob)"

definition skipOutboxRecord :: "disk \<Rightarrow> instant \<Rightarrow> outboxRecord \<Rightarrow> string \<Rightarrow> outbox \<Rightarrow> outbox \<times> outbox_error option" where
  "skipOutboxRecord dk now r reason ob =
     (if dk_dirsFail dk then (ob, Some DiskError)
      else write_acked dk (r\<lparr>or_Status := ''acked'', or_AckedAt := FormatRFC3339Nano now, or_DispatchStatus := TrimSpace reason,
             or_Revision := '''', or_CorrelationID := '''', or_NeedsAttention := False, or_ReceiptPollCount := 0, or_LastError := '''',
             or_NextAttemptAt := ''''\<rparr>) ob)"

definition saveFailedOutboxRecord :: "disk \<Rightarrow> outboxRecord \<Rightarrow> string \<Rightarrow> outbox \<Rightarrow> outbox \<times> outbox_error option" where
  "saveFailedOutboxRecord dk r reason ob =
     (if dk_dirsFail dk then (ob, Some DiskError)
      else let r = r\<lparr>or_Status := ''failed'', or_LastError := TrimSpace reason, or_NextAttemptAt := ''''\<rparr>;
               i = or_CommandID r
           in if or_NeedsAttention r \<and> dk_writeFails dk (AttentionFile i) then (ob, Some DiskError)
              else let ob = (if or_NeedsAttention r then ob\<lparr>ob_attention := List.insert i (ob_attention ob)\<rparr> else ob)
                   in if dk_writeFails dk (FailedFile i) then (ob, Some DiskError)
                      else let ob = ob\<lparr>ob_failed := mput i r (ob_failed ob)\<rparr>
                           in if \<not> or_NeedsAttention r then
                                (case drop_attention dk r ob of (ob, Some e) \<Rightarrow> (ob, Some e) | (ob, None) \<Rightarrow> drop_pending dk r ob)
                              else drop_pending dk r ob)"

definition failOutboxRecord :: "disk \<Rightarrow> outboxRecord \<Rightarrow> string \<Rightarrow> outbox \<Rightarrow> outbox \<times> outbox_error option" where
  "failOutboxRecord dk r reason ob = saveFailedOutboxRecord dk (r\<lparr>or_NeedsAttention := False\<rparr>) reason ob"

definition failOutboxRecordNeedsAttention :: "disk \<Rightarrow> outboxRecord \<Rightarrow> string \<Rightarrow> outbox \<Rightarrow> outbox \<times> outbox_error option" where
  "failOutboxRecordNeedsAttention dk r reason ob = saveFailedOutboxRecord dk (r\<lparr>or_NeedsAttention := True\<rparr>) reason ob"

section \<open>Attempts\<close>

definition outboxBackoffBase :: duration where
  "outboxBackoffBase = 500 * 1000000"

definition outboxBackoffMax :: duration where
  "outboxBackoffMax = 30 * Second"

fun backoff_loop :: "nat \<Rightarrow> duration \<Rightarrow> duration" where
  "backoff_loop 0 delay = delay"
| "backoff_loop (Suc k) delay = (let delay = delay * 2 in if delay \<ge> outboxBackoffMax then outboxBackoffMax else backoff_loop k delay)"

definition outboxBackoff :: "int \<Rightarrow> duration" where
  "outboxBackoff attempt = (if attempt \<le> 0 then outboxBackoffBase else backoff_loop (nat (attempt - 1)) outboxBackoffBase)"

definition sanitizeOutboxError :: "cloud_error \<Rightarrow> string" where
  "sanitizeOutboxError err = (let msg = TrimSpace (error_text err) in if length msg > 500 then take 500 msg else msg)"

definition incrementOutboxAttempt :: "disk \<Rightarrow> instant \<Rightarrow> outboxRecord \<Rightarrow> cloud_error \<Rightarrow> outbox \<Rightarrow> outbox \<times> outbox_error option" where
  "incrementOutboxAttempt dk now r err ob =
     (let r = r\<lparr>or_AttemptCount := or_AttemptCount r + 1, or_LastAttemptAt := FormatRFC3339Nano now, or_LastError := sanitizeOutboxError err\<rparr>;
          r = (if or_AttemptCount r \<ge> maxOutboxAttemptsValue ob then r\<lparr>or_NeedsAttention := True, or_NextAttemptAt := ''''\<rparr>
               else r\<lparr>or_NextAttemptAt := FormatRFC3339Nano (now + outboxBackoff (or_AttemptCount r))\<rparr>)
      in saveOutboxRecord dk r ob)"

definition scheduleOutboxReceiptPoll :: "disk \<Rightarrow> instant \<Rightarrow> outboxRecord \<Rightarrow> cloud_error \<Rightarrow> outbox \<Rightarrow> outbox \<times> outbox_error option" where
  "scheduleOutboxReceiptPoll dk now r err ob =
     (let r = r\<lparr>or_ReceiptPollCount := or_ReceiptPollCount r + 1, or_LastAttemptAt := FormatRFC3339Nano now,
                or_LastError := sanitizeOutboxError err\<rparr>
      in saveOutboxRecord dk (r\<lparr>or_NextAttemptAt := FormatRFC3339Nano (now + outboxBackoff (or_ReceiptPollCount r))\<rparr>) ob)"

definition migrateLegacyMissingReceipt :: "outboxRecord \<Rightarrow> outboxRecord \<times> bool" where
  "migrateLegacyMissingReceipt r =
     (if or_Status r \<noteq> ''pending'' \<or> \<not> or_NeedsAttention r \<or> TrimSpace (or_OpID r) = '''' \<or> TrimSpace (or_DispatchStatus r) \<noteq> ''not_found''
      then (r, False)
      else (r\<lparr>or_AttemptCount := 0, or_ReceiptPollCount := 0, or_NeedsAttention := False, or_LastError := '''', or_NextAttemptAt := ''''\<rparr>, True))"

definition outboxDue :: "outbox \<Rightarrow> outboxRecord \<Rightarrow> instant \<Rightarrow> bool" where
  "outboxDue ob r now =
     (if or_NeedsAttention r \<or> or_AttemptCount r \<ge> maxOutboxAttemptsValue ob then False
      else if TrimSpace (or_NextAttemptAt r) = '''' then True
      else case ParseRFC3339Nano (or_NextAttemptAt r) of None \<Rightarrow> True | Some t \<Rightarrow> \<not> now < t)"

section \<open>New commands\<close>

definition newOutboxCommandID :: "string \<Rightarrow> string \<Rightarrow> string \<Rightarrow> string \<Rightarrow> string" where
  "newOutboxCommandID workspaceID remotePath hash firstSeenAt =
     ''mountcmd_'' @ take 32 (sha256_hex (Join [TrimSpace workspaceID, NormalizePath remotePath, TrimSpace hash, TrimSpace firstSeenAt] [CHR 0x00]))"

definition same_snapshot :: "pendingBulkWrite \<Rightarrow> outboxRecord \<Rightarrow> bool" where
  "same_snapshot pw r \<longleftrightarrow> or_Hash r = ls_Hash (pw_snapshot pw) \<and> or_Type r = normalizeRemoteType (ls_Type (pw_snapshot pw))
     \<and> or_Target r = ls_Target (pw_snapshot pw) \<and> or_Mode r = ls_Mode (pw_snapshot pw)"

text \<open>Earlier commands for the path: one with the same content is reused, the others are superseded.\<close>

fun supersede_loop :: "disk \<Rightarrow> instant \<Rightarrow> pendingBulkWrite \<Rightarrow> outboxRecord list \<Rightarrow> outbox \<Rightarrow> outbox \<times> (outbox_error + outboxRecord option)" where
  "supersede_loop dk now pw [] ob = (ob, Inr None)"
| "supersede_loop dk now pw (r # rs) ob =
     (if same_snapshot pw r then (ob, Inr (Some r))
      else case skipOutboxRecord dk now r ''superseded_by_newer_local_content'' ob of
             (ob, Some e) \<Rightarrow> (ob, Inl e)
           | (ob, None) \<Rightarrow> supersede_loop dk now pw rs ob)"

definition new_record :: "string \<Rightarrow> instant \<Rightarrow> pendingBulkWrite \<Rightarrow> outboxRecord" where
  "new_record workspace now pw =
     (let ts = FormatRFC3339Nano now; snap = pw_snapshot pw;
          i = newOutboxCommandID workspace (pw_remotePath pw) (ls_Hash snap) ts
      in \<lparr>or_CommandID = i, or_WorkspaceID = workspace, or_RemotePath = pw_remotePath pw, or_ContentType = ls_ContentType snap,
          or_Content = ls_WireContent snap, or_Encoding = mountEncoding (ls_Encoding snap), or_Type = normalizeRemoteType (ls_Type snap),
          or_Target = ls_Target snap, or_Mode = ls_Mode snap, or_Hash = ls_Hash snap, or_Exists = pw_exists pw, or_Status = ''pending'',
          or_FirstSeenAt = ts, or_LastAttemptAt = '''', or_NextAttemptAt = '''', or_AttemptCount = 0, or_ReceiptPollCount = 0,
          or_LastError = '''', or_NeedsAttention = False, or_OpID = '''', or_DispatchStatus = '''', or_AckedAt = '''', or_Revision = '''',
          or_CorrelationID = i, or_LocalRelativePath = pw_trackedLocalPath pw,
          or_ExpectedRevision = (if pw_exists pw \<and> pw_trackedRevision pw \<noteq> '''' then pw_trackedRevision pw else ''0'')\<rparr>)"

definition ensureOutboxRecord :: "disk \<Rightarrow> instant \<Rightarrow> pendingBulkWrite \<Rightarrow> outbox \<Rightarrow> outbox \<times> (outbox_error + outboxRecord)" where
  "ensureOutboxRecord dk now pw ob =
     (case findPendingOutboxByPath dk (pw_remotePath pw) ob of
        (ob, Inl e) \<Rightarrow> (ob, Inl e)
      | (ob, Inr matches) \<Rightarrow>
          (case supersede_loop dk now pw matches ob of
             (ob, Inl e) \<Rightarrow> (ob, Inl e)
           | (ob, Inr (Some r)) \<Rightarrow> (ob, Inr r)
           | (ob, Inr None) \<Rightarrow>
               let r = new_record (ob_workspace ob) now pw
               in case saveOutboxRecord dk r ob of (ob, Some e) \<Rightarrow> (ob, Inl e) | (ob, None) \<Rightarrow> (ob, Inr r)))"

section \<open>Requests\<close>

definition draftIdentityTTL :: int where
  "draftIdentityTTL = 2592000"

definition isMountWritebackCreateDraftPath :: "string \<Rightarrow> bool" where
  "isMountWritebackCreateDraftPath remotePath \<longleftrightarrow>
     IsDraftFilePath remotePath
     \<or> (let base = basenameOf (NormalizePath remotePath) in HasPrefix base ''factory-create-'' \<and> HasSuffix base ''.json'')"

definition mountWritebackCreateDraftContentIdentity :: "string \<Rightarrow> string \<Rightarrow> string \<Rightarrow> ContentIdentity option" where
  "mountWritebackCreateDraftContentIdentity workspaceID remotePath contentHash =
     (if \<not> isMountWritebackCreateDraftPath remotePath then None
      else Some \<lparr>ci_Kind = ''mount-writeback-create-draft'', ci_Key = workspaceID @ '':'' @ remotePath @ '':'' @ contentHash,
                 ci_TTLSeconds = draftIdentityTTL\<rparr>)"

definition outboxRecordContentIdentity :: "outboxRecord \<Rightarrow> ContentIdentity option" where
  "outboxRecordContentIdentity r =
     (case mountWritebackCreateDraftContentIdentity (or_WorkspaceID r) (or_RemotePath r) (or_Hash r) of
        Some identity \<Rightarrow> Some identity
      | None \<Rightarrow> Some \<lparr>ci_Kind = ''mount-command'', ci_Key = or_CommandID r, ci_TTLSeconds = 7 * 24 * 60 * 60\<rparr>)"

definition outboxRecordAsBulkFile :: "outboxRecord \<Rightarrow> BulkWriteFile" where
  "outboxRecordAsBulkFile r =
     \<lparr>bf_Path = or_RemotePath r, bf_Type = normalizeRemoteType (or_Type r), bf_Target = or_Target r, bf_Mode = or_Mode r,
      bf_ContentType = or_ContentType r, bf_Content = or_Content r, bf_Encoding = or_Encoding r,
      bf_ContentIdentity = outboxRecordContentIdentity r, bf_WritebackIntent = '''', bf_IfMatch = or_ExpectedRevision r\<rparr>"

definition outboxRecordsAsBulkFiles :: "outboxRecord list \<Rightarrow> BulkWriteFile list" where
  "outboxRecordsAsBulkFiles rs = map outboxRecordAsBulkFile rs"

definition hasSymlinkBulkWrite :: "BulkWriteFile list \<Rightarrow> bool" where
  "hasSymlinkBulkWrite files \<longleftrightarrow> list_ex (\<lambda>f. normalizeRemoteType (bf_Type f) = ''symlink'') files"

text \<open>The size of a request, kept up to date record by record; \<open>enc\<close> is the JSON encoder of a file, which may fail.\<close>

record bulkWriteRequestSizer =
  sz_count :: nat
  sz_itemBytes :: nat
  sz_invalid :: bool

definition empty_sizer :: bulkWriteRequestSizer where
  "empty_sizer = \<lparr>sz_count = 0, sz_itemBytes = 0, sz_invalid = False\<rparr>"

definition sizer_add :: "string option \<Rightarrow> bulkWriteRequestSizer \<Rightarrow> bulkWriteRequestSizer" where
  "sizer_add e z = z\<lparr>sz_invalid := (sz_invalid z \<or> e = None), sz_count := sz_count z + 1,
                     sz_itemBytes := sz_itemBytes z + (case e of None \<Rightarrow> 0 | Some data \<Rightarrow> length data)\<rparr>"

definition sizer_size :: "bulkWriteRequestSizer \<Rightarrow> nat" where
  "sizer_size z = (if sz_invalid z \<or> sz_count z = 0 then 0 else 12 + sz_itemBytes z + (sz_count z - 1))"

fun chunk_loop :: "(BulkWriteFile \<Rightarrow> string option) \<Rightarrow> int \<Rightarrow> outboxRecord list list \<Rightarrow> outboxRecord list \<Rightarrow> bulkWriteRequestSizer \<Rightarrow> outboxRecord list \<Rightarrow> outboxRecord list list" where
  "chunk_loop enc maxBytes chunks current z [] = (if current \<noteq> [] then chunks @ [current] else chunks)"
| "chunk_loop enc maxBytes chunks current z (r # rs) =
     (let e = enc (outboxRecordAsBulkFile r)
      in if current \<noteq> [] \<and> int (sizer_size (sizer_add e z)) > maxBytes
         then chunk_loop enc maxBytes (chunks @ [current]) [r] (sizer_add e empty_sizer) rs
         else chunk_loop enc maxBytes chunks (current @ [r]) (sizer_add e z) rs)"

definition chunkOutboxRecords :: "(BulkWriteFile \<Rightarrow> string option) \<Rightarrow> outboxRecord list \<Rightarrow> int \<Rightarrow> outboxRecord list list" where
  "chunkOutboxRecords enc records maxBytes =
     (if records = [] then [] else if maxBytes \<le> 0 then [records] else chunk_loop enc maxBytes [] [] empty_sizer records)"

section \<open>Answers\<close>

text \<open>The errors of an answer as the client reads them, with the message as text.\<close>

record WriteError =
  we_Path :: string
  we_Code :: string
  we_Message :: string
  we_ExpectedRevision :: string
  we_CurrentRevision :: string

record MountBulkResponse =
  mr_Errors :: "WriteError list"
  mr_Results :: "BulkWriteResult list"
  mr_CorrelationID :: string

datatype write_outcome = OutcomeError cloud_error | AlreadyLanded | OutcomeHandled

text \<open>
  What the surroundings answer during a step: the operations of the server, its support of symbolic links (\<open>None\<close>: it cannot be
  asked), whether the local path of a record can be resolved, how a per-path error is handled (\<^verbatim>\<open>handleWriteError\<close>), whether the
  local state could take over an accepted write (\<^verbatim>\<open>reconcileBulkWrite\<close>), and the tracked revision of a path.
\<close>

record cloud =
  cl_operation :: "string \<Rightarrow> cloud_error + OperationStatus"
  cl_symlinks :: "cloud_error option option"
  cl_asPending :: "outboxRecord \<Rightarrow> cloud_error option"
  cl_writeError :: "outboxRecord \<Rightarrow> WriteError \<Rightarrow> write_outcome"
  cl_reconcile :: "outboxRecord \<Rightarrow> string \<Rightarrow> cloud_error option"
  cl_tracked :: "string \<Rightarrow> string"

definition cloud_failure :: "instant \<Rightarrow> cloud_error \<Rightarrow> outbox \<Rightarrow> outbox" where
  "cloud_failure now err ob = ob\<lparr>ob_circuit := map_option (recordCloudFailure now err) (ob_circuit ob)\<rparr>"

definition cloud_success :: "instant \<Rightarrow> outbox \<Rightarrow> outbox" where
  "cloud_success now ob = ob\<lparr>ob_circuit := map_option (RecordSuccess now) (ob_circuit ob)\<rparr>"

definition applyOutboxOperationResult :: "disk \<Rightarrow> instant \<Rightarrow> outboxRecord \<Rightarrow> cloud_error + OperationStatus \<Rightarrow> outbox \<Rightarrow> outbox \<times> outbox_error option" where
  "applyOutboxOperationResult dk now r answer ob =
     (case answer of
        Inl err \<Rightarrow>
          (case err of
             HTTPError code msg \<Rightarrow> if code = 404 then scheduleOutboxReceiptPoll dk now r err ob
                                    else incrementOutboxAttempt dk now r err (cloud_failure now err ob)
           | TransportError msg \<Rightarrow> incrementOutboxAttempt dk now r err (cloud_failure now err ob))
      | Inr oper \<Rightarrow>
          let ob = cloud_success now ob;
              status = (if TrimSpace (op_Status oper) = '''' then ''pending'' else TrimSpace (op_Status oper));
              r = r\<lparr>or_DispatchStatus := status\<rparr>;
              r = (if TrimSpace (op_OpID oper) \<noteq> '''' then r\<lparr>or_OpID := TrimSpace (op_OpID oper)\<rparr> else r);
              note = ''writeback op '' @ or_OpID r @ '' status '' @ status
          in if status = ''succeeded'' then
               ackOutboxRecord dk now r (if TrimSpace (or_Revision r) = '''' then TrimSpace (op_Revision oper) else TrimSpace (or_Revision r))
                 (or_CorrelationID r) ob
             else if status = ''failed'' \<or> status = ''dead_lettered'' \<or> status = ''canceled'' then
               let reason = (case op_LastError oper of Some e \<Rightarrow> if TrimSpace e \<noteq> '''' then TrimSpace e else note | None \<Rightarrow> note)
               in case failOutboxRecordNeedsAttention dk r reason ob of (ob, Some e) \<Rightarrow> (ob, Some e) | (ob, None) \<Rightarrow> (ob, Some (Reason reason))
             else if status = ''pending'' \<or> status = ''running'' \<or> status = ''queued'' then
               saveOutboxRecord dk (r\<lparr>or_ReceiptPollCount := 0, or_LastError := '''', or_NextAttemptAt := ''''\<rparr>) ob
             else saveOutboxRecord dk (r\<lparr>or_LastError := note\<rparr>) ob)"

definition settleOutboxRecord :: "disk \<Rightarrow> cloud \<Rightarrow> instant \<Rightarrow> outboxRecord \<Rightarrow> outbox \<Rightarrow> outbox \<times> outbox_error option" where
  "settleOutboxRecord dk cl now r ob = applyOutboxOperationResult dk now r (cl_operation cl (or_OpID r)) ob"

definition isPendingWritebackState :: "string \<Rightarrow> bool" where
  "isPendingWritebackState state \<longleftrightarrow> ToLower (TrimSpace state) \<in> {''pending'', ''queued'', ''running''}"

text \<open>A receipt polled in the background, applied to the record as it is then.\<close>

definition receipt_arrives :: "disk \<Rightarrow> cloud \<Rightarrow> instant \<Rightarrow> outboxRecord \<Rightarrow> outbox \<Rightarrow> outbox" where
  "receipt_arrives dk cl now r ob =
     (if TrimSpace (or_OpID r) = '''' then ob
      else case map_of (ob_pending ob) (or_CommandID r) of
        None \<Rightarrow> ob
      | Some stored \<Rightarrow>
          if dk_readFails dk (or_CommandID r) then ob
          else let current = readOutboxRecord stored; opID = TrimSpace (or_OpID r)
               in if TrimSpace (or_OpID current) \<noteq> opID then ob
                  else fst (applyOutboxOperationResult dk now current (cl_operation cl opID) ob))"

section \<open>Flushing\<close>

fun prepare_loop :: "disk \<Rightarrow> cloud \<Rightarrow> instant \<Rightarrow> bool \<Rightarrow> outboxRecord list \<Rightarrow> outboxRecord list \<Rightarrow> outbox_error option \<Rightarrow> outbox \<Rightarrow> outbox \<times> outboxRecord list \<times> outbox_error option" where
  "prepare_loop dk cl now settle [] upload firstErr ob = (ob, upload, firstErr)"
| "prepare_loop dk cl now settle (r # rs) upload firstErr ob =
     (if isMountRuntimeRemotePath (or_RemotePath r) then
        (case skipOutboxRecord dk now r ''skipped_control_path'' ob of
           (ob, e) \<Rightarrow> prepare_loop dk cl now settle rs upload (first_error firstErr e) ob)
      else if TrimSpace (or_OpID r) \<noteq> '''' then
        (if settle then (case settleOutboxRecord dk cl now r ob of
                           (ob, e) \<Rightarrow> prepare_loop dk cl now settle rs upload (first_error firstErr e) ob)
         else prepare_loop dk cl now settle rs upload firstErr ob)
      else prepare_loop dk cl now settle rs (upload @ [r]) firstErr ob)"

fun increment_all :: "disk \<Rightarrow> instant \<Rightarrow> cloud_error \<Rightarrow> outboxRecord list \<Rightarrow> outbox_error option \<Rightarrow> outbox \<Rightarrow> outbox \<times> outbox_error option" where
  "increment_all dk now err [] firstErr ob = (ob, firstErr)"
| "increment_all dk now err (r # rs) firstErr ob =
     (case incrementOutboxAttempt dk now r err ob of (ob, e) \<Rightarrow> increment_all dk now err rs (first_error firstErr e) ob)"

text \<open>The result is the records to upload with the first error so far, or the final result of the chunk.\<close>

definition prepareOutboxChunkUpload :: "disk \<Rightarrow> cloud \<Rightarrow> instant \<Rightarrow> bool \<Rightarrow> outboxRecord list \<Rightarrow> outbox \<Rightarrow>
    outbox \<times> (outbox_error option + outboxRecord list \<times> outbox_error option)" where
  "prepareOutboxChunkUpload dk cl now settle records ob =
     (case prepare_loop dk cl now settle records [] None ob of
        (ob, upload, firstErr) \<Rightarrow>
          if upload = [] then (ob, Inl firstErr)
          else if \<not> hasSymlinkBulkWrite (outboxRecordsAsBulkFiles upload) then (ob, Inr (upload, firstErr))
          else (case cl_symlinks cl of
                  None \<Rightarrow> (ob, Inl (Some SymlinkUnsupported))
                | Some None \<Rightarrow> (ob, Inr (upload, firstErr))
                | Some (Some err) \<Rightarrow>
                    (case increment_all dk now err upload firstErr ob of
                       (ob, e) \<Rightarrow> (ob, Inl (first_error e (Some (CloudError err)))))))"

definition errorsByPath :: "MountBulkResponse \<Rightarrow> (string, WriteError) gomap" where
  "errorsByPath response = fold (\<lambda>e. mput (NormalizePath (we_Path e)) e) (mr_Errors response) []"

definition resultsByPath :: "MountBulkResponse \<Rightarrow> (string, BulkWriteResult) gomap" where
  "resultsByPath response =
     fold (\<lambda>res. mput (NormalizePath (br_Path res))
                   (res\<lparr>br_Path := NormalizePath (br_Path res), br_Revision := TrimSpace (br_Revision res), br_ContentType := TrimSpace (br_ContentType res)\<rparr>))
       (mr_Results response) []"

text \<open>What the answer adds to an accepted record: the revision (the tracked one when the answer has none), the correlation id, the
  operation to wait for and its state.\<close>

definition result_revision :: "MountBulkResponse \<Rightarrow> outboxRecord \<Rightarrow> string" where
  "result_revision response r = (case map_of (resultsByPath response) (or_RemotePath r) of None \<Rightarrow> '''' | Some res \<Rightarrow> br_Revision res)"

definition note_result :: "cloud \<Rightarrow> MountBulkResponse \<Rightarrow> outboxRecord \<Rightarrow> outboxRecord" where
  "note_result cl response r =
     (let path = or_RemotePath r; result = map_of (resultsByPath response) path; revision = result_revision response r;
          r = r\<lparr>or_Revision := (if TrimSpace revision = '''' then cl_tracked cl path else revision)\<rparr>;
          r = (if TrimSpace (mr_CorrelationID response) \<noteq> '''' then r\<lparr>or_CorrelationID := TrimSpace (mr_CorrelationID response)\<rparr> else r);
          r = r\<lparr>or_OpID := (case result of None \<Rightarrow> '''' | Some res \<Rightarrow> TrimSpace (br_OpID res))\<rparr>
      in case result of
           None \<Rightarrow> r
         | Some res \<Rightarrow> (case br_Writeback res of None \<Rightarrow> r | Some (prov, state) \<Rightarrow> r\<lparr>or_DispatchStatus := TrimSpace state\<rparr>))"

text \<open>One accepted record: it waits for its operation, or is acknowledged at once when the server gave none; the list is the receipts
  left to the background.  An error of saving it stops here only when it is the first of the chunk.\<close>

definition accept_record :: "disk \<Rightarrow> cloud \<Rightarrow> instant \<Rightarrow> bool \<Rightarrow> MountBulkResponse \<Rightarrow> outbox_error option \<Rightarrow> outboxRecord \<Rightarrow> outbox \<Rightarrow> outbox \<times> outbox_error option \<times> outboxRecord list" where
  "accept_record dk cl now settle response firstErr r ob =
     (case cl_reconcile cl r (result_revision response r) of
        Some err \<Rightarrow> (case incrementOutboxAttempt dk now r err ob of (ob, e) \<Rightarrow> (ob, first_error e (Some (CloudError err)), []))
      | None \<Rightarrow>
          let r = note_result cl response r
          in if or_OpID r = '''' then
               (case ackOutboxRecord dk now r (or_Revision r) (mr_CorrelationID response) ob of (ob, e) \<Rightarrow> (ob, e, []))
             else case saveOutboxRecord dk r ob of
                    (ob, saveErr) \<Rightarrow>
                      if saveErr \<noteq> None \<and> firstErr = None then (ob, saveErr, [])
                      else if \<not> settle \<and> isPendingWritebackState (or_DispatchStatus r) then (ob, None, [r])
                      else (case settleOutboxRecord dk cl now r ob of (ob, e) \<Rightarrow> (ob, e, [])))"

definition apply_record :: "disk \<Rightarrow> cloud \<Rightarrow> instant \<Rightarrow> bool \<Rightarrow> MountBulkResponse \<Rightarrow> outbox_error option \<Rightarrow> outboxRecord \<Rightarrow> outbox \<Rightarrow> outbox \<times> outbox_error option \<times> outboxRecord list" where
  "apply_record dk cl now settle response firstErr r ob =
     (case cl_asPending cl r of
        Some err \<Rightarrow> (ob, Some (CloudError err), [])
      | None \<Rightarrow>
          (case map_of (errorsByPath response) (or_RemotePath r) of
             Some writeErr \<Rightarrow>
               (case cl_writeError cl r writeErr of
                  OutcomeError err \<Rightarrow> (case incrementOutboxAttempt dk now r err ob of (ob, e) \<Rightarrow> (ob, Some (CloudError err), []))
                | AlreadyLanded \<Rightarrow>
                    let r = r\<lparr>or_Revision := cl_tracked cl (or_RemotePath r)\<rparr>
                    in (case ackOutboxRecord dk now r (or_Revision r) (mr_CorrelationID response) ob of (ob, e) \<Rightarrow> (ob, e, []))
                | OutcomeHandled \<Rightarrow> (case failOutboxRecord dk r (we_Message writeErr) ob of (ob, e) \<Rightarrow> (ob, e, [])))
           | None \<Rightarrow> accept_record dk cl now settle response firstErr r ob))"

fun apply_loop :: "disk \<Rightarrow> cloud \<Rightarrow> instant \<Rightarrow> bool \<Rightarrow> MountBulkResponse \<Rightarrow> outboxRecord list \<Rightarrow> outbox_error option \<Rightarrow> outboxRecord list \<Rightarrow> outbox \<Rightarrow>
    outbox \<times> outbox_error option \<times> outboxRecord list" where
  "apply_loop dk cl now settle response [] firstErr deferred ob = (ob, firstErr, deferred)"
| "apply_loop dk cl now settle response (r # rs) firstErr deferred ob =
     (case apply_record dk cl now settle response firstErr r ob of
        (ob, e, ds) \<Rightarrow> apply_loop dk cl now settle response rs (first_error firstErr e) (deferred @ ds) ob)"

text \<open>A transport error stops at the first attempt that cannot be recorded.\<close>

fun increment_until :: "disk \<Rightarrow> instant \<Rightarrow> cloud_error \<Rightarrow> outboxRecord list \<Rightarrow> outbox \<Rightarrow> outbox \<times> outbox_error option" where
  "increment_until dk now err [] ob = (ob, Some (CloudError err))"
| "increment_until dk now err (r # rs) ob =
     (case incrementOutboxAttempt dk now r err ob of (ob, Some e) \<Rightarrow> (ob, Some e) | (ob, None) \<Rightarrow> increment_until dk now err rs ob)"

definition applyOutboxChunkResponse :: "disk \<Rightarrow> cloud \<Rightarrow> instant \<Rightarrow> bool \<Rightarrow> outboxRecord list \<Rightarrow> outbox_error option \<Rightarrow> cloud_error + MountBulkResponse \<Rightarrow> outbox \<Rightarrow>
    outbox \<times> outbox_error option \<times> outboxRecord list" where
  "applyOutboxChunkResponse dk cl now settle upload firstErr answer ob =
     (case answer of
        Inl err \<Rightarrow> (case increment_until dk now err upload (cloud_failure now err ob) of (ob, e) \<Rightarrow> (ob, e, []))
      | Inr response \<Rightarrow> apply_loop dk cl now settle response upload firstErr [] (cloud_success now ob))"

text \<open>Which of the records are due, after the bookkeeping on each.\<close>

fun select_due :: "disk \<Rightarrow> bool \<Rightarrow> instant \<Rightarrow> outboxRecord list \<Rightarrow> outboxRecord list \<Rightarrow> outbox \<Rightarrow> outbox \<times> (outbox_error + outboxRecord list)" where
  "select_due dk force now [] due ob = (ob, Inr due)"
| "select_due dk force now (r # rs) due ob =
     (case migrateLegacyMissingReceipt r of
        (r, migrated) \<Rightarrow>
          (case (if migrated then saveOutboxRecord dk r ob else (ob, None)) of
             (ob, Some e) \<Rightarrow> (ob, Inl e)
           | (ob, None) \<Rightarrow>
               let tired = (or_AttemptCount r \<ge> maxOutboxAttemptsValue ob \<and> \<not> or_NeedsAttention r);
                   r = (if tired then r\<lparr>or_NeedsAttention := True\<rparr> else r)
               in case (if tired then saveOutboxRecord dk r ob else (ob, None)) of
                    (ob, Some e) \<Rightarrow> (ob, Inl e)
                  | (ob, None) \<Rightarrow>
                      if force \<and> \<not> or_NeedsAttention r \<and> or_AttemptCount r < maxOutboxAttemptsValue ob \<or> outboxDue ob r now
                      then select_due dk force now rs (due @ [r]) ob
                      else select_due dk force now rs due ob))"

definition circuit_open :: "instant \<Rightarrow> outbox \<Rightarrow> outbox \<times> bool" where
  "circuit_open now ob =
     (case ob_circuit ob of None \<Rightarrow> (ob, False) | Some c \<Rightarrow> (case IsOpen now c of (c, b) \<Rightarrow> (ob\<lparr>ob_circuit := Some c\<rparr>, b)))"

text \<open>One chunk, and the chunks one after the other up to the first error (\<open>bulk\<close> is the answer of the server to a request): the serial
  loop of the code.  When several requests are in flight the code prepares and applies them in the same order, one at a time, and
  applies what is in flight even after an error; sequences of \<open>prepareOutboxChunkUpload\<close> and \<open>applyOutboxChunkResponse\<close> cover this.\<close>

definition flushOutboxRecordChunk :: "disk \<Rightarrow> cloud \<Rightarrow> (BulkWriteFile list \<Rightarrow> cloud_error + MountBulkResponse) \<Rightarrow> instant \<Rightarrow> bool \<Rightarrow> outboxRecord list \<Rightarrow> outbox \<Rightarrow>
    outbox \<times> outbox_error option \<times> outboxRecord list" where
  "flushOutboxRecordChunk dk cl bulk now settle records ob =
     (case prepareOutboxChunkUpload dk cl now settle records ob of
        (ob, Inl e) \<Rightarrow> (ob, e, [])
      | (ob, Inr (upload, firstErr)) \<Rightarrow>
          applyOutboxChunkResponse dk cl now settle upload firstErr (bulk (outboxRecordsAsBulkFiles upload)) ob)"

fun flushOutboxChunks :: "disk \<Rightarrow> cloud \<Rightarrow> (BulkWriteFile list \<Rightarrow> cloud_error + MountBulkResponse) \<Rightarrow> instant \<Rightarrow> bool \<Rightarrow> outboxRecord list list \<Rightarrow> outboxRecord list \<Rightarrow> outbox \<Rightarrow>
    outbox \<times> outbox_error option \<times> outboxRecord list" where
  "flushOutboxChunks dk cl bulk now settle [] deferred ob = (ob, None, deferred)"
| "flushOutboxChunks dk cl bulk now settle (chunk # chunks) deferred ob =
     (case flushOutboxRecordChunk dk cl bulk now settle chunk ob of
        (ob, Some e, ds) \<Rightarrow> (ob, Some e, deferred @ ds)
      | (ob, None, ds) \<Rightarrow> flushOutboxChunks dk cl bulk now settle chunks (deferred @ ds) ob)"

definition flushSelectedOutboxRecords :: "disk \<Rightarrow> cloud \<Rightarrow> (BulkWriteFile list \<Rightarrow> cloud_error + MountBulkResponse) \<Rightarrow> (BulkWriteFile \<Rightarrow> string option) \<Rightarrow> int \<Rightarrow>
    instant \<Rightarrow> bool \<Rightarrow> bool \<Rightarrow> outboxRecord list \<Rightarrow> outbox \<Rightarrow> outbox \<times> outbox_error option \<times> outboxRecord list" where
  "flushSelectedOutboxRecords dk cl bulk enc maxBatch now force settle records ob =
     (case select_due dk force now records [] ob of
        (ob, Inl e) \<Rightarrow> (ob, Some e, [])
      | (ob, Inr due) \<Rightarrow> flushOutboxChunks dk cl bulk now settle (chunkOutboxRecords enc due maxBatch) [] ob)"

definition flushOutboxRecords :: "disk \<Rightarrow> cloud \<Rightarrow> (BulkWriteFile list \<Rightarrow> cloud_error + MountBulkResponse) \<Rightarrow> (BulkWriteFile \<Rightarrow> string option) \<Rightarrow> int \<Rightarrow>
    instant \<Rightarrow> bool \<Rightarrow> bool \<Rightarrow> outbox \<Rightarrow> outbox \<times> outbox_error option \<times> outboxRecord list" where
  "flushOutboxRecords dk cl bulk enc maxBatch now force settle ob =
     (if ob_pullOnly ob then (ob, None, [])
      else case circuit_open now ob of
             (ob, True) \<Rightarrow> (ob, None, [])
           | (ob, False) \<Rightarrow>
               (case listPendingOutboxRecords dk ob of
                  Inl e \<Rightarrow> (ob, Some e, [])
                | Inr records \<Rightarrow> flushSelectedOutboxRecords dk cl bulk enc maxBatch now force settle records ob))"

fun ensure_all :: "disk \<Rightarrow> instant \<Rightarrow> pendingBulkWrite list \<Rightarrow> outboxRecord list \<Rightarrow> outbox \<Rightarrow> outbox \<times> (outbox_error + outboxRecord list)" where
  "ensure_all dk now [] records ob = (ob, Inr records)"
| "ensure_all dk now (pw # pws) records ob =
     (case ensureOutboxRecord dk now pw ob of
        (ob, Inl e) \<Rightarrow> (ob, Inl e)
      | (ob, Inr r) \<Rightarrow> ensure_all dk now pws (records @ [r]) ob)"

definition flushPendingBulkWritesWithReceiptMode :: "disk \<Rightarrow> cloud \<Rightarrow> (BulkWriteFile list \<Rightarrow> cloud_error + MountBulkResponse) \<Rightarrow> (BulkWriteFile \<Rightarrow> string option) \<Rightarrow> int \<Rightarrow>
    instant \<Rightarrow> bool \<Rightarrow> pendingBulkWrite list \<Rightarrow> outbox \<Rightarrow> outbox \<times> outbox_error option \<times> outboxRecord list" where
  "flushPendingBulkWritesWithReceiptMode dk cl bulk enc maxBatch now settle pending ob =
     (if pending = [] then (ob, None, [])
      else case circuit_open now ob of
             (ob, True) \<Rightarrow> (ob, None, [])
           | (ob, False) \<Rightarrow>
               (case ensure_all dk now pending [] ob of
                  (ob, Inl e) \<Rightarrow> (ob, Some e, [])
                | (ob, Inr records) \<Rightarrow> flushSelectedOutboxRecords dk cl bulk enc maxBatch now False settle records ob))"

record outboxSummary =
  os_Pending :: nat
  os_NeedsAttention :: nat
  os_Failed :: nat
  os_Acked :: nat

definition summarizeOutbox :: "disk \<Rightarrow> outbox \<Rightarrow> outboxSummary" where
  "summarizeOutbox dk ob =
     (let pending = (case listPendingOutboxRecords dk ob of Inl e \<Rightarrow> [] | Inr records \<Rightarrow> records);
          tired = filter (\<lambda>r. or_NeedsAttention r \<or> or_AttemptCount r \<ge> maxOutboxAttemptsValue ob) pending
      in \<lparr>os_Pending = length pending, os_NeedsAttention = length tired + (if dk_listFails dk then 0 else length (ob_attention ob)),
          os_Failed = (if dk_listFails dk then 0 else length (ob_failed ob)), os_Acked = (if dk_listFails dk then 0 else length (ob_acked ob))\<rparr>)"

section \<open>Backoff\<close>

lemma backoff_loop_eq: "0 < delay \<Longrightarrow> delay < outboxBackoffMax \<Longrightarrow> backoff_loop k delay = min outboxBackoffMax (delay * 2 ^ k)"
proof (induction k arbitrary: delay)
  case (Suc k)
  show ?case
  proof (cases "delay * 2 \<ge> outboxBackoffMax")
    case True
    have "delay * 2 \<le> delay * 2 ^ Suc k" using Suc.prems by simp
    then have "outboxBackoffMax \<le> delay * 2 ^ Suc k" using True by linarith
    then show ?thesis using True by (simp add: min_def)
  next
    case False
    then have "backoff_loop k (delay * 2) = min outboxBackoffMax (delay * 2 * 2 ^ k)" using Suc.prems by (intro Suc.IH) auto
    then show ?thesis using False by (simp add: ac_simps)
  qed
qed simp

text \<open>The delay before the next attempt doubles from half a second and is capped at thirty seconds: for every count of attempts it
  is exactly the smaller of the two, so it never overflows and never exceeds the cap.\<close>

theorem outboxBackoff_exact: "outboxBackoff n = min outboxBackoffMax (outboxBackoffBase * 2 ^ nat (n - 1))"
  using backoff_loop_eq [of outboxBackoffBase "nat (n - 1)"]
  by (simp add: outboxBackoff_def outboxBackoffBase_def outboxBackoffMax_def Second_def min_def)

section \<open>Chunks\<close>

text \<open>The request body of some files: the reference the sizer reproduces.\<close>

definition bulkWriteRequestSize :: "(BulkWriteFile \<Rightarrow> string option) \<Rightarrow> BulkWriteFile list \<Rightarrow> nat" where
  "bulkWriteRequestSize enc files =
     (if list_all (\<lambda>f. enc f \<noteq> None) files
      then length (''{\"files\":['' @ Join (map (\<lambda>f. the (enc f)) files) '','' @ '']}'') else 0)"

definition sizer_of :: "(BulkWriteFile \<Rightarrow> string option) \<Rightarrow> outboxRecord list \<Rightarrow> bulkWriteRequestSizer" where
  "sizer_of enc rs = fold (\<lambda>r. sizer_add (enc (outboxRecordAsBulkFile r))) rs empty_sizer"

lemma length_Join: "xs \<noteq> [] \<Longrightarrow> length (Join xs [c]) = sum_list (map length xs) + (length xs - 1)"
proof (induction xs)
  case (Cons x xs)
  then show ?case by (cases xs) auto
qed simp

lemma sizer_of_fields:
  "sz_count (sizer_of enc rs) = length rs" "sz_invalid (sizer_of enc rs) \<longleftrightarrow> (\<exists>r \<in> set rs. enc (outboxRecordAsBulkFile r) = None)"
  "sz_itemBytes (sizer_of enc rs) = sum_list (map (\<lambda>r. case enc (outboxRecordAsBulkFile r) of None \<Rightarrow> 0 | Some d \<Rightarrow> length d) rs)"
  by (induction rs rule: rev_induct) (auto simp: sizer_of_def empty_sizer_def sizer_add_def)

lemma sizer_exact:
  assumes "rs \<noteq> []"
  shows "sizer_size (sizer_of enc rs) = bulkWriteRequestSize enc (outboxRecordsAsBulkFiles rs)"
proof (cases "\<exists>r \<in> set rs. enc (outboxRecordAsBulkFile r) = None")
  case True
  then show ?thesis by (auto simp: sizer_size_def sizer_of_fields bulkWriteRequestSize_def outboxRecordsAsBulkFiles_def list_all_iff)
next
  case False
  then have "sum_list (map (\<lambda>r. case enc (outboxRecordAsBulkFile r) of None \<Rightarrow> 0 | Some d \<Rightarrow> length d) rs) =
      sum_list (map (length \<circ> (the \<circ> (enc \<circ> outboxRecordAsBulkFile))) rs)"
    by (intro arg_cong [of _ _ sum_list] map_cong) (auto split: option.splits)
  moreover have "length (Join (map (\<lambda>f. the (enc f)) (outboxRecordsAsBulkFiles rs)) '','') =
      sum_list (map (length \<circ> (the \<circ> (enc \<circ> outboxRecordAsBulkFile))) rs) + (length rs - 1)"
    using assms length_Join [of "map (\<lambda>f. the (enc f)) (outboxRecordsAsBulkFiles rs)" "CHR '',''"]
    by (simp add: outboxRecordsAsBulkFiles_def o_def)
  ultimately show ?thesis
    using False assms by (auto simp: sizer_size_def sizer_of_fields bulkWriteRequestSize_def outboxRecordsAsBulkFiles_def list_all_iff o_def)
qed

text \<open>The loop that measures the whole request at every record.\<close>

fun measured_loop :: "(BulkWriteFile \<Rightarrow> string option) \<Rightarrow> int \<Rightarrow> outboxRecord list list \<Rightarrow> outboxRecord list \<Rightarrow> outboxRecord list \<Rightarrow> outboxRecord list list" where
  "measured_loop enc maxBytes chunks current [] = (if current \<noteq> [] then chunks @ [current] else chunks)"
| "measured_loop enc maxBytes chunks current (r # rs) =
     (if current \<noteq> [] \<and> int (bulkWriteRequestSize enc (outboxRecordsAsBulkFiles (current @ [r]))) > maxBytes
      then measured_loop enc maxBytes (chunks @ [current]) [r] rs
      else measured_loop enc maxBytes chunks (current @ [r]) rs)"

lemma sizer_of_snoc: "sizer_add (enc (outboxRecordAsBulkFile r)) (sizer_of enc rs) = sizer_of enc (rs @ [r])"
  by (simp add: sizer_of_def)

lemma chunk_loop_measured: "chunk_loop enc maxBytes chunks current (sizer_of enc current) rs = measured_loop enc maxBytes chunks current rs"
proof (induction rs arbitrary: chunks current)
  case (Cons r rs)
  have "sizer_add (enc (outboxRecordAsBulkFile r)) empty_sizer = sizer_of enc [r]" by (simp add: sizer_of_def)
  then show ?case using Cons by (simp add: Let_def sizer_of_snoc sizer_exact)
qed simp

lemma measured_concat: "concat (measured_loop enc maxBytes chunks current rs) = concat chunks @ current @ rs"
  by (induction rs arbitrary: chunks current) auto

lemma measured_fits:
  assumes "\<forall>c \<in> set chunks. length c = 1 \<or> int (bulkWriteRequestSize enc (outboxRecordsAsBulkFiles c)) \<le> maxBytes"
    and "current = [] \<or> length current = 1 \<or> int (bulkWriteRequestSize enc (outboxRecordsAsBulkFiles current)) \<le> maxBytes"
    and "c \<in> set (measured_loop enc maxBytes chunks current rs)"
  shows "length c = 1 \<or> int (bulkWriteRequestSize enc (outboxRecordsAsBulkFiles c)) \<le> maxBytes"
  using assms
proof (induction rs arbitrary: chunks current)
  case Nil
  then show ?case by (auto split: if_splits)
next
  case (Cons r rs)
  show ?case
  proof (cases "current \<noteq> [] \<and> int (bulkWriteRequestSize enc (outboxRecordsAsBulkFiles (current @ [r]))) > maxBytes")
    case True
    then have "c \<in> set (measured_loop enc maxBytes (chunks @ [current]) [r] rs)" using Cons.prems(3) by simp
    moreover have "\<forall>c \<in> set (chunks @ [current]). length c = 1 \<or> int (bulkWriteRequestSize enc (outboxRecordsAsBulkFiles c)) \<le> maxBytes"
      using Cons.prems(1,2) True by auto
    ultimately show ?thesis using Cons.IH [of "chunks @ [current]" "[r]"] by simp
  next
    case False
    then have "c \<in> set (measured_loop enc maxBytes chunks (current @ [r]) rs)" using Cons.prems(3) by auto
    moreover have "current @ [r] = [] \<or> length (current @ [r]) = 1 \<or> int (bulkWriteRequestSize enc (outboxRecordsAsBulkFiles (current @ [r]))) \<le> maxBytes"
      using False by auto
    ultimately show ?thesis using Cons.IH [OF Cons.prems(1)] by blast
  qed
qed

lemma chunks_measured: "maxBytes > 0 \<Longrightarrow> chunkOutboxRecords enc records maxBytes = measured_loop enc maxBytes [] [] records"
  using chunk_loop_measured [of enc maxBytes "[]" "[]" records] by (auto simp: chunkOutboxRecords_def sizer_of_def)

lemma chunks_concat: "concat (chunkOutboxRecords enc records maxBytes) = records"
  using chunks_measured [of maxBytes enc records] measured_concat [of enc maxBytes "[]" "[]" records]
  by (cases "maxBytes > 0") (auto simp: chunkOutboxRecords_def)

text \<open>Cutting the outbox into requests by an incremental size count gives exactly the requests that measuring the encoded body at
  every record would give, whatever the encoder: every record is in one chunk, in order, and a chunk of more than one record fits the
  limit.\<close>

theorem chunks_exact:
  assumes "maxBytes > 0"
  shows "chunkOutboxRecords enc records maxBytes = measured_loop enc maxBytes [] [] records
    \<and> concat (chunkOutboxRecords enc records maxBytes) = records
    \<and> (\<forall>c \<in> set (chunkOutboxRecords enc records maxBytes). length c = 1 \<or> int (bulkWriteRequestSize enc (outboxRecordsAsBulkFiles c)) \<le> maxBytes)"
  using chunks_measured [OF assms, of enc records] chunks_concat [of enc records maxBytes] measured_fits [of "[]" enc maxBytes "[]" _ records] by auto

theorem chunks_exact_witness:
  "(17 :: int) > 0 \<and> (\<forall>r. chunkOutboxRecords (\<lambda>_. Some ''{}'') [r, r, r] 17 = [[r, r], [r]])
     \<and> (\<forall>r. measured_loop (\<lambda>_. Some ''{}'') 17 [] [] [r, r, r] = [[r, r], [r]])"
  using chunks_exact [of 17 "\<lambda>_. Some ''{}''"]
  by (simp add: bulkWriteRequestSize_def outboxRecordsAsBulkFiles_def chunkOutboxRecords_def sizer_size_def sizer_add_def empty_sizer_def)

end
