(* ===== verification/OutboxCorrect.thy ===== *)
theory OutboxCorrect
  imports Outbox FeedsCorrect Authz
begin

text \<open>
  What the outbox guarantees whatever the disk does.

  The locale \<open>outbox_invariant\<close> is the interface of a property of outboxes: it is kept by the primitive moves of a record (saving it
  as pending, acknowledging it, failing it, loading the index), and the records it knows of may be used again.  Every operation of
  \<open>Outbox\<close>, whole flushes included, then keeps it.  \<open>kept\<close> is the instance: records are what they were when the command was made,
  each accepted command is in one of the three directories, and the index names the pending commands of every path.
\<close>

section \<open>The interface\<close>

text \<open>The part of a record that does not change: all but the bookkeeping of attempts and receipts.\<close>

definition command :: "outboxRecord \<Rightarrow> outboxRecord" where
  "command r = r\<lparr>or_Status := '''', or_LastAttemptAt := '''', or_NextAttemptAt := '''', or_AttemptCount := 0, or_ReceiptPollCount := 0,
     or_LastError := '''', or_NeedsAttention := False, or_OpID := '''', or_DispatchStatus := '''', or_AckedAt := '''', or_Revision := '''',
     or_CorrelationID := ''''\<rparr>"

lemma payload_bookkeeping [simp]:
  "command (r\<lparr>or_Status := x\<rparr>) = command r" "command (r\<lparr>or_LastAttemptAt := x\<rparr>) = command r" "command (r\<lparr>or_NextAttemptAt := x\<rparr>) = command r"
  "command (r\<lparr>or_AttemptCount := n\<rparr>) = command r" "command (r\<lparr>or_ReceiptPollCount := n\<rparr>) = command r" "command (r\<lparr>or_LastError := x\<rparr>) = command r"
  "command (r\<lparr>or_NeedsAttention := b\<rparr>) = command r" "command (r\<lparr>or_OpID := x\<rparr>) = command r" "command (r\<lparr>or_DispatchStatus := x\<rparr>) = command r"
  "command (r\<lparr>or_AckedAt := x\<rparr>) = command r" "command (r\<lparr>or_Revision := x\<rparr>) = command r" "command (r\<lparr>or_CorrelationID := x\<rparr>) = command r"
  by (simp_all add: command_def)

lemma payload_fields [simp]:
  "or_CommandID (command r) = or_CommandID r" "or_RemotePath (command r) = or_RemotePath r" "or_WorkspaceID (command r) = or_WorkspaceID r"
  "or_ContentType (command r) = or_ContentType r" "or_Encoding (command r) = or_Encoding r" "or_Type (command r) = or_Type r"
  "or_Hash (command r) = or_Hash r"
  by (simp_all add: command_def)

lemma fst_then: "fst (case x of (ob, None) \<Rightarrow> (ob, a) | (ob, Some e) \<Rightarrow> (ob, b e)) = fst x"
  by (simp split: prod.splits option.splits)

locale outbox_invariant =
  fixes I :: "outbox \<Rightarrow> bool" and P :: "outboxRecord \<Rightarrow> bool" and w :: string
  assumes P_payload: "P r \<Longrightarrow> command r' = command r \<Longrightarrow> P r'"
    and I_workspace: "I ob \<Longrightarrow> ob_workspace ob = w"
    and I_circuit: "I ob \<Longrightarrow> I (ob\<lparr>ob_circuit := c\<rparr>)"
    and I_save: "I ob \<Longrightarrow> P r \<Longrightarrow> I (fst (saveOutboxRecord dk r ob))"
    and I_acked: "I ob \<Longrightarrow> P r \<Longrightarrow> I (fst (write_acked dk r ob))"
    and I_failed: "I ob \<Longrightarrow> P r \<Longrightarrow> I (fst (saveFailedOutboxRecord dk r reason ob))"
    and I_load: "I ob \<Longrightarrow> I (fst (ensurePendingOutboxIndex dk ob))"
    and P_listed: "I ob \<Longrightarrow> listPendingOutboxRecords dk ob = Inr rs \<Longrightarrow> r \<in> set rs \<Longrightarrow> P r"
    and P_indexed: "I ob \<Longrightarrow> (i, r) \<in> set (mget_or [] (ob_byPath ob) p) \<Longrightarrow> P r"
    and P_pending: "I ob \<Longrightarrow> map_of (ob_pending ob) i = Some r \<Longrightarrow> P (readOutboxRecord r)"
begin

lemma P_update:
  assumes "P r"
  shows "P (r\<lparr>or_Status := x\<rparr>)" "P (r\<lparr>or_LastAttemptAt := x\<rparr>)" "P (r\<lparr>or_NextAttemptAt := x\<rparr>)" "P (r\<lparr>or_AttemptCount := n\<rparr>)"
    "P (r\<lparr>or_ReceiptPollCount := n\<rparr>)" "P (r\<lparr>or_LastError := x\<rparr>)" "P (r\<lparr>or_NeedsAttention := b\<rparr>)" "P (r\<lparr>or_OpID := x\<rparr>)"
    "P (r\<lparr>or_DispatchStatus := x\<rparr>)" "P (r\<lparr>or_AckedAt := x\<rparr>)" "P (r\<lparr>or_Revision := x\<rparr>)" "P (r\<lparr>or_CorrelationID := x\<rparr>)"
  using P_payload [OF assms] by simp_all

lemma I_ack: "I ob \<Longrightarrow> P r \<Longrightarrow> I (fst (ackOutboxRecord dk now r revision corr ob))"
  by (auto simp: ackOutboxRecord_def Let_def intro!: I_acked P_update)

lemma I_skip: "I ob \<Longrightarrow> P r \<Longrightarrow> I (fst (skipOutboxRecord dk now r reason ob))"
  by (auto simp: skipOutboxRecord_def intro!: I_acked P_update)

lemma I_fail: "I ob \<Longrightarrow> P r \<Longrightarrow> I (fst (failOutboxRecord dk r reason ob))"
  by (auto simp: failOutboxRecord_def intro!: I_failed P_update)

lemma I_fail_attention: "I ob \<Longrightarrow> P r \<Longrightarrow> I (fst (failOutboxRecordNeedsAttention dk r reason ob))"
  by (auto simp: failOutboxRecordNeedsAttention_def intro!: I_failed P_update)

lemma I_increment: "I ob \<Longrightarrow> P r \<Longrightarrow> I (fst (incrementOutboxAttempt dk now r err ob))"
  by (auto simp: incrementOutboxAttempt_def Let_def intro!: I_save P_update)

lemma I_poll: "I ob \<Longrightarrow> P r \<Longrightarrow> I (fst (scheduleOutboxReceiptPoll dk now r err ob))"
  by (auto simp: scheduleOutboxReceiptPoll_def Let_def intro!: I_save P_update)

lemma I_cloud: "I ob \<Longrightarrow> I (cloud_failure now err ob)" "I ob \<Longrightarrow> I (cloud_success now ob)" "I ob \<Longrightarrow> I (fst (circuit_open now ob))"
  by (auto simp: cloud_failure_def cloud_success_def circuit_open_def I_circuit split: option.splits prod.splits)

lemma I_answer:
  assumes "I ob" and "P r"
  shows "I (fst (applyOutboxOperationResult dk now r answer ob))"
proof (cases answer)
  case (Inl err)
  then show ?thesis using assms by (cases err) (auto simp: applyOutboxOperationResult_def intro: I_poll I_increment I_cloud)
next
  case (Inr oper)
  define ob1 where "ob1 = cloud_success now ob"
  define status where "status = (if TrimSpace (op_Status oper) = '''' then ''pending'' else TrimSpace (op_Status oper))"
  define r1 where "r1 = (let r = r\<lparr>or_DispatchStatus := status\<rparr> in if TrimSpace (op_OpID oper) \<noteq> '''' then r\<lparr>or_OpID := TrimSpace (op_OpID oper)\<rparr> else r)"
  have "P r1" using assms(2) by (auto simp: r1_def Let_def intro!: P_update)
  moreover have "I ob1" using assms(1) by (simp add: ob1_def I_cloud)
  moreover have "P (r1\<lparr>or_ReceiptPollCount := 0, or_LastError := '''', or_NextAttemptAt := ''''\<rparr>)" "P (r1\<lparr>or_LastError := x\<rparr>)" for x
    using \<open>P r1\<close> by (intro P_update; assumption)+
  ultimately show ?thesis
    unfolding Inr applyOutboxOperationResult_def sum.case Let_def [where s = "cloud_success now ob"] ob1_def [symmetric] status_def [symmetric]
    unfolding Let_def [where s = status] r1_def [unfolded Let_def, symmetric] Let_def
    by (simp only: if_distrib [of fst] fst_then) (simp add: I_ack I_save I_fail_attention)
qed

lemma I_receipt: "I ob \<Longrightarrow> I (receipt_arrives dk cl now r ob)"
  using P_pending by (auto simp: receipt_arrives_def Let_def intro!: I_answer split: option.splits)

lemma I_settle: "I ob \<Longrightarrow> P r \<Longrightarrow> I (fst (settleOutboxRecord dk cl now r ob))"
  by (simp add: settleOutboxRecord_def I_answer)

lemma I_prepare_loop:
  "prepare_loop dk cl now settle rs upload firstErr ob = (ob', upload', e) \<Longrightarrow> I ob \<Longrightarrow> (\<forall>r \<in> set rs \<union> set upload. P r) \<Longrightarrow>
     I ob' \<and> (\<forall>r \<in> set upload'. P r)"
proof (induction rs arbitrary: upload firstErr ob)
  case (Cons r rs)
  obtain ob1 e1 where skip: "skipOutboxRecord dk now r ''skipped_control_path'' ob = (ob1, e1)" by fastforce
  obtain ob2 e2 where settle: "settleOutboxRecord dk cl now r ob = (ob2, e2)" by fastforce
  have "I ob1" "I ob2" using Cons.prems I_skip [of ob r] I_settle [of ob r] skip settle by (metis fst_conv UnI1 list.set_intros(1))+
  then show ?case using Cons.prems Cons.IH [of upload _ ob1] Cons.IH [of upload _ ob2] Cons.IH [of upload _ ob] Cons.IH [of "upload @ [r]" _ ob]
    by (simp add: skip settle split: if_splits)
qed simp

lemma I_increment_all: "I ob \<Longrightarrow> (\<forall>r \<in> set rs. P r) \<Longrightarrow> I (fst (increment_all dk now err rs firstErr ob))"
proof (induction rs arbitrary: firstErr ob)
  case (Cons r rs)
  then have "I (fst (incrementOutboxAttempt dk now r err ob))" by (simp add: I_increment)
  then show ?case using Cons by (cases "incrementOutboxAttempt dk now r err ob") simp
qed simp

lemma I_increment_until: "I ob \<Longrightarrow> (\<forall>r \<in> set rs. P r) \<Longrightarrow> I (fst (increment_until dk now err rs ob))"
proof (induction rs arbitrary: ob)
  case (Cons r rs)
  then have "I (fst (incrementOutboxAttempt dk now r err ob))" by (simp add: I_increment)
  then show ?case using Cons by (cases "incrementOutboxAttempt dk now r err ob") (simp split: option.splits)
qed simp

lemma I_prepare:
  assumes "prepareOutboxChunkUpload dk cl now settle rs ob = (ob', res)" and "I ob" and "\<forall>r \<in> set rs. P r"
  shows "I ob' \<and> (\<forall>upload e. res = Inr (upload, e) \<longrightarrow> (\<forall>r \<in> set upload. P r))"
proof -
  obtain ob1 upload e where loop: "prepare_loop dk cl now settle rs [] None ob = (ob1, upload, e)" by (metis prod_cases3)
  from I_prepare_loop [OF this assms(2)] assms(3) have "I ob1" "\<forall>r \<in> set upload. P r" by auto
  moreover from this have "increment_all dk now err upload e ob1 = (ob2, e2) \<Longrightarrow> I ob2" for err ob2 e2
    using I_increment_all [of ob1 upload dk now err e] by auto
  ultimately show ?thesis
    using assms(1) by (auto simp: prepareOutboxChunkUpload_def loop split: if_splits option.splits prod.splits)
qed

lemma I_accept:
  assumes "I ob" and "P r"
  shows "I (fst (accept_record dk cl now settle response fe r ob)) \<and> (\<forall>d \<in> set (snd (snd (accept_record dk cl now settle response fe r ob))). P d)"
proof -
  let ?r = "note_result cl response r"
  have r: "P ?r" using assms(2) by (auto simp: note_result_def Let_def intro!: P_update split: option.splits)
  obtain ob1 e1 where ack: "ackOutboxRecord dk now ?r (or_Revision ?r) (mr_CorrelationID response) ob = (ob1, e1)" by fastforce
  obtain ob2 e2 where save: "saveOutboxRecord dk ?r ob = (ob2, e2)" by fastforce
  have I: "I ob1" "I ob2" using I_ack [OF assms(1) r] I_save [OF assms(1) r] ack save by (metis fst_conv)+
  have "I ob3" if "settleOutboxRecord dk cl now ?r ob2 = (ob3, e3)" for ob3 e3 using I_settle [OF I(2) r] that by (metis fst_conv)
  moreover have "I ob3" if "incrementOutboxAttempt dk now r err ob = (ob3, e3)" for err ob3 e3 using I_increment [OF assms] that by (metis fst_conv)
  ultimately show ?thesis using I r
    by (simp add: accept_record_def Let_def ack save split: option.splits prod.splits)
qed

lemma I_apply_record:
  assumes "I ob" and "P r" and res: "apply_record dk cl now settle response fe r ob = (ob', e, ds)"
  shows "I ob' \<and> (\<forall>d \<in> set ds. P d)"
proof -
  let ?r = "r\<lparr>or_Revision := cl_tracked cl (or_RemotePath r)\<rparr>"
  have "I (fst (incrementOutboxAttempt dk now r err ob))" "I (fst (ackOutboxRecord dk now ?r x y ob))" "I (fst (failOutboxRecord dk r x ob))" for err x y
    using assms(1,2) by (auto intro!: I_increment I_ack I_fail P_update)
  then show ?thesis
    using I_accept [OF assms(1,2), of dk cl now settle response fe] res assms(1)
    by (auto simp: apply_record_def Let_def split: option.splits write_outcome.splits prod.splits) (metis fst_conv)+
qed

lemma I_apply_loop:
  "apply_loop dk cl now settle response rs firstErr deferred ob = (ob', e, ds) \<Longrightarrow> I ob \<Longrightarrow> \<forall>r \<in> set rs \<union> set deferred. P r \<Longrightarrow>
     I ob' \<and> (\<forall>d \<in> set ds. P d)"
proof (induction rs arbitrary: firstErr deferred ob)
  case (Cons r rs)
  obtain ob1 e1 ds1 where step: "apply_record dk cl now settle response firstErr r ob = (ob1, e1, ds1)" by (metis prod_cases3)
  have "I ob1 \<and> (\<forall>d \<in> set ds1. P d)" using I_apply_record [OF Cons.prems(2) _ step] Cons.prems(3) by simp
  then show ?case using Cons.prems Cons.IH [of "first_error firstErr e1" "deferred @ ds1" ob1] by (auto simp: step)
qed simp

lemma I_apply:
  assumes "applyOutboxChunkResponse dk cl now settle upload firstErr answer ob = (ob', e, ds)" and "I ob" and "\<forall>r \<in> set upload. P r"
  shows "I ob' \<and> (\<forall>d \<in> set ds. P d)"
proof (cases answer)
  case (Inl err)
  then show ?thesis using assms(1) I_increment_until [OF I_cloud(1) [OF assms(2), of now err] assms(3), of dk now err]
    by (auto simp: applyOutboxChunkResponse_def split: prod.splits)
next
  case (Inr response)
  then show ?thesis using assms(1,3) I_apply_loop [OF _ I_cloud(2) [OF assms(2)]] by (simp add: applyOutboxChunkResponse_def)
qed

lemma I_chunk:
  assumes "flushOutboxRecordChunk dk cl bulk now settle rs ob = (ob', e, ds)" and "I ob" and "\<forall>r \<in> set rs. P r"
  shows "I ob' \<and> (\<forall>d \<in> set ds. P d)"
proof -
  obtain ob1 res where prep: "prepareOutboxChunkUpload dk cl now settle rs ob = (ob1, res)" by fastforce
  from I_prepare [OF this assms(2,3)] have I: "I ob1" "\<And>upload e. res = Inr (upload, e) \<Longrightarrow> \<forall>r \<in> set upload. P r" by auto
  show ?thesis
  proof (cases res)
    case (Inl e1)
    then show ?thesis using assms(1) I(1) by (auto simp: flushOutboxRecordChunk_def prep)
  next
    case (Inr ue)
    obtain upload e1 where "ue = (upload, e1)" by fastforce
    then show ?thesis using assms(1) Inr I_apply [OF _ I(1)] I(2) by (simp add: flushOutboxRecordChunk_def prep)
  qed
qed

lemma I_chunks:
  "flushOutboxChunks dk cl bulk now settle chunks deferred ob = (ob', e, ds) \<Longrightarrow> I ob \<Longrightarrow> \<forall>r \<in> set (concat chunks) \<union> set deferred. P r \<Longrightarrow>
     I ob' \<and> (\<forall>d \<in> set ds. P d)"
proof (induction chunks arbitrary: deferred ob)
  case (Cons chunk chunks)
  obtain ob1 e1 ds1 where step: "flushOutboxRecordChunk dk cl bulk now settle chunk ob = (ob1, e1, ds1)" by (metis prod_cases3)
  have "I ob1 \<and> (\<forall>d \<in> set ds1. P d)" using I_chunk [OF step Cons.prems(2)] Cons.prems(3) by simp
  then show ?case using Cons.prems Cons.IH [of "deferred @ ds1" ob1] by (auto simp: step split: option.splits)
qed simp

lemma I_select:
  "select_due dk force now rs due ob = (ob', res) \<Longrightarrow> I ob \<Longrightarrow> \<forall>r \<in> set rs \<union> set due. P r \<Longrightarrow>
     I ob' \<and> (\<forall>due'. res = Inr due' \<longrightarrow> (\<forall>r \<in> set due'. P r))"
proof (induction rs arbitrary: due ob)
  case (Cons r rs)
  obtain r1 m where mig: "migrateLegacyMissingReceipt r = (r1, m)" by fastforce
  have r1: "P r1" using mig Cons.prems(3) by (auto simp: migrateLegacyMissingReceipt_def intro!: P_update split: if_splits)
  obtain ob1 e1 where save1: "(if m then saveOutboxRecord dk r1 ob else (ob, None)) = (ob1, e1)" by fastforce
  have ob1: "I ob1" using save1 I_save [OF Cons.prems(2) r1, of dk] Cons.prems(2) by (auto split: if_splits)
  define tired where "tired = (or_AttemptCount r1 \<ge> maxOutboxAttemptsValue ob1 \<and> \<not> or_NeedsAttention r1)"
  define r2 where "r2 = (if tired then r1\<lparr>or_NeedsAttention := True\<rparr> else r1)"
  have r2: "P r2" using r1 by (simp add: r2_def P_update)
  obtain ob2 e2 where save2: "(if tired then saveOutboxRecord dk r2 ob1 else (ob1, None)) = (ob2, e2)" by fastforce
  have ob2: "I ob2" using save2 I_save [OF ob1 r2, of dk] ob1 by (auto split: if_splits)
  have "select_due dk force now (r # rs) due ob = (case e1 of Some e \<Rightarrow> (ob1, Inl e) | None \<Rightarrow> (case e2 of Some e \<Rightarrow> (ob2, Inl e)
      | None \<Rightarrow> if force \<and> \<not> or_NeedsAttention r2 \<and> or_AttemptCount r2 < maxOutboxAttemptsValue ob2 \<or> outboxDue ob2 r2 now
                then select_due dk force now rs (due @ [r2]) ob2 else select_due dk force now rs due ob2))"
    unfolding select_due.simps mig prod.case save1 Let_def tired_def [symmetric] r2_def [symmetric] save2 by (simp split: option.splits)
  then show ?case using Cons.prems ob1 ob2 r2 Cons.IH [of "due @ [r2]" ob2] Cons.IH [of due ob2]
    by (simp split: option.splits if_splits) blast+
qed auto

lemma I_flush_selected:
  assumes "flushSelectedOutboxRecords dk cl bulk enc maxBatch now force settle rs ob = (ob', e, ds)" and "I ob" and "\<forall>r \<in> set rs. P r"
  shows "I ob' \<and> (\<forall>d \<in> set ds. P d)"
proof -
  obtain ob1 res where sel: "select_due dk force now rs [] ob = (ob1, res)" by fastforce
  from I_select [OF this assms(2)] assms(3) have I: "I ob1" "\<And>due. res = Inr due \<Longrightarrow> \<forall>r \<in> set due. P r" by auto
  show ?thesis
  proof (cases res)
    case (Inl e1)
    then show ?thesis using assms(1) I(1) by (auto simp: flushSelectedOutboxRecords_def sel)
  next
    case (Inr due)
    then have "flushOutboxChunks dk cl bulk now settle (chunkOutboxRecords enc due maxBatch) [] ob1 = (ob', e, ds)"
      using assms(1) by (simp add: flushSelectedOutboxRecords_def sel)
    from I_chunks [OF this I(1)] I(2) [OF Inr] show ?thesis unfolding chunks_concat by simp
  qed
qed

lemma I_flush:
  assumes "I ob"
  shows "I (fst (flushOutboxRecords dk cl bulk enc maxBatch now force settle ob))"
proof -
  obtain ob1 b where circ: "circuit_open now ob = (ob1, b)" by fastforce
  have "I ob1" using I_cloud(3) [OF assms, of now] circ by simp
  moreover have "I (fst (flushSelectedOutboxRecords dk cl bulk enc maxBatch now force settle rs ob1))"
    if "listPendingOutboxRecords dk ob1 = Inr rs" for rs
    using I_flush_selected [OF _ \<open>I ob1\<close>] P_listed [OF \<open>I ob1\<close> that] by (metis prod_cases3 fst_conv)
  ultimately show ?thesis using assms by (auto simp: flushOutboxRecords_def circ split: sum.splits bool.splits)
qed

lemma I_find:
  assumes "findPendingOutboxByPath dk p ob = (ob', res)" and "I ob"
  shows "I ob' \<and> (\<forall>rs. res = Inr rs \<longrightarrow> (\<forall>r \<in> set rs. P r))"
proof -
  obtain ob1 e1 where load: "ensurePendingOutboxIndex dk ob = (ob1, e1)" by fastforce
  have I: "I ob1" using I_load [OF assms(2), of dk] load by simp
  show ?thesis using assms(1) I P_indexed [OF I]
    by (auto simp: findPendingOutboxByPath_def load sortOutboxRecords_def split: option.splits)
qed

lemma I_supersede:
  "supersede_loop dk now pw rs ob = (ob', res) \<Longrightarrow> I ob \<Longrightarrow> \<forall>r \<in> set rs. P r \<Longrightarrow> I ob' \<and> (\<forall>r. res = Inr (Some r) \<longrightarrow> P r)"
proof (induction rs arbitrary: ob)
  case (Cons r rs)
  obtain ob1 e1 where skip: "skipOutboxRecord dk now r ''superseded_by_newer_local_content'' ob = (ob1, e1)" by fastforce
  have "I ob1" using I_skip [OF Cons.prems(2), of r dk now "''superseded_by_newer_local_content''"] Cons.prems(3) skip by simp
  then show ?case using Cons by (auto simp: skip split: if_splits option.splits)
qed auto

lemma I_ensure:
  assumes "ensureOutboxRecord dk now pw ob = (ob', res)" and "I ob" and "P (new_record w now pw)"
  shows "I ob' \<and> (\<forall>r. res = Inr r \<longrightarrow> P r)"
proof -
  obtain ob1 res1 where find: "findPendingOutboxByPath dk (pw_remotePath pw) ob = (ob1, res1)" by fastforce
  from I_find [OF this assms(2)] have I1: "I ob1" "\<And>rs. res1 = Inr rs \<Longrightarrow> \<forall>r \<in> set rs. P r" by auto
  show ?thesis
  proof (cases res1)
    case (Inl e)
    then show ?thesis using assms(1) I1(1) by (auto simp: ensureOutboxRecord_def find)
  next
    case (Inr rs)
    obtain ob2 res2 where loop: "supersede_loop dk now pw rs ob1 = (ob2, res2)" by fastforce
    from I_supersede [OF this I1(1)] I1(2) [OF Inr] have I2: "I ob2" "\<And>r. res2 = Inr (Some r) \<Longrightarrow> P r" by auto
    have "I (fst (saveOutboxRecord dk (new_record w now pw) ob2))" using I_save [OF I2(1) assms(3)] .
    then show ?thesis using assms(1,3) I2 I_workspace [OF I2(1)]
      by (auto simp: ensureOutboxRecord_def find Inr loop Let_def split: sum.splits option.splits prod.splits)
  qed
qed

lemma I_ensure_all:
  "ensure_all dk now pws rs ob = (ob', res) \<Longrightarrow> I ob \<Longrightarrow> \<forall>r \<in> set rs. P r \<Longrightarrow> \<forall>pw \<in> set pws. P (new_record w now pw) \<Longrightarrow>
     I ob' \<and> (\<forall>rs'. res = Inr rs' \<longrightarrow> (\<forall>r \<in> set rs'. P r))"
proof (induction pws arbitrary: rs ob)
  case (Cons pw pws)
  obtain ob1 res1 where step: "ensureOutboxRecord dk now pw ob = (ob1, res1)" by fastforce
  from I_ensure [OF this Cons.prems(2)] Cons.prems(4) have "I ob1" "\<And>r. res1 = Inr r \<Longrightarrow> P r" by auto
  then show ?case
  proof (cases res1)
    case (Inr r)
    then have "\<forall>x \<in> set (rs @ [r]). P x" using Cons.prems(3) \<open>\<And>r. res1 = Inr r \<Longrightarrow> P r\<close> by auto
    then show ?thesis using Cons.IH [of "rs @ [r]" ob1] Cons.prems(1,4) \<open>I ob1\<close> Inr by (simp add: step)
  qed (use Cons.prems(1) in \<open>auto simp: step\<close>)
qed auto

end

section \<open>The instance\<close>

text \<open>
  \<open>G\<close> is the history: what each command was when it was made.  A record is \<open>mine\<close> when reading it back changes nothing of its payload and
  the history has it.  The directories hold such records under their own ids; the ids of \<open>D\<close> are in one of the directories; the index
  has no command that is not pending, and when it has been loaded, all that are.
\<close>

type_synonym history = "string \<rightharpoonup> outboxRecord"

definition tidy :: "outboxRecord \<Rightarrow> bool" where
  "tidy r \<longleftrightarrow> command (readOutboxRecord r) = command r \<and> or_CommandID r \<noteq> '''' \<and> or_RemotePath r \<noteq> ''/''"

definition mine :: "history \<Rightarrow> outboxRecord \<Rightarrow> bool" where
  "mine G r \<longleftrightarrow> tidy r \<and> G (or_CommandID r) = Some (command r)"

definition filed :: "history \<Rightarrow> (string, outboxRecord) gomap \<Rightarrow> bool" where
  "filed G m \<longleftrightarrow> (\<forall>(i, r) \<in> set m. or_CommandID r = i \<and> mine G r)"

definition held :: "outbox \<Rightarrow> string set" where
  "held ob = fst ` set (ob_pending ob) \<union> fst ` set (ob_acked ob) \<union> fst ` set (ob_failed ob)"

definition pending_at :: "history \<Rightarrow> outbox \<Rightarrow> string \<Rightarrow> string set" where
  "pending_at G ob p = {i \<in> fst ` set (ob_pending ob). map_option or_RemotePath (G i) = Some p}"

definition indexed_at :: "outbox \<Rightarrow> string \<Rightarrow> string set" where
  "indexed_at ob p = fst ` set (mget_or [] (ob_byPath ob) p)"

definition kept :: "history \<Rightarrow> string set \<Rightarrow> string \<Rightarrow> outbox \<Rightarrow> bool" where
  "kept G D w ob \<longleftrightarrow> ob_workspace ob = w \<and> filed G (ob_pending ob) \<and> filed G (ob_acked ob) \<and> filed G (ob_failed ob)
     \<and> (\<forall>(i, r) \<in> set (ob_pending ob). or_Status r = ''pending'')
     \<and> (\<forall>p. filed G (mget_or [] (ob_byPath ob) p)) \<and> D \<subseteq> held ob
     \<and> (\<forall>p. indexed_at ob p \<subseteq> pending_at G ob p \<and> (ob_loaded ob \<longrightarrow> indexed_at ob p = pending_at G ob p))"

lemma payload_read:
  "command (readOutboxRecord r) = command (r\<lparr>or_RemotePath := NormalizePath (or_RemotePath r), or_CommandID := TrimSpace (or_CommandID r),
     or_WorkspaceID := TrimSpace (or_WorkspaceID r), or_ContentType := TrimSpace (or_ContentType r), or_Encoding := mountEncoding (or_Encoding r),
     or_Type := normalizeRemoteType (or_Type r), or_Hash := TrimSpace (or_Hash r)\<rparr>)"
  by (simp add: readOutboxRecord_def Let_def command_def)

lemma tidy_iff:
  "tidy r \<longleftrightarrow> NormalizePath (or_RemotePath r) = or_RemotePath r \<and> TrimSpace (or_CommandID r) = or_CommandID r
     \<and> TrimSpace (or_WorkspaceID r) = or_WorkspaceID r \<and> TrimSpace (or_ContentType r) = or_ContentType r \<and> mountEncoding (or_Encoding r) = or_Encoding r
     \<and> normalizeRemoteType (or_Type r) = or_Type r \<and> TrimSpace (or_Hash r) = or_Hash r \<and> or_CommandID r \<noteq> '''' \<and> or_RemotePath r \<noteq> ''/''"
  unfolding tidy_def payload_read by (cases r) (auto simp: command_def)

lemma tidy_payload: "command r' = command r \<Longrightarrow> tidy r' \<longleftrightarrow> tidy r"
  unfolding tidy_iff by (metis payload_fields)

lemma mine_payload: "mine G r \<Longrightarrow> command r' = command r \<Longrightarrow> mine G r'"
  unfolding mine_def using tidy_payload by (metis payload_fields(1))

lemma mine_read: "mine G r \<Longrightarrow> mine G (readOutboxRecord r)"
  by (rule mine_payload) (auto simp: mine_def tidy_def)

lemma mine_fields:
  assumes "mine G r"
  shows "NormalizePath (or_RemotePath r) = or_RemotePath r" "TrimSpace (or_CommandID r) = or_CommandID r" "or_CommandID r \<noteq> ''''"
    "or_RemotePath r \<noteq> ''/''" "map_option or_RemotePath (G (or_CommandID r)) = Some (or_RemotePath r)"
  using assms by (auto simp: mine_def tidy_iff)

lemma filed_mput: "filed G m \<Longrightarrow> mine G r \<Longrightarrow> filed G (mput (or_CommandID r) r m)"
  by (auto simp: filed_def dest!: mem_mput)

lemma filed_mdel: "filed G m \<Longrightarrow> filed G (mdel i m)"
  by (auto simp: filed_def mem_mdel)

lemma keys_mput: "fst ` set (mput k v m) = insert k (fst ` set m)"
  by (simp add: AList.dom_update)

lemma keys_mdel: "fst ` set (mdel k m) = fst ` set m - {k}"
  by (force simp: mem_mdel image_iff)

lemma cache_mine:
  assumes "mine G r"
  shows "cachePendingOutboxRecordLocked r ob =
    ob\<lparr>ob_byPath := mput (or_RemotePath r) (mput (or_CommandID r) r (mget_or [] (ob_byPath ob) (or_RemotePath r))) (ob_byPath ob)\<rparr>"
  using mine_fields [OF assms] by (simp add: cachePendingOutboxRecordLocked_def Let_def)

lemma uncache_at:
  assumes "mine G r"
  shows "mget_or [] (ob_byPath (removePendingOutboxRecordFromCache r ob)) p =
      (if p = or_RemotePath r then mdel (or_CommandID r) (mget_or [] (ob_byPath ob) p) else mget_or [] (ob_byPath ob) p)"
  using mine_fields [OF assms] by (auto simp: removePendingOutboxRecordFromCache_def Let_def gomap_simps)

lemma uncache_simps [simp]:
  "ob_pending (removePendingOutboxRecordFromCache r ob) = ob_pending ob" "ob_acked (removePendingOutboxRecordFromCache r ob) = ob_acked ob"
  "ob_failed (removePendingOutboxRecordFromCache r ob) = ob_failed ob" "ob_loaded (removePendingOutboxRecordFromCache r ob) = ob_loaded ob"
  "ob_workspace (removePendingOutboxRecordFromCache r ob) = ob_workspace ob"
  by (simp_all add: removePendingOutboxRecordFromCache_def Let_def)

lemma cache_simps [simp]:
  "ob_pending (cachePendingOutboxRecordLocked r ob) = ob_pending ob" "ob_acked (cachePendingOutboxRecordLocked r ob) = ob_acked ob"
  "ob_failed (cachePendingOutboxRecordLocked r ob) = ob_failed ob" "ob_loaded (cachePendingOutboxRecordLocked r ob) = ob_loaded ob"
  "ob_workspace (cachePendingOutboxRecordLocked r ob) = ob_workspace ob"
  by (simp_all add: cachePendingOutboxRecordLocked_def Let_def)

text \<open>The index and the pending commands of a path, after each move.\<close>

lemma indexed_cache:
  "mine G r \<Longrightarrow> indexed_at (cachePendingOutboxRecordLocked r ob) p = (if p = or_RemotePath r then insert (or_CommandID r) (indexed_at ob p) else indexed_at ob p)"
  by (simp add: cache_mine indexed_at_def gomap_simps keys_mput)

lemma indexed_uncache:
  "mine G r \<Longrightarrow> indexed_at (removePendingOutboxRecordFromCache r ob) p = (if p = or_RemotePath r then indexed_at ob p - {or_CommandID r} else indexed_at ob p)"
  by (simp add: uncache_at indexed_at_def keys_mdel)

lemma pending_put:
  "mine G r \<Longrightarrow> ob_pending ob' = mput (or_CommandID r) r (ob_pending ob) \<Longrightarrow>
     pending_at G ob' p = (if p = or_RemotePath r then insert (or_CommandID r) (pending_at G ob p) else pending_at G ob p)"
  using mine_fields(5) [of G r] by (auto simp: pending_at_def keys_mput)

lemma pending_del:
  "mine G r \<Longrightarrow> ob_pending ob' = mdel (or_CommandID r) (ob_pending ob) \<Longrightarrow>
     pending_at G ob' p = (if p = or_RemotePath r then pending_at G ob p - {or_CommandID r} else pending_at G ob p)"
  using mine_fields(5) [of G r] by (auto simp: pending_at_def keys_mdel)

lemma indexed_other: "ob_byPath ob' = ob_byPath ob \<Longrightarrow> indexed_at ob' p = indexed_at ob p"
  by (simp add: indexed_at_def)

lemma keptI:
  assumes "ob_workspace ob = w" "filed G (ob_pending ob)" "filed G (ob_acked ob)" "filed G (ob_failed ob)"
    "\<forall>(i, r) \<in> set (ob_pending ob). or_Status r = ''pending''" "\<And>p. filed G (mget_or [] (ob_byPath ob) p)" "D \<subseteq> held ob"
    "\<And>p. indexed_at ob p \<subseteq> pending_at G ob p" "\<And>p. ob_loaded ob \<Longrightarrow> pending_at G ob p \<subseteq> indexed_at ob p"
  shows "kept G D w ob"
  unfolding kept_def using assms by (simp add: subset_antisym)

lemma kept_put_pending:
  assumes kept: "kept G D w ob" and mine: "mine G r" and status: "or_Status r = ''pending''"
  shows "kept G (insert (or_CommandID r) D) w (cachePendingOutboxRecordLocked r (ob\<lparr>ob_pending := mput (or_CommandID r) r (ob_pending ob)\<rparr>))"
    (is "kept _ _ _ (cachePendingOutboxRecordLocked r ?ob)")
proof (rule keptI)
  fix p
  let ?ob' = "cachePendingOutboxRecordLocked r ?ob"
  have eqs: "indexed_at ?ob' p = (if p = or_RemotePath r then insert (or_CommandID r) (indexed_at ob p) else indexed_at ob p)"
    "pending_at G ?ob' p = (if p = or_RemotePath r then insert (or_CommandID r) (pending_at G ob p) else pending_at G ob p)"
    "ob_loaded ?ob' = ob_loaded ob"
    using mine by (simp_all add: indexed_cache indexed_other [of ?ob ob] pending_put [of G r ?ob' ob])
  show "indexed_at ?ob' p \<subseteq> pending_at G ?ob' p" unfolding eqs using kept by (auto simp: kept_def)
  show "pending_at G ?ob' p \<subseteq> indexed_at ?ob' p" if "ob_loaded ?ob'" using that kept unfolding eqs by (auto simp: kept_def)
  show "filed G (mget_or [] (ob_byPath ?ob') p)" using kept mine by (simp add: kept_def cache_mine gomap_simps filed_mput)
qed (use kept mine status in \<open>auto simp: kept_def held_def keys_mput filed_mput dest!: mem_mput\<close>)

lemma kept_drop_pending:
  assumes kept: "kept G D w ob" and mine: "mine G r" and moved: "or_CommandID r \<in> fst ` set (ob_acked ob) \<union> fst ` set (ob_failed ob)"
  shows "kept G D w (removePendingOutboxRecordFromCache r (ob\<lparr>ob_pending := mdel (or_CommandID r) (ob_pending ob)\<rparr>))"
    (is "kept _ _ _ (removePendingOutboxRecordFromCache r ?ob)")
proof (rule keptI)
  fix p
  let ?ob' = "removePendingOutboxRecordFromCache r ?ob"
  have eqs: "indexed_at ?ob' p = (if p = or_RemotePath r then indexed_at ob p - {or_CommandID r} else indexed_at ob p)"
    "pending_at G ?ob' p = (if p = or_RemotePath r then pending_at G ob p - {or_CommandID r} else pending_at G ob p)"
    "ob_loaded ?ob' = ob_loaded ob"
    using mine by (simp_all add: indexed_uncache indexed_other [of ?ob ob] pending_del [of G r ?ob' ob])
  show "indexed_at ?ob' p \<subseteq> pending_at G ?ob' p" unfolding eqs using kept by (auto simp: kept_def)
  show "pending_at G ?ob' p \<subseteq> indexed_at ?ob' p" if "ob_loaded ?ob'" using that kept unfolding eqs by (auto simp: kept_def)
  show "filed G (mget_or [] (ob_byPath ?ob') p)" using kept mine by (simp add: kept_def uncache_at filed_mdel)
qed (use kept moved in \<open>auto simp: kept_def held_def keys_mdel filed_mdel mem_mdel\<close>)

lemma kept_aside:
  assumes "kept G D w ob" and "ob_workspace ob' = ob_workspace ob" "ob_pending ob' = ob_pending ob" "ob_byPath ob' = ob_byPath ob"
    "ob_loaded ob' = ob_loaded ob" "filed G (ob_acked ob')" "filed G (ob_failed ob')" "held ob \<subseteq> held ob'"
  shows "kept G D w ob'"
  using assms by (auto simp: kept_def indexed_at_def pending_at_def)

lemma kept_save:
  assumes "kept G D w ob" and "mine G r"
  shows "kept G D w (fst (saveOutboxRecord dk r ob))"
    and "snd (saveOutboxRecord dk r ob) = None \<Longrightarrow> kept G (insert (or_CommandID r) D) w (fst (saveOutboxRecord dk r ob))"
proof -
  have "mine G (r\<lparr>or_Status := ''pending''\<rparr>)" using assms(2) by (rule mine_payload) simp
  from kept_put_pending [OF assms(1) this] have
    kept: "kept G (insert (or_CommandID r) D) w (cachePendingOutboxRecordLocked (r\<lparr>or_Status := ''pending''\<rparr>)
       (ob\<lparr>ob_pending := mput (or_CommandID r) (r\<lparr>or_Status := ''pending''\<rparr>) (ob_pending ob)\<rparr>))" by simp
  then show "kept G D w (fst (saveOutboxRecord dk r ob))" using assms(1) by (auto simp: saveOutboxRecord_def Let_def) (auto simp: kept_def)
  show "kept G (insert (or_CommandID r) D) w (fst (saveOutboxRecord dk r ob))" if "snd (saveOutboxRecord dk r ob) = None"
    using that kept by (auto simp: saveOutboxRecord_def Let_def split: if_splits)
qed

lemma kept_drop:
  assumes "kept G D w ob" and "mine G r" and "or_CommandID r \<in> fst ` set (ob_acked ob) \<union> fst ` set (ob_failed ob)"
  shows "kept G D w (fst (drop_pending dk r ob))"
  using assms kept_drop_pending [OF assms] by (simp add: drop_pending_def)

lemma drop_attention_parts [simp]: "kept G D w (fst (drop_attention dk r ob)) = kept G D w ob"
  "ob_acked (fst (drop_attention dk r ob)) = ob_acked ob" "ob_failed (fst (drop_attention dk r ob)) = ob_failed ob"
  by (simp_all add: drop_attention_def kept_def held_def indexed_at_def pending_at_def)

lemma fst_then_keep: "fst (case x of (ob, None) \<Rightarrow> f ob | (ob, Some e) \<Rightarrow> (ob, Some e)) = (if snd x = None then fst (f (fst x)) else fst x)"
  by (simp split: prod.splits option.splits)

lemma kept_acked:
  assumes "kept G D w ob" and "mine G r"
  shows "kept G D w (fst (write_acked dk r ob))"
proof -
  let ?ob = "ob\<lparr>ob_acked := mput (or_CommandID r) r (ob_acked ob)\<rparr>"
  have "kept G D w ?ob"
    by (rule kept_aside [OF assms(1)]) (use assms in \<open>auto simp: kept_def filed_mput held_def keys_mput\<close>)
  then have "kept G D w (fst (drop_pending dk r ?ob))" using assms(2) by (intro kept_drop) (simp_all add: keys_mput)
  then show ?thesis using assms(1) by (simp add: write_acked_def fst_then_keep)
qed

lemma kept_failed:
  assumes "kept G D w ob" and "mine G r"
  shows "kept G D w (fst (saveFailedOutboxRecord dk r reason ob))"
proof -
  let ?r = "r\<lparr>or_Status := ''failed'', or_LastError := TrimSpace reason, or_NextAttemptAt := ''''\<rparr>"
  have r: "mine G ?r" using assms(2) by (rule mine_payload) simp
  define ob1 where "ob1 = (if or_NeedsAttention r then ob\<lparr>ob_attention := List.insert (or_CommandID r) (ob_attention ob)\<rparr> else ob)"
  have ob1: "kept G D w ob1" by (rule kept_aside [OF assms(1)]) (use assms in \<open>auto simp: kept_def ob1_def held_def\<close>)
  define ob2 where "ob2 = ob1\<lparr>ob_failed := mput (or_CommandID r) ?r (ob_failed ob1)\<rparr>"
  have ob2: "kept G D w ob2"
    by (rule kept_aside [OF ob1]) (use ob1 r filed_mput [OF _ r] in \<open>auto simp: kept_def ob2_def held_def keys_mput\<close>)
  have key: "or_CommandID r \<in> fst ` set (ob_failed ob2)" by (simp add: ob2_def keys_mput)
  then have "kept G D w (fst (drop_pending dk ?r ob2))" "kept G D w (fst (drop_pending dk ?r (fst (drop_attention dk ?r ob2))))"
    using r ob2 by (intro kept_drop; simp)+
  moreover have "fst (saveFailedOutboxRecord dk r reason ob) \<in> {ob, ob1, fst (drop_attention dk ?r ob2), fst (drop_pending dk ?r ob2),
      fst (drop_pending dk ?r (fst (drop_attention dk ?r ob2)))}"
    by (simp add: saveFailedOutboxRecord_def Let_def fst_then_keep ob1_def ob2_def)
  ultimately show ?thesis using assms(1) ob1 ob2 by (elim insertE) simp_all
qed

lemma fold_cache:
  assumes "\<forall>r \<in> set rs. mine G r"
  shows "indexed_at (fold cachePendingOutboxRecordLocked rs ob) p = indexed_at ob p \<union> {or_CommandID r |r. r \<in> set rs \<and> or_RemotePath r = p}"
    and "(\<And>p. filed G (mget_or [] (ob_byPath ob) p)) \<Longrightarrow> filed G (mget_or [] (ob_byPath (fold cachePendingOutboxRecordLocked rs ob)) p)"
    and "ob_pending (fold cachePendingOutboxRecordLocked rs ob) = ob_pending ob" "ob_acked (fold cachePendingOutboxRecordLocked rs ob) = ob_acked ob"
    "ob_failed (fold cachePendingOutboxRecordLocked rs ob) = ob_failed ob" "ob_workspace (fold cachePendingOutboxRecordLocked rs ob) = ob_workspace ob"
  using assms
proof (induction rs arbitrary: ob)
  case (Cons r rs)
  { case 1 then show ?case using Cons.IH(1) by (auto simp: indexed_cache split: if_splits) }
  { case 2
    then have "filed G (mget_or [] (ob_byPath (cachePendingOutboxRecordLocked r ob)) p)" for p by (auto simp: cache_mine gomap_simps filed_mput)
    then show ?case using Cons.IH(2) 2 by simp }
  { case 3 then show ?case using Cons.IH by simp }
  { case 4 then show ?case using Cons.IH by simp }
  { case 5 then show ?case using Cons.IH by simp }
  { case 6 then show ?case using Cons.IH by simp }
qed simp_all

lemma kept_listed:
  assumes "kept G D w ob" and "listPendingOutboxRecords dk ob = Inr rs"
  shows "\<forall>r \<in> set rs. mine G r"
    and "{or_CommandID r |r. r \<in> set rs \<and> or_RemotePath r = p} = pending_at G ob p"
proof -
  have set: "set rs = readOutboxRecord ` snd ` {x \<in> set (ob_pending ob). or_Status (readOutboxRecord (snd x)) = ''pending''}"
    using assms(2) by (force simp: listPendingOutboxRecords_def sortOutboxRecords_def split: if_splits)
  have entry: "or_CommandID r = i \<and> mine G r \<and> or_Status (readOutboxRecord r) = ''pending''" if "(i, r) \<in> set (ob_pending ob)" for i r
    using assms(1) that by (auto simp: kept_def filed_def readOutboxRecord_def Let_def)
  have read: "or_CommandID (readOutboxRecord r) = or_CommandID r \<and> or_RemotePath (readOutboxRecord r) = or_RemotePath r" if "mine G r" for r
    using that unfolding mine_def tidy_def by (metis payload_fields(1,2))
  show "\<forall>r \<in> set rs. mine G r" unfolding set using entry by (auto intro: mine_read)
  have "{or_CommandID r |r. r \<in> set rs \<and> or_RemotePath r = p} = {i. \<exists>r. (i, r) \<in> set (ob_pending ob) \<and> or_RemotePath r = p}"
    unfolding set using entry read by (fastforce simp: image_iff)
  also have "\<dots> = pending_at G ob p"
  proof -
    have "map_option or_RemotePath (G i) = Some (or_RemotePath r)" if "(i, r) \<in> set (ob_pending ob)" for i r
      using entry [OF that] mine_fields(5) by blast
    then show ?thesis by (force simp: pending_at_def)
  qed
  finally show "{or_CommandID r |r. r \<in> set rs \<and> or_RemotePath r = p} = pending_at G ob p" .
qed

lemma kept_load:
  assumes "kept G D w ob"
  shows "kept G D w (fst (ensurePendingOutboxIndex dk ob))"
proof (cases "ob_loaded ob \<or> (\<exists>e. listPendingOutboxRecords dk ob = Inl e)")
  case False
  then obtain rs where rs: "listPendingOutboxRecords dk ob = Inr rs" by (meson sum.exhaust)
  note mine = kept_listed(1) [OF assms rs] and at = kept_listed(2) [OF assms rs]
  let ?ob = "(fold cachePendingOutboxRecordLocked rs ob)\<lparr>ob_loaded := True\<rparr>"
  have idx: "indexed_at ?ob p = pending_at G ?ob p" for p
  proof -
    have "indexed_at ?ob p = indexed_at ob p \<union> pending_at G ob p"
      using fold_cache(1) [OF mine, of ob p] at [of p] by (simp add: indexed_at_def)
    moreover have "indexed_at ob p \<subseteq> pending_at G ob p" using assms by (simp add: kept_def)
    ultimately show ?thesis using fold_cache(3) [OF mine] by (auto simp: pending_at_def)
  qed
  have "kept G D w ?ob"
    by (rule keptI) (use assms idx fold_cache [OF mine] in \<open>auto simp: kept_def held_def\<close>)
  then show ?thesis using False by (simp add: ensurePendingOutboxIndex_def rs)
qed (use assms in \<open>auto simp: ensurePendingOutboxIndex_def\<close>)

interpretation kp: outbox_invariant "kept G D w" "mine G" w for G D w
proof
  fix ob c
  show "kept G D w ob \<Longrightarrow> kept G D w (ob\<lparr>ob_circuit := c\<rparr>)"
    by (rule kept_aside [of G D w ob]) (auto simp: kept_def held_def)
next
  fix ob i r p
  show "kept G D w ob \<Longrightarrow> (i, r) \<in> set (mget_or [] (ob_byPath ob) p) \<Longrightarrow> mine G r"
    by (auto simp: kept_def filed_def)
  show "kept G D w ob \<Longrightarrow> map_of (ob_pending ob) i = Some r \<Longrightarrow> mine G (readOutboxRecord r)"
    by (auto simp: kept_def filed_def dest!: map_of_SomeD intro!: mine_read)
next
  fix ob
  show "kept G D w ob \<Longrightarrow> ob_workspace ob = w" by (simp add: kept_def)
qed (erule (1) mine_payload, erule (1) kept_save(1), erule (1) kept_acked, erule (1) kept_failed, erule kept_load, use kept_listed(1) in blast)

section \<open>New commands are tidy\<close>

lemma hex_digit_printable: "n < 16 \<Longrightarrow> 32 < (of_char (hex_digit n) :: nat) \<and> (of_char (hex_digit n) :: nat) < 128"
  by (auto simp: hex_digit_def)

lemma sha256_printable: "c \<in> set (sha256_hex s) \<Longrightarrow> 32 < (of_char c :: nat) \<and> (of_char c :: nat) < 128"
  using hex_digit_printable by (auto simp: sha256_hex_def hex_word_def)

lemma newOutboxCommandID_trim: "TrimSpace (newOutboxCommandID ws path hash ts) = newOutboxCommandID ws path hash ts"
proof -
  obtain d where d: "newOutboxCommandID ws path hash ts = ''mountcmd_'' @ d" "\<forall>c \<in> set d. 32 < (of_char c :: nat) \<and> (of_char c :: nat) < 128"
    using sha256_printable by (auto simp: newOutboxCommandID_def dest: in_set_takeD)
  show ?thesis unfolding d(1) by (rule TrimSpace_printable) (use d(2) in \<open>auto simp: last_append\<close>)
qed

lemma lower_in_spaces: "q \<in> set space_seqs \<Longrightarrow> lower_char c \<in> set q \<Longrightarrow> lower_char c = c"
proof -
  have "\<forall>q \<in> set space_seqs. \<forall>x \<in> set q. \<not> (97 \<le> (of_char x :: nat) \<and> (of_char x :: nat) \<le> 122)" by (simp add: space_seqs_def)
  then show "q \<in> set space_seqs \<Longrightarrow> lower_char c \<in> set q \<Longrightarrow> lower_char c = c" by (fastforce simp: lower_char_def Let_def)
qed

lemma front_clean_lower:
  assumes "front_clean qs s" and "\<And>q c. q \<in> set qs \<Longrightarrow> lower_char c \<in> set q \<Longrightarrow> lower_char c = c"
  shows "front_clean qs (map lower_char s)"
  unfolding front_clean_def
proof (intro ballI impI notI)
  fix q assume q: "q \<in> set qs" "q \<noteq> []" "HasPrefix (map lower_char s) q"
  then obtain r where "map lower_char s = q @ r" by (auto simp: HasPrefix_iff)
  then obtain s1 s2 where s: "s = s1 @ s2" "map lower_char s1 = q" by (auto simp: map_eq_append_conv)
  then have "s1 = q" using assms(2) [OF q(1)] by (metis (no_types, lifting) list.set_map map_idI image_eqI)
  then show False using assms(1) q s(1) by (auto simp: front_clean_def HasPrefix_iff)
qed

lemma TrimSpace_front_clean: "TrimSpace s = s \<Longrightarrow> front_clean space_seqs s"
  by (metis TrimSpace_def front_clean_prefix rev_append rev_rev_ident strip_front_clean strip_front_suffix)

lemma TrimSpace_ToLower:
  assumes "TrimSpace s = s"
  shows "TrimSpace (ToLower s) = ToLower s"
proof (rule TrimSpace_id)
  show "front_clean space_seqs (ToLower s)"
    unfolding ToLower_def using TrimSpace_front_clean [OF assms] lower_in_spaces by (rule front_clean_lower)
  have "front_clean (map rev space_seqs) (map lower_char (rev s))"
    using TrimSpace_back_clean [OF assms] lower_in_spaces by (intro front_clean_lower) auto
  then show "front_clean (map rev space_seqs) (rev (ToLower s))" by (simp add: ToLower_def rev_map)
qed

lemma mountEncoding_idem [simp]: "mountEncoding (mountEncoding s) = mountEncoding s"
proof -
  have "TrimSpace (ToLower (TrimSpace s)) = ToLower (TrimSpace s)" by (rule TrimSpace_ToLower) simp
  moreover have "ToLower '''' = ''''" by (simp add: ToLower_def)
  ultimately show ?thesis by (simp add: mountEncoding_def Let_def)
qed

lemma normalizeRemoteType_idem [simp]: "normalizeRemoteType (normalizeRemoteType s) = normalizeRemoteType s"
proof -
  have "normalizeRemoteType ''symlink'' = ''symlink''" "normalizeRemoteType ''file'' = ''file''" by code_simp+
  then show ?thesis by (simp add: normalizeRemoteType_def [of s])
qed

text \<open>The writes the client makes: a normalised path other than the root, and no white space around the type and the hash.\<close>

definition plain_write :: "pendingBulkWrite \<Rightarrow> bool" where
  "plain_write pw \<longleftrightarrow> NormalizePath (pw_remotePath pw) = pw_remotePath pw \<and> pw_remotePath pw \<noteq> ''/''
     \<and> TrimSpace (ls_ContentType (pw_snapshot pw)) = ls_ContentType (pw_snapshot pw) \<and> TrimSpace (ls_Hash (pw_snapshot pw)) = ls_Hash (pw_snapshot pw)"

lemma tidy_new: "plain_write pw \<Longrightarrow> TrimSpace w = w \<Longrightarrow> tidy (new_record w now pw)"
  by (simp add: tidy_iff plain_write_def new_record_def Let_def newOutboxCommandID_trim) (simp add: newOutboxCommandID_def)

section \<open>Runs\<close>

text \<open>
  The steps of a client, with the history of accepted commands.  Each step has its own disk faults, answers and time.  The records a step
  works on may be old copies of accepted commands: a request is on its way while new commands are made and receipts arrive.  A crash is a
  step whose disk operations fail from some point on, followed by \<open>restarted\<close>.
\<close>

inductive ostep :: "outbox \<times> history \<Rightarrow> outbox \<times> history \<Rightarrow> bool" where
  accepted: "ensureOutboxRecord dk now pw ob = (ob', Inr r) \<Longrightarrow> plain_write pw \<Longrightarrow>
      or_CommandID (new_record (ob_workspace ob) now pw) \<notin> dom G \<Longrightarrow> ostep (ob, G) (ob', G(or_CommandID r \<mapsto> command r))"
| refused: "ensureOutboxRecord dk now pw ob = (ob', Inl e) \<Longrightarrow> ostep (ob, G) (ob', G)"
| selected: "\<forall>r \<in> set rs. mine G r \<Longrightarrow> ostep (ob, G) (fst (select_due dk force now rs [] ob), G)"
| prepared: "\<forall>r \<in> set rs. mine G r \<Longrightarrow> ostep (ob, G) (fst (prepareOutboxChunkUpload dk cl now settle rs ob), G)"
| answered: "\<forall>r \<in> set rs. mine G r \<Longrightarrow> ostep (ob, G) (fst (applyOutboxChunkResponse dk cl now settle rs firstErr answer ob), G)"
| receipt: "ostep (ob, G) (receipt_arrives dk cl now r ob, G)"
| flushed: "ostep (ob, G) (fst (flushOutboxRecords dk cl bulk enc maxBatch now force settle ob), G)"
| restarted: "ostep (ob, G) (ob\<lparr>ob_byPath := [], ob_loaded := False, ob_circuit := c\<rparr>, G)"

definition empty_outbox :: "outbox \<Rightarrow> bool" where
  "empty_outbox ob \<longleftrightarrow> ob_pending ob = [] \<and> ob_acked ob = [] \<and> ob_failed ob = [] \<and> ob_byPath ob = [] \<and> TrimSpace (ob_workspace ob) = ob_workspace ob"

lemma save_refused: "saveOutboxRecord dk r ob = (ob', Some e) \<Longrightarrow> ob' = ob"
  by (auto simp: saveOutboxRecord_def Let_def split: if_splits)

lemma kept_mono:
  assumes "kept G D w ob" and "i \<notin> dom G"
  shows "kept (G(i \<mapsto> c)) D w ob"
proof -
  have mine: "mine G r \<Longrightarrow> mine (G(i \<mapsto> c)) r" for r using assms(2) by (auto simp: mine_def)
  have filed: "filed G m \<Longrightarrow> filed (G(i \<mapsto> c)) m" for m using mine by (auto simp: filed_def)
  have "i \<notin> fst ` set (ob_pending ob)" using assms by (auto simp: kept_def filed_def mine_def)
  then have "pending_at (G(i \<mapsto> c)) ob p = pending_at G ob p" for p by (auto simp: pending_at_def)
  then show ?thesis using assms(1) filed by (simp add: kept_def)
qed

lemma kept_more: "kept G D w ob \<Longrightarrow> D' \<subseteq> held ob \<Longrightarrow> kept G D' w ob"
  by (simp add: kept_def)

text \<open>What making a command comes down to: a reused command, a new one saved, or an error after some commands were superseded.\<close>

lemma ensure_cases:
  assumes "ensureOutboxRecord dk now pw ob = (ob', res)"
  obtains (find_failed) e where "findPendingOutboxByPath dk (pw_remotePath pw) ob = (ob', Inl e)" "res = Inl e"
  | (skip_failed) ob1 rs e where "findPendingOutboxByPath dk (pw_remotePath pw) ob = (ob1, Inr rs)" "supersede_loop dk now pw rs ob1 = (ob', Inl e)" "res = Inl e"
  | (reused) ob1 rs r where "findPendingOutboxByPath dk (pw_remotePath pw) ob = (ob1, Inr rs)" "supersede_loop dk now pw rs ob1 = (ob', Inr (Some r))" "res = Inr r"
  | (save_failed) ob1 rs ob2 e where "findPendingOutboxByPath dk (pw_remotePath pw) ob = (ob1, Inr rs)" "supersede_loop dk now pw rs ob1 = (ob2, Inr None)"
      "ob' = ob2" "res = Inl e"
  | (created) ob1 rs ob2 where "findPendingOutboxByPath dk (pw_remotePath pw) ob = (ob1, Inr rs)" "supersede_loop dk now pw rs ob1 = (ob2, Inr None)"
      "saveOutboxRecord dk (new_record (ob_workspace ob2) now pw) ob2 = (ob', None)" "res = Inr (new_record (ob_workspace ob2) now pw)"
  using assms save_refused
  by (fastforce simp: ensureOutboxRecord_def Let_def split: prod.splits sum.splits option.splits)

definition sound :: "string \<Rightarrow> outbox \<times> history \<Rightarrow> bool" where
  "sound w x \<longleftrightarrow> kept (snd x) (dom (snd x)) w (fst x) \<and> TrimSpace w = w"

lemma sound_accepted:
  assumes "sound w (ob, G)" and res: "ensureOutboxRecord dk now pw ob = (ob', Inr r)" and "plain_write pw"
    and new: "or_CommandID (new_record (ob_workspace ob) now pw) \<notin> dom G"
  shows "sound w (ob', G(or_CommandID r \<mapsto> command r)) \<and> G \<subseteq>\<^sub>m G(or_CommandID r \<mapsto> command r)"
proof -
  have kept: "kept G (dom G) w ob" and w: "TrimSpace w = w" "ob_workspace ob = w" using assms(1) by (auto simp: sound_def kept_def)
  from res show ?thesis
  proof (cases rule: ensure_cases)
    case (reused ob1 rs r')
    have "kept G (dom G) w ob1" "\<forall>r \<in> set rs. mine G r" using kp.I_find [OF reused(1) kept] by auto
    then have "kept G (dom G) w ob'" "mine G r" using kp.I_supersede [OF reused(2)] reused(3) by auto
    then show ?thesis using w by (auto simp: mine_def sound_def fun_upd_idem)
  next
    case (created ob1 rs ob2)
    let ?r = "new_record w now pw" and ?G = "G(or_CommandID r \<mapsto> command r)"
    have "kept G (dom G) w ob1" "\<forall>r \<in> set rs. mine G r" using kp.I_find [OF created(1) kept] by auto
    then have ob2: "kept G (dom G) w ob2" using kp.I_supersede [OF created(2)] by auto
    then have r: "r = ?r" using created(4) by (simp add: kept_def)
    have "kept ?G (dom G) w ob2" using kept_mono [OF ob2] new w(2) r by simp
    moreover have "mine ?G ?r" using tidy_new [OF assms(3) w(1)] by (simp add: mine_def r)
    ultimately have "kept ?G (insert (or_CommandID ?r) (dom G)) w ob'" using kept_save(2) [of ?G "dom G" w ob2 ?r dk] created(3) ob2 by (simp add: kept_def)
    then show ?thesis using w new r by (auto simp: sound_def map_le_def)
  qed simp_all
qed

lemma kept_refused:
  assumes "kept G D w ob" and "ensureOutboxRecord dk now pw ob = (ob', Inl e)"
  shows "kept G D w ob'"
  using assms(2)
proof (cases rule: ensure_cases)
  case (find_failed e)
  then show ?thesis using kp.I_find [OF _ assms(1)] by blast
next
  case (skip_failed ob1 rs e)
  then show ?thesis using kp.I_find [OF skip_failed(1) assms(1)] kp.I_supersede [OF skip_failed(2)] by blast
next
  case (save_failed ob1 rs ob2 e)
  then show ?thesis using kp.I_find [OF save_failed(1) assms(1)] kp.I_supersede [OF save_failed(2)] by blast
qed simp_all

lemma kept_restarted: "kept G D w ob \<Longrightarrow> kept G D w (ob\<lparr>ob_byPath := [], ob_loaded := False, ob_circuit := c\<rparr>)"
  by (auto simp: kept_def held_def indexed_at_def pending_at_def mget_or_def filed_def)

lemma ostep_sound: "ostep x y \<Longrightarrow> sound w x \<Longrightarrow> sound w y \<and> snd x \<subseteq>\<^sub>m snd y"
proof (induction rule: ostep.induct)
  case (accepted dk now pw ob ob' r G)
  then show ?case unfolding snd_conv by (intro sound_accepted)
next
  case (refused dk now pw ob ob' e G)
  then show ?case using kept_refused by (auto simp: sound_def)
next
  case (selected rs G ob dk force now)
  then show ?case using kp.I_select [of dk force now rs "[]" ob] by (auto simp: sound_def) (metis prod.collapse)
next
  case (prepared rs G ob dk cl now settle)
  then show ?case using kp.I_prepare [of dk cl now settle rs ob] by (auto simp: sound_def) (metis prod.collapse)
next
  case (answered rs G ob dk cl now settle firstErr answer)
  then show ?case using kp.I_apply [of dk cl now settle rs firstErr answer ob] by (auto simp: sound_def) (metis prod.collapse)
next
  case (receipt ob G dk cl now r)
  then show ?case using kp.I_receipt by (auto simp: sound_def)
next
  case (flushed ob G dk cl bulk enc maxBatch now force settle)
  then show ?case using kp.I_flush by (auto simp: sound_def)
next
  case (restarted ob G c)
  then show ?case using kept_restarted by (auto simp: sound_def)
qed

lemma run_sound: "ostep\<^sup>*\<^sup>* x y \<Longrightarrow> sound w x \<Longrightarrow> sound w y \<and> snd x \<subseteq>\<^sub>m snd y"
  by (induction rule: rtranclp_induct) (auto dest: ostep_sound intro: map_le_trans)

lemma sound_empty: "empty_outbox ob \<Longrightarrow> sound (ob_workspace ob) (ob, Map.empty)"
  by (auto simp: empty_outbox_def sound_def kept_def filed_def held_def indexed_at_def pending_at_def mget_or_def)

lemma sound_holds:
  assumes "sound w (ob, G)" and "G i = Some c"
  shows "\<exists>r. (map_of (ob_pending ob) i = Some r \<or> map_of (ob_acked ob) i = Some r \<or> map_of (ob_failed ob) i = Some r) \<and> command r = c"
proof -
  have parts: "filed G (ob_pending ob)" "filed G (ob_acked ob)" "filed G (ob_failed ob)" "dom G \<subseteq> held ob"
    using assms(1) by (auto simp: sound_def kept_def)
  have found: "\<exists>r. map_of m i = Some r \<and> command r = c" if m: "filed G m" and i: "i \<in> fst ` set m" for m
  proof -
    obtain r where "map_of m i = Some r" using i by (metis map_of_eq_None_iff not_None_eq)
    moreover from this have "(i, r) \<in> set m" by (rule map_of_SomeD)
    with m have "G i = Some (command r)" by (auto simp: filed_def mine_def)
    ultimately show ?thesis using assms(2) by simp
  qed
  from parts(4) assms(2) have "i \<in> held ob" by auto
  then show ?thesis unfolding held_def using parts(1-3) found by blast
qed

text \<open>C6. A command the client has accepted is never lost: whatever disk operations fail and whatever the cloud answers, in whichever
  order new commands, uploads, answers, receipts and restarts happen, its record stays in one of the three directories with the same
  path, content, hash, mode and expected revision.\<close>

theorem outbox_never_loses:
  assumes "empty_outbox ob\<^sub>0" and "ostep\<^sup>*\<^sup>* (ob\<^sub>0, Map.empty) (ob, G)" and "ostep\<^sup>*\<^sup>* (ob, G) (ob', G')" and "G i = Some c"
  shows "\<exists>r. (map_of (ob_pending ob') i = Some r \<or> map_of (ob_acked ob') i = Some r \<or> map_of (ob_failed ob') i = Some r) \<and> command r = c"
proof -
  have "sound (ob_workspace ob\<^sub>0) (ob, G)" using run_sound [OF assms(2) sound_empty [OF assms(1)]] by simp
  from run_sound [OF assms(3) this] have "sound (ob_workspace ob\<^sub>0) (ob', G')" "G \<subseteq>\<^sub>m G'" by simp_all
  moreover from this(2) assms(4) have "G' i = Some c" by (auto simp: map_le_def dom_def)
  ultimately show ?thesis using sound_holds by blast
qed


text \<open>A file created in a workspace, on a disk that works, and then an upload that the network lost.\<close>

definition sample_disk :: disk where
  "sample_disk = \<lparr>dk_dirsFail = False, dk_listFails = False, dk_readFails = (\<lambda>_. False), dk_writeFails = (\<lambda>_. False), dk_removeFails = (\<lambda>_. False)\<rparr>"

definition sample_write :: pendingBulkWrite where
  "sample_write = \<lparr>pw_remotePath = ''/a'', pw_snapshot = \<lparr>ls_WireContent = ''x'', ls_ContentType = ''text/plain'', ls_Encoding = '''', ls_Type = ''file'',
     ls_Target = '''', ls_Mode = 0, ls_Hash = ''h''\<rparr>, pw_trackedRevision = '''', pw_trackedLocalPath = ''a'', pw_exists = False\<rparr>"

definition sample_outbox :: outbox where
  "sample_outbox = \<lparr>ob_pending = [], ob_acked = [], ob_failed = [], ob_attention = [], ob_byPath = [], ob_loaded = False, ob_workspace = ''w'',
     ob_maxAttempts = 0, ob_circuit = None, ob_pullOnly = False\<rparr>"

definition sample_cloud :: cloud where
  "sample_cloud = \<lparr>cl_operation = (\<lambda>_. Inl (HTTPError 404 ''not found'')), cl_symlinks = Some None, cl_asPending = (\<lambda>_. None),
     cl_writeError = (\<lambda>_ _. OutcomeHandled), cl_reconcile = (\<lambda>_ _. None), cl_tracked = (\<lambda>_. '''')\<rparr>"

abbreviation sample_record :: outboxRecord where
  "sample_record \<equiv> new_record ''w'' 0 sample_write"

abbreviation sample_lost :: "outbox \<Rightarrow> outbox" where
  "sample_lost ob \<equiv> fst (applyOutboxChunkResponse sample_disk sample_cloud 0 True [sample_record] None (Inl (TransportError ''lost'')) ob)"

lemma sample_plain: "plain_write sample_write" "empty_outbox sample_outbox"
  by code_simp+

lemma sample_id: "TrimSpace (or_CommandID sample_record) = or_CommandID sample_record" "or_CommandID sample_record \<noteq> ''''" "or_RemotePath sample_record = ''/a''"
  by (simp_all add: new_record_def Let_def newOutboxCommandID_trim) (simp_all add: newOutboxCommandID_def sample_write_def)

lemma sample_ensure: "\<exists>ob. ensureOutboxRecord sample_disk 0 sample_write sample_outbox = (ob, Inr sample_record)"
  using sample_id
  by (simp add: ensureOutboxRecord_def findPendingOutboxByPath_def ensurePendingOutboxIndex_def listPendingOutboxRecords_def sample_disk_def
      sample_outbox_def sortOutboxRecords_def saveOutboxRecord_def mget_or_def Let_def)

theorem outbox_never_loses_witness:
  "\<exists>ob. ensureOutboxRecord sample_disk 0 sample_write sample_outbox = (ob, Inr sample_record)
     \<and> (\<exists>r. (map_of (ob_pending (sample_lost ob)) (or_CommandID sample_record) = Some r
           \<or> map_of (ob_acked (sample_lost ob)) (or_CommandID sample_record) = Some r
           \<or> map_of (ob_failed (sample_lost ob)) (or_CommandID sample_record) = Some r) \<and> command r = command sample_record)"
proof -
  obtain ob where ens: "ensureOutboxRecord sample_disk 0 sample_write sample_outbox = (ob, Inr sample_record)" using sample_ensure by blast
  let ?G = "[or_CommandID sample_record \<mapsto> command sample_record]"
  have 1: "ostep\<^sup>*\<^sup>* (sample_outbox, Map.empty) (ob, ?G)"
    using ostep.accepted [OF ens sample_plain(1), of Map.empty] by (simp add: r_into_rtranclp)
  have "tidy sample_record" by (rule tidy_new [OF sample_plain(1)]) code_simp
  then have "\<forall>r \<in> set [sample_record]. mine ?G r" by (simp add: mine_def)
  then have "ostep\<^sup>*\<^sup>* (ob, ?G) (sample_lost ob, ?G)" by (intro r_into_rtranclp ostep.answered)
  from outbox_never_loses [OF sample_plain(2) 1 this] show ?thesis using ens by fastforce
qed

section \<open>Superseding\<close>

lemma skip_succeeds:
  assumes "skipOutboxRecord dk now r reason ob = (ob', None)"
  shows "ob_pending ob' = mdel (or_CommandID r) (ob_pending ob)"
    and "\<exists>a. ob_acked ob' = mput (or_CommandID r) a (ob_acked ob) \<and> or_DispatchStatus a = TrimSpace reason"
  using assms
  by (auto simp: skipOutboxRecord_def write_acked_def drop_pending_def drop_attention_def split: if_splits)

lemma superseded_reason: "TrimSpace ''superseded_by_newer_local_content'' = ''superseded_by_newer_local_content''"
  by code_simp

lemma supersede_all:
  "supersede_loop dk now pw rs ob = (ob', Inr None) \<Longrightarrow>
     (\<forall>i. i \<notin> or_CommandID ` set rs \<longrightarrow> map_of (ob_pending ob') i = map_of (ob_pending ob) i \<and> map_of (ob_acked ob') i = map_of (ob_acked ob) i)
     \<and> (\<forall>i \<in> or_CommandID ` set rs. map_of (ob_pending ob') i = None
         \<and> (\<exists>a. map_of (ob_acked ob') i = Some a \<and> or_DispatchStatus a = ''superseded_by_newer_local_content''))"
proof (induction rs arbitrary: ob)
  case (Cons r rs)
  obtain ob1 e where skip: "skipOutboxRecord dk now r ''superseded_by_newer_local_content'' ob = (ob1, e)" by fastforce
  with Cons.prems have e: "e = None" and loop: "supersede_loop dk now pw rs ob1 = (ob', Inr None)" by (auto split: if_splits option.splits)
  obtain a where a: "ob_acked ob1 = mput (or_CommandID r) a (ob_acked ob)" "or_DispatchStatus a = ''superseded_by_newer_local_content''"
    using skip_succeeds(2) [OF skip [unfolded e]] superseded_reason by auto
  have p: "ob_pending ob1 = mdel (or_CommandID r) (ob_pending ob)" using skip_succeeds(1) [OF skip [unfolded e]] .
  show ?case using Cons.IH [OF loop] a p by (cases "or_CommandID r \<in> or_CommandID ` set rs") (auto simp: gomap_simps)
qed simp

lemma fold_cache_pending: "ob_pending (fold cachePendingOutboxRecordLocked rs ob) = ob_pending ob"
  by (induction rs arbitrary: ob) simp_all

lemma find_exact:
  assumes "kept G D w ob" and "findPendingOutboxByPath dk p ob = (ob', Inr rs)" and "NormalizePath p = p"
  shows "or_CommandID ` set rs = pending_at G ob' p" and "kept G D w ob'" and "ob_pending ob' = ob_pending ob"
proof -
  obtain ob1 where load: "ensurePendingOutboxIndex dk ob = (ob1, None)" and ob': "ob' = ob1"
      and rs: "rs = sortOutboxRecords (map snd (mget_or [] (ob_byPath ob1) p))"
    using assms(2,3) by (auto simp: findPendingOutboxByPath_def split: prod.splits option.splits)
  show kept: "kept G D w ob'" using kp.I_find [OF assms(2,1)] by blast
  have loaded: "ob_loaded ob1" using load by (auto simp: ensurePendingOutboxIndex_def split: if_splits sum.splits)
  have "or_CommandID r = i" if "(i, r) \<in> set (mget_or [] (ob_byPath ob1) p)" for i r
    using that kept ob' by (auto simp: kept_def filed_def)
  then have "or_CommandID ` set rs = indexed_at ob1 p" unfolding rs by (force simp: sortOutboxRecords_def indexed_at_def)
  then show "or_CommandID ` set rs = pending_at G ob' p" using kept loaded ob' by (simp add: kept_def)
  show "ob_pending ob' = ob_pending ob"
    using load unfolding ob' by (auto simp: ensurePendingOutboxIndex_def fold_cache_pending split: if_splits sum.splits)
qed

lemma kept_entry: "kept G D w ob \<Longrightarrow> map_of (ob_pending ob) i = Some r \<Longrightarrow> or_CommandID r = i \<and> mine G r"
  by (auto simp: kept_def filed_def dest!: map_of_SomeD)

lemma pending_path: "kept G D w ob \<Longrightarrow> map_of (ob_pending ob) i = Some r \<Longrightarrow> i \<in> pending_at G ob p \<longleftrightarrow> or_RemotePath r = p"
  using kept_entry [of G D w ob i r] mine_fields(5) [of G r] by (auto simp: pending_at_def dest: map_of_SomeD intro: image_eqI [of _ fst "(i, r)"])

lemma save_pending: "saveOutboxRecord dk r ob = (ob', None) \<Longrightarrow> ob_pending ob' = mput (or_CommandID r) (r\<lparr>or_Status := ''pending''\<rparr>) (ob_pending ob) \<and> ob_acked ob' = ob_acked ob"
  by (auto simp: saveOutboxRecord_def Let_def split: if_splits)

text \<open>C28. After a new command for a path is accepted it is the only pending one for the path: every earlier one is filed as superseded,
  whatever was in the index, and the commands of other paths are as before.\<close>

theorem newest_command_wins:
  assumes "empty_outbox ob\<^sub>0" and "ostep\<^sup>*\<^sup>* (ob\<^sub>0, Map.empty) (ob, G)" and res: "ensureOutboxRecord dk now pw ob = (ob', Inr r)"
    and "plain_write pw" and new: "or_CommandID r \<notin> dom G"
  shows "map_of (ob_pending ob') (or_CommandID r) = Some r
    \<and> (\<forall>i r'. map_of (ob_pending ob) i = Some r' \<and> or_RemotePath r' = pw_remotePath pw \<longrightarrow>
          map_of (ob_pending ob') i = None \<and> (\<exists>a. map_of (ob_acked ob') i = Some a \<and> or_DispatchStatus a = ''superseded_by_newer_local_content''))
    \<and> (\<forall>i r'. map_of (ob_pending ob) i = Some r' \<and> or_RemotePath r' \<noteq> pw_remotePath pw \<longrightarrow> map_of (ob_pending ob') i = Some r')"
proof -
  have "sound (ob_workspace ob\<^sub>0) (ob, G)" using run_sound [OF assms(2) sound_empty [OF assms(1)]] by simp
  then have kept: "kept G (dom G) (ob_workspace ob\<^sub>0) ob" by (simp add: sound_def)
  have path: "NormalizePath (pw_remotePath pw) = pw_remotePath pw" using assms(4) by (simp add: plain_write_def)
  from res show ?thesis
  proof (cases rule: ensure_cases)
    case (reused ob1 rs r')
    have "mine G r" using kp.I_find [OF reused(1) kept] kp.I_supersede [OF reused(2)] reused(3) by auto
    then show ?thesis using new by (auto simp: mine_def)
  next
    case (created ob1 rs ob2)
    note ob1 = find_exact [OF kept created(1) path]
    note ob2 = supersede_all [OF created(2)]
    have here: "i \<in> or_CommandID ` set rs \<longleftrightarrow> or_RemotePath r' = pw_remotePath pw" "i \<noteq> or_CommandID r"
      if r': "map_of (ob_pending ob) i = Some r'" for i r'
      using pending_path [OF ob1(2), of i r' "pw_remotePath pw"] kept_entry [OF kept r'] ob1(1,3) r' new by (auto simp: mine_def)
    have "r\<lparr>or_Status := ''pending''\<rparr> = r" using created(4) by (simp add: new_record_def Let_def)
    then have "map_of (ob_pending ob') = (map_of (ob_pending ob2))(or_CommandID r \<mapsto> r)" "ob_acked ob' = ob_acked ob2"
      using save_pending [OF created(3)] created(4) by (auto simp: gomap_simps)
    then have "map_of (ob_pending ob') (or_CommandID r) = Some r" and same: "\<And>i. i \<noteq> or_CommandID r \<Longrightarrow> map_of (ob_pending ob') i = map_of (ob_pending ob2) i"
        "ob_acked ob' = ob_acked ob2" by simp_all
    moreover have "map_of (ob_pending ob') i = None \<and> (\<exists>a. map_of (ob_acked ob') i = Some a \<and> or_DispatchStatus a = ''superseded_by_newer_local_content'')"
      if "map_of (ob_pending ob) i = Some r' \<and> or_RemotePath r' = pw_remotePath pw" for i r'
      using conjunct2 [OF ob2, THEN bspec, of i] here [of i r'] that same by metis
    moreover have "map_of (ob_pending ob') i = Some r'" if "map_of (ob_pending ob) i = Some r' \<and> or_RemotePath r' \<noteq> pw_remotePath pw" for i r'
      using conjunct1 [OF ob2, THEN spec, of i] here [of i r'] that same ob1(3) by metis
    ultimately show ?thesis by blast
  qed simp_all
qed


theorem newest_command_wins_witness:
  "\<exists>ob. ensureOutboxRecord sample_disk 0 sample_write sample_outbox = (ob, Inr sample_record)
     \<and> map_of (ob_pending ob) (or_CommandID sample_record) = Some sample_record"
proof -
  obtain ob where ens: "ensureOutboxRecord sample_disk 0 sample_write sample_outbox = (ob, Inr sample_record)" using sample_ensure by blast
  show ?thesis using newest_command_wins [OF sample_plain(2) rtranclp.rtrancl_refl ens sample_plain(1)] ens by auto
qed

section \<open>Acknowledgement\<close>

text \<open>When a record counts as accepted: the answer has an error for its path that only says the content is already there; or it has none,
  the local state could take it over, and the operation the server started for it, if any, has succeeded.\<close>

definition accepted_by :: "cloud \<Rightarrow> MountBulkResponse \<Rightarrow> outboxRecord \<Rightarrow> bool" where
  "accepted_by cl response r \<longleftrightarrow>
     (case map_of (errorsByPath response) (or_RemotePath r) of
        Some writeErr \<Rightarrow> cl_writeError cl r writeErr = AlreadyLanded
      | None \<Rightarrow> cl_reconcile cl r (result_revision response r) = None
          \<and> (let opID = or_OpID (note_result cl response r)
             in opID = '''' \<or> (case cl_operation cl opID of Inl e \<Rightarrow> False | Inr oper \<Rightarrow> TrimSpace (op_Status oper) = ''succeeded'')))"

lemma note_result_id [simp]: "or_CommandID (note_result cl response r) = or_CommandID r"
  by (simp add: note_result_def Let_def split: option.splits)

lemma fst_pass: "fst (case x of (ob, e) \<Rightarrow> (ob, f e)) = fst x"
  by (simp split: prod.splits)

lemma acked_save [simp]: "ob_acked (fst (saveOutboxRecord dk r ob)) = ob_acked ob"
  by (auto simp: saveOutboxRecord_def Let_def)

lemma acked_increment [simp]: "ob_acked (fst (incrementOutboxAttempt dk now r err ob)) = ob_acked ob"
  by (simp add: incrementOutboxAttempt_def Let_def)

lemma acked_poll [simp]: "ob_acked (fst (scheduleOutboxReceiptPoll dk now r err ob)) = ob_acked ob"
  by (simp add: scheduleOutboxReceiptPoll_def Let_def)

lemma acked_drop [simp]: "ob_acked (fst (drop_pending dk r ob)) = ob_acked ob"
  by (simp add: drop_pending_def)

lemma acked_failed [simp]: "ob_acked (fst (saveFailedOutboxRecord dk r reason ob)) = ob_acked ob"
  by (simp add: saveFailedOutboxRecord_def Let_def fst_then_keep)

lemma acked_fail [simp]: "ob_acked (fst (failOutboxRecord dk r reason ob)) = ob_acked ob" "ob_acked (fst (failOutboxRecordNeedsAttention dk r reason ob)) = ob_acked ob"
  by (simp_all add: failOutboxRecord_def failOutboxRecordNeedsAttention_def)

lemma acked_cloud [simp]: "ob_acked (cloud_failure now err ob) = ob_acked ob" "ob_acked (cloud_success now ob) = ob_acked ob"
  by (simp_all add: cloud_failure_def cloud_success_def)

lemma acked_ack: "i \<noteq> or_CommandID r \<Longrightarrow> map_of (ob_acked (fst (ackOutboxRecord dk now r revision corr ob))) i = map_of (ob_acked ob) i"
  by (simp add: ackOutboxRecord_def write_acked_def Let_def fst_then_keep gomap_simps)

lemma acked_answer:
  assumes "map_of (ob_acked (fst (applyOutboxOperationResult dk now r answer ob))) i \<noteq> map_of (ob_acked ob) i"
  shows "i = or_CommandID r \<and> (\<exists>oper. answer = Inr oper \<and> TrimSpace (op_Status oper) = ''succeeded'')"
proof (cases answer)
  case (Inl err)
  then show ?thesis using assms by (cases err) (simp_all add: applyOutboxOperationResult_def split: if_splits)
next
  case (Inr oper)
  define status where "status = (if TrimSpace (op_Status oper) = '''' then ''pending'' else TrimSpace (op_Status oper))"
  have same: "ob_acked (fst (applyOutboxOperationResult dk now r answer ob)) = ob_acked ob" if "status \<noteq> ''succeeded''"
    using that unfolding Inr applyOutboxOperationResult_def sum.case Let_def status_def [symmetric]
    by (simp only: if_distrib [of fst] fst_then) simp
  then have ok: "status = ''succeeded''" using assms by metis
  moreover have "map_of (ob_acked (fst (applyOutboxOperationResult dk now r answer ob))) i = map_of (ob_acked ob) i" if "i \<noteq> or_CommandID r"
    using that ok unfolding Inr applyOutboxOperationResult_def sum.case Let_def status_def [symmetric]
    by (simp add: acked_ack)
  ultimately show ?thesis using assms Inr by (auto simp: status_def split: if_splits)
qed

lemma acked_accept:
  assumes "map_of (ob_acked (fst (accept_record dk cl now settle response fe r ob))) i \<noteq> map_of (ob_acked ob) i"
    and "map_of (errorsByPath response) (or_RemotePath r) = None"
  shows "i = or_CommandID r \<and> accepted_by cl response r"
proof -
  let ?r = "note_result cl response r"
  have none: "cl_reconcile cl r (result_revision response r) = None"
    using assms(1) by (cases "cl_reconcile cl r (result_revision response r)") (simp_all add: accept_record_def fst_pass)
  show ?thesis
  proof (cases "or_OpID ?r = ''''")
    case True
    then have "fst (accept_record dk cl now settle response fe r ob) = fst (ackOutboxRecord dk now ?r (or_Revision ?r) (mr_CorrelationID response) ob)"
      by (simp add: accept_record_def none Let_def split: prod.splits)
    then have "i = or_CommandID r" using assms(1) acked_ack [of i ?r] by (metis note_result_id)
    then show ?thesis using True none assms(2) by (simp add: accepted_by_def)
  next
    case False
    obtain ob1 e1 where save: "saveOutboxRecord dk ?r ob = (ob1, e1)" by fastforce
    then have "ob_acked ob1 = ob_acked ob" using acked_save [of dk ?r ob] by simp
    moreover from this have "fst (accept_record dk cl now settle response fe r ob) = fst (settleOutboxRecord dk cl now ?r ob1)"
      using assms(1) False by (auto simp: accept_record_def none Let_def save split: prod.splits option.splits if_splits)
    ultimately have "i = or_CommandID ?r \<and> (\<exists>oper. cl_operation cl (or_OpID ?r) = Inr oper \<and> TrimSpace (op_Status oper) = ''succeeded'')"
      using assms(1) acked_answer unfolding settleOutboxRecord_def by metis
    then show ?thesis using none assms(2) by (auto simp: accepted_by_def Let_def)
  qed
qed

lemma acked_apply:
  assumes "map_of (ob_acked (fst (apply_record dk cl now settle response fe r ob))) i \<noteq> map_of (ob_acked ob) i"
  shows "i = or_CommandID r \<and> accepted_by cl response r"
proof (cases "map_of (errorsByPath response) (or_RemotePath r)")
  case None
  then have "fst (apply_record dk cl now settle response fe r ob) \<in> {ob, fst (accept_record dk cl now settle response fe r ob)}"
    by (simp add: apply_record_def split: option.splits)
  then show ?thesis using assms acked_accept [OF _ None] by auto
next
  case (Some writeErr)
  let ?r = "r\<lparr>or_Revision := cl_tracked cl (or_RemotePath r)\<rparr>"
  have "map_of (ob_acked (fst (apply_record dk cl now settle response fe r ob))) i = map_of (ob_acked ob) i"
    if "cl_writeError cl r writeErr \<noteq> AlreadyLanded \<or> i \<noteq> or_CommandID r"
    using that acked_ack [of i ?r dk now "or_Revision ?r" "mr_CorrelationID response" ob]
    by (cases "cl_asPending cl r"; cases "cl_writeError cl r writeErr") (simp_all add: apply_record_def Some Let_def fst_pass)
  then show ?thesis using assms Some by (auto simp: accepted_by_def)
qed


lemma acked_apply_loop:
  "map_of (ob_acked (fst (apply_loop dk cl now settle response rs firstErr deferred ob))) i \<noteq> map_of (ob_acked ob) i \<Longrightarrow>
     \<exists>r \<in> set rs. or_CommandID r = i \<and> accepted_by cl response r"
proof (induction rs arbitrary: firstErr deferred ob)
  case (Cons r rs)
  obtain ob1 e1 ds1 where step: "apply_record dk cl now settle response firstErr r ob = (ob1, e1, ds1)" by (metis prod_cases3)
  show ?case
  proof (cases "map_of (ob_acked ob1) i = map_of (ob_acked ob) i")
    case True
    then show ?thesis using Cons.prems Cons.IH [of "first_error firstErr e1" "deferred @ ds1" ob1] by (auto simp: step)
  next
    case False
    then show ?thesis using acked_apply [of dk cl now settle response firstErr r ob i] by (auto simp: step)
  qed
qed simp

lemma increment_until_acked [simp]: "ob_acked (fst (increment_until dk now err rs ob)) = ob_acked ob"
proof (induction rs arbitrary: ob)
  case (Cons r rs)
  show ?case using Cons.IH acked_increment [of dk now r err ob]
    by (cases "incrementOutboxAttempt dk now r err ob") (simp split: option.splits)
qed simp

lemma failed_save [simp]: "ob_failed (fst (saveOutboxRecord dk r ob)) = ob_failed ob"
  by (auto simp: saveOutboxRecord_def Let_def)

lemma increment_until_failed [simp]: "ob_failed (fst (increment_until dk now err rs ob)) = ob_failed ob"
proof (induction rs arbitrary: ob)
  case (Cons r rs)
  have "ob_failed (fst (incrementOutboxAttempt dk now r err ob)) = ob_failed ob" by (simp add: incrementOutboxAttempt_def Let_def)
  then show ?case using Cons.IH by (cases "incrementOutboxAttempt dk now r err ob") (simp split: option.splits)
qed simp

text \<open>C29. A record is acknowledged only from an answer of the server that accepts it: if handling the outcome of an upload files a
  command as acknowledged, the server did answer, the command was in the upload, and the answer has no error for its path (or one
  that says its content is already there) and any operation it started has succeeded.  After a transport error nothing is
  acknowledged or failed.\<close>

theorem acked_only_from_answer:
  "(map_of (ob_acked (fst (applyOutboxChunkResponse dk cl now settle upload firstErr answer ob))) i \<noteq> map_of (ob_acked ob) i \<longrightarrow>
      (\<exists>response. answer = Inr response \<and> (\<exists>r \<in> set upload. or_CommandID r = i \<and> accepted_by cl response r)))
   \<and> (\<forall>err. answer = Inl err \<longrightarrow> ob_acked (fst (applyOutboxChunkResponse dk cl now settle upload firstErr answer ob)) = ob_acked ob
        \<and> ob_failed (fst (applyOutboxChunkResponse dk cl now settle upload firstErr answer ob)) = ob_failed ob)"
proof (cases answer)
  case (Inl err)
  then show ?thesis by (simp add: applyOutboxChunkResponse_def fst_pass cloud_failure_def)
next
  case (Inr response)
  then show ?thesis using acked_apply_loop [of dk cl now settle response upload firstErr "[]" "cloud_success now ob" i]
    by (auto simp: applyOutboxChunkResponse_def)
qed

definition sample_answer :: MountBulkResponse where
  "sample_answer = \<lparr>mr_Errors = [], mr_Results = [], mr_CorrelationID = ''c''\<rparr>"

text \<open>The answer to the upload of the sample acknowledges it.\<close>

theorem acked_only_from_answer_witness:
  "map_of (ob_acked (fst (applyOutboxChunkResponse sample_disk sample_cloud 0 True [sample_record] None (Inr sample_answer) sample_outbox)))
       (or_CommandID sample_record) \<noteq> map_of (ob_acked sample_outbox) (or_CommandID sample_record)
   \<and> accepted_by sample_cloud sample_answer sample_record"
proof -
  let ?i = "or_CommandID sample_record"
    and ?ob = "fst (applyOutboxChunkResponse sample_disk sample_cloud 0 True [sample_record] None (Inr sample_answer) sample_outbox)"
  let ?r = "note_result sample_cloud sample_answer sample_record"
  have 1: "or_OpID ?r = ''''" by (simp add: note_result_def Let_def resultsByPath_def sample_answer_def)
  have 2: "cl_asPending sample_cloud r = None" "cl_reconcile sample_cloud r x = None" "map_of (errorsByPath sample_answer) x = None" for r x
    by (simp_all add: sample_cloud_def sample_answer_def errorsByPath_def)
  have 3: "fst (apply_record sample_disk sample_cloud 0 True sample_answer None sample_record ob) =
      fst (ackOutboxRecord sample_disk 0 ?r (or_Revision ?r) (mr_CorrelationID sample_answer) ob)" for ob
    by (simp add: apply_record_def accept_record_def fst_pass Let_def 1 2)
  have 4: "fst (apply_loop dk cl now settle response [r] None [] ob) = fst (apply_record dk cl now settle response None r ob)" for dk cl now settle response r ob
    by (simp split: prod.splits)
  have 5: "map_of (ob_acked (fst (ackOutboxRecord sample_disk 0 r revision corr ob))) (or_CommandID r) \<noteq> None" for r revision corr ob
  proof -
    have d: "dk_dirsFail sample_disk = False" "dk_writeFails sample_disk x = False" for x by (simp_all add: sample_disk_def)
    have w: "map_of (ob_acked (fst (write_acked sample_disk R ob))) i \<noteq> None" if "or_CommandID R = i" for R i
      using that by (simp add: write_acked_def fst_then_keep gomap_simps d)
    show ?thesis unfolding ackOutboxRecord_def Let_def d if_False by (rule w) simp
  qed
  have "?ob = fst (ackOutboxRecord sample_disk 0 ?r (or_Revision ?r) (mr_CorrelationID sample_answer) (cloud_success 0 sample_outbox))"
    unfolding applyOutboxChunkResponse_def sum.case 4 3 ..
  then have "map_of (ob_acked ?ob) ?i \<noteq> None" using 5 [of ?r] unfolding note_result_id by simp
  then have "map_of (ob_acked ?ob) ?i \<noteq> map_of (ob_acked sample_outbox) ?i"
    by (simp add: sample_outbox_def)
  moreover from this have "accepted_by sample_cloud sample_answer sample_record"
    using acked_only_from_answer [of sample_disk sample_cloud 0 True "[sample_record]" None "Inr sample_answer" sample_outbox ?i] by auto
  ultimately show ?thesis by blast
qed


text \<open>A command superseded while its upload is under way is pending again after a transport error: the attempt is recorded from the copy
  the upload started with.\<close>

lemma superseded_command_returns:
  assumes "skipOutboxRecord dk now r ''superseded_by_newer_local_content'' ob = (ob1, None)" and "TrimSpace (or_CommandID r) \<noteq> ''''"
  shows "map_of (ob_pending ob1) (or_CommandID r) = None"
    and "\<exists>q. map_of (ob_pending (fst (applyOutboxChunkResponse sample_disk cl now' settle [r] firstErr (Inl err) ob1))) (or_CommandID r) = Some q
      \<and> command q = command r"
proof -
  show "map_of (ob_pending ob1) (or_CommandID r) = None" using skip_succeeds(1) [OF assms(1)] by (simp add: gomap_simps)
  have save: "\<exists>q. map_of (ob_pending (fst (saveOutboxRecord sample_disk x ob2))) (or_CommandID r) = Some q \<and> command q = command r"
    if "or_CommandID x = or_CommandID r" "command x = command r" for x ob2
    using that assms(2) by (simp add: saveOutboxRecord_def Let_def sample_disk_def gomap_simps)
  have "\<exists>q. map_of (ob_pending (fst (incrementOutboxAttempt sample_disk now' r err ob2))) (or_CommandID r) = Some q \<and> command q = command r" for ob2
    unfolding incrementOutboxAttempt_def Let_def by (rule save) simp_all
  moreover have "fst (increment_until dk' now' err [r] ob2) = fst (incrementOutboxAttempt dk' now' r err ob2)" for dk' ob2
    by (simp split: prod.splits option.splits)
  ultimately show "\<exists>q. map_of (ob_pending (fst (applyOutboxChunkResponse sample_disk cl now' settle [r] firstErr (Inl err) ob1))) (or_CommandID r) = Some q
      \<and> command q = command r"
    by (simp add: applyOutboxChunkResponse_def fst_pass del: increment_until.simps)
qed

end
