(* ===== verification/Spec2Isabelle.thy ===== *)
theory Spec2Isabelle
  imports MergeLinesCorrect ForkRebase BootSweep Convergence HandlersCorrect System Restart SnapshotDeletes OutboxCorrect
begin

text \<open>
  Relayfile: a verification library for the workspace server and the mount client.

  \<^bold>\<open>The program.\<close>  Relayfile keeps workspaces: maps from paths to files with revisions, an append-only log of events, and a list
  of operations that carry changes back to providers.  Agents read and write files through an HTTP API, alone or in forks that
  are committed as a whole; providers report changes through signed webhooks; workers execute the operations.  The core is
  \<^verbatim>\<open>src/internal/relayfile\<close> (the store, its queues, forks, merges and adapters) behind \<^verbatim>\<open>src/internal/httpapi\<close> (authorisation,
  guards, handlers).  The mount client, \<^verbatim>\<open>src/internal/mountsync\<close> with \<^verbatim>\<open>src/internal/mountscope\<close>, mirrors parts of a workspace into a
  local directory and sends local changes back through a durable outbox.

  \<^bold>\<open>State and operations.\<close>  The \<^verbatim>\<open>Store\<close> struct is the record \<open>Store\<close>; Go maps are association lists with distinct keys, whose
  order is that of a map iteration; strings are byte strings; instants are nanoseconds.  An operation is a function from its
  arguments, the current time and the store to a store and a reply; an error is a value of \<open>store_error\<close>, \<open>http_error\<close> or
  \<open>merge_error\<close>.  Every function holds the store's lock for the extent of one critical section; where the source releases it in
  between (a call of a provider, the parsing of an envelope, the computation of a merge, the enqueueing of a delivery) the
  parts are definitions of their own and \<open>System.step\<close> interleaves them.

  \<^bold>\<open>Theories.\<close>
  \<^item> \<open>Prelude\<close>, \<open>GoStrings\<close>, \<open>GoTime\<close>, \<open>GoHash\<close>, \<open>GoMatch\<close>, \<open>GoFormat\<close>: maps, slices, and the parts of Go's library the code uses
    (trimming and splitting, time stamps, base64 and SHA-256, \<^verbatim>\<open>path.Match\<close>, printing of JSON values).
  \<^item> \<open>StoreTypes\<close>, \<open>Paths\<close>, \<open>FileModel\<close>: the data of \<^verbatim>\<open>store.go\<close>; paths and keys; encodings, hashes, metadata and permissions.
  \<^item> \<open>Queues\<close> (\<^verbatim>\<open>store.go\<close>, \<^verbatim>\<open>file_queue.go\<close>): the queues in memory and on disk as instances of one locale \<open>bounded_fifo\<close>.
  \<^item> \<open>StoreCore\<close>, \<open>StoreCorrect\<close>, \<open>StoreDelete\<close> (\<^verbatim>\<open>store.go\<close>, \<^verbatim>\<open>delete_storm.go\<close>): reading, writing, deleting, bulk writing; the
    invariant \<open>store_inv\<close>, the contract \<open>store_operation\<close> that every operation is interpreted in, lost updates, the bound on
    delete storms.
  \<^item> \<open>Forks\<close>, \<open>ForksCorrect\<close>, \<open>ForkIndex\<close>, \<open>ForkRebase\<close>: overlays, commits, indexes, expiry and rebasing.
  \<^item> \<open>Paging\<close>, \<open>Listing\<close>, \<open>Feeds\<close>, \<open>FeedsCorrect\<close>: trees, queries, events, operations and subscribers, with paging as a locale.
  \<^item> \<open>Steps\<close>: the locale \<open>step_relation\<close>, what all operations are made of, and its instance \<open>advances\<close>.
  \<^item> \<open>Writeback\<close>, \<open>WritebackCorrect\<close>, \<open>Drafts\<close>, \<open>BootSweep\<close> (\<^verbatim>\<open>store.go\<close>, \<^verbatim>\<open>draft_reconcile.go\<close>): attempts, retries,
    acknowledgements, drafts, the quarantine at boot and the sweep.
  \<^item> \<open>Adapters\<close>, \<open>Ingest\<close>, \<open>ProviderSync\<close>, \<open>IngestCorrect\<close>, \<open>Deliveries\<close>, \<open>Convergence\<close> (\<^verbatim>\<open>adapters.go\<close>, \<^verbatim>\<open>store.go\<close>): envelopes,
    deduplication, coalescing, retention, and the state of provider objects.
  \<^item> \<open>MergeLines\<close>, \<open>MergeLinesCorrect\<close>, \<open>GoMerge\<close>, \<open>MergeStore\<close> (\<^verbatim>\<open>merge_lines.go\<close>, \<^verbatim>\<open>merge_go.go\<close>, \<^verbatim>\<open>merge.go\<close>): the merges of lines and
    of Go functions, and merging a proposal into a live file.
  \<^item> \<open>Scopes\<close>, \<open>Authz\<close> (\<^verbatim>\<open>auth.go\<close>, \<^verbatim>\<open>acl.go\<close>, \<^verbatim>\<open>path_contract.go\<close>): token scopes and permission rules; \<open>Gateway\<close> (\<^verbatim>\<open>auth.go\<close>,
    \<^verbatim>\<open>server.go\<close>): signed internal requests, replays, rate limits, the key cache; \<open>Handlers\<close>, \<open>HandlersCorrect\<close> (\<^verbatim>\<open>server.go\<close>): routing,
    the authorisation of a request and the handlers for files and forks.
  \<^item> \<open>System\<close>: the step relation of the running system, its runs, and the journal \<open>journals\<close> as the second instance of
    \<open>step_relation\<close>; conditional writes over whole runs.
  \<^item> \<open>Restart\<close> (\<^verbatim>\<open>store.go\<close>): what a restart makes of the saved state; \<open>snapshots\<close> is the third instance of \<open>step_relation\<close>.
  \<^item> \<open>Circuit\<close>, \<open>MountPaths\<close>, \<open>SnapshotDeletes\<close> (\<^verbatim>\<open>mountsync/circuit.go\<close>, \<^verbatim>\<open>mountscope/scope.go\<close>, \<^verbatim>\<open>mountsync/paths.go\<close>,
    \<^verbatim>\<open>mountsync/tombstones.go\<close>, \<^verbatim>\<open>syncer.go\<close>): the circuit breaker and its abstract machine, remote paths and the plan of local
    directories, and the pass that deletes what has left the remote listing.
  \<^item> \<open>Outbox\<close>, \<open>OutboxCorrect\<close> (\<^verbatim>\<open>mountsync/outbox.go\<close>, \<^verbatim>\<open>syncer.go\<close>): the commands of the client, their directories and index,
    requests, answers and receipts.  The locale \<open>outbox_invariant\<close> says what a property has to be kept by; every operation then
    keeps it, and \<open>kept\<close> is its instance.  \<open>ostep\<close> is the step relation of the client with failing disk operations and restarts.

  \<^bold>\<open>What is shown.\<close>  For whole runs: the invariants hold, logs only grow, a revision identifies the state of a file, and the log
  alone determines the files (\<open>System\<close>).  For concurrent clients: conditional writes lose no update, commits and merges are atomic
  and check what they were based on.  For merges: nothing of either side is lost and conflicts are real.  For authorisation: what
  a decision means, that grants confine, and that writes and commits through the API respect both.  For writebacks and
  ingestion: bounded attempts, recognised redeliveries, exact retention, convergence to the newest report.  Listings and feeds
  return everything once.  For restarts: what was saved is restored.  For the mount client: the breaker refines an abstract machine,
  planned directories are apart, a local file is deleted only in the second pass that misses it, and an accepted command is never
  lost, supersedes the earlier ones of its path and is acknowledged only when the server accepted it.  Where the code does not do what it says, the behaviour is a theorem too.

  \<^bold>\<open>Bounds and fuel.\<close>  Recursion is structural or by a measure, except for \<open>cursor following\<close> in \<open>Paging\<close>, whose fuel is shown to
  suffice, and the line merge, where running out of a bounds check is the value \<open>None\<close> and shown impossible.  Revision, operation and
  event counters are natural numbers: the 64-bit counters of the source do not wrap in practice.  Durations, skew and time to live
  keep the wrap-around of \<^verbatim>\<open>int64\<close> where the code can reach it.

  \<^bold>\<open>Arguments of the model.\<close>  The parser of Go, providers and their adapters, the key server, the decoder of stored ACL markers,
  the current time, and random parts of ids are arguments of the definitions that use them.  For the mount client so are the answers
  of the server, the outcome of every file operation, and how the local tree takes over an answer (\<open>cloud\<close>, \<open>disk\<close>, \<open>pass\<close>).

  \<^bold>\<open>Not modelled.\<close>  Database, file and network I/O; JSON (taken to be faithful, so strings are valid UTF-8 where state is saved and read
  back), base64url and RSA of tokens; the websocket, dashboard, tarball and admin handlers; checkpoint seals; limits on the
  concurrency of workers; the rest of the mount client (scanning and watching the local tree, pulling files, bootstrap, conflict
  files, digests, leases, FUSE), which is mostly file system and network I/O; the command line programs.
\<close>

end
